(* ===== verification/Prelude.thy ===== *)
theory Prelude
  imports Main "HOL-Library.Word"
begin

text \<open>
  Shared vocabulary of the development.

  \<^item> The fixed-width integers of the services (\<open>U256\<close>, \<open>H160\<close>, \<open>u128\<close>, \<open>u64\<close>, \<open>u32\<close>) as
    words, with the checked operations the code calls on them. A checked operation is \<open>None\<close>
    exactly when the mathematical result does not fit the width; the \<open>chk\<close> collection turns a
    successful checked operation into the equation on \<^typ>\<open>nat\<close> that it stands for.
  \<^item> The three ways a Rust function of the services ends: with a value, with an error value
    of its \<open>Result\<close>, or with a panic (\<open>expect\<close>, \<open>unwrap\<close>, an overflowing \<open>+\<close> on \<open>U256\<close>, an
    \<open>assert!\<close>). A panic is a value of the model, so that ``this \<open>expect\<close> never fires'' is a theorem.
  \<^item> Weakest preconditions over outcomes: \<open>returns P r\<close> (total correctness, \<open>r\<close> is a value with \<open>P\<close>) and
    \<open>safe P r\<close> (no panic, and a value only with \<open>P\<close>). The \<open>wp\<close> collection pushes both through the
    operations, so that a proof about a monadic definition starts as its verification condition.
  \<^item> \<open>for\<close> loops as folds over outcomes, with their invariant rules.
\<close>

section \<open>Collections of facts\<close>

named_theorems chk \<open>a checked operation that succeeded, as an equation on natural numbers\<close>
named_theorems outc \<open>evaluation of outcomes\<close>
named_theorems wp \<open>weakest preconditions of operations\<close>

section \<open>Fixed-width integers\<close>

type_synonym u256 = "256 word"
type_synonym u512 = "512 word"
type_synonym u128 = "128 word"
type_synonym u64 = "64 word"
type_synonym u32 = "32 word"
type_synonym h160 = "160 word"

definition checked_add :: "'n::len word \<Rightarrow> 'n word \<Rightarrow> 'n word option" where
  "checked_add a b = (if unat a + unat b < 2 ^ LENGTH('n) then Some (a + b) else None)"

definition checked_sub :: "'n::len word \<Rightarrow> 'n word \<Rightarrow> 'n word option" where
  "checked_sub a b = (if unat b \<le> unat a then Some (a - b) else None)"

definition checked_mul :: "'n::len word \<Rightarrow> 'n word \<Rightarrow> 'n word option" where
  "checked_mul a b = (if unat a * unat b < 2 ^ LENGTH('n) then Some (a * b) else None)"

definition checked_div :: "'n::len word \<Rightarrow> 'n word \<Rightarrow> 'n word option" where
  "checked_div a b = (if b = 0 then None else Some (a div b))"

definition saturating_sub :: "'n::len word \<Rightarrow> 'n word \<Rightarrow> 'n word" where
  "saturating_sub a b = (if unat b \<le> unat a then a - b else 0)"

definition saturating_add :: "'n::len word \<Rightarrow> 'n word \<Rightarrow> 'n word" where
  "saturating_add a b = (if unat a + unat b < 2 ^ LENGTH('n) then a + b else - 1)"

definition saturating_mul :: "'n::len word \<Rightarrow> 'n word \<Rightarrow> 'n word" where
  "saturating_mul a b = (if unat a * unat b < 2 ^ LENGTH('n) then a * b else - 1)"

abbreviation u256_max :: u256 where
  "u256_max \<equiv> - 1"

lemma unat_bound: "unat (w :: 'n::len word) < 2 ^ LENGTH('n)"
  by (rule unsigned_less)

lemma checked_add_Some [chk]:
  fixes a b c :: "'n::len word"
  shows "checked_add a b = Some c \<longleftrightarrow> unat c = unat a + unat b"
proof
  assume "checked_add a b = Some c"
  then show "unat c = unat a + unat b"
    by (auto simp: checked_add_def unat_word_ariths split: if_splits)
next
  assume eq: "unat c = unat a + unat b"
  then have "unat a + unat b < 2 ^ LENGTH('n)"
    using unat_bound [of c] by simp
  with eq show "checked_add a b = Some c"
    by (simp add: checked_add_def word_unat_eq_iff unat_word_ariths)
qed

lemma checked_add_None [chk]:
  "checked_add (a :: 'n::len word) b = None \<longleftrightarrow> 2 ^ LENGTH('n) \<le> unat a + unat b"
  by (auto simp: checked_add_def)

lemma unat_minus_le: "unat b \<le> unat a \<Longrightarrow> unat (a - b) = unat a - unat (b :: 'n::len word)"
  by (simp add: unat_sub word_le_nat_alt)

lemma checked_sub_Some [chk]:
  "checked_sub a b = Some c \<longleftrightarrow> unat a = unat b + unat (c :: 'n::len word)"
proof
  assume "checked_sub a b = Some c"
  then show "unat a = unat b + unat c"
    by (auto simp: checked_sub_def unat_minus_le split: if_splits)
next
  assume eq: "unat a = unat b + unat c"
  then have "unat (a - b) = unat c"
    by (simp add: unat_minus_le)
  with eq show "checked_sub a b = Some c"
    by (simp add: checked_sub_def word_unat_eq_iff)
qed

lemma checked_sub_None [chk]: "checked_sub a b = None \<longleftrightarrow> unat a < unat b"
  by (auto simp: checked_sub_def)

lemma checked_mul_Some [chk]:
  fixes a b c :: "'n::len word"
  shows "checked_mul a b = Some c \<longleftrightarrow> unat c = unat a * unat b"
proof
  assume "checked_mul a b = Some c"
  then show "unat c = unat a * unat b"
    by (auto simp: checked_mul_def unat_word_ariths split: if_splits)
next
  assume eq: "unat c = unat a * unat b"
  then have "unat a * unat b < 2 ^ LENGTH('n)"
    using unat_bound [of c] by simp
  with eq show "checked_mul a b = Some c"
    by (simp add: checked_mul_def word_unat_eq_iff unat_word_ariths)
qed

lemma checked_mul_None [chk]:
  "checked_mul (a :: 'n::len word) b = None \<longleftrightarrow> 2 ^ LENGTH('n) \<le> unat a * unat b"
  by (auto simp: checked_mul_def)

lemma checked_div_Some [chk]:
  "checked_div a b = Some c \<longleftrightarrow> unat b \<noteq> 0 \<and> unat c = unat a div unat (b :: 'n::len word)"
proof (cases "b = 0")
  case False
  then show ?thesis
    by (auto simp add: checked_div_def unat_eq_zero unat_div intro: word_unat_eq_iff [THEN iffD2])
qed (simp add: checked_div_def)

lemma checked_div_None [chk]: "checked_div a b = None \<longleftrightarrow> unat b = 0"
  by (simp add: checked_div_def unat_eq_zero)

lemma unat_saturating_sub [simp]: "unat (saturating_sub a b) = unat a - unat b"
  by (simp add: saturating_sub_def unat_minus_le)

lemma unat_neg_one: "unat (- 1 :: 'n::len word) = 2 ^ LENGTH('n) - 1"
proof -
  have "of_nat (2 ^ LENGTH('n) - 1) = (- 1 :: 'n word)"
    by (simp add: of_nat_diff)
  then have "unat (- 1 :: 'n word) = (2 ^ LENGTH('n) - 1) mod 2 ^ LENGTH('n)"
    by (metis unat_of_nat)
  then show ?thesis
    by (metis Suc_pred' lessI mod_less diff_Suc_1' zero_less_power zero_less_numeral One_nat_def)
qed

lemma unat_saturating_add [simp]:
  "unat (saturating_add a b) = min (unat a + unat b) (2 ^ LENGTH('n) - 1)"
  for a b :: "'n::len word"
proof (cases "unat a + unat b < 2 ^ LENGTH('n)")
  case True
  then have "unat a + unat b \<le> 2 ^ LENGTH('n) - 1"
    by (metis One_nat_def Suc_leI Suc_pred' diff_Suc_1 less_Suc_eq_le zero_less_numeral zero_less_power)
  with True show ?thesis
    by (simp add: saturating_add_def unat_word_ariths)
next
  case False
  then show ?thesis
    by (simp add: saturating_add_def unat_neg_one)
qed

lemma unat_saturating_mul [simp]:
  "unat (saturating_mul a b) = min (unat a * unat b) (2 ^ LENGTH('n) - 1)"
  for a b :: "'n::len word"
proof (cases "unat a * unat b < 2 ^ LENGTH('n)")
  case True
  then have "unat a * unat b \<le> 2 ^ LENGTH('n) - 1"
    by (metis One_nat_def Suc_leI Suc_pred' diff_Suc_1 less_Suc_eq_le zero_less_numeral zero_less_power)
  with True show ?thesis
    by (simp add: saturating_mul_def unat_word_ariths)
next
  case False
  then show ?thesis
    by (simp add: saturating_mul_def unat_neg_one)
qed

section \<open>Outcomes of a Rust function\<close>

text \<open>
  \<open>Ok\<close> and \<open>Err\<close> are the constructors of \<open>Result\<close>; \<open>Panic\<close> is the abnormal end of the thread.
\<close>

datatype ('e, 'a) outcome = Ok (ok_value: 'a) | Err (err_value: 'e) | Panic

primrec obind :: "('e, 'a) outcome \<Rightarrow> ('a \<Rightarrow> ('e, 'b) outcome) \<Rightarrow> ('e, 'b) outcome" where
  "obind (Ok x) f = f x"
| "obind (Err e) f = Err e"
| "obind Panic f = Panic"

primrec ok_or :: "'a option \<Rightarrow> 'e \<Rightarrow> ('e, 'a) outcome" where
  "ok_or None e = Err e"
| "ok_or (Some x) e = Ok x"

primrec expect :: "'a option \<Rightarrow> ('e, 'a) outcome" where
  "expect None = Panic"
| "expect (Some x) = Ok x"

text \<open>\<open>expect\<close> on a \<open>Result\<close>: an error value becomes a panic.\<close>

primrec expect_ok :: "('e, 'a) outcome \<Rightarrow> ('f, 'a) outcome" where
  "expect_ok (Ok x) = Ok x"
| "expect_ok (Err e) = Panic"
| "expect_ok Panic = Panic"

text \<open>\<open>Result::map_err\<close>, and \<open>Result::ok\<close> kept as an outcome whose error carries nothing.\<close>

primrec map_err :: "('e \<Rightarrow> 'f) \<Rightarrow> ('e, 'a) outcome \<Rightarrow> ('f, 'a) outcome" where
  "map_err g (Ok x) = Ok x"
| "map_err g (Err e) = Err (g e)"
| "map_err g Panic = Panic"

definition panics :: "('e, 'a) outcome \<Rightarrow> bool" where
  "panics r \<longleftrightarrow> r = Panic"

definition is_ok :: "('e, 'a) outcome \<Rightarrow> bool" where
  "is_ok r \<longleftrightarrow> (\<exists>x. r = Ok x)"

text \<open>The arithmetic operators of \<open>U256\<close>, which panic on overflow and on division by zero.\<close>

definition add_p :: "'n::len word \<Rightarrow> 'n word \<Rightarrow> ('e, 'n word) outcome" where
  "add_p a b = expect (checked_add a b)"

definition sub_p :: "'n::len word \<Rightarrow> 'n word \<Rightarrow> ('e, 'n word) outcome" where
  "sub_p a b = expect (checked_sub a b)"

definition mul_p :: "'n::len word \<Rightarrow> 'n word \<Rightarrow> ('e, 'n word) outcome" where
  "mul_p a b = expect (checked_mul a b)"

definition div_p :: "'n::len word \<Rightarrow> 'n word \<Rightarrow> ('e, 'n word) outcome" where
  "div_p a b = expect (checked_div a b)"

lemma obind_Ok_iff [outc]: "obind r f = Ok y \<longleftrightarrow> (\<exists>x. r = Ok x \<and> f x = Ok y)"
  by (cases r) auto

lemma obind_Err_iff [outc]: "obind r f = Err e \<longleftrightarrow> r = Err e \<or> (\<exists>x. r = Ok x \<and> f x = Err e)"
  by (cases r) auto

lemma obind_Panic_iff [outc]: "obind r f = Panic \<longleftrightarrow> r = Panic \<or> (\<exists>x. r = Ok x \<and> f x = Panic)"
  by (cases r) auto

lemma ok_or_Ok_iff [outc]: "ok_or m e = Ok x \<longleftrightarrow> m = Some x"
  by (cases m) auto

lemma ok_or_Err_iff [outc]: "ok_or m e = Err e' \<longleftrightarrow> m = None \<and> e' = e"
  by (cases m) auto

lemma ok_or_not_Panic [simp]: "ok_or m e \<noteq> Panic"
  by (cases m) auto

lemma expect_Ok_iff [outc]: "expect m = Ok x \<longleftrightarrow> m = Some x"
  by (cases m) auto

lemma expect_Panic_iff [outc]: "expect m = Panic \<longleftrightarrow> m = None"
  by (cases m) auto

lemma expect_not_Err [simp]: "expect m \<noteq> Err e"
  by (cases m) auto

lemma expect_ok_Ok_iff [outc]: "expect_ok r = Ok x \<longleftrightarrow> r = Ok x"
  by (cases r) auto

lemma expect_ok_Panic_iff [outc]: "expect_ok r = Panic \<longleftrightarrow> \<not> is_ok r"
  by (cases r) (auto simp: is_ok_def)

lemma expect_ok_not_Err [simp]: "expect_ok r \<noteq> Err e"
  by (cases r) auto

lemma map_err_Ok_iff [outc]: "map_err g r = Ok x \<longleftrightarrow> r = Ok x"
  by (cases r) auto

lemma map_err_Panic_iff [outc]: "map_err g r = Panic \<longleftrightarrow> r = Panic"
  by (cases r) auto

lemma map_err_Err_iff [outc]: "map_err g r = Err e' \<longleftrightarrow> (\<exists>e. r = Err e \<and> e' = g e)"
  by (cases r) auto

lemma is_ok_simps [simp]: "is_ok (Ok x)" "\<not> is_ok (Err e)" "\<not> is_ok Panic"
  by (auto simp: is_ok_def)

lemma panics_simps [simp]: "\<not> panics (Ok x)" "\<not> panics (Err e)" "panics Panic"
  by (auto simp: panics_def)

lemma is_ok_not_panics: "is_ok r \<Longrightarrow> \<not> panics r"
  by (cases r) auto

lemma obind_assoc: "obind (obind r f) g = obind r (\<lambda>x. obind (f x) g)"
  by (cases r) auto

text \<open>Outcomes that may be rewritten under a binding: the congruence rule for \<open>function\<close> packages.\<close>

lemma obind_cong [fundef_cong]:
  "r = r' \<Longrightarrow> (\<And>x. r' = Ok x \<Longrightarrow> f x = g x) \<Longrightarrow> obind r f = obind r' g"
  by (cases r') auto

text \<open>Evaluation of a sequence: the first outcome is computed before its continuation is entered.\<close>

lemma obind_eval_cong: "r = r' \<Longrightarrow> obind r f = obind r' f"
  by simp

lemmas op_panic_defs = add_p_def sub_p_def mul_p_def div_p_def

lemma add_p_Ok [chk]: "add_p a b = Ok c \<longleftrightarrow> unat c = unat a + unat b"
  by (simp add: add_p_def outc chk)

lemma sub_p_Ok [chk]: "sub_p a b = Ok c \<longleftrightarrow> unat a = unat b + unat c"
  by (simp add: sub_p_def outc chk)

lemma mul_p_Ok [chk]: "mul_p a b = Ok c \<longleftrightarrow> unat c = unat a * unat b"
  by (simp add: mul_p_def outc chk)

lemma div_p_Ok [chk]: "div_p a b = Ok c \<longleftrightarrow> unat b \<noteq> 0 \<and> unat c = unat a div unat b"
  by (simp add: div_p_def outc chk)

lemma op_p_not_Err [simp]:
  "add_p a b \<noteq> Err e" "sub_p a b \<noteq> Err e" "mul_p a b \<noteq> Err e" "div_p a b \<noteq> Err e"
  by (simp_all add: op_panic_defs)

lemma add_p_Panic [chk]: "add_p (a :: 'n::len word) b = Panic \<longleftrightarrow> 2 ^ LENGTH('n) \<le> unat a + unat b"
  by (simp add: add_p_def outc chk)

lemma sub_p_Panic [chk]: "sub_p a b = Panic \<longleftrightarrow> unat a < unat b"
  by (simp add: sub_p_def outc chk)

lemma mul_p_Panic [chk]: "mul_p (a :: 'n::len word) b = Panic \<longleftrightarrow> 2 ^ LENGTH('n) \<le> unat a * unat b"
  by (simp add: mul_p_def outc chk)

lemma div_p_Panic [chk]: "div_p a b = Panic \<longleftrightarrow> unat b = 0"
  by (simp add: div_p_def outc chk)

section \<open>Weakest preconditions\<close>

definition returns :: "('a \<Rightarrow> bool) \<Rightarrow> ('e, 'a) outcome \<Rightarrow> bool" where
  "returns P r \<longleftrightarrow> (case r of Ok x \<Rightarrow> P x | Err e \<Rightarrow> False | Panic \<Rightarrow> False)"

definition safe :: "('a \<Rightarrow> bool) \<Rightarrow> ('e, 'a) outcome \<Rightarrow> bool" where
  "safe P r \<longleftrightarrow> (case r of Ok x \<Rightarrow> P x | Err e \<Rightarrow> True | Panic \<Rightarrow> False)"

lemma returns_simps [wp]:
  "returns P (Ok x) \<longleftrightarrow> P x" "returns P (Err e) \<longleftrightarrow> False" "returns P Panic \<longleftrightarrow> False"
  by (auto simp: returns_def)

lemma safe_simps [wp]:
  "safe P (Ok x) \<longleftrightarrow> P x" "safe P (Err e) \<longleftrightarrow> True" "safe P Panic \<longleftrightarrow> False"
  by (auto simp: safe_def)

lemma returns_obind [wp]: "returns P (obind r f) \<longleftrightarrow> returns (\<lambda>x. returns P (f x)) r"
  by (cases r) (auto simp: wp)

lemma safe_obind [wp]: "safe P (obind r f) \<longleftrightarrow> safe (\<lambda>x. safe P (f x)) r"
  by (cases r) (auto simp: wp)

lemma returns_expect [wp]: "returns P (expect m) \<longleftrightarrow> (case m of Some x \<Rightarrow> P x | None \<Rightarrow> False)"
  by (cases m) (auto simp: wp)

lemma safe_expect [wp]: "safe P (expect m) \<longleftrightarrow> (case m of Some x \<Rightarrow> P x | None \<Rightarrow> False)"
  by (cases m) (auto simp: wp)

lemma safe_ok_or [wp]: "safe P (ok_or m e) \<longleftrightarrow> (case m of Some x \<Rightarrow> P x | None \<Rightarrow> True)"
  by (cases m) (auto simp: wp)

lemma safe_expect_ok [wp]: "safe P (expect_ok r) \<longleftrightarrow> returns P r"
  by (cases r) (auto simp: wp)

lemma safe_if [wp]: "safe P (if c then r else r') \<longleftrightarrow> (c \<longrightarrow> safe P r) \<and> (\<not> c \<longrightarrow> safe P r')"
  by simp

lemma returns_if [wp]: "returns P (if c then r else r') \<longleftrightarrow> (c \<longrightarrow> returns P r) \<and> (\<not> c \<longrightarrow> returns P r')"
  by simp

lemma returns_mono: "returns P r \<Longrightarrow> (\<And>x. r = Ok x \<Longrightarrow> P x \<Longrightarrow> Q x) \<Longrightarrow> returns Q r"
  by (cases r) (auto simp: wp)

lemma safe_mono: "safe P r \<Longrightarrow> (\<And>x. r = Ok x \<Longrightarrow> P x \<Longrightarrow> Q x) \<Longrightarrow> safe Q r"
  by (cases r) (auto simp: wp)

lemma returns_safe: "returns P r \<Longrightarrow> safe P r"
  by (cases r) (auto simp: wp)

lemma returnsE:
  assumes "returns P r"
  obtains x where "r = Ok x" "P x"
  using assms by (cases r) (auto simp: wp)

lemma returns_Ok: "returns P r \<Longrightarrow> r = Ok x \<Longrightarrow> P x"
  by (simp add: wp)

lemma safe_Ok: "safe P r \<Longrightarrow> r = Ok x \<Longrightarrow> P x"
  by (simp add: wp)

lemma safe_not_Panic: "safe P r \<Longrightarrow> r \<noteq> Panic"
  by (auto simp: wp)

lemma safe_True_iff: "safe (\<lambda>x. True) r \<longleftrightarrow> r \<noteq> Panic"
  by (cases r) (auto simp: wp)

section \<open>Loops over outcomes\<close>

text \<open>A \<open>for\<close> loop whose body may leave the function: the rest of the loop is skipped on an error or a panic.\<close>

fun ofold :: "('i \<Rightarrow> 's \<Rightarrow> ('e, 's) outcome) \<Rightarrow> 'i list \<Rightarrow> 's \<Rightarrow> ('e, 's) outcome" where
  "ofold f [] s = Ok s"
| "ofold f (i # is) s = obind (f i s) (ofold f is)"

lemma ofold_append: "ofold f (xs @ ys) s = obind (ofold f xs s) (ofold f ys)"
proof (induction xs arbitrary: s)
  case (Cons x xs)
  then show ?case
    by (cases "f x s") simp_all
qed simp

lemma returns_ofold:
  assumes "I s" and "\<And>i s. i \<in> set is \<Longrightarrow> I s \<Longrightarrow> returns I (f i s)"
  shows "returns I (ofold f is s)"
  using assms
proof (induction "is" arbitrary: s)
  case (Cons i "is")
  have "returns I (f i s)"
    using Cons.prems by simp
  then show ?case
    using Cons.IH Cons.prems(2) by (auto simp: wp elim: returns_mono)
qed (simp add: wp)

lemma safe_ofold:
  assumes "I s" and "\<And>i s. i \<in> set is \<Longrightarrow> I s \<Longrightarrow> safe I (f i s)"
  shows "safe I (ofold f is s)"
  using assms
proof (induction "is" arbitrary: s)
  case (Cons i "is")
  have "safe I (f i s)"
    using Cons.prems by simp
  then show ?case
    using Cons.IH Cons.prems(2) by (auto simp: wp elim: safe_mono)
qed (simp add: wp)

section \<open>Collecting outcomes\<close>

text \<open>\<open>collect\<close> into a \<open>Result\<close> and \<open>try_join_all\<close>: the first error or panic is that of the whole.\<close>

fun omap :: "('a \<Rightarrow> ('e, 'b) outcome) \<Rightarrow> 'a list \<Rightarrow> ('e, 'b list) outcome" where
  "omap f [] = Ok []"
| "omap f (x # xs) = obind (f x) (\<lambda>y. obind (omap f xs) (\<lambda>ys. Ok (y # ys)))"

lemma omap_Ok: "omap f xs = Ok ys \<longleftrightarrow> list_all2 (\<lambda>x y. f x = Ok y) xs ys"
proof (induction xs arbitrary: ys)
  case (Cons x xs)
  show ?case
    by (cases ys) (auto simp: outc Cons.IH)
qed (auto simp: outc)

lemma omap_Panic: "omap f xs = Panic \<Longrightarrow> \<exists>x. x \<in> set xs \<and> f x = Panic"
  by (induction xs) (auto simp: outc)

lemma omap_Err: "omap f xs = Err e \<Longrightarrow> \<exists>x. x \<in> set xs \<and> f x = Err e"
  by (induction xs) (auto simp: outc)

lemma omap_list_all:
  assumes "omap f xs = Ok ys" "list_all P xs" "\<And>x y. P x \<Longrightarrow> f x = Ok y \<Longrightarrow> Q y"
  shows "list_all Q ys"
  using assms(1,2) unfolding omap_Ok
  by (induction rule: list_all2_induct) (auto intro: assms(3))

end
