(* ===== verification/Bytes.thy ===== *)
theory Bytes
  imports Prelude
begin

text \<open>
  Byte strings, the big- and little-endian representations of the fixed-width types of the
  model crate (\<open>to_be_bytes\<close>, \<open>from_le_bytes\<close>, \<open>as_bytes\<close>, \<open>from_slice\<close>), slice writes, and the
  \<open>0x\<close>-prefixed hex serialization of \<open>crates/bytes-hex\<close>.

  The hex codec itself is a third-party crate. It is an argument of every definition that uses it;
  the interface the code relies on is the locale \<open>hex_codec\<close>.
\<close>

type_synonym byte = "8 word"
type_synonym bytes = "byte list"

section \<open>Endianness\<close>

text \<open>The \<open>k\<close> big-endian bytes of a number, and the number a big-endian byte string stands for.\<close>

fun nat_be :: "nat \<Rightarrow> nat \<Rightarrow> bytes" where
  "nat_be 0 n = []"
| "nat_be (Suc k) n = nat_be k (n div 256) @ [of_nat (n mod 256)]"

definition be_nat :: "bytes \<Rightarrow> nat" where
  "be_nat bs = foldl (\<lambda>acc b. acc * 256 + unat b) 0 bs"

definition le_nat :: "bytes \<Rightarrow> nat" where
  "le_nat bs = be_nat (rev bs)"

lemma length_nat_be [simp]: "length (nat_be k n) = k"
  by (induction k arbitrary: n) auto

lemma be_nat_Nil [simp]: "be_nat [] = 0"
  by (simp add: be_nat_def)

lemma be_nat_snoc [simp]: "be_nat (bs @ [b]) = be_nat bs * 256 + unat b"
  by (simp add: be_nat_def)

lemma unat_byte_bound: "unat (b :: byte) < 256"
  using unat_bound [of b] by simp

lemma unat_of_nat_byte [simp]: "unat (of_nat (n mod 256) :: byte) = n mod 256"
  by (simp add: unat_of_nat)

lemma be_nat_nat_be: "n < 256 ^ k \<Longrightarrow> be_nat (nat_be k n) = n"
proof (induction k arbitrary: n)
  case (Suc k)
  from Suc.prems have "n div 256 < 256 ^ k"
    by (simp add: less_mult_imp_div_less mult.commute)
  then show ?case by (simp add: Suc.IH)
qed simp

lemma nat_be_be_nat: "nat_be (length bs) (be_nat bs) = bs"
proof (induction bs rule: rev_induct)
  case (snoc b bs)
  have "(be_nat bs * 256 + unat b) div 256 = be_nat bs" "(be_nat bs * 256 + unat b) mod 256 = unat b"
    using unat_byte_bound [of b] by auto
  with snoc show ?case by simp
qed simp

lemma be_nat_bound: "be_nat bs < 256 ^ length bs"
proof (induction bs rule: rev_induct)
  case (snoc b bs)
  have "be_nat bs * 256 + unat b < (be_nat bs + 1) * 256"
    using unat_byte_bound [of b] by simp
  also have "\<dots> \<le> 256 ^ length bs * 256"
    using snoc by (intro mult_right_mono) auto
  finally show ?case by (simp add: mult.commute)
qed simp

text \<open>The fixed-width types of the model as byte strings.\<close>

definition h160_bytes :: "h160 \<Rightarrow> bytes" where
  "h160_bytes a = nat_be 20 (unat a)"

definition h160_from_slice :: "bytes \<Rightarrow> h160" where
  "h160_from_slice bs = of_nat (be_nat bs)"

definition u256_to_big_endian :: "u256 \<Rightarrow> bytes" where
  "u256_to_big_endian x = nat_be 32 (unat x)"

definition u256_from_big_endian :: "bytes \<Rightarrow> u256" where
  "u256_from_big_endian bs = of_nat (be_nat bs)"

definition u32_to_be_bytes :: "u32 \<Rightarrow> bytes" where
  "u32_to_be_bytes x = nat_be 4 (unat x)"

definition u32_from_be_bytes :: "bytes \<Rightarrow> u32" where
  "u32_from_be_bytes bs = of_nat (be_nat bs)"

definition u32_from_le_bytes :: "bytes \<Rightarrow> u32" where
  "u32_from_le_bytes bs = of_nat (le_nat bs)"

lemma length_width_bytes [simp]:
  "length (h160_bytes a) = 20" "length (u256_to_big_endian x) = 32" "length (u32_to_be_bytes t) = 4"
  by (simp_all add: h160_bytes_def u256_to_big_endian_def u32_to_be_bytes_def)

lemma h160_from_slice_bytes [simp]: "h160_from_slice (h160_bytes a) = a"
  using unat_bound [of a] by (simp add: h160_from_slice_def h160_bytes_def be_nat_nat_be)

lemma u256_from_to_big_endian [simp]: "u256_from_big_endian (u256_to_big_endian x) = x"
  using unat_bound [of x]
  by (simp add: u256_from_big_endian_def u256_to_big_endian_def be_nat_nat_be)

lemma u32_from_to_be_bytes [simp]: "u32_from_be_bytes (u32_to_be_bytes x) = x"
  using unat_bound [of x] by (simp add: u32_from_be_bytes_def u32_to_be_bytes_def be_nat_nat_be)

lemma u32_from_le_bytes_rev: "u32_from_le_bytes (u32_to_be_bytes x) = u32_from_be_bytes (rev (u32_to_be_bytes x))"
  by (simp add: u32_from_le_bytes_def u32_from_be_bytes_def le_nat_def)

lemma h160_bytes_inject [simp]: "h160_bytes a = h160_bytes b \<longleftrightarrow> a = b"
  by (metis h160_from_slice_bytes)

lemma u256_bytes_inject [simp]: "u256_to_big_endian x = u256_to_big_endian y \<longleftrightarrow> x = y"
  by (metis u256_from_to_big_endian)

lemma u32_bytes_inject [simp]: "u32_to_be_bytes x = u32_to_be_bytes y \<longleftrightarrow> x = y"
  by (metis u32_from_to_be_bytes)

section \<open>Writing a slice of a buffer\<close>

text \<open>
  \<open>buf[at..at + n].copy_from_slice(src)\<close>. The code's slices all have the length of their source;
  a length mismatch or a slice past the end of the buffer would panic.
\<close>

definition copy_from_slice :: "bytes \<Rightarrow> nat \<Rightarrow> nat \<Rightarrow> bytes \<Rightarrow> ('e, bytes) outcome" where
  "copy_from_slice buf from to src =
     (if from \<le> to \<and> to \<le> length buf \<and> length src = to - from
      then Ok (take from buf @ src @ drop to buf) else Panic)"

definition zeros :: "nat \<Rightarrow> bytes" where
  "zeros n = replicate n 0"

lemma length_zeros [simp]: "length (zeros n) = n"
  by (simp add: zeros_def)

lemma copy_from_slice_Ok:
  "from \<le> to \<Longrightarrow> to \<le> length buf \<Longrightarrow> length src = to - from \<Longrightarrow>
   copy_from_slice buf from to src = Ok (take from buf @ src @ drop to buf)"
  by (simp add: copy_from_slice_def)

lemma take_zeros [simp]: "take k (zeros n) = zeros (min k n)"
  by (simp add: zeros_def)

lemma drop_zeros [simp]: "drop k (zeros n) = zeros (n - k)"
  by (simp add: zeros_def)

section \<open>Hex strings with a 0x prefix\<close>

text \<open>\<open>str::strip_prefix\<close>.\<close>

fun strip_prefix :: "string \<Rightarrow> string \<Rightarrow> string option" where
  "strip_prefix [] s = Some s"
| "strip_prefix (p # ps) [] = None"
| "strip_prefix (p # ps) (c # cs) = (if p = c then strip_prefix ps cs else None)"

lemma strip_prefix_append [simp]: "strip_prefix p (p @ s) = Some s"
  by (induction p) auto

lemma strip_prefix_Some: "strip_prefix p s = Some r \<longleftrightarrow> s = p @ r"
  by (induction p s rule: strip_prefix.induct) auto

datatype hex_error = MissingPrefix | FromHexError

text \<open>
  \<open>bytes_hex::serialize\<close> and \<open>deserialize\<close>, with the hex crate's \<open>encode\<close> and \<open>decode\<close> as arguments.
\<close>

definition bytes_hex_serialize :: "(bytes \<Rightarrow> string) \<Rightarrow> bytes \<Rightarrow> string" where
  "bytes_hex_serialize hex_encode bs = ''0x'' @ hex_encode bs"

definition bytes_hex_deserialize :: "(string \<Rightarrow> bytes option) \<Rightarrow> string \<Rightarrow> (hex_error, bytes) outcome" where
  "bytes_hex_deserialize hex_decode s =
     obind (ok_or (strip_prefix ''0x'' s) MissingPrefix) (\<lambda>hex_str.
     ok_or (hex_decode hex_str) FromHexError)"

text \<open>The contract of the hex codec: decoding inverts encoding.\<close>

locale hex_codec =
  fixes hex_encode :: "bytes \<Rightarrow> string" and hex_decode :: "string \<Rightarrow> bytes option"
  assumes decode_encode: "hex_decode (hex_encode bs) = Some bs"
begin

lemma bytes_hex_roundtrip:
  "bytes_hex_deserialize hex_decode (bytes_hex_serialize hex_encode bs) = Ok bs"
  by (simp add: bytes_hex_deserialize_def bytes_hex_serialize_def decode_encode del: append.simps)

end

text \<open>A concrete lower-case codec, the instance on which the interface is interpreted.\<close>

definition hex_digit :: "nat \<Rightarrow> char" where
  "hex_digit n = ''0123456789abcdef'' ! n"

definition hex_value :: "char \<Rightarrow> nat option" where
  "hex_value c = (case List.find (\<lambda>i. hex_digit i = c) [0..<16] of None \<Rightarrow> None | Some i \<Rightarrow> Some i)"

fun lower_hex_encode :: "bytes \<Rightarrow> string" where
  "lower_hex_encode [] = []"
| "lower_hex_encode (b # bs) = hex_digit (unat b div 16) # hex_digit (unat b mod 16) # lower_hex_encode bs"

fun lower_hex_decode :: "string \<Rightarrow> bytes option" where
  "lower_hex_decode [] = Some []"
| "lower_hex_decode [c] = None"
| "lower_hex_decode (c # d # s) =
     (case (hex_value c, hex_value d, lower_hex_decode s) of
        (Some h, Some l, Some bs) \<Rightarrow> Some (of_nat (16 * h + l) # bs)
      | _ \<Rightarrow> None)"

lemma hex_value_digit: "n < 16 \<Longrightarrow> hex_value (hex_digit n) = Some n"
proof -
  have "\<forall>n \<in> set [0..<16]. hex_value (hex_digit n) = Some n"
    by code_simp
  then show "n < 16 \<Longrightarrow> hex_value (hex_digit n) = Some n" by simp
qed

lemma lower_hex_decode_encode: "lower_hex_decode (lower_hex_encode bs) = Some bs"
proof (induction bs)
  case (Cons b bs)
  have "unat b div 16 < 16" "unat b mod 16 < 16"
    using unat_byte_bound [of b] by auto
  moreover have "16 * (unat b div 16) + unat b mod 16 = unat b"
    by simp
  ultimately show ?case
    using Cons by (simp add: hex_value_digit del: of_nat_add of_nat_mult)
qed simp

interpretation hex: hex_codec lower_hex_encode lower_hex_decode
  by unfold_locales (rule lower_hex_decode_encode)

end
