(* ===== verification/Signatures.thy ===== *)
theory Signatures
  imports Bytes
begin

text \<open>
  Order signatures, \<open>crates/model/src/signature.rs\<close>: the signing schemes, the four kinds of
  signature, their byte encodings (the one of the API and the one of the settlement contract),
  the signed messages and the recovery of the owner.

  Keccak-256 and ECDSA recovery are third-party code: \<open>keccak\<close> and \<open>ec_recover\<close> are arguments. A
  32-byte array (\<open>H256\<close>, \<open>[u8; 32]\<close>, \<open>DomainSeparator\<close>) is a 256-bit word; its bytes are the
  big-endian ones.
\<close>

type_synonym h256 = "256 word"

definition h256_bytes :: "h256 \<Rightarrow> bytes" where
  "h256_bytes h = u256_to_big_endian h"

text \<open>\<open>H256::from_slice\<close> and \<open>H160::from_slice\<close> panic on a slice of another length.\<close>

definition h256_from_slice :: "bytes \<Rightarrow> ('e, h256) outcome" where
  "h256_from_slice bs = (if length bs = 32 then Ok (u256_from_big_endian bs) else Panic)"

definition h160_from_slice_p :: "bytes \<Rightarrow> ('e, h160) outcome" where
  "h160_from_slice_p bs = (if length bs = 20 then Ok (h160_from_slice bs) else Panic)"

datatype signing_scheme = SchemeEip712 | SchemeEthSign | SchemeEip1271 | SchemePreSign

datatype ecdsa_signing_scheme = EcdsaEip712 | EcdsaEthSign

record ecdsa_signature =
  sig_r :: h256
  sig_s :: h256
  sig_v :: byte

datatype signature =
    Eip712 ecdsa_signature
  | EthSign ecdsa_signature
  | Eip1271 bytes
  | PreSign

datatype signature_error =
    EcdsaLength | PresignLength | UnexpectedlyInvalidSignature | Unreachable

record recovered =
  rec_message :: h256
  rec_signer :: h160

section \<open>Schemes\<close>

fun try_to_ecdsa_scheme :: "signing_scheme \<Rightarrow> ecdsa_signing_scheme option" where
  "try_to_ecdsa_scheme SchemeEip712 = Some EcdsaEip712"
| "try_to_ecdsa_scheme SchemeEthSign = Some EcdsaEthSign"
| "try_to_ecdsa_scheme SchemeEip1271 = None"
| "try_to_ecdsa_scheme SchemePreSign = None"

definition is_ecdsa_scheme :: "signing_scheme \<Rightarrow> bool" where
  "is_ecdsa_scheme sch = (try_to_ecdsa_scheme sch \<noteq> None)"

fun signing_scheme_of_ecdsa :: "ecdsa_signing_scheme \<Rightarrow> signing_scheme" where
  "signing_scheme_of_ecdsa EcdsaEip712 = SchemeEip712"
| "signing_scheme_of_ecdsa EcdsaEthSign = SchemeEthSign"

fun scheme :: "signature \<Rightarrow> signing_scheme" where
  "scheme (Eip712 _) = SchemeEip712"
| "scheme (EthSign _) = SchemeEthSign"
| "scheme (Eip1271 _) = SchemeEip1271"
| "scheme PreSign = SchemePreSign"

definition default_ecdsa :: ecdsa_signature where
  "default_ecdsa = \<lparr>sig_r = 0, sig_s = 0, sig_v = 0\<rparr>"

fun default_with :: "signing_scheme \<Rightarrow> signature" where
  "default_with SchemeEip712 = Eip712 default_ecdsa"
| "default_with SchemeEthSign = EthSign default_ecdsa"
| "default_with SchemeEip1271 = Eip1271 []"
| "default_with SchemePreSign = PreSign"

section \<open>Bytes of a signature\<close>

fun to_signature :: "ecdsa_signature \<Rightarrow> ecdsa_signing_scheme \<Rightarrow> signature" where
  "to_signature sig EcdsaEip712 = Eip712 sig"
| "to_signature sig EcdsaEthSign = EthSign sig"

text \<open>\<open>EcdsaSignature::to_bytes\<close>: \<open>r\<close>, \<open>s\<close> and \<open>v\<close> written into a 65-byte buffer.\<close>

definition ecdsa_to_bytes :: "ecdsa_signature \<Rightarrow> ('e, bytes) outcome" where
  "ecdsa_to_bytes sig =
     obind (copy_from_slice (zeros 65) 0 32 (h256_bytes (sig_r sig))) (\<lambda>bytes.
     obind (copy_from_slice bytes 32 64 (h256_bytes (sig_s sig))) (\<lambda>bytes.
     Ok (bytes[64 := sig_v sig])))"

definition ecdsa_from_bytes :: "bytes \<Rightarrow> ('e, ecdsa_signature) outcome" where
  "ecdsa_from_bytes bytes =
     obind (h256_from_slice (take 32 bytes)) (\<lambda>r.
     obind (h256_from_slice (drop 32 (take 64 bytes))) (\<lambda>s.
     if 64 < length bytes then Ok \<lparr>sig_r = r, sig_s = s, sig_v = bytes ! 64\<rparr> else Panic))"

definition sig_from_bytes :: "signing_scheme \<Rightarrow> bytes \<Rightarrow> (signature_error, signature) outcome" where
  "sig_from_bytes sch bytes =
     (case sch of
        SchemeEip1271 \<Rightarrow> Ok (Eip1271 bytes)
      | SchemePreSign \<Rightarrow>
          (if bytes = [] \<or> length bytes = 20 then Ok PreSign else Err PresignLength)
      | _ \<Rightarrow>
          (if length bytes \<noteq> 65 then Err EcdsaLength
           else obind (ecdsa_from_bytes bytes) (\<lambda>sig.
                obind (expect (try_to_ecdsa_scheme sch)) (\<lambda>ecdsa.
                Ok (to_signature sig ecdsa)))))"

fun sig_to_bytes :: "signature \<Rightarrow> ('e, bytes) outcome" where
  "sig_to_bytes (Eip712 sig) = ecdsa_to_bytes sig"
| "sig_to_bytes (EthSign sig) = ecdsa_to_bytes sig"
| "sig_to_bytes (Eip1271 bytes) = Ok bytes"
| "sig_to_bytes PreSign = Ok []"

fun encode_for_settlement :: "signature \<Rightarrow> h160 \<Rightarrow> ('e, bytes) outcome" where
  "encode_for_settlement (Eip712 sig) owner = ecdsa_to_bytes sig"
| "encode_for_settlement (EthSign sig) owner = ecdsa_to_bytes sig"
| "encode_for_settlement (Eip1271 bytes) owner = Ok (h160_bytes owner @ bytes)"
| "encode_for_settlement PreSign owner = Ok (h160_bytes owner)"

section \<open>Signed messages and owner recovery\<close>

text \<open>The 28 bytes of \<open>"\x19Ethereum Signed Message:\n32"\<close>.\<close>

definition ethsign_prefix :: bytes where
  "ethsign_prefix =
     [25, 69, 116, 104, 101, 114, 101, 117, 109, 32, 83, 105, 103, 110, 101, 100, 32,
      77, 101, 115, 115, 97, 103, 101, 58, 10, 51, 50]"

definition hashed_eip712_message :: "(bytes \<Rightarrow> h256) \<Rightarrow> h256 \<Rightarrow> h256 \<Rightarrow> ('e, h256) outcome" where
  "hashed_eip712_message keccak domain_separator struct_hash =
     obind (copy_from_slice (zeros 66) 0 2 [0x19, 0x01]) (\<lambda>message.
     obind (copy_from_slice message 2 34 (h256_bytes domain_separator)) (\<lambda>message.
     obind (copy_from_slice message 34 66 (h256_bytes struct_hash)) (\<lambda>message.
     Ok (keccak message))))"

definition hashed_ethsign_message :: "(bytes \<Rightarrow> h256) \<Rightarrow> h256 \<Rightarrow> h256 \<Rightarrow> ('e, h256) outcome" where
  "hashed_ethsign_message keccak domain_separator struct_hash =
     obind (copy_from_slice (zeros 60) 0 28 ethsign_prefix) (\<lambda>message.
     obind (hashed_eip712_message keccak domain_separator struct_hash) (\<lambda>hash.
     obind (copy_from_slice message 28 60 (h256_bytes hash)) (\<lambda>message.
     Ok (keccak message))))"

fun hashed_signing_message ::
  "(bytes \<Rightarrow> h256) \<Rightarrow> ecdsa_signing_scheme \<Rightarrow> h256 \<Rightarrow> h256 \<Rightarrow> ('e, h256) outcome" where
  "hashed_signing_message keccak EcdsaEip712 domain_separator struct_hash =
     hashed_eip712_message keccak domain_separator struct_hash"
| "hashed_signing_message keccak EcdsaEthSign domain_separator struct_hash =
     hashed_ethsign_message keccak domain_separator struct_hash"

text \<open>
  \<open>ec_recover message v r s\<close> stands for \<open>Recovery::new\<close>, \<open>as_signature\<close> and \<open>signing::recover\<close>.
\<close>

type_synonym ec_recover = "h256 \<Rightarrow> byte \<Rightarrow> h256 \<Rightarrow> h256 \<Rightarrow> h160 option"

definition ecdsa_recover ::
  "(bytes \<Rightarrow> h256) \<Rightarrow> ec_recover \<Rightarrow> ecdsa_signature \<Rightarrow> ecdsa_signing_scheme \<Rightarrow> h256 \<Rightarrow> h256 \<Rightarrow>
   (signature_error, recovered) outcome" where
  "ecdsa_recover keccak ec_recover sig signing_scheme domain_separator struct_hash =
     obind (hashed_signing_message keccak signing_scheme domain_separator struct_hash) (\<lambda>message.
     obind (ok_or (ec_recover message (sig_v sig) (sig_r sig) (sig_s sig))
              UnexpectedlyInvalidSignature) (\<lambda>signer.
     Ok \<lparr>rec_message = message, rec_signer = signer\<rparr>))"

fun sig_recover ::
  "(bytes \<Rightarrow> h256) \<Rightarrow> ec_recover \<Rightarrow> signature \<Rightarrow> h256 \<Rightarrow> h256 \<Rightarrow>
   (signature_error, recovered option) outcome" where
  "sig_recover keccak ec_recover (Eip712 sig) domain_separator struct_hash =
     obind (ecdsa_recover keccak ec_recover sig EcdsaEip712 domain_separator struct_hash)
       (\<lambda>r. Ok (Some r))"
| "sig_recover keccak ec_recover (EthSign sig) domain_separator struct_hash =
     obind (ecdsa_recover keccak ec_recover sig EcdsaEthSign domain_separator struct_hash)
       (\<lambda>r. Ok (Some r))"
| "sig_recover keccak ec_recover _ domain_separator struct_hash = Ok None"

fun recover_owner ::
  "(bytes \<Rightarrow> h256) \<Rightarrow> ec_recover \<Rightarrow> signature \<Rightarrow> bytes \<Rightarrow> h256 \<Rightarrow> h256 \<Rightarrow>
   (signature_error, h160) outcome" where
  "recover_owner keccak ec_recover (Eip1271 _) encoded domain_separator struct_hash =
     (if length encoded < 20 then Panic else h160_from_slice_p (take 20 encoded))"
| "recover_owner keccak ec_recover PreSign encoded domain_separator struct_hash =
     h160_from_slice_p encoded"
| "recover_owner keccak ec_recover sig encoded domain_separator struct_hash =
     obind (sig_recover keccak ec_recover sig domain_separator struct_hash) (\<lambda>recovered.
     obind (ok_or recovered Unreachable) (\<lambda>recovered.
     Ok (rec_signer recovered)))"

section \<open>Lemmas\<close>

lemma length_h256_bytes [simp]: "length (h256_bytes h) = 32"
  by (simp add: h256_bytes_def)

lemma h256_from_slice_bytes [simp]: "h256_from_slice (h256_bytes h) = Ok h"
  by (simp add: h256_from_slice_def h256_bytes_def)

lemma h256_bytes_inject [simp]: "h256_bytes a = h256_bytes b \<longleftrightarrow> a = b"
  by (simp add: h256_bytes_def)

text \<open>The closed form of the 65 bytes, and the two directions between them and the signature.\<close>

lemma ecdsa_to_bytes_eq:
  "ecdsa_to_bytes sig = Ok (h256_bytes (sig_r sig) @ h256_bytes (sig_s sig) @ [sig_v sig])"
  by (simp add: ecdsa_to_bytes_def copy_from_slice_Ok list_update_append zeros_def)

lemma ecdsa_from_to_bytes:
  "ecdsa_to_bytes sig = Ok bs \<Longrightarrow> length bs = 65 \<and> ecdsa_from_bytes bs = Ok sig"
  by (auto simp: ecdsa_to_bytes_eq ecdsa_from_bytes_def nth_append)

lemma ecdsa_from_bytes_Ok: "length bs = 65 \<Longrightarrow> is_ok (ecdsa_from_bytes bs)"
  by (simp add: ecdsa_from_bytes_def h256_from_slice_def)

lemma ecdsa_from_bytes_not_Panic: "length bs = 65 \<Longrightarrow> ecdsa_from_bytes bs \<noteq> Panic"
  by (simp add: ecdsa_from_bytes_def h256_from_slice_def)

lemma hashed_eip712_message_eq:
  "hashed_eip712_message keccak d h = Ok (keccak (0x19 # 0x01 # h256_bytes d @ h256_bytes h))"
  by (simp add: hashed_eip712_message_def copy_from_slice_Ok zeros_def)

lemma hashed_ethsign_message_eq:
  "hashed_ethsign_message keccak d h =
     Ok (keccak (ethsign_prefix @ h256_bytes (keccak (0x19 # 0x01 # h256_bytes d @ h256_bytes h))))"
proof -
  have "length ethsign_prefix = 28" by (simp add: ethsign_prefix_def)
  then show ?thesis
    by (simp add: hashed_ethsign_message_def hashed_eip712_message_eq copy_from_slice_Ok zeros_def)
qed

lemma hashed_signing_message_not_Panic [simp]: "hashed_signing_message keccak sch d h \<noteq> Panic"
  by (cases sch) (simp_all add: hashed_eip712_message_eq hashed_ethsign_message_eq)

lemma ecdsa_recover_not_panics: "\<not> panics (ecdsa_recover keccak ec_recover sig sch d h)"
  by (simp add: ecdsa_recover_def panics_def outc)

lemma sig_from_bytes_Ok_iff:
  "is_ok (sig_from_bytes sch bs) \<longleftrightarrow>
     (case sch of SchemeEip1271 \<Rightarrow> True | SchemePreSign \<Rightarrow> length bs \<in> {0, 20} | _ \<Rightarrow> length bs = 65)"
  using ecdsa_from_bytes_Ok [of bs]
  by (auto simp: sig_from_bytes_def is_ok_def outc split: signing_scheme.splits)

text \<open>
  Decoding the bytes of a signature with the scheme of that signature gives the signature back
  (\<open>Signature::to_bytes\<close> and \<open>Signature::from_bytes\<close>, the pair behind the JSON encoding), and
  encoding never panics.
\<close>

theorem signature_bytes_roundtrip:
  "\<exists>bs. sig_to_bytes sig = (Ok bs :: (signature_error, bytes) outcome)
        \<and> sig_from_bytes (scheme sig) bs = Ok sig"
proof -
  have "\<exists>bs. ecdsa_to_bytes e = (Ok bs :: (signature_error, bytes) outcome)
    \<and> length bs = 65 \<and> ecdsa_from_bytes bs = (Ok e :: (signature_error, ecdsa_signature) outcome)" for e
    by (metis ecdsa_from_to_bytes ecdsa_to_bytes_eq)
  then show ?thesis
    by (cases sig) (fastforce simp: sig_from_bytes_def)+
qed

text \<open>
  \<open>Signature::from_bytes\<close> never panics (its \<open>expect\<close> and its slices are safe), whatever the bytes,
  and fails exactly on a wrong length: other than 65 bytes for an ECDSA scheme, other than 0 or 20
  bytes for a pre-signature.
\<close>

theorem sig_from_bytes_total:
  "\<not> panics (sig_from_bytes sch bs)
   \<and> (is_ok (sig_from_bytes sch bs) \<longleftrightarrow>
       (case sch of SchemeEip1271 \<Rightarrow> True | SchemePreSign \<Rightarrow> length bs \<in> {0, 20} | _ \<Rightarrow> length bs = 65))"
proof
  have "sig_from_bytes sch bs \<noteq> Panic"
    by (auto simp: sig_from_bytes_def ecdsa_from_bytes_not_Panic outc split: signing_scheme.splits)
  then show "\<not> panics (sig_from_bytes sch bs)"
    by (simp add: panics_def)
qed (rule sig_from_bytes_Ok_iff)

text \<open>
  For the on-chain schemes the owner read back from the bytes encoded for the settlement
  contract is the owner they were encoded with (\<open>recover_owner\<close> is the opposite of
  \<open>encode_for_settlement\<close>, as its comment says), with no signature recovery involved.
\<close>

theorem recover_owner_encoded:
  "scheme sig = SchemeEip1271 \<or> scheme sig = SchemePreSign \<Longrightarrow>
   obind (encode_for_settlement sig owner)
     (\<lambda>bs. recover_owner keccak ec_recover sig bs domain struct_hash) = Ok owner"
  by (cases sig) (simp_all add: h160_from_slice_p_def)

theorem recover_owner_encoded_witness:
  "obind (encode_for_settlement (Eip1271 [1, 2, 3]) 42)
     (\<lambda>bs. recover_owner (\<lambda>_. 0) (\<lambda>_ _ _ _. None) (Eip1271 [1, 2, 3]) bs 0 0) = Ok 42"
  by (rule recover_owner_encoded) simp

end
