(* ===== verification/Orders.thy ===== *)
theory Orders
  imports Signatures
begin

text \<open>
  The order model, \<open>crates/model/src/order.rs\<close>, and the token pairs of \<open>crates/model/src/lib.rs\<close>:
  the signed order data and its EIP-712 struct hash, order UIDs, orders as created over the API and
  the verification of their owner, cancellations.

  \<open>hash_struct\<close> is modelled as the writes into the 416-byte buffer the code makes; that those writes
  are the EIP-712 encoding (thirteen 32-byte words) and that none of them panics is proved.
\<close>

section \<open>Token pairs\<close>

datatype token_pair = TokenPair h160 h160

definition token_pair_new :: "h160 \<Rightarrow> h160 \<Rightarrow> token_pair option" where
  "token_pair_new token_a token_b =
     (if token_a < token_b then Some (TokenPair token_a token_b)
      else if token_a = token_b then None
      else Some (TokenPair token_b token_a))"

fun token_pair_contains :: "token_pair \<Rightarrow> h160 \<Rightarrow> bool" where
  "token_pair_contains (TokenPair a b) token \<longleftrightarrow> a = token \<or> b = token"

fun token_pair_other :: "token_pair \<Rightarrow> h160 \<Rightarrow> h160 option" where
  "token_pair_other (TokenPair a b) token =
     (if a = token then Some b else if b = token then Some a else None)"

fun token_pair_get :: "token_pair \<Rightarrow> h160 \<times> h160" where
  "token_pair_get (TokenPair a b) = (a, b)"

fun token_pair_iter :: "token_pair \<Rightarrow> h160 list" where
  "token_pair_iter (TokenPair a b) = [a, b]"

definition token_pair_wf :: "token_pair \<Rightarrow> bool" where
  "token_pair_wf p \<longleftrightarrow> fst (token_pair_get p) < snd (token_pair_get p)"

text \<open>The derived \<open>Ord\<close>: lexicographic in the two addresses.\<close>

instantiation token_pair :: linorder
begin

fun less_eq_token_pair :: "token_pair \<Rightarrow> token_pair \<Rightarrow> bool" where
  "less_eq_token_pair (TokenPair a b) (TokenPair c d) \<longleftrightarrow> a < c \<or> a = c \<and> b \<le> d"

definition less_token_pair :: "token_pair \<Rightarrow> token_pair \<Rightarrow> bool" where
  "less_token_pair p q \<longleftrightarrow> p \<le> q \<and> \<not> q \<le> p"

instance
proof
  fix p q r :: token_pair
  show "p < q \<longleftrightarrow> p \<le> q \<and> \<not> q \<le> p"
    by (rule less_token_pair_def)
  show "p \<le> p"
    by (cases p) simp
  show "p \<le> q \<Longrightarrow> q \<le> r \<Longrightarrow> p \<le> r"
    by (cases p; cases q; cases r) auto
  show "p \<le> q \<Longrightarrow> q \<le> p \<Longrightarrow> p = q"
    by (cases p; cases q) auto
  show "p \<le> q \<or> q \<le> p"
    by (cases p; cases q) auto
qed

end

lemma token_pair_new_Some_iff:
  "token_pair_new a b = Some p \<longleftrightarrow> a \<noteq> b \<and> p = TokenPair (min a b) (max a b)"
  by (auto simp: token_pair_new_def min_def max_def)

lemma token_pair_new_wf: "token_pair_new a b = Some p \<Longrightarrow> token_pair_wf p"
  by (auto simp: token_pair_new_Some_iff token_pair_wf_def min_def max_def)

lemma token_pair_new_commute: "token_pair_new a b = token_pair_new b a"
  by (auto simp: token_pair_new_def)

lemma token_pair_other_new:
  "token_pair_new a b = Some p \<Longrightarrow> token_pair_other p a = Some b \<and> token_pair_other p b = Some a"
  by (auto simp: token_pair_new_Some_iff min_def max_def)

section \<open>Order data\<close>

datatype order_kind = Buy | Sell

datatype order_class = Market | Liquidity | Limit

datatype order_status = PresignaturePending | Open | Fulfilled | Cancelled | Expired

datatype sell_token_source = SellErc20 | SellExternal | SellInternal

datatype buy_token_destination = BuyErc20 | BuyInternal

type_synonym app_data_hash = h256
type_synonym order_uid = bytes

record interaction_data =
  int_target :: h160
  int_value :: u256
  int_call_data :: bytes

record interactions =
  ints_pre :: "interaction_data list"
  ints_post :: "interaction_data list"

record order_data =
  od_sell_token :: h160
  od_buy_token :: h160
  od_receiver :: "h160 option"
  od_sell_amount :: u256
  od_buy_amount :: u256
  od_valid_to :: u32
  od_app_data :: app_data_hash
  od_fee_amount :: u256
  od_kind :: order_kind
  od_partially_fillable :: bool
  od_sell_token_balance :: sell_token_source
  od_buy_token_balance :: buy_token_destination

text \<open>The addresses and hashes the contract fixes.\<close>

definition BUY_ETH_ADDRESS :: h160 where
  "BUY_ETH_ADDRESS = 0xeeeeeeeeeeeeeeeeeeeeeeeeeeeeeeeeeeeeeeee"

definition ORDER_TYPE_HASH :: h256 where
  "ORDER_TYPE_HASH = 0xd5a25ba2e97094ad7d83dc28a6572da797d6b3e7fc6663bd93efb789fc17e489"

definition KIND_BUY :: h256 where
  "KIND_BUY = 0x6ed88e868af0a1983e3886d5f3e95a2fafbd6c3450bc229e27342283dc429ccc"

definition KIND_SELL :: h256 where
  "KIND_SELL = 0xf3b277728b3fee749481eb3e0b3b48980dbbab78658fc419025cb16eee346775"

definition BALANCE_ERC20 :: h256 where
  "BALANCE_ERC20 = 0x5a28e9363bb942b639270062aa6bb295f434bcdfc42c97267bf003f272060dc9"

definition BALANCE_EXTERNAL :: h256 where
  "BALANCE_EXTERNAL = 0xabee3b73373acd583a130924aad6dc38cfdc44ba0555ba94ce2ff63980ea0632"

definition BALANCE_INTERNAL :: h256 where
  "BALANCE_INTERNAL = 0x4ac99ace14ee0a5ef932dc609df0943ab7ac16b7583634612f8dc35a4289a6ce"

fun kind_bytes :: "order_kind \<Rightarrow> h256" where
  "kind_bytes Sell = KIND_SELL"
| "kind_bytes Buy = KIND_BUY"

definition kind_from_contract_bytes :: "h256 \<Rightarrow> order_kind option" where
  "kind_from_contract_bytes b =
     (if b = KIND_SELL then Some Sell else if b = KIND_BUY then Some Buy else None)"

fun sell_source_bytes :: "sell_token_source \<Rightarrow> h256" where
  "sell_source_bytes SellErc20 = BALANCE_ERC20"
| "sell_source_bytes SellExternal = BALANCE_EXTERNAL"
| "sell_source_bytes SellInternal = BALANCE_INTERNAL"

definition sell_source_from_contract_bytes :: "h256 \<Rightarrow> sell_token_source option" where
  "sell_source_from_contract_bytes b =
     (if b = BALANCE_ERC20 then Some SellErc20
      else if b = BALANCE_EXTERNAL then Some SellExternal
      else if b = BALANCE_INTERNAL then Some SellInternal
      else None)"

fun buy_destination_bytes :: "buy_token_destination \<Rightarrow> h256" where
  "buy_destination_bytes BuyErc20 = BALANCE_ERC20"
| "buy_destination_bytes BuyInternal = BALANCE_INTERNAL"

definition buy_destination_from_contract_bytes :: "h256 \<Rightarrow> buy_token_destination option" where
  "buy_destination_from_contract_bytes b =
     (if b = BALANCE_ERC20 then Some BuyErc20
      else if b = BALANCE_INTERNAL then Some BuyInternal
      else None)"

text \<open>\<open>OrderData::hash_struct\<close>: the buffer it fills, and its hash.\<close>

definition hash_data :: "order_data \<Rightarrow> ('e, bytes) outcome" where
  "hash_data d =
     obind (copy_from_slice (zeros 416) 0 32 (h256_bytes ORDER_TYPE_HASH)) (\<lambda>h.
     obind (copy_from_slice h 44 64 (h160_bytes (od_sell_token d))) (\<lambda>h.
     obind (copy_from_slice h 76 96 (h160_bytes (od_buy_token d))) (\<lambda>h.
     obind (copy_from_slice h 108 128
              (h160_bytes (case od_receiver d of None \<Rightarrow> 0 | Some a \<Rightarrow> a))) (\<lambda>h.
     obind (copy_from_slice h 128 160 (u256_to_big_endian (od_sell_amount d))) (\<lambda>h.
     obind (copy_from_slice h 160 192 (u256_to_big_endian (od_buy_amount d))) (\<lambda>h.
     obind (copy_from_slice h 220 224 (u32_to_be_bytes (od_valid_to d))) (\<lambda>h.
     obind (copy_from_slice h 224 256 (h256_bytes (od_app_data d))) (\<lambda>h.
     obind (copy_from_slice h 256 288 (u256_to_big_endian (od_fee_amount d))) (\<lambda>h.
     obind (copy_from_slice h 288 320 (h256_bytes (kind_bytes (od_kind d)))) (\<lambda>h.
     obind (if 351 < length h then Ok (h[351 := of_bool (od_partially_fillable d)]) else Panic) (\<lambda>h.
     obind (copy_from_slice h 352 384 (h256_bytes (sell_source_bytes (od_sell_token_balance d)))) (\<lambda>h.
     copy_from_slice h 384 416 (h256_bytes (buy_destination_bytes (od_buy_token_balance d)))
     ))))))))))))"

definition hash_struct :: "(bytes \<Rightarrow> h256) \<Rightarrow> order_data \<Rightarrow> ('e, h256) outcome" where
  "hash_struct keccak d = obind (hash_data d) (\<lambda>h. Ok (keccak h))"

definition od_token_pair :: "order_data \<Rightarrow> token_pair option" where
  "od_token_pair d = token_pair_new (od_buy_token d) (od_sell_token d)"

record quote_amounts =
  qa_sell :: u256
  qa_buy :: u256
  qa_fee :: u256

text \<open>\<open>OrderData::within_market\<close>: two \<open>U256\<close> sums that panic on overflow, then 512-bit products.\<close>

definition within_market :: "order_data \<Rightarrow> quote_amounts \<Rightarrow> ('e, bool) outcome" where
  "within_market d q =
     obind (add_p (od_sell_amount d) (od_fee_amount d)) (\<lambda>order_sell.
     obind (add_p (qa_sell q) (qa_fee q)) (\<lambda>quote_sell.
     Ok (unat order_sell * unat (qa_buy q) \<ge> unat quote_sell * unat (od_buy_amount d))))"

section \<open>Order UIDs\<close>

text \<open>\<open>OrderUid::from_parts\<close>, \<open>parts\<close>, \<open>Display\<close> and \<open>FromStr\<close>.\<close>

definition uid_from_parts :: "h256 \<Rightarrow> h160 \<Rightarrow> u32 \<Rightarrow> ('e, order_uid) outcome" where
  "uid_from_parts hash owner valid_to =
     obind (copy_from_slice (zeros 56) 0 32 (h256_bytes hash)) (\<lambda>uid.
     obind (copy_from_slice uid 32 52 (h160_bytes owner)) (\<lambda>uid.
     copy_from_slice uid 52 56 (u32_to_be_bytes valid_to)))"

definition uid_parts :: "order_uid \<Rightarrow> ('e, h256 \<times> h160 \<times> u32) outcome" where
  "uid_parts uid =
     obind (h256_from_slice (take 32 uid)) (\<lambda>hash.
     obind (h160_from_slice_p (drop 32 (take 52 uid))) (\<lambda>owner.
     if length (drop 52 uid) = 4 then Ok (hash, owner, u32_from_le_bytes (drop 52 uid)) else Panic))"

definition order_data_uid :: "(bytes \<Rightarrow> h256) \<Rightarrow> order_data \<Rightarrow> h256 \<Rightarrow> h160 \<Rightarrow> ('e, order_uid) outcome" where
  "order_data_uid keccak d domain owner =
     obind (hash_struct keccak d) (\<lambda>struct_hash.
     obind (hashed_eip712_message keccak domain struct_hash) (\<lambda>message.
     uid_from_parts message owner (od_valid_to d)))"

definition uid_display :: "(bytes \<Rightarrow> string) \<Rightarrow> order_uid \<Rightarrow> string" where
  "uid_display hex_encode uid = ''0x'' @ hex_encode uid"

text \<open>\<open>decode_to_slice\<close> into a buffer of \<open>n\<close> bytes: the decoded string must have that length.\<close>

definition decode_to_slice :: "(string \<Rightarrow> bytes option) \<Rightarrow> nat \<Rightarrow> string \<Rightarrow> (hex_error, bytes) outcome" where
  "decode_to_slice hex_decode n s =
     obind (ok_or (hex_decode s) FromHexError) (\<lambda>bs.
     if length bs = n then Ok bs else Err FromHexError)"

definition uid_from_str :: "(string \<Rightarrow> bytes option) \<Rightarrow> string \<Rightarrow> (hex_error, order_uid) outcome" where
  "uid_from_str hex_decode s =
     (let s_without_prefix = (case strip_prefix ''0x'' s of None \<Rightarrow> s | Some r \<Rightarrow> r)
      in decode_to_slice hex_decode 56 s_without_prefix)"

definition uid_deserialize :: "(string \<Rightarrow> bytes option) \<Rightarrow> string \<Rightarrow> (hex_error, order_uid) outcome" where
  "uid_deserialize hex_decode s =
     obind (ok_or (strip_prefix ''0x'' s) MissingPrefix) (decode_to_slice hex_decode 56)"

section \<open>Orders of the order book\<close>

record ethflow_data =
  ef_user_valid_to :: int
  ef_refund_tx_hash :: "h256 option"

definition is_refunded :: "ethflow_data \<Rightarrow> bool" where
  "is_refunded e \<longleftrightarrow> ef_refund_tx_hash e \<noteq> None"

datatype onchain_order_placement_error =
    QuoteNotFound | ValidToTooFarInTheFuture | DisabledOrderClass | PreValidationError
  | InvalidQuote | InsufficientFee | NonZeroFee | InvalidOrderData | Other

record onchain_order_data =
  oo_sender :: h160
  oo_placement_error :: "onchain_order_placement_error option"

text \<open>Executed amounts are unbounded (\<open>BigUint\<close>); times are seconds since the epoch.\<close>

record order_metadata =
  om_creation_date :: int
  om_owner :: h160
  om_uid :: order_uid
  om_available_balance :: "u256 option"
  om_executed_buy_amount :: nat
  om_executed_sell_amount :: nat
  om_executed_sell_amount_before_fees :: u256
  om_executed_fee_amount :: u256
  om_executed_surplus_fee :: u256
  om_invalidated :: bool
  om_status :: order_status
  om_class :: order_class
  om_settlement_contract :: h160
  om_full_fee_amount :: u256
  om_solver_fee :: u256
  om_ethflow_data :: "ethflow_data option"
  om_onchain_order_data :: "onchain_order_data option"
  om_onchain_user :: "h160 option"
  om_is_liquidity_order :: bool
  om_full_app_data :: "string option"

record order =
  o_metadata :: order_metadata
  o_data :: order_data
  o_signature :: signature
  o_interactions :: interactions

definition contains_token_from :: "order \<Rightarrow> h160 set \<Rightarrow> bool" where
  "contains_token_from ord token_list \<longleftrightarrow>
     od_buy_token (o_data ord) \<in> token_list \<or> od_sell_token (o_data ord) \<in> token_list"

definition is_user_order :: "order \<Rightarrow> bool" where
  "is_user_order ord =
     (case om_class (o_metadata ord) of Market \<Rightarrow> True | Limit \<Rightarrow> True | Liquidity \<Rightarrow> False)"

definition is_limit_order :: "order \<Rightarrow> bool" where
  "is_limit_order ord \<longleftrightarrow> om_class (o_metadata ord) = Limit"

definition solver_determines_fee :: "order \<Rightarrow> bool" where
  "solver_determines_fee ord = is_limit_order ord"

section \<open>Order creation and owner verification\<close>

datatype order_creation_app_data =
    AppDataBoth string app_data_hash
  | AppDataHash app_data_hash
  | AppDataFull string

definition string_bytes :: "string \<Rightarrow> bytes" where
  "string_bytes s = map of_char s"

definition hash_full_app_data :: "(bytes \<Rightarrow> h256) \<Rightarrow> bytes \<Rightarrow> app_data_hash" where
  "hash_full_app_data keccak app_data = keccak app_data"

fun app_data_hash :: "(bytes \<Rightarrow> h256) \<Rightarrow> order_creation_app_data \<Rightarrow> app_data_hash" where
  "app_data_hash keccak (AppDataHash hash) = hash"
| "app_data_hash keccak (AppDataFull full) = hash_full_app_data keccak (string_bytes full)"
| "app_data_hash keccak (AppDataBoth full expected) = hash_full_app_data keccak (string_bytes full)"

record order_creation =
  oc_sell_token :: h160
  oc_buy_token :: h160
  oc_receiver :: "h160 option"
  oc_sell_amount :: u256
  oc_buy_amount :: u256
  oc_valid_to :: u32
  oc_fee_amount :: u256
  oc_kind :: order_kind
  oc_partially_fillable :: bool
  oc_sell_token_balance :: sell_token_source
  oc_buy_token_balance :: buy_token_destination
  oc_from :: "h160 option"
  oc_signature :: signature
  oc_quote_id :: "int option"
  oc_app_data :: order_creation_app_data

definition oc_data :: "(bytes \<Rightarrow> h256) \<Rightarrow> order_creation \<Rightarrow> order_data" where
  "oc_data keccak c =
     \<lparr>od_sell_token = oc_sell_token c,
      od_buy_token = oc_buy_token c,
      od_receiver = oc_receiver c,
      od_sell_amount = oc_sell_amount c,
      od_buy_amount = oc_buy_amount c,
      od_valid_to = oc_valid_to c,
      od_app_data = app_data_hash keccak (oc_app_data c),
      od_fee_amount = oc_fee_amount c,
      od_kind = oc_kind c,
      od_partially_fillable = oc_partially_fillable c,
      od_sell_token_balance = oc_sell_token_balance c,
      od_buy_token_balance = oc_buy_token_balance c\<rparr>"

datatype verification_error =
    UnableToRecoverSigner signature_error
  | UnexpectedSigner recovered
  | MissingFrom
  | AppdataFromMismatch h160 h160

text \<open>The address an order is expected from: the creation's, the app data's, or both if they agree.\<close>

fun coalesce_from :: "h160 option \<Rightarrow> h160 option \<Rightarrow> (verification_error, h160 option) outcome" where
  "coalesce_from None None = Ok None"
| "coalesce_from None (Some addr) = Ok (Some addr)"
| "coalesce_from (Some addr) None = Ok (Some addr)"
| "coalesce_from (Some from) (Some app_data_signer) =
     (if from = app_data_signer then Ok (Some from)
      else Err (AppdataFromMismatch from app_data_signer))"

fun match_recovered :: "h160 option \<Rightarrow> recovered option \<Rightarrow> (verification_error, h160) outcome" where
  "match_recovered (Some from) (Some recovered) =
     (if from = rec_signer recovered then Ok from else Err (UnexpectedSigner recovered))"
| "match_recovered (Some from) None = Ok from"
| "match_recovered None (Some recovered) = Ok (rec_signer recovered)"
| "match_recovered None None = Err MissingFrom"

definition verify_owner ::
  "(bytes \<Rightarrow> h256) \<Rightarrow> ec_recover \<Rightarrow> order_creation \<Rightarrow> h256 \<Rightarrow> h160 option \<Rightarrow>
   (verification_error, h160) outcome" where
  "verify_owner keccak ec_recover c domain app_data_signer =
     obind (hash_struct keccak (oc_data keccak c)) (\<lambda>struct_hash.
     obind (map_err UnableToRecoverSigner
              (sig_recover keccak ec_recover (oc_signature c) domain struct_hash)) (\<lambda>recovered.
     obind (coalesce_from (oc_from c) app_data_signer) (\<lambda>from.
     match_recovered from recovered)))"

section \<open>Cancellations\<close>

definition CANCELLATION_TYPE_HASH :: h256 where
  "CANCELLATION_TYPE_HASH = 0x7b41b3a6e2b3cae020a3b2f9cdc997e0d420643957e7fea81747e984e47c88ec"

definition CANCELLATIONS_TYPE_HASH :: h256 where
  "CANCELLATIONS_TYPE_HASH = 0x4c89efb91ae246f78d2fe68b47db2fa1444a121a4f2dc3fda7a5a408c2e3588e"

record order_cancellation =
  can_order_uid :: order_uid
  can_signature :: ecdsa_signature
  can_signing_scheme :: ecdsa_signing_scheme

definition cancellation_hash_struct :: "(bytes \<Rightarrow> h256) \<Rightarrow> order_uid \<Rightarrow> ('e, h256) outcome" where
  "cancellation_hash_struct keccak uid =
     obind (copy_from_slice (zeros 64) 0 32 (h256_bytes CANCELLATION_TYPE_HASH)) (\<lambda>h.
     obind (copy_from_slice h 32 64 (h256_bytes (keccak uid))) (\<lambda>h.
     Ok (keccak h)))"

definition cancellation_validate ::
  "(bytes \<Rightarrow> h256) \<Rightarrow> ec_recover \<Rightarrow> order_cancellation \<Rightarrow> h256 \<Rightarrow> (signature_error, h160) outcome" where
  "cancellation_validate keccak ec_recover c domain =
     obind (cancellation_hash_struct keccak (can_order_uid c)) (\<lambda>h.
     obind (ecdsa_recover keccak ec_recover (can_signature c) (can_signing_scheme c) domain h) (\<lambda>r.
     Ok (rec_signer r)))"

record signed_order_cancellations =
  cans_order_uids :: "order_uid list"
  cans_signature :: ecdsa_signature
  cans_signing_scheme :: ecdsa_signing_scheme

definition cancellations_hash_struct :: "(bytes \<Rightarrow> h256) \<Rightarrow> order_uid list \<Rightarrow> ('e, h256) outcome" where
  "cancellations_hash_struct keccak uids =
     (let encoded_uids = concat (map (\<lambda>uid. h256_bytes (keccak uid)) uids);
          array_hash = keccak encoded_uids
      in obind (copy_from_slice (zeros 64) 0 32 (h256_bytes CANCELLATIONS_TYPE_HASH)) (\<lambda>h.
         obind (copy_from_slice h 32 64 (h256_bytes array_hash)) (\<lambda>h.
         Ok (keccak h))))"

definition cancellations_validate ::
  "(bytes \<Rightarrow> h256) \<Rightarrow> ec_recover \<Rightarrow> signed_order_cancellations \<Rightarrow> h256 \<Rightarrow>
   (signature_error, h160) outcome" where
  "cancellations_validate keccak ec_recover c domain =
     obind (cancellations_hash_struct keccak (cans_order_uids c)) (\<lambda>h.
     obind (ecdsa_recover keccak ec_recover (cans_signature c) (cans_signing_scheme c) domain h) (\<lambda>r.
     Ok (rec_signer r)))"

section \<open>Lemmas\<close>

text \<open>The EIP-712 encoding of an order: its type hash and twelve members, 32 bytes each.\<close>

definition pad_left :: "nat \<Rightarrow> bytes \<Rightarrow> bytes" where
  "pad_left n bs = zeros (n - length bs) @ bs"

definition eip712_encode :: "order_data \<Rightarrow> bytes" where
  "eip712_encode d = concat
     [h256_bytes ORDER_TYPE_HASH,
      pad_left 32 (h160_bytes (od_sell_token d)),
      pad_left 32 (h160_bytes (od_buy_token d)),
      pad_left 32 (h160_bytes (case od_receiver d of None \<Rightarrow> 0 | Some a \<Rightarrow> a)),
      u256_to_big_endian (od_sell_amount d),
      u256_to_big_endian (od_buy_amount d),
      pad_left 32 (u32_to_be_bytes (od_valid_to d)),
      h256_bytes (od_app_data d),
      u256_to_big_endian (od_fee_amount d),
      h256_bytes (kind_bytes (od_kind d)),
      pad_left 32 [of_bool (od_partially_fillable d)],
      h256_bytes (sell_source_bytes (od_sell_token_balance d)),
      h256_bytes (buy_destination_bytes (od_buy_token_balance d))]"

lemma length_eip712_encode [simp]: "length (eip712_encode d) = 416"
  by (simp add: eip712_encode_def pad_left_def)

lemma hash_data_eq: "hash_data d = Ok (eip712_encode d)"
  by (simp add: hash_data_def copy_from_slice_Ok eip712_encode_def pad_left_def list_update_append zeros_def
      numeral_eq_Suc)

lemma hash_struct_eq: "hash_struct keccak d = Ok (keccak (eip712_encode d))"
  by (simp add: hash_struct_def hash_data_eq)

lemma pad_left_inject [simp]: "length a = length b \<Longrightarrow> pad_left n a = pad_left n b \<longleftrightarrow> a = b"
  by (simp add: pad_left_def)

lemma length_pad_left [simp]: "length bs \<le> n \<Longrightarrow> length (pad_left n bs) = n"
  by (simp add: pad_left_def)

lemma contract_constants_distinct:
  "KIND_SELL \<noteq> KIND_BUY" "BALANCE_ERC20 \<noteq> BALANCE_EXTERNAL"
  "BALANCE_ERC20 \<noteq> BALANCE_INTERNAL" "BALANCE_EXTERNAL \<noteq> BALANCE_INTERNAL"
  by (simp_all add: KIND_SELL_def KIND_BUY_def BALANCE_ERC20_def BALANCE_EXTERNAL_def BALANCE_INTERNAL_def)

lemma kind_bytes_inject [simp]: "kind_bytes a = kind_bytes b \<longleftrightarrow> a = b"
  using contract_constants_distinct by (cases a; cases b) auto

lemma sell_source_bytes_inject [simp]: "sell_source_bytes a = sell_source_bytes b \<longleftrightarrow> a = b"
  using contract_constants_distinct by (cases a; cases b) auto

lemma buy_destination_bytes_inject [simp]: "buy_destination_bytes a = buy_destination_bytes b \<longleftrightarrow> a = b"
  using contract_constants_distinct by (cases a; cases b) auto

text \<open>The zero address and an absent receiver are the same order to the contract.\<close>

definition normal_receiver :: "order_data \<Rightarrow> order_data" where
  "normal_receiver d = d\<lparr>od_receiver := Some (case od_receiver d of None \<Rightarrow> 0 | Some a \<Rightarrow> a)\<rparr>"

lemma eip712_encode_inject:
  "eip712_encode d = eip712_encode d' \<longleftrightarrow> normal_receiver d = normal_receiver d'"
  by (cases d; cases d') (simp add: eip712_encode_def normal_receiver_def)

lemma uid_from_parts_eq:
  "uid_from_parts hash owner valid_to = Ok (h256_bytes hash @ h160_bytes owner @ u32_to_be_bytes valid_to)"
  by (simp add: uid_from_parts_def copy_from_slice_Ok zeros_def)

lemma uid_parts_from_parts:
  "uid_parts (h256_bytes hash @ h160_bytes owner @ u32_to_be_bytes valid_to) =
     Ok (hash, owner, u32_from_le_bytes (u32_to_be_bytes valid_to))"
  by (simp add: uid_parts_def h160_from_slice_p_def)

context hex_codec
begin

lemma uid_display_roundtrip:
  "length uid = 56 \<Longrightarrow>
   uid_from_str hex_decode (uid_display hex_encode uid) = Ok uid
   \<and> uid_deserialize hex_decode (uid_display hex_encode uid) = Ok uid"
  by (simp add: uid_from_str_def uid_deserialize_def uid_display_def decode_to_slice_def decode_encode
      del: append.simps)

end

lemma match_recovered_Ok:
  "match_recovered fr recovered = Ok owner \<longleftrightarrow>
     set_option fr \<union> rec_signer ` set_option recovered = {owner}"
  by (cases fr; cases recovered) auto

lemma coalesce_from_Ok:
  "coalesce_from fr signer = Ok a \<longleftrightarrow>
     set_option fr \<union> set_option signer = set_option a"
  by (cases fr; cases signer; cases a) auto

lemma coalesce_match_not_Panic [simp]:
  "coalesce_from fr signer \<noteq> Panic" "match_recovered fr' recovered \<noteq> Panic"
  by (cases fr; cases signer; simp) (cases fr'; cases recovered; simp)

lemma sig_recover_not_Panic [simp]: "sig_recover keccak ec_recover sig d h \<noteq> Panic"
  using ecdsa_recover_not_panics [of keccak ec_recover]
  by (cases sig) (auto simp: outc panics_def)

lemma sig_recover_None_iff:
  "sig_recover keccak ec_recover sig d h = Ok None \<longleftrightarrow> \<not> is_ecdsa_scheme (scheme sig)"
  by (cases sig) (auto simp: outc is_ecdsa_scheme_def)

section \<open>Properties\<close>

text \<open>
  C19. The struct hash of an order is the hash of its EIP-712 encoding, the concatenation of the type
  hash and the twelve members at 32 bytes each: the thirteen slice writes of \<open>hash_struct\<close> never
  panic, do not overlap and leave no other byte set.
\<close>

theorem hash_struct_is_eip712:
  "hash_struct keccak d = Ok (keccak (eip712_encode d)) \<and> length (eip712_encode d) = 416"
  by (simp add: hash_struct_eq)

text \<open>
  C20. The signed message determines the order: two orders with the same encoding agree on every
  field, except that a missing receiver and the zero address are not distinguished. A signature
  over one order cannot be replayed for another without a hash collision.
\<close>

theorem signed_order_unambiguous:
  "hash_data d = (hash_data d' :: (unit, bytes) outcome) \<longleftrightarrow> normal_receiver d = normal_receiver d'"
  by (simp add: hash_data_eq eip712_encode_inject)

text \<open>
  What \<open>OrderUid::parts\<close> gives back of \<open>from_parts\<close>: the digest and the owner are recovered, the
  valid-to comes back with its four bytes in reverse order, because \<open>from_parts\<close> writes it
  big-endian and \<open>parts\<close> reads it little-endian.
\<close>

theorem uid_parts_of_from_parts:
  "obind (uid_from_parts hash owner valid_to) uid_parts =
     (Ok (hash, owner, u32_from_be_bytes (rev (u32_to_be_bytes valid_to)))
        :: ('e, h256 \<times> h160 \<times> u32) outcome)"
  by (simp add: uid_from_parts_eq uid_parts_from_parts u32_from_le_bytes_rev)

text \<open>
  The byte order matters: the valid-to 1 of a UID is read back as \<open>0x01000000\<close>.
\<close>

lemma uid_parts_valid_to_swapped:
  "obind (uid_from_parts 0 0 1) uid_parts = (Ok (0, 0, 0x01000000) :: (unit, h256 \<times> h160 \<times> u32) outcome)"
proof -
  have four: "(4 :: nat) = Suc (Suc (Suc (Suc 0)))"
    by simp
  have "u32_to_be_bytes 1 = [0, 0, 0, 1]"
    by (simp add: u32_to_be_bytes_def four)
  then have "u32_from_be_bytes (rev (u32_to_be_bytes 1)) = 0x01000000"
    by (simp add: u32_from_be_bytes_def be_nat_def)
  then show ?thesis
    by (simp add: uid_from_parts_eq uid_parts_from_parts u32_from_le_bytes_rev)
qed

text \<open>
  The owner the autopilot reads from the UID of an order is the owner the UID was computed for.
\<close>

theorem order_uid_owner:
  "\<exists>uid digest swapped.
     order_data_uid keccak d domain owner = (Ok uid :: ('e, order_uid) outcome)
     \<and> length uid = 56
     \<and> uid_parts uid = (Ok (digest, owner, swapped) :: ('e, h256 \<times> h160 \<times> u32) outcome)
     \<and> digest = keccak (0x19 # 0x01 # h256_bytes domain @ h256_bytes (keccak (eip712_encode d)))"
  by (simp add: order_data_uid_def hash_struct_eq hashed_eip712_message_eq uid_from_parts_eq
      uid_parts_from_parts)

text \<open>
  Printing an order UID and parsing it gives the UID back, both through \<open>FromStr\<close> and through
  the JSON deserialization, for any hex codec whose decoder inverts its encoder.
\<close>

theorem uid_string_roundtrip:
  assumes "hex_codec enc dec" and "length uid = 56"
  shows "uid_from_str dec (uid_display enc uid) = Ok uid
         \<and> uid_deserialize dec (uid_display enc uid) = Ok uid"
  using assms by (rule hex_codec.uid_display_roundtrip)

theorem uid_string_roundtrip_witness:
  "uid_from_str lower_hex_decode (uid_display lower_hex_encode (replicate 56 7)) = Ok (replicate 56 7)
   \<and> uid_deserialize lower_hex_decode (uid_display lower_hex_encode (replicate 56 7)) = Ok (replicate 56 7)"
  by (rule uid_string_roundtrip [OF hex.hex_codec_axioms]) simp

text \<open>
  C18. An order creation is attributed to an owner only if every source of the owner agrees: the
  address recovered from an ECDSA signature, the \<open>from\<close> field and the signer of the app data. For
  the on-chain schemes, where nothing can be recovered, \<open>from\<close> or the app data must name the owner.
  Verification never panics.
\<close>

theorem verify_owner_sound:
  "\<not> panics (verify_owner keccak ec_recover c domain app_data_signer)
   \<and> (verify_owner keccak ec_recover c domain app_data_signer = Ok owner \<longleftrightarrow>
       (\<exists>recovered.
          sig_recover keccak ec_recover (oc_signature c) domain (keccak (eip712_encode (oc_data keccak c)))
            = Ok recovered
          \<and> (recovered = None \<longleftrightarrow> \<not> is_ecdsa_scheme (scheme (oc_signature c)))
          \<and> rec_signer ` set_option recovered \<union> set_option (oc_from c) \<union> set_option app_data_signer
              = {owner}))"
  (is "?safe \<and> (?result \<longleftrightarrow> (\<exists>recovered. ?sound recovered))")
proof
  show ?safe
    by (simp add: verify_owner_def hash_struct_eq panics_def outc)
  have "(\<exists>fr. coalesce_from (oc_from c) app_data_signer = Ok fr \<and> match_recovered fr r = Ok owner)
    \<longleftrightarrow> rec_signer ` set_option r \<union> set_option (oc_from c) \<union> set_option app_data_signer = {owner}" for r
    by (cases "oc_from c"; cases app_data_signer; cases r) auto
  then show "?result \<longleftrightarrow> (\<exists>recovered. ?sound recovered)"
    using sig_recover_None_iff [of keccak ec_recover "oc_signature c" domain]
    by (auto simp: verify_owner_def hash_struct_eq outc)
qed

end
