(* ===== verification/Quotes.thy ===== *)
theory Quotes
  imports Orders
begin

text \<open>
  The quoting types of \<open>crates/model/src/quote.rs\<close>: quote requests, the validity of a quote and the
  signing scheme of a quote, with the two checked deserializations (\<open>QuoteSigningScheme\<close>,
  \<open>Validity\<close>) and the one of the optional app data.
\<close>

datatype price_quality = Fast | Optimal | Verified

datatype quote_signing_scheme =
    QuoteEip712
  | QuoteEthSign
  | QuoteEip1271 (quote_onchain_order: bool) (quote_gas_limit: u64)
  | QuotePreSign (quote_onchain_order: bool)

fun additional_gas_amount :: "quote_signing_scheme \<Rightarrow> u64" where
  "additional_gas_amount (QuoteEip1271 _ verification_gas_limit) = verification_gas_limit"
| "additional_gas_amount _ = 0"

definition default_verification_gas_limit :: u64 where
  "default_verification_gas_limit = 27000"

definition new_eip1271_with_default_gas :: "bool \<Rightarrow> quote_signing_scheme" where
  "new_eip1271_with_default_gas onchain = QuoteEip1271 onchain default_verification_gas_limit"

fun signing_scheme_of_quote :: "quote_signing_scheme \<Rightarrow> signing_scheme" where
  "signing_scheme_of_quote QuoteEip712 = SchemeEip712"
| "signing_scheme_of_quote (QuoteEip1271 _ _) = SchemeEip1271"
| "signing_scheme_of_quote (QuotePreSign _) = SchemePreSign"
| "signing_scheme_of_quote QuoteEthSign = SchemeEthSign"

record quote_signing_data =
  qs_signing_scheme :: signing_scheme
  qs_verification_gas_limit :: "u64 option"
  qs_onchain_order :: bool

datatype quote_error = EcdsaOnchain | GasLimitWithoutEip1271 | BothValidToAndFor | InvalidAppData

text \<open>The five arms of the match, in the order of the source.\<close>

definition quote_signing_scheme_try_from ::
  "quote_signing_data \<Rightarrow> (quote_error, quote_signing_scheme) outcome" where
  "quote_signing_scheme_try_from data =
     (case (qs_signing_scheme data, qs_onchain_order data, qs_verification_gas_limit data) of
        (sch, onchain, limit) \<Rightarrow>
          (if onchain \<and> limit = None \<and> is_ecdsa_scheme sch then Err EcdsaOnchain
           else if sch = SchemeEip712 \<and> limit = None then Ok QuoteEip712
           else if sch = SchemeEthSign \<and> limit = None then Ok QuoteEthSign
           else if sch = SchemeEip1271 then
             Ok (QuoteEip1271 onchain
                   (case limit of None \<Rightarrow> default_verification_gas_limit | Some l \<Rightarrow> l))
           else if sch = SchemePreSign \<and> limit = None then Ok (QuotePreSign onchain)
           else Err GasLimitWithoutEip1271))"

datatype validity = ValidTo u32 | ValidFor u32

text \<open>\<open>now\<close> is the current time in seconds since the epoch.\<close>

fun actual_valid_to :: "u32 \<Rightarrow> validity \<Rightarrow> u32" where
  "actual_valid_to now (ValidTo valid_to) = valid_to"
| "actual_valid_to now (ValidFor valid_for) = saturating_add now valid_for"

definition default_validity :: validity where
  "default_validity = ValidFor (30 * 60)"

fun validity_deserialize :: "u32 option \<Rightarrow> u32 option \<Rightarrow> (quote_error, validity) outcome" where
  "validity_deserialize (Some valid_to) None = Ok (ValidTo valid_to)"
| "validity_deserialize None (Some valid_for) = Ok (ValidFor valid_for)"
| "validity_deserialize None None = Ok default_validity"
| "validity_deserialize (Some _) (Some _) = Err BothValidToAndFor"

text \<open>\<open>Serialize for Validity\<close>: the field it writes, of \<open>validTo\<close> and \<open>validFor\<close>.\<close>

fun validity_serialize :: "validity \<Rightarrow> u32 option \<times> u32 option" where
  "validity_serialize (ValidTo valid_to) = (Some valid_to, None)"
| "validity_serialize (ValidFor valid_for) = (None, Some valid_for)"

text \<open>\<open>parse_hash\<close> stands for the parser of \<open>AppDataHash\<close>.\<close>

fun deserialize_optional_app_data ::
  "(string \<Rightarrow> app_data_hash option) \<Rightarrow> string option \<Rightarrow> app_data_hash option \<Rightarrow>
   (quote_error, order_creation_app_data) outcome" where
  "deserialize_optional_app_data parse_hash (Some app_data) None =
     (case parse_hash app_data of
        Some hash \<Rightarrow> Ok (AppDataHash hash)
      | None \<Rightarrow> Ok (AppDataFull app_data))"
| "deserialize_optional_app_data parse_hash (Some full) (Some expected) = Ok (AppDataBoth full expected)"
| "deserialize_optional_app_data parse_hash None None = Ok (AppDataHash 0)"
| "deserialize_optional_app_data parse_hash None (Some _) = Err InvalidAppData"

text \<open>Amounts of a quote request are non-zero (\<open>NonZeroU256\<close>).\<close>

datatype sell_amount = BeforeFee u256 | AfterFee u256

datatype order_quote_side = QuoteSell sell_amount | QuoteBuy u256

record order_quote_request =
  qr_from :: h160
  qr_sell_token :: h160
  qr_buy_token :: h160
  qr_receiver :: "h160 option"
  qr_side :: order_quote_side
  qr_validity :: validity
  qr_app_data :: order_creation_app_data
  qr_sell_token_balance :: sell_token_source
  qr_buy_token_balance :: buy_token_destination
  qr_signing_scheme :: quote_signing_scheme
  qr_price_quality :: price_quality

record order_quote =
  oq_sell_token :: h160
  oq_buy_token :: h160
  oq_receiver :: "h160 option"
  oq_sell_amount :: u256
  oq_buy_amount :: u256
  oq_valid_to :: u32
  oq_app_data :: order_creation_app_data
  oq_fee_amount :: u256
  oq_kind :: order_kind
  oq_partially_fillable :: bool
  oq_sell_token_balance :: sell_token_source
  oq_buy_token_balance :: buy_token_destination
  oq_signing_scheme :: signing_scheme

lemma validity_roundtrip: "case_prod validity_deserialize (validity_serialize v) = Ok v"
  by (cases v) simp_all

text \<open>
  The signing scheme of a quote request is accepted exactly when an ECDSA order is not marked as
  placed on-chain and only an EIP-1271 order carries a verification gas limit; the accepted scheme
  is the requested one, keeps the on-chain flag, and adds gas only for EIP-1271.
\<close>

theorem quote_signing_scheme_try_from_iff:
  "(quote_signing_scheme_try_from data = Ok q) \<longleftrightarrow>
     (is_ecdsa_scheme (qs_signing_scheme data) = (q = QuoteEip712 \<or> q = QuoteEthSign)
      \<and> signing_scheme_of_quote q = qs_signing_scheme data
      \<and> (if is_ecdsa_scheme (qs_signing_scheme data)
         then \<not> qs_onchain_order data \<and> qs_verification_gas_limit data = None
         else quote_onchain_order q = qs_onchain_order data)
      \<and> (if qs_signing_scheme data = SchemeEip1271
         then additional_gas_amount q =
                (case qs_verification_gas_limit data of None \<Rightarrow> 27000 | Some l \<Rightarrow> l)
         else qs_verification_gas_limit data = None \<and> additional_gas_amount q = 0))"
  by (cases "qs_signing_scheme data"; cases q; cases "qs_verification_gas_limit data")
     (auto simp: quote_signing_scheme_try_from_def is_ecdsa_scheme_def default_verification_gas_limit_def)

end
