(* ===== verification/Numbers.thy ===== *)
theory Numbers
  imports Bytes Complex_Main
begin

text \<open>
  The conversions of \<open>crates/number\<close> between 256-bit integers, unbounded integers, rationals and
  decimals, the non-zero integers, and the \<open>U256Ext\<close> ceiling division of
  \<open>crates/shared/src/conversions.rs\<close>.

  \<open>BigUint\<close>, \<open>BigInt\<close> and \<open>BigRational\<close> are the types of naturals, integers and rationals. A
  \<open>BigDecimal\<close> is a pair of an integer and a decimal scale.
\<close>

datatype number_error = TooLarge | Negative | ZeroDenominator | ZeroValue

section \<open>Integers and rationals\<close>

text \<open>\<open>BigUint::to_bytes_be\<close>: no leading zeros, and one byte for zero.\<close>

fun nat_bytes :: "nat \<Rightarrow> bytes" where
  "nat_bytes n = (if n < 256 then [of_nat n] else nat_bytes (n div 256) @ [of_nat (n mod 256)])"

declare nat_bytes.simps [simp del]

definition u256_to_big_uint :: "u256 \<Rightarrow> nat" where
  "u256_to_big_uint input = be_nat (u256_to_big_endian input)"

definition u256_to_big_int :: "u256 \<Rightarrow> int" where
  "u256_to_big_int input = int (u256_to_big_uint input)"

definition u256_to_big_rational :: "u256 \<Rightarrow> rat" where
  "u256_to_big_rational input = Fract (u256_to_big_int input) 1"

definition big_uint_to_u256 :: "nat \<Rightarrow> (number_error, u256) outcome" where
  "big_uint_to_u256 input =
     (let bytes = nat_bytes input
      in if length bytes \<le> 32 then Ok (u256_from_big_endian bytes) else Err TooLarge)"

definition big_int_to_u256 :: "int \<Rightarrow> (number_error, u256) outcome" where
  "big_int_to_u256 input = (if input < 0 then Err Negative else big_uint_to_u256 (nat \<bar>input\<bar>))"

text \<open>\<open>BigInt\<close> division truncates towards zero; the denominator of a rational is positive.\<close>

definition big_rational_to_u256 :: "rat \<Rightarrow> (number_error, u256) outcome" where
  "big_rational_to_u256 ratio =
     (case quotient_of ratio of
        (numer, denom) \<Rightarrow>
          if denom = 0 then Err ZeroDenominator
          else big_int_to_u256 (sgn numer * (\<bar>numer\<bar> div denom)))"

section \<open>Decimals\<close>

text \<open>\<open>BigDecimal\<close> with \<open>as_bigint_and_exponent\<close>: the value is \<open>numer / 10 ^ scale\<close>.\<close>

datatype big_decimal = BigDecimal (bd_numer: int) (bd_scale: int)

text \<open>\<open>scale as u32\<close> keeps the low 32 bits.\<close>

definition as_u32 :: "int \<Rightarrow> nat" where
  "as_u32 i = nat (i mod 2 ^ 32)"

definition u256_to_big_decimal :: "u256 \<Rightarrow> big_decimal" where
  "u256_to_big_decimal input = BigDecimal (int (u256_to_big_uint input)) 0"

definition big_decimal_to_big_rational :: "big_decimal \<Rightarrow> rat" where
  "big_decimal_to_big_rational value =
     (let numer = bd_numer value; scale = bd_scale value;
          (adjusted_numer, denom) =
            (if scale = 0 then (numer, 1)
             else if 0 < scale then (numer, 10 ^ as_u32 scale)
             else (numer * 10 ^ as_u32 (- scale), 1))
      in Fract adjusted_numer denom)"

definition bd_value :: "big_decimal \<Rightarrow> rat" where
  "bd_value d = of_int (bd_numer d) * 10 powi (- bd_scale d)"

section \<open>Non-zero integers\<close>

text \<open>\<open>number::nonzero::U256\<close>.\<close>

definition nonzero_new :: "u256 \<Rightarrow> u256 option" where
  "nonzero_new value = (if value \<noteq> 0 then Some value else None)"

definition nonzero_try_from :: "u256 \<Rightarrow> (number_error, u256) outcome" where
  "nonzero_try_from value = ok_or (nonzero_new value) ZeroValue"

section \<open>Ceiling division\<close>

definition checked_ceil_div :: "u256 \<Rightarrow> u256 \<Rightarrow> u256 option" where
  "checked_ceil_div a b =
     Option.bind (checked_sub b 1) (\<lambda>b1.
     Option.bind (checked_add a b1) (\<lambda>s.
     checked_div s b))"

definition ceil_div :: "u256 \<Rightarrow> u256 \<Rightarrow> ('e, u256) outcome" where
  "ceil_div a b = expect (checked_ceil_div a b)"

section \<open>Lemmas\<close>

lemma u256_to_big_uint_eq [simp]: "u256_to_big_uint x = unat x"
  using unat_bound [of x] by (simp add: u256_to_big_uint_def u256_to_big_endian_def be_nat_nat_be)

lemma be_nat_nat_bytes [simp]: "be_nat (nat_bytes n) = n"
proof (induction n rule: nat_bytes.induct)
  case (1 n)
  show ?case
  proof (cases "n < 256")
    case True
    then show ?thesis
      by (simp add: nat_bytes.simps [of n] be_nat_def unat_of_nat)
  next
    case False
    with 1 show ?thesis by (simp add: nat_bytes.simps [of n])
  qed
qed

lemma length_nat_bytes_le: "0 < k \<Longrightarrow> length (nat_bytes n) \<le> k \<longleftrightarrow> n < 256 ^ k"
proof (induction n arbitrary: k rule: nat_bytes.induct)
  case (1 n)
  show ?case
  proof (cases "n < 256")
    case True
    moreover have "256 ^ 1 \<le> (256 :: nat) ^ k"
      using "1.prems" by (intro power_increasing) auto
    ultimately show ?thesis
      using "1.prems" by (simp add: nat_bytes.simps [of n])
  next
    case False
    show ?thesis
    proof (cases "k = 1")
      case True
      with False show ?thesis
        by (simp add: nat_bytes.simps [of n]) (simp add: nat_bytes.simps [of "n div 256"])
    next
      case k: False
      with "1.prems" obtain j where j: "k = Suc j" "0 < j" by (cases k) auto
      have "n div 256 < 256 ^ j \<longleftrightarrow> n < 256 ^ k"
        using j by (simp add: div_less_iff_less_mult mult.commute)
      with j False "1.IH" [OF False \<open>0 < j\<close>] show ?thesis
        by (simp add: nat_bytes.simps [of n])
    qed
  qed
qed

lemma big_uint_to_u256_eq:
  "big_uint_to_u256 n = (if n < 2 ^ 256 then Ok (of_nat n) else Err TooLarge)"
  using length_nat_bytes_le [of 32 n]
  by (simp add: big_uint_to_u256_def u256_from_big_endian_def)

lemma big_int_to_u256_Ok: "big_int_to_u256 i = Ok x \<longleftrightarrow> i = int (unat x)"
proof
  assume "big_int_to_u256 i = Ok x"
  then have "0 \<le> i" and less: "nat i < 2 ^ 256" and x: "x = of_nat (nat i)"
    by (auto simp: big_int_to_u256_def big_uint_to_u256_eq split: if_splits)
  have "unat (of_nat (nat i) :: u256) = nat i"
    using less by (simp add: unat_of_nat del: of_nat_nat)
  with \<open>0 \<le> i\<close> show "i = int (unat x)"
    unfolding x by simp
next
  assume "i = int (unat x)"
  then show "big_int_to_u256 i = Ok x"
    using unat_bound [of x] by (simp add: big_int_to_u256_def big_uint_to_u256_eq)
qed

lemma big_rational_to_u256_Ok:
  "big_rational_to_u256 r = Ok x \<longleftrightarrow> - 1 < r \<and> int (unat x) = max 0 \<lfloor>r\<rfloor>"
proof -
  obtain n d where q: "quotient_of r = (n, d)" by (cases "quotient_of r")
  then have d: "0 < d" and r: "r = of_int n / of_int d"
    by (auto simp: quotient_of_denom_pos quotient_of_div)
  have fl: "\<lfloor>r\<rfloor> = n div d"
    using r by (simp add: floor_divide_of_int_eq)
  show ?thesis
  proof (cases "0 \<le> n")
    case True
    then have "sgn n * (\<bar>n\<bar> div d) = n div d" "0 \<le> n div d" "- 1 < r"
      using d r by (auto simp: sgn_if pos_imp_zdiv_nonneg_iff less_le_trans [of "-1" 0])
    then show ?thesis
      using q d fl by (auto simp: big_rational_to_u256_def big_int_to_u256_Ok)
  next
    case False
    then have "sgn n * (\<bar>n\<bar> div d) = - ((- n) div d)" by (simp add: sgn_if)
    moreover have "0 \<le> (- n) div d" using False d by (simp add: pos_imp_zdiv_nonneg_iff)
    moreover have "(- n) div d = 0 \<longleftrightarrow> - 1 < r"
    proof -
      have "(- n) div d = 0 \<longleftrightarrow> - n < d"
        using False d pos_imp_zdiv_pos_iff [of d "- n"] \<open>0 \<le> (- n) div d\<close> by linarith
      also have "\<dots> \<longleftrightarrow> - (of_int d :: rat) < of_int n"
        by (metis minus_less_iff of_int_less_iff of_int_minus)
      also have "\<dots> \<longleftrightarrow> - 1 < r"
        using d by (simp add: r field_simps)
      finally show ?thesis .
    qed
    moreover have "\<lfloor>r\<rfloor> < 0"
      using False d fl by (simp add: neg_imp_zdiv_neg_iff pos_imp_zdiv_neg_iff)
    moreover have "- k = uint x \<longleftrightarrow> k = 0 \<and> uint x = 0" if "0 \<le> k" for k
      using that uint_nat [of x] by linarith
    ultimately show ?thesis
      using q d by (simp add: big_rational_to_u256_def big_int_to_u256_Ok max_def)
  qed
qed

lemma big_rational_to_u256_not_Panic [simp]: "big_rational_to_u256 r \<noteq> Panic"
  by (simp add: big_rational_to_u256_def big_int_to_u256_def big_uint_to_u256_def Let_def split: prod.split)

lemma checked_ceil_div_Some:
  "checked_ceil_div a b = Some c \<longleftrightarrow>
     0 < unat b \<and> unat a + (unat b - 1) < 2 ^ 256 \<and> unat c = (unat a + (unat b - 1)) div unat b"
proof (cases "unat b = 0")
  case True
  then show ?thesis
    by (simp add: checked_ceil_div_def checked_sub_def)
next
  case False
  then obtain b1 where b1: "checked_sub b 1 = Some b1" "unat b1 = unat b - 1"
    by (cases "checked_sub b 1") (auto simp: chk)
  show ?thesis
  proof (cases "checked_add a b1")
    case None
    then have "2 ^ 256 \<le> unat a + (unat b - 1)"
      using b1(2) by (simp add: checked_add_None)
    then show ?thesis
      using False by (simp add: checked_ceil_div_def b1(1) None)
  next
    case (Some s)
    then have s: "unat s = unat a + (unat b - 1)"
      using b1(2) by (simp add: checked_add_Some)
    then have "unat a + (unat b - 1) < 2 ^ 256"
      using unat_bound [of s] by simp
    then show ?thesis
      using False s by (simp add: checked_ceil_div_def b1(1) Some checked_div_Some)
  qed
qed

lemma ceil_div_nat_bounds:
  fixes a b c :: nat
  assumes "0 < b" and "c = (a + (b - 1)) div b"
  shows "a \<le> c * b" and "c * b < a + b"
proof -
  have "(a + (b - 1)) = c * b + (a + (b - 1)) mod b"
    using assms by (simp add: div_mult_mod_eq)
  moreover have "(a + (b - 1)) mod b < b"
    using assms by simp
  ultimately show "a \<le> c * b" "c * b < a + b"
    using assms(1) by linarith+
qed

section \<open>Properties\<close>

text \<open>
  The conversions between 256-bit and unbounded integers are exact: a \<open>U256\<close> comes back from its
  integer, and an integer converts if and only if it lies in the range of a \<open>U256\<close>, to the value
  itself; a negative integer and one of more than 256 bits are errors.
\<close>

theorem big_int_to_u256_exact:
  "big_int_to_u256 (u256_to_big_int x) = Ok x
   \<and> (big_int_to_u256 i = Ok y \<longleftrightarrow> i = u256_to_big_int y)
   \<and> (big_int_to_u256 i = Err Negative \<longleftrightarrow> i < 0)
   \<and> (big_int_to_u256 i = Err TooLarge \<longleftrightarrow> 2 ^ 256 \<le> i)"
  by (auto simp: big_int_to_u256_Ok u256_to_big_int_def)
     (auto simp: big_int_to_u256_def big_uint_to_u256_eq split: if_splits)

text \<open>
  A rational converts to its integer part. The sign is checked after the division has truncated
  towards zero, so a rational strictly between \<open>- 1\<close> and 0 is accepted as 0; below that it is an error.
\<close>

theorem big_rational_to_u256_truncates:
  "big_rational_to_u256 r = Ok x \<longleftrightarrow> - 1 < r \<and> int (unat x) = max 0 \<lfloor>r\<rfloor>"
  by (rule big_rational_to_u256_Ok)

text \<open>
  A decimal converts to the rational it denotes, for every scale whose magnitude fits 32 bits
  (beyond that the cast of the exponent drops its high bits).
\<close>

theorem big_decimal_to_big_rational_value:
  "\<bar>bd_scale d\<bar> < 2 ^ 32 \<Longrightarrow> big_decimal_to_big_rational d = bd_value d"
  by (cases "bd_scale d" "0 :: int" rule: linorder_cases)
     (simp_all add: big_decimal_to_big_rational_def bd_value_def as_u32_def Fract_of_int_quotient
       power_int_def field_simps)

theorem big_decimal_to_big_rational_value_witness:
  "big_decimal_to_big_rational (BigDecimal 1000000 (- 4)) = 10000000000"
  using big_decimal_to_big_rational_value [of "BigDecimal 1000000 (- 4)"]
  by (simp add: bd_value_def power_int_def)

text \<open>
  Ceiling division rounds up: its result is the least integer whose product with the divisor is at
  least the dividend, and it is defined unless the divisor is zero or the rounding term overflows.
\<close>

theorem checked_ceil_div_rounds_up:
  "case checked_ceil_div a b of
     None \<Rightarrow> unat b = 0 \<or> 2 ^ 256 \<le> unat a + (unat b - 1)
   | Some c \<Rightarrow> unat a \<le> unat c * unat b \<and> unat c * unat b < unat a + unat b"
proof (cases "checked_ceil_div a b")
  case None
  then have "\<not> (0 < unat b \<and> unat a + (unat b - 1) < 2 ^ 256)"
  proof -
    have False if "0 < unat b" "unat a + (unat b - 1) < 2 ^ 256"
    proof -
      have "(unat a + (unat b - 1)) div unat b < 2 ^ 256"
        using that(2) by (meson div_le_dividend le_less_trans)
      then have "checked_ceil_div a b = Some (of_nat ((unat a + (unat b - 1)) div unat b))"
        using that by (simp add: checked_ceil_div_Some unat_of_nat)
      with None show False by simp
    qed
    then show ?thesis by blast
  qed
  with None show ?thesis by auto
next
  case (Some c)
  then have "0 < unat b" "unat c = (unat a + (unat b - 1)) div unat b"
    by (auto simp: checked_ceil_div_Some)
  from ceil_div_nat_bounds [OF this] Some show ?thesis by simp
qed

end
