(* ===== verification/Remaining_Amounts.thy ===== *)
theory Remaining_Amounts
  imports Numbers Orders
begin

text \<open>
  Remaining amounts of partially executed orders, \<open>crates/shared/src/remaining_amounts.rs\<close>: the two
  ratios of an order that are still available (by execution, by owner balance) and the scaling of an
  amount by both, with the overflow behaviour of the settlement contract.

  The ratios are built with \<open>Ratio::new_raw\<close>, so numerator and denominator are kept as they are.
\<close>

type_synonym ratio = "u256 \<times> u256"

record remaining_order =
  ro_kind :: order_kind
  ro_buy_amount :: u256
  ro_sell_amount :: u256
  ro_fee_amount :: u256
  ro_executed_amount :: u256
  ro_partially_fillable :: bool

record remaining =
  rem_execution :: ratio
  rem_balance :: ratio

datatype remaining_error =
    ExecutedLargerThanTotal | OverflowScalingSell | OverflowScalingFee | NeedOverflow
  | OverflowSellPlusFee | OverflowExecutionScaling | OverflowBalanceScaling

section \<open>Ratios\<close>

definition ratio_one :: ratio where
  "ratio_one = (1, 1)"

definition ratio_zero :: ratio where
  "ratio_zero = (0, 1)"

definition scalar_mul :: "ratio \<Rightarrow> u256 \<Rightarrow> u256 option" where
  "scalar_mul ratio scalar =
     Option.bind (checked_mul scalar (fst ratio)) (\<lambda>p. checked_div p (snd ratio))"

text \<open>\<open>full_mul\<close> is the exact 512-bit product; only the quotient has to fit 256 bits.\<close>

definition full_scalar_mul :: "ratio \<Rightarrow> u256 \<Rightarrow> u256 option" where
  "full_scalar_mul ratio scalar =
     (if snd ratio = 0 then None
      else let q = unat scalar * unat (fst ratio) div unat (snd ratio)
           in if q < 2 ^ 256 then Some (of_nat q) else None)"

section \<open>Orders and their ratios\<close>

text \<open>\<open>From<&ModelOrder> for Order\<close>: a buy order executed beyond 256 bits counts as fully executed.\<close>

definition remaining_order_of :: "order \<Rightarrow> remaining_order" where
  "remaining_order_of ord =
     (let d = o_data ord
      in \<lparr>ro_kind = od_kind d,
          ro_buy_amount = od_buy_amount d,
          ro_sell_amount = od_sell_amount d,
          ro_fee_amount = od_fee_amount d,
          ro_executed_amount =
            (case od_kind d of
               Buy \<Rightarrow> (case big_uint_to_u256 (om_executed_buy_amount (o_metadata ord)) of
                         Ok x \<Rightarrow> x | _ \<Rightarrow> od_buy_amount d)
             | Sell \<Rightarrow> om_executed_sell_amount_before_fees (o_metadata ord)),
          ro_partially_fillable = od_partially_fillable d\<rparr>)"

definition ro_total :: "remaining_order \<Rightarrow> u256" where
  "ro_total ord = (case ro_kind ord of Buy \<Rightarrow> ro_buy_amount ord | Sell \<Rightarrow> ro_sell_amount ord)"

definition from_order_with_balance :: "remaining_order \<Rightarrow> u256 \<Rightarrow> (remaining_error, remaining) outcome" where
  "from_order_with_balance ord sell_balance =
     (let total = ro_total ord
      in if ro_partially_fillable ord then
           obind (ok_or (checked_sub total (ro_executed_amount ord)) ExecutedLargerThanTotal) (\<lambda>left.
           let execution = (left, total)
           in obind (ok_or (scalar_mul execution (ro_sell_amount ord)) OverflowScalingSell) (\<lambda>sell_amount.
              obind (ok_or (scalar_mul execution (ro_fee_amount ord)) OverflowScalingFee) (\<lambda>fee_amount.
              obind (ok_or (checked_add sell_amount fee_amount) NeedOverflow) (\<lambda>need.
              let balance = (if sell_balance < need then (sell_balance, need) else ratio_one)
              in Ok \<lparr>rem_execution = execution, rem_balance = balance\<rparr>))))
         else
           obind (ok_or (checked_add (ro_sell_amount ord) (ro_fee_amount ord)) OverflowSellPlusFee) (\<lambda>sell.
           let execution = (if ro_executed_amount ord = 0 then ratio_one else ratio_zero);
               balance = (if sell_balance \<ge> sell then ratio_one else ratio_zero)
           in Ok \<lparr>rem_execution = execution, rem_balance = balance\<rparr>))"

definition from_order :: "remaining_order \<Rightarrow> (remaining_error, remaining) outcome" where
  "from_order ord = from_order_with_balance ord u256_max"

definition remaining_amount :: "remaining \<Rightarrow> u256 \<Rightarrow> (remaining_error, u256) outcome" where
  "remaining_amount r amount =
     obind (ok_or (scalar_mul (rem_execution r) amount) OverflowExecutionScaling) (\<lambda>scaled.
     ok_or (full_scalar_mul (rem_balance r) scaled) OverflowBalanceScaling)"

section \<open>Lemmas\<close>

text \<open>A well-formed ratio is at most one.\<close>

definition ratio_wf :: "ratio \<Rightarrow> bool" where
  "ratio_wf r \<longleftrightarrow> unat (fst r) \<le> unat (snd r)"

definition remaining_wf :: "remaining \<Rightarrow> bool" where
  "remaining_wf r \<longleftrightarrow> ratio_wf (rem_execution r) \<and> ratio_wf (rem_balance r)"

lemma ratio_wf_consts [simp]: "ratio_wf ratio_one" "ratio_wf ratio_zero"
  by (simp_all add: ratio_wf_def ratio_one_def ratio_zero_def)

lemma scalar_mul_Some:
  "scalar_mul r x = Some y \<longleftrightarrow>
     unat (snd r) \<noteq> 0 \<and> unat x * unat (fst r) < 2 ^ 256 \<and> unat y = unat x * unat (fst r) div unat (snd r)"
proof (cases "checked_mul x (fst r)")
  case None
  then show ?thesis by (simp add: scalar_mul_def) (simp add: chk)
next
  case (Some p)
  then have p: "unat p = unat x * unat (fst r)" by (simp add: chk)
  moreover have "unat x * unat (fst r) < 2 ^ 256"
    using unat_bound [of p] p by simp
  ultimately show ?thesis
    using Some by (simp add: scalar_mul_def) (simp add: chk)
qed

lemma full_scalar_mul_Some:
  "full_scalar_mul r x = Some y \<longleftrightarrow>
     unat (snd r) \<noteq> 0 \<and> unat y = unat x * unat (fst r) div unat (snd r)"
proof -
  have "of_nat n = y \<longleftrightarrow> n = unat y" if "n < 2 ^ 256" for n
    using that by (auto simp: unat_of_nat)
  then show ?thesis
    using unat_bound [of y]
    by (auto simp: full_scalar_mul_def Let_def unat_eq_zero unat_of_nat split: if_splits)
qed

lemma ratio_scale_le:
  fixes x n d :: nat
  assumes "n \<le> d"
  shows "x * n div d \<le> x"
proof (cases "d = 0")
  case False
  have "x * n \<le> x * d" using assms by simp
  then have "x * n div d \<le> x * d div d" by (rule div_le_mono)
  with False show ?thesis by simp
qed simp

text \<open>The invariant of the constructor, and what a scaled amount is.\<close>

lemma from_order_with_balance_wf:
  "from_order_with_balance ord bal = Ok r \<Longrightarrow> remaining_wf r"
  by (auto simp: from_order_with_balance_def Let_def outc remaining_wf_def ratio_wf_def chk
      ratio_one_def ratio_zero_def word_less_nat_alt split: if_splits)

lemma remaining_amount_Ok:
  "remaining_amount r amount = Ok x \<longleftrightarrow>
     (\<exists>scaled. scalar_mul (rem_execution r) amount = Some scaled
        \<and> full_scalar_mul (rem_balance r) scaled = Some x)"
  by (auto simp: remaining_amount_def outc)

lemma remaining_amount_le:
  assumes "remaining_wf r" and "remaining_amount r amount = Ok x"
  shows "unat x \<le> unat amount * unat (fst (rem_execution r)) div unat (snd (rem_execution r))"
    and "unat x \<le> unat amount"
proof -
  from assms(2) obtain scaled where s: "scalar_mul (rem_execution r) amount = Some scaled"
    and x: "full_scalar_mul (rem_balance r) scaled = Some x"
    by (auto simp: remaining_amount_Ok)
  from x have "unat x \<le> unat scaled"
    using assms(1) by (auto simp: full_scalar_mul_Some remaining_wf_def ratio_wf_def intro: ratio_scale_le)
  with s show le: "unat x \<le> unat amount * unat (fst (rem_execution r)) div unat (snd (rem_execution r))"
    by (simp add: scalar_mul_Some)
  also have "\<dots> \<le> unat amount"
    by (rule ratio_scale_le) (use assms(1) in \<open>simp add: remaining_wf_def ratio_wf_def\<close>)
  finally show "unat x \<le> unat amount" .
qed

text \<open>Two parts of \<open>need\<close>, each scaled down by \<open>balance / need\<close>, together fit the balance.\<close>

lemma split_balance:
  fixes s f need bal :: nat
  assumes "s + f = need"
  shows "s * bal div need + f * bal div need \<le> bal"
proof (cases "need = 0")
  case False
  have "(s * bal div need + f * bal div need) * need \<le> s * bal + f * bal"
    by (simp only: add_mult_distrib) (intro add_mono div_times_less_eq_dividend)
  also have "\<dots> = bal * need"
    by (simp add: algebra_simps flip: assms)
  finally show ?thesis using False by simp
qed simp

section \<open>Properties\<close>

text \<open>
  C17. The remaining part of an order never needs more than the owner has: the remaining sell amount
  and the remaining fee together fit the balance the ratios were computed with, for partially
  fillable and for fill-or-kill orders.
\<close>

theorem remaining_fits_balance:
  assumes "from_order_with_balance ord balance = Ok r"
    and "remaining_amount r (ro_sell_amount ord) = Ok sell"
    and "remaining_amount r (ro_fee_amount ord) = Ok fee"
  shows "unat sell + unat fee \<le> unat balance"
proof (cases "ro_partially_fillable ord")
  case True
  with assms(1) obtain s f need where
    s: "scalar_mul (rem_execution r) (ro_sell_amount ord) = Some s" and
    f: "scalar_mul (rem_execution r) (ro_fee_amount ord) = Some f" and
    need: "unat need = unat s + unat f" and
    bal: "rem_balance r = (if balance < need then (balance, need) else ratio_one)"
    by (auto simp: from_order_with_balance_def Let_def outc checked_add_Some)
  from assms(2,3) s f have sell: "full_scalar_mul (rem_balance r) s = Some sell"
    and fee: "full_scalar_mul (rem_balance r) f = Some fee"
    by (auto simp: remaining_amount_Ok)
  show ?thesis
  proof (cases "balance < need")
    case True
    with bal sell fee show ?thesis
      using split_balance [of "unat s" "unat f" "unat need" "unat balance"] need
      by (simp add: full_scalar_mul_Some)
  next
    case False
    with bal sell fee need show ?thesis
      by (simp add: full_scalar_mul_Some ratio_one_def word_less_nat_alt)
  qed
next
  case False
  with assms(1) obtain amount where
    amount: "unat amount = unat (ro_sell_amount ord) + unat (ro_fee_amount ord)" and
    bal: "rem_balance r = (if balance \<ge> amount then ratio_one else ratio_zero)"
    by (auto simp: from_order_with_balance_def Let_def outc checked_add_Some)
  have wf: "remaining_wf r" using assms(1) by (rule from_order_with_balance_wf)
  show ?thesis
  proof (cases "balance \<ge> amount")
    case True
    then show ?thesis
      using remaining_amount_le(2) [OF wf assms(2)] remaining_amount_le(2) [OF wf assms(3)] amount
      by (simp add: word_le_nat_alt)
  next
    case False
    with bal assms(2,3) show ?thesis
      by (auto simp: remaining_amount_Ok full_scalar_mul_Some ratio_zero_def)
  qed
qed

theorem remaining_fits_balance_witness:
  "\<exists>r sell fee.
     from_order_with_balance
       \<lparr>ro_kind = Sell, ro_buy_amount = 100, ro_sell_amount = 90, ro_fee_amount = 10,
        ro_executed_amount = 45, ro_partially_fillable = True\<rparr> 20 = Ok r
     \<and> remaining_amount r 90 = Ok sell \<and> remaining_amount r 10 = Ok fee
     \<and> unat sell + unat fee \<le> unat (20 :: u256)"
proof -
  let ?o = "\<lparr>ro_kind = Sell, ro_buy_amount = 100, ro_sell_amount = 90, ro_fee_amount = 10,
     ro_executed_amount = 45, ro_partially_fillable = True\<rparr>"
  let ?r = "\<lparr>rem_execution = (45, 90), rem_balance = (20, 50)\<rparr>"
  have "from_order_with_balance ?o 20 = Ok ?r"
    by (simp add: from_order_with_balance_def ro_total_def scalar_mul_def checked_sub_def checked_mul_def
        checked_div_def checked_add_def)
  moreover have "remaining_amount ?r (ro_sell_amount ?o) = Ok 18" "remaining_amount ?r (ro_fee_amount ?o) = Ok 2"
    by (simp_all add: remaining_amount_def scalar_mul_def full_scalar_mul_def checked_mul_def checked_div_def)
  ultimately show ?thesis
    using remaining_fits_balance [of ?o 20 ?r 18 2] by auto
qed

text \<open>
  A partially fillable order is never over-filled: what was executed and what remains of the
  executed side add up to at most the order's total.
\<close>

theorem remaining_no_overfill:
  assumes "ro_partially_fillable ord"
    and "from_order_with_balance ord balance = Ok r"
    and "remaining_amount r (ro_total ord) = Ok x"
  shows "unat (ro_executed_amount ord) + unat x \<le> unat (ro_total ord)"
proof -
  from assms(1,2) obtain left where
    left: "unat (ro_total ord) = unat (ro_executed_amount ord) + unat left" and
    ex: "rem_execution r = (left, ro_total ord)"
    by (auto simp: from_order_with_balance_def Let_def outc checked_sub_Some)
  have "unat x \<le> unat (ro_total ord) * unat left div unat (ro_total ord)"
    using remaining_amount_le(1) [OF from_order_with_balance_wf [OF assms(2)] assms(3)] ex by simp
  also have "\<dots> \<le> unat left"
    by (cases "unat (ro_total ord) = 0") simp_all
  finally show ?thesis using left by simp
qed

theorem remaining_no_overfill_witness:
  "unat (45 :: u256) + unat (18 :: u256) \<le> unat (90 :: u256)"
proof -
  let ?o = "\<lparr>ro_kind = Sell, ro_buy_amount = 100, ro_sell_amount = 90, ro_fee_amount = 10,
     ro_executed_amount = 45, ro_partially_fillable = True\<rparr>"
  let ?r = "\<lparr>rem_execution = (45, 90), rem_balance = (20, 50)\<rparr>"
  have "from_order_with_balance ?o 20 = Ok ?r"
    by (simp add: from_order_with_balance_def ro_total_def scalar_mul_def checked_sub_def checked_mul_def
        checked_div_def checked_add_def)
  moreover have "remaining_amount ?r (ro_total ?o) = Ok 18"
    by (simp add: ro_total_def remaining_amount_def scalar_mul_def full_scalar_mul_def checked_mul_def checked_div_def)
  ultimately show ?thesis
    using remaining_no_overfill [of ?o 20 ?r 18] by (simp add: ro_total_def)
qed

text \<open>
  An untouched fill-or-kill order whose owner can pay sell amount and fee keeps every amount as it
  is, up to the largest \<open>U256\<close>: no scaling, hence no overflow. Once executed, or without the funds,
  nothing remains.
\<close>

theorem fill_or_kill_all_or_nothing:
  assumes "\<not> ro_partially_fillable ord"
    and "unat (ro_sell_amount ord) + unat (ro_fee_amount ord) < 2 ^ 256"
  shows "obind (from_order_with_balance ord balance) (\<lambda>r. remaining_amount r amount) =
     Ok (if ro_executed_amount ord = 0
            \<and> unat (ro_sell_amount ord) + unat (ro_fee_amount ord) \<le> unat balance
         then amount else 0)"
proof -
  let ?sum = "ro_sell_amount ord + ro_fee_amount ord"
  have sum: "checked_add (ro_sell_amount ord) (ro_fee_amount ord) = Some ?sum"
    "unat ?sum = unat (ro_sell_amount ord) + unat (ro_fee_amount ord)"
    using assms(2) by (simp_all add: checked_add_def unat_word_ariths)
  have one: "scalar_mul ratio_one x = Some x" "full_scalar_mul ratio_one x = Some x"
    and zero: "scalar_mul ratio_zero x = Some 0" "full_scalar_mul ratio_zero x = Some 0" for x
    using unat_bound [of x] by (simp_all add: scalar_mul_Some full_scalar_mul_Some ratio_one_def ratio_zero_def)
  show ?thesis
    using assms(1)
    by (simp add: from_order_with_balance_def Let_def sum(1) remaining_amount_def one zero word_le_nat_alt sum(2))
qed

theorem fill_or_kill_all_or_nothing_witness:
  "obind (from_order_with_balance
       \<lparr>ro_kind = Buy, ro_buy_amount = - 1, ro_sell_amount = 1000, ro_fee_amount = 337,
        ro_executed_amount = 0, ro_partially_fillable = False\<rparr> 2000)
     (\<lambda>r. remaining_amount r u256_max) = Ok u256_max"
  by (subst fill_or_kill_all_or_nothing) simp_all

end
