(* ===== verification/Fixed_Point.thy ===== *)
theory Fixed_Point
  imports Numbers
begin

text \<open>
  The checked 256-bit arithmetic and the 18-decimal fixed point numbers of the Balancer pools:
  \<open>crates/shared/src/sources/balancer_v2/swap/error.rs\<close>, \<open>math.rs\<close> and \<open>fixed_point.rs\<close> (all but
  the powers, which are in the theory of the exponential).

  A \<open>Bfp\<close> wraps a \<open>U256\<close>; the model keeps the word. Every operation has its error branch, and the
  operators the code uses unchecked (\<open>-\<close>, \<open>+\<close>, \<open>/\<close> on \<open>U256\<close>) panic where they overflow.
\<close>

datatype bal_error =
    AddOverflow | SubOverflow | MulOverflow | ZeroDivision | DivInternal | XOutOfBounds | YOutOfBounds
  | ProductOutOfBounds | InvalidExponent | MaxInRatio | MaxOutRatio | InvalidToken
  | StableInvariantDidntConverge | StableGetBalanceDidntConverge

fun bal_error_code :: "bal_error \<Rightarrow> nat" where
  "bal_error_code AddOverflow = 0"
| "bal_error_code SubOverflow = 1"
| "bal_error_code MulOverflow = 3"
| "bal_error_code ZeroDivision = 4"
| "bal_error_code DivInternal = 5"
| "bal_error_code XOutOfBounds = 6"
| "bal_error_code YOutOfBounds = 7"
| "bal_error_code ProductOutOfBounds = 8"
| "bal_error_code InvalidExponent = 9"
| "bal_error_code MaxInRatio = 304"
| "bal_error_code MaxOutRatio = 305"
| "bal_error_code InvalidToken = 309"
| "bal_error_code StableInvariantDidntConverge = 321"
| "bal_error_code StableGetBalanceDidntConverge = 322"

type_synonym 'a bal = "(bal_error, 'a) outcome"

section \<open>Checked arithmetic\<close>

definition bmul :: "u256 \<Rightarrow> u256 \<Rightarrow> u256 bal" where
  "bmul a b = ok_or (checked_mul a b) MulOverflow"

definition badd :: "u256 \<Rightarrow> u256 \<Rightarrow> u256 bal" where
  "badd a b = ok_or (checked_add a b) AddOverflow"

definition bsub :: "u256 \<Rightarrow> u256 \<Rightarrow> u256 bal" where
  "bsub a b = ok_or (checked_sub a b) SubOverflow"

definition bdiv_down :: "u256 \<Rightarrow> u256 \<Rightarrow> u256 bal" where
  "bdiv_down a b = (if b = 0 then Err ZeroDivision else div_p a b)"

definition bdiv_up :: "u256 \<Rightarrow> u256 \<Rightarrow> u256 bal" where
  "bdiv_up a b =
     (if b = 0 then Err ZeroDivision
      else if a = 0 then Ok 0
      else obind (sub_p a 1) (\<lambda>d. obind (div_p d b) (\<lambda>q. add_p 1 q)))"

section \<open>Fixed point numbers\<close>

type_synonym bfp = u256

definition ONE_18 :: u256 where
  "ONE_18 = 1000000000000000000"

definition bfp_one :: bfp where
  "bfp_one = ONE_18"

definition bfp_two :: bfp where
  "bfp_two = ONE_18 * 2"

definition bfp_four :: bfp where
  "bfp_four = ONE_18 * 4"

definition MAX_POW_RELATIVE_ERROR :: bfp where
  "MAX_POW_RELATIVE_ERROR = 10000"

definition bfp_from_usize :: "nat \<Rightarrow> ('e, bfp) outcome" where
  "bfp_from_usize num = expect (checked_mul (of_nat num) ONE_18)"

definition bfp_to_big_rational :: "bfp \<Rightarrow> rat" where
  "bfp_to_big_rational num = Fract (u256_to_big_int num) (u256_to_big_int ONE_18)"

datatype bfp_parse_error = FractionalRemainder | BfpConversion number_error

definition bfp_try_from_rational :: "rat \<Rightarrow> (bfp_parse_error, bfp) outcome" where
  "bfp_try_from_rational value =
     (let scaled = value * of_int (u256_to_big_int ONE_18)
      in case quotient_of scaled of
           (numer, denom) \<Rightarrow>
             if denom = 1 then map_err BfpConversion (big_int_to_u256 numer)
             else Err FractionalRemainder)"

text \<open>\<open>U256::exp10\<close> panics beyond the 77 decimals of a \<open>U256\<close>.\<close>

definition u256_exp10 :: "nat \<Rightarrow> ('e, u256) outcome" where
  "u256_exp10 n = (if 10 ^ n < (2 :: nat) ^ 256 then Ok (10 ^ n) else Panic)"

definition bfp_exp10 :: "int \<Rightarrow> ('e, bfp) outcome" where
  "bfp_exp10 e =
     (let e' = min (e + 18) (2 ^ 31 - 1)
      in if e' < 0 then Ok 0 else u256_exp10 (nat e'))"

definition bfp_add :: "bfp \<Rightarrow> bfp \<Rightarrow> bfp bal" where
  "bfp_add a b = ok_or (checked_add a b) AddOverflow"

definition bfp_sub :: "bfp \<Rightarrow> bfp \<Rightarrow> bfp bal" where
  "bfp_sub a b = ok_or (checked_sub a b) SubOverflow"

definition mul_down :: "bfp \<Rightarrow> bfp \<Rightarrow> bfp bal" where
  "mul_down a b = obind (ok_or (checked_mul a b) MulOverflow) (\<lambda>p. div_p p ONE_18)"

definition mul_up :: "bfp \<Rightarrow> bfp \<Rightarrow> bfp bal" where
  "mul_up a b =
     obind (ok_or (checked_mul a b) MulOverflow) (\<lambda>product.
     if product = 0 then Ok 0
     else obind (sub_p product 1) (\<lambda>d. obind (div_p d ONE_18) (\<lambda>q. add_p q 1)))"

definition div_down :: "bfp \<Rightarrow> bfp \<Rightarrow> bfp bal" where
  "div_down a b =
     (if b = 0 then Err ZeroDivision
      else obind (ok_or (checked_mul a ONE_18) DivInternal) (\<lambda>p. div_p p b))"

definition div_up :: "bfp \<Rightarrow> bfp \<Rightarrow> bfp bal" where
  "div_up a b =
     (if b = 0 then Err ZeroDivision
      else if a = 0 then Ok 0
      else obind (ok_or (checked_mul a ONE_18) DivInternal) (\<lambda>a_inflated.
           obind (sub_p a_inflated 1) (\<lambda>d.
           obind (div_p d b) (\<lambda>q.
           add_p q 1))))"

definition complement :: "bfp \<Rightarrow> bfp" where
  "complement a = (if a < ONE_18 then ONE_18 - a else 0)"

section \<open>Lemmas\<close>

text \<open>Ceiling of a quotient of naturals; zero divided by anything is zero.\<close>

definition cdiv :: "nat \<Rightarrow> nat \<Rightarrow> nat" where
  "cdiv a b = (if a = 0 then 0 else (a - 1) div b + 1)"

lemma cdiv_bounds:
  assumes "0 < b"
  shows "a \<le> cdiv a b * b" and "cdiv a b * b < a + b"
proof -
  define q m where "q = (a - Suc 0) div b" and "m = (a - Suc 0) mod b"
  then have "q * b + m = a - Suc 0" "m < b"
    using assms by simp_all
  then show "a \<le> cdiv a b * b" "cdiv a b * b < a + b"
    using assms by (auto simp: cdiv_def algebra_simps simp flip: q_def)
qed

lemma cdiv_le_iff: "0 < b \<Longrightarrow> cdiv a b \<le> c \<longleftrightarrow> a \<le> c * b"
proof
  assume "0 < b" "cdiv a b \<le> c"
  then show "a \<le> c * b"
    using cdiv_bounds(1) [of b a] mult_le_mono1 [of "cdiv a b" c b] by linarith
next
  assume b: "0 < b" and "a \<le> c * b"
  then have "cdiv a b * b < (c + 1) * b"
    using cdiv_bounds(2) [of b a] by simp
  then show "cdiv a b \<le> c"
    using b by (simp only: mult_less_cancel2) simp
qed

lemma cdiv_near_div:
  assumes "0 < b"
  shows "a div b \<le> cdiv a b" and "cdiv a b \<le> a div b + 1"
proof -
  have "a div b * b \<le> cdiv a b * b"
    using cdiv_bounds(1) [OF assms, of a] div_times_less_eq_dividend [of a b] by linarith
  then show "a div b \<le> cdiv a b" using assms by simp
  have "a \<le> (a div b + 1) * b"
    using assms by (simp add: add_mult_distrib) (metis dividend_less_times_div less_imp_le mult.commute)
  then show "cdiv a b \<le> a div b + 1"
    using assms by (simp add: cdiv_le_iff)
qed

lemma cdiv_pos_iff: "0 < cdiv a b \<longleftrightarrow> 0 < a"
  by (simp add: cdiv_def)

lemma unat_ONE_18 [simp]: "unat ONE_18 = 10 ^ 18"
  by (simp add: ONE_18_def)

lemma ONE_18_neq_0 [simp]: "ONE_18 \<noteq> 0"
  by (simp add: ONE_18_def)

lemma unat_one [simp]: "unat (1 :: u256) = 1"
  by simp

lemma unat_zero_iff: "unat (x :: 'n::len word) = 0 \<longleftrightarrow> x = 0"
  by (rule unat_0_iff)

text \<open>The checked operations as equations on natural numbers.\<close>

lemma bmul_Ok [chk]: "bmul a b = Ok c \<longleftrightarrow> unat c = unat a * unat b"
  by (simp add: bmul_def outc chk)

lemma badd_Ok [chk]: "badd a b = Ok c \<longleftrightarrow> unat c = unat a + unat b"
  by (simp add: badd_def outc chk)

lemma bsub_Ok [chk]: "bsub a b = Ok c \<longleftrightarrow> unat a = unat b + unat c"
  by (simp add: bsub_def outc chk)

lemma bdiv_down_Ok [chk]: "bdiv_down a b = Ok c \<longleftrightarrow> unat b \<noteq> 0 \<and> unat c = unat a div unat b"
  by (simp add: bdiv_down_def chk unat_zero_iff)

lemma bfp_add_Ok [chk]: "bfp_add a b = Ok c \<longleftrightarrow> unat c = unat a + unat b"
  by (simp add: bfp_add_def outc chk)

lemma bfp_sub_Ok [chk]: "bfp_sub a b = Ok c \<longleftrightarrow> unat a = unat b + unat c"
  by (simp add: bfp_sub_def outc chk)

lemma div_p_word: "b \<noteq> 0 \<Longrightarrow> div_p a b = Ok (a div b)"
  by (simp add: div_p_def checked_div_def)

lemma sub_p_word: "unat b \<le> unat a \<Longrightarrow> sub_p a b = Ok (a - b)"
  by (simp add: sub_p_def checked_sub_def)

lemma add_p_word: "unat a + unat b < 2 ^ LENGTH('n) \<Longrightarrow> add_p a b = Ok (a + b)"
  for a b :: "'n::len word"
  by (simp add: add_p_def checked_add_def)

text \<open>
  The rounding-up idiom \<open>(a - 1) / b + 1\<close> of the code: it never overflows, since \<open>a\<close> is not zero.
\<close>

lemma round_up_idiom:
  fixes a b :: u256
  assumes "a \<noteq> 0" and "b \<noteq> 0"
  shows "obind (sub_p a 1) (\<lambda>d. obind (div_p d b) (\<lambda>q. add_p q 1)) = Ok ((a - 1) div b + 1)"
    and "obind (sub_p a 1) (\<lambda>d. obind (div_p d b) (\<lambda>q. add_p 1 q)) = Ok ((a - 1) div b + 1)"
    and "unat ((a - 1) div b + 1) = cdiv (unat a) (unat b)"
proof -
  have a: "1 \<le> unat a" using assms(1) by (simp add: Suc_le_eq unat_gt_0)
  have u: "unat (a - 1) = unat a - 1"
    using a by (subst unat_minus_le) simp_all
  have q: "unat ((a - 1) div b) = (unat a - 1) div unat b"
    by (simp add: unat_div u)
  have le: "(unat a - 1) div unat b \<le> unat a - 1"
    by (rule div_le_dividend)
  have "unat a < 2 ^ 256"
    using unat_bound [of a] by simp
  with le have no: "unat ((a - 1) div b) + 1 < 2 ^ 256"
    using a unfolding q by linarith
  then show "unat ((a - 1) div b + 1) = cdiv (unat a) (unat b)"
    using a q by (simp add: unat_word_ariths cdiv_def)
  have no': "unat (1 :: u256) + unat ((a - 1) div b) < 2 ^ LENGTH(256)"
    using no by simp
  show "obind (sub_p a 1) (\<lambda>d. obind (div_p d b) (\<lambda>q. add_p q 1)) = Ok ((a - 1) div b + 1)"
    using a no' assms(2) by (simp add: sub_p_word div_p_word add_p_word)
  show "obind (sub_p a 1) (\<lambda>d. obind (div_p d b) (\<lambda>q. add_p 1 q)) = Ok ((a - 1) div b + 1)"
    using a add_p_word [OF no'] assms(2) by (simp add: sub_p_word div_p_word add.commute [of 1])
qed

lemma bdiv_up_Ok [chk]: "bdiv_up a b = Ok c \<longleftrightarrow> unat b \<noteq> 0 \<and> unat c = cdiv (unat a) (unat b)"
proof (cases "b = 0 \<or> a = 0")
  case True
  then show ?thesis
    by (auto simp: bdiv_up_def cdiv_def unat_zero_iff)
next
  case False
  then have "unat b \<noteq> 0" by (simp add: unat_zero_iff)
  moreover have "(a - 1) div b + 1 = c \<longleftrightarrow> unat ((a - 1) div b + 1) = unat c"
    by (simp add: word_unat_eq_iff)
  ultimately show ?thesis
    using False round_up_idiom(3) [of a b] by (auto simp: bdiv_up_def round_up_idiom(2))
qed

lemma mul_down_Ok [chk]:
  "mul_down a b = Ok c \<longleftrightarrow> unat a * unat b < 2 ^ 256 \<and> unat c = unat a * unat b div 10 ^ 18"
proof (cases "checked_mul a b")
  case None
  then show ?thesis by (simp add: mul_down_def) (simp add: chk)
next
  case (Some p)
  then have p: "unat p = unat a * unat b" by (simp add: chk)
  with Some show ?thesis
    using unat_bound [of p] by (simp add: mul_down_def) (simp add: chk)
qed

lemma mul_up_Ok [chk]:
  "mul_up a b = Ok c \<longleftrightarrow> unat a * unat b < 2 ^ 256 \<and> unat c = cdiv (unat a * unat b) (10 ^ 18)"
proof (cases "checked_mul a b")
  case None
  then show ?thesis by (simp add: mul_up_def) (simp add: chk)
next
  case (Some p)
  then have p: "unat p = unat a * unat b" by (simp add: chk)
  have bound: "unat a * unat b < 2 ^ 256" using unat_bound [of p] p by simp
  show ?thesis
  proof (cases "p = 0")
    case True
    with Some p bound show ?thesis by (auto simp: mul_up_def cdiv_def unat_zero_iff)
  next
    case False
    have "(p - 1) div ONE_18 + 1 = c \<longleftrightarrow> unat ((p - 1) div ONE_18 + 1) = unat c"
      by (simp add: word_unat_eq_iff)
    with False Some bound p show ?thesis
      using round_up_idiom(3) [of p ONE_18] by (auto simp: mul_up_def round_up_idiom(1))
  qed
qed

lemma div_down_Ok [chk]:
  "div_down a b = Ok c \<longleftrightarrow>
     unat b \<noteq> 0 \<and> unat a * 10 ^ 18 < 2 ^ 256 \<and> unat c = unat a * 10 ^ 18 div unat b"
proof (cases "checked_mul a ONE_18")
  case None
  then show ?thesis by (simp add: div_down_def) (simp add: chk)
next
  case (Some p)
  then have p: "unat p = unat a * 10 ^ 18" by (simp add: chk)
  with Some show ?thesis
    using unat_bound [of p] by (simp add: div_down_def unat_zero_iff) (simp add: chk unat_zero_iff)
qed

lemma div_up_Ok [chk]:
  "div_up a b = Ok c \<longleftrightarrow>
     unat b \<noteq> 0 \<and> unat a * 10 ^ 18 < 2 ^ 256 \<and> unat c = cdiv (unat a * 10 ^ 18) (unat b)"
proof (cases "checked_mul a ONE_18")
  case None
  then have "2 ^ 256 \<le> unat a * 10 ^ 18" by (simp add: chk)
  moreover from this have "a \<noteq> 0" by auto
  ultimately show ?thesis using None by (simp add: div_up_def)
next
  case (Some p)
  then have p: "unat p = unat a * 10 ^ 18" by (simp add: chk)
  have bound: "unat a * 10 ^ 18 < 2 ^ 256" using unat_bound [of p] p by simp
  show ?thesis
  proof (cases "a = 0 \<or> b = 0")
    case True
    then show ?thesis by (auto simp: div_up_def cdiv_def unat_zero_iff)
  next
    case False
    then have "p \<noteq> 0" using p by (metis mult_eq_0_iff power_not_zero unat_0_iff zero_neq_numeral)
    moreover have "(p - 1) div b + 1 = c \<longleftrightarrow> unat ((p - 1) div b + 1) = unat c"
      by (simp add: word_unat_eq_iff)
    ultimately show ?thesis
      using False Some bound p round_up_idiom(3) [of p b]
      by (auto simp: div_up_def round_up_idiom(1) unat_zero_iff)
  qed
qed

lemma unat_complement [simp]: "unat (complement a) = 10 ^ 18 - unat a"
proof (cases "a < ONE_18")
  case True
  then show ?thesis
    by (simp add: complement_def word_less_nat_alt) (simp add: unat_minus_le)
next
  case False
  then show ?thesis by (simp add: complement_def word_less_nat_alt)
qed

text \<open>None of the operations panics.\<close>

lemma bal_ops_not_Panic [simp]:
  "bmul a b \<noteq> Panic" "badd a b \<noteq> Panic" "bsub a b \<noteq> Panic" "bdiv_down a b \<noteq> Panic" "bdiv_up a b \<noteq> Panic"
  "bfp_add a b \<noteq> Panic" "bfp_sub a b \<noteq> Panic" "mul_down a b \<noteq> Panic" "mul_up a b \<noteq> Panic"
  "div_down a b \<noteq> Panic" "div_up a b \<noteq> Panic"
proof -
  show "bdiv_up a b \<noteq> Panic"
    by (simp add: bdiv_up_def round_up_idiom(2))
  show "mul_up a b \<noteq> Panic"
    by (auto simp: mul_up_def outc round_up_idiom(1) split: if_splits)
  show "div_up a b \<noteq> Panic"
  proof -
    have "p \<noteq> 0" if "checked_mul a ONE_18 = Some p" "a \<noteq> 0" for p
      using that by (auto simp: checked_mul_Some unat_0_iff)
    then show ?thesis
      by (cases "checked_mul a ONE_18") (simp_all add: div_up_def round_up_idiom(1))
  qed
qed (auto simp: bmul_def badd_def bsub_def bdiv_down_def bfp_add_def bfp_sub_def mul_down_def div_down_def
      outc div_p_word)

section \<open>Properties\<close>

text \<open>
  Fixed point multiplication brackets the exact product: \<open>mul_down\<close> rounds it down, \<open>mul_up\<close> rounds it
  up, the two differ by at most one unit in the last place, and both fail with \<open>MulOverflow\<close> exactly
  when the product of the raw values does not fit 256 bits.
\<close>

theorem bfp_mul_brackets:
  "case (mul_down a b, mul_up a b) of
     (Ok lo, Ok hi) \<Rightarrow>
       unat lo * 10 ^ 18 \<le> unat a * unat b \<and> unat a * unat b \<le> unat hi * 10 ^ 18
       \<and> unat lo \<le> unat hi \<and> unat hi \<le> unat lo + 1
   | (Err e, Err e') \<Rightarrow> e = MulOverflow \<and> e' = MulOverflow \<and> 2 ^ 256 \<le> unat a * unat b
   | _ \<Rightarrow> False"
proof (cases "checked_mul a b")
  case None
  then show ?thesis by (simp add: mul_down_def mul_up_def) (simp add: chk)
next
  case (Some p)
  then have bound: "unat a * unat b < 2 ^ 256"
    using unat_bound [of p] by (simp add: chk)
  obtain lo where lo: "mul_down a b = Ok lo"
    using Some by (auto simp: mul_down_def div_p_word)
  obtain hi where hi: "mul_up a b = Ok hi"
    using Some by (cases "p = 0") (auto simp: mul_up_def round_up_idiom(1))
  from lo have "unat lo = unat a * unat b div 10 ^ 18" by (simp add: chk)
  moreover from hi have "unat hi = cdiv (unat a * unat b) (10 ^ 18)" by (simp add: chk)
  ultimately show ?thesis
    using lo hi cdiv_bounds [of "10 ^ 18" "unat a * unat b"] cdiv_near_div [of "10 ^ 18" "unat a * unat b"]
    by simp
qed

text \<open>
  Fixed point division brackets the exact quotient in the same way; a zero divisor is \<open>ZeroDivision\<close>
  and a dividend too large to be scaled is \<open>DivInternal\<close>, in both directions.
\<close>

theorem bfp_div_brackets:
  "case (div_down a b, div_up a b) of
     (Ok lo, Ok hi) \<Rightarrow>
       unat lo * unat b \<le> unat a * 10 ^ 18 \<and> unat a * 10 ^ 18 \<le> unat hi * unat b
       \<and> unat lo \<le> unat hi \<and> unat hi \<le> unat lo + 1 \<and> b \<noteq> 0
   | (Err e, Err e') \<Rightarrow> e = e' \<and> e = (if b = 0 then ZeroDivision else DivInternal)
                         \<and> (b = 0 \<or> 2 ^ 256 \<le> unat a * 10 ^ 18)
   | _ \<Rightarrow> False"
proof (cases "b = 0")
  case True
  then show ?thesis by (simp add: div_down_def div_up_def)
next
  case b: False
  show ?thesis
  proof (cases "checked_mul a ONE_18")
    case None
    then have "2 ^ 256 \<le> unat a * 10 ^ 18" by (simp add: chk)
    moreover from this have "a \<noteq> 0" by auto
    ultimately show ?thesis using b None by (simp add: div_down_def div_up_def)
  next
    case (Some p)
    then have p: "unat p = unat a * 10 ^ 18" by (simp add: chk)
    then have p0: "p = 0 \<longleftrightarrow> a = 0" by (simp flip: unat_zero_iff)
    obtain lo where lo: "div_down a b = Ok lo"
      using Some b by (auto simp: div_down_def div_p_word)
    obtain hi where hi: "div_up a b = Ok hi"
      using Some b p0 by (cases "p = 0") (auto simp: div_up_def round_up_idiom(1))
    from lo have "unat lo = unat a * 10 ^ 18 div unat b" by (simp add: chk)
    moreover from hi have "unat hi = cdiv (unat a * 10 ^ 18) (unat b)" by (simp add: chk)
    moreover have "0 < unat b" using b by (simp add: unat_gt_0)
    ultimately show ?thesis
      using b lo hi cdiv_bounds [of "unat b" "unat a * 10 ^ 18"] cdiv_near_div [of "unat b" "unat a * 10 ^ 18"]
      by simp
  qed
qed

end
