(* ===== verification/Log_Exp_Math.thy ===== *)
theory Log_Exp_Math
  imports Fixed_Point
begin

text \<open>
  The fixed point power function of the Balancer pools,
  \<open>crates/shared/src/sources/balancer_v2/swap/fixed_point/logexpmath.rs\<close>, and the rounded powers of
  \<open>fixed_point.rs\<close>.

  Signed 256-bit integers (\<open>I256\<close>) are integers, and every signed operation checks that its result
  fits 256 bits: an overflow is a \<open>Panic\<close>. The theorems below show that no operation of \<open>pow\<close> ever
  overflows, so the checks never fire and the result is the one of exact integer arithmetic.
  Division truncates towards zero and the remainder has the sign of the dividend.
\<close>

section \<open>Signed 256-bit arithmetic\<close>

definition i256_range :: "int \<Rightarrow> bool" where
  "i256_range i \<longleftrightarrow> - (2 ^ 255) \<le> i \<and> i < 2 ^ 255"

definition i256 :: "int \<Rightarrow> ('e, int) outcome" where
  "i256 i = (if i256_range i then Ok i else Panic)"

definition i_add :: "int \<Rightarrow> int \<Rightarrow> ('e, int) outcome" where
  "i_add a b = i256 (a + b)"

definition i_sub :: "int \<Rightarrow> int \<Rightarrow> ('e, int) outcome" where
  "i_sub a b = i256 (a - b)"

definition i_mul :: "int \<Rightarrow> int \<Rightarrow> ('e, int) outcome" where
  "i_mul a b = i256 (a * b)"

definition tdiv :: "int \<Rightarrow> int \<Rightarrow> int" where
  "tdiv a b = sgn a * sgn b * (\<bar>a\<bar> div \<bar>b\<bar>)"

definition trem :: "int \<Rightarrow> int \<Rightarrow> int" where
  "trem a b = a - tdiv a b * b"

definition i_div :: "int \<Rightarrow> int \<Rightarrow> ('e, int) outcome" where
  "i_div a b = (if b = 0 then Panic else i256 (tdiv a b))"

definition i_rem :: "int \<Rightarrow> int \<Rightarrow> ('e, int) outcome" where
  "i_rem a b = (if b = 0 then Panic else i256 (trem a b))"

definition i_neg :: "int \<Rightarrow> ('e, int) outcome" where
  "i_neg a = i256 (- a)"

section \<open>Constants\<close>

definition I_ONE_18 :: int where
  "I_ONE_18 = 10 ^ 18"

definition I_ONE_20 :: int where
  "I_ONE_20 = 10 ^ 20"

definition I_ONE_36 :: int where
  "I_ONE_36 = 10 ^ 36"

definition MAX_NATURAL_EXPONENT :: int where
  "MAX_NATURAL_EXPONENT = 130 * 10 ^ 18"

definition MIN_NATURAL_EXPONENT :: int where
  "MIN_NATURAL_EXPONENT = - 41 * 10 ^ 18"

definition LN_36_LOWER_BOUND :: int where
  "LN_36_LOWER_BOUND = 10 ^ 18 - 10 ^ 17"

definition LN_36_UPPER_BOUND :: int where
  "LN_36_UPPER_BOUND = 10 ^ 18 + 10 ^ 17"

definition MILD_EXPONENT_BOUND :: u256 where
  "MILD_EXPONENT_BOUND = 2 ^ 254 div 100000000000000000000"

text \<open>The tables; a missing index panics in the source, which is \<open>None\<close> here.\<close>

definition constant_x_20 :: "nat \<Rightarrow> int option" where
  "constant_x_20 i =
     map_of
       [(2, 3200000000000000000000), (3, 1600000000000000000000), (4, 800000000000000000000),
        (5, 400000000000000000000), (6, 200000000000000000000), (7, 100000000000000000000),
        (8, 50000000000000000000), (9, 25000000000000000000), (10, 12500000000000000000),
        (11, 6250000000000000000)] i"

definition constant_x_18 :: "nat \<Rightarrow> int option" where
  "constant_x_18 i = map_of [(0, 128000000000000000000), (1, 64000000000000000000)] i"

definition constant_a_20 :: "nat \<Rightarrow> int option" where
  "constant_a_20 i =
     map_of
       [(2, 7896296018268069516100000000000000), (3, 888611052050787263676000000),
        (4, 298095798704172827474000), (5, 5459815003314423907810), (6, 738905609893065022723),
        (7, 271828182845904523536), (8, 164872127070012814685), (9, 128402541668774148407),
        (10, 113314845306682631683), (11, 106449445891785942956)] i"

definition constant_a_18 :: "nat \<Rightarrow> int option" where
  "constant_a_18 i =
     map_of
       [(0, 38877084059945950922200000000000000000000000000000000000), (1, 6235149080811616882910000000)] i"

section \<open>Exponential\<close>

text \<open>One step of the product loop and of the series loop of \<open>exp\<close>.\<close>

definition exp_product_step :: "nat \<Rightarrow> int \<times> int \<Rightarrow> ('e, int \<times> int) outcome" where
  "exp_product_step i st =
     (case st of (x, product) \<Rightarrow>
        obind (expect (constant_x_20 i)) (\<lambda>x_i.
        if x \<ge> x_i then
          obind (i_sub x x_i) (\<lambda>x'.
          obind (expect (constant_a_20 i)) (\<lambda>a_i.
          obind (i_mul product a_i) (\<lambda>p.
          obind (i_div p I_ONE_20) (\<lambda>product'.
          Ok (x', product')))))
        else Ok (x, product)))"

definition exp_series_step :: "int \<Rightarrow> nat \<Rightarrow> int \<times> int \<Rightarrow> ('e, int \<times> int) outcome" where
  "exp_series_step x i st =
     (case st of (term_i, series_sum) \<Rightarrow>
        obind (i_mul term_i x) (\<lambda>p.
        obind (i_div p I_ONE_20) (\<lambda>q.
        obind (i_div q (int i)) (\<lambda>term'.
        obind (i_add series_sum term') (\<lambda>sum'.
        Ok (term', sum'))))))"

text \<open>
  The body of \<open>exp\<close> for a non-negative argument: the two large factors first, then the rest.
\<close>

definition exp_reduced :: "int \<Rightarrow> int \<Rightarrow> ('e, int) outcome" where
  "exp_reduced x first_an =
     obind (i_mul x 100) (\<lambda>x.
     obind (ofold exp_product_step [2..<10] (x, I_ONE_20)) (\<lambda>(x, product).
     obind (i_add I_ONE_20 x) (\<lambda>series_sum.
     obind (ofold (exp_series_step x) [2..<13] (x, series_sum)) (\<lambda>(term_i, series_sum).
     obind (i_mul product series_sum) (\<lambda>p.
     obind (i_div p I_ONE_20) (\<lambda>q.
     obind (i_mul q first_an) (\<lambda>r.
     i_div r 100)))))))"

definition exp_nonneg :: "int \<Rightarrow> ('e, int) outcome" where
  "exp_nonneg x =
     obind (expect (constant_x_18 0)) (\<lambda>x0.
     obind (expect (constant_x_18 1)) (\<lambda>x1.
     obind (if x \<ge> x0 then
              obind (i_sub x x0) (\<lambda>x'. obind (expect (constant_a_18 0)) (\<lambda>a. Ok (x', a)))
            else if x \<ge> x1 then
              obind (i_sub x x1) (\<lambda>x'. obind (expect (constant_a_18 1)) (\<lambda>a. Ok (x', a)))
            else Ok (x, 1)) (\<lambda>(x, first_an). exp_reduced x first_an)))"

text \<open>\<open>exp\<close>: a negative argument recurses once on its negation.\<close>

function i_exp :: "int \<Rightarrow> int bal" where
  "i_exp x =
     (if \<not> (MIN_NATURAL_EXPONENT \<le> x \<and> x \<le> MAX_NATURAL_EXPONENT) then Err InvalidExponent
      else if x < 0 then
        obind (i_neg x) (\<lambda>x'.
        if x' < 0 then Panic
        else obind (i_mul I_ONE_18 I_ONE_18) (\<lambda>num.
             obind (i_exp x') (\<lambda>den.
             i_div num den)))
      else exp_nonneg x)"
  by pat_completeness auto
termination
  by (relation "measure (\<lambda>x. if x < 0 then 1 else 0)") auto

declare i_exp.simps [simp del]

section \<open>Logarithms\<close>

definition ln_18_step :: "nat \<Rightarrow> int \<times> int \<Rightarrow> ('e, int \<times> int) outcome" where
  "ln_18_step i st =
     (case st of (a, acc) \<Rightarrow>
        obind (expect (constant_a_18 i)) (\<lambda>a_i.
        obind (i_mul a_i I_ONE_18) (\<lambda>bound.
        if a \<ge> bound then
          obind (i_div a a_i) (\<lambda>a'.
          obind (expect (constant_x_18 i)) (\<lambda>x_i.
          obind (i_add acc x_i) (\<lambda>sum'.
          Ok (a', sum'))))
        else Ok (a, acc))))"

definition ln_20_step :: "nat \<Rightarrow> int \<times> int \<Rightarrow> ('e, int \<times> int) outcome" where
  "ln_20_step i st =
     (case st of (a, acc) \<Rightarrow>
        obind (expect (constant_a_20 i)) (\<lambda>a_i.
        if a \<ge> a_i then
          obind (i_mul a I_ONE_20) (\<lambda>p.
          obind (i_div p a_i) (\<lambda>a'.
          obind (expect (constant_x_20 i)) (\<lambda>x_i.
          obind (i_add acc x_i) (\<lambda>sum'.
          Ok (a', sum')))))
        else Ok (a, acc)))"

text \<open>
  One step of the arctanh series of both logarithms; \<open>one\<close> is the unit of the precision used.
\<close>

definition ln_series_step :: "int \<Rightarrow> int \<Rightarrow> nat \<Rightarrow> int \<times> int \<Rightarrow> ('e, int \<times> int) outcome" where
  "ln_series_step one z_squared i st =
     (case st of (num, series_sum) \<Rightarrow>
        obind (i_mul num z_squared) (\<lambda>p.
        obind (i_div p one) (\<lambda>num'.
        obind (i_div num' (int i)) (\<lambda>q.
        obind (i_add series_sum q) (\<lambda>sum'.
        Ok (num', sum'))))))"

definition ln_ge_one :: "int \<Rightarrow> ('e, int) outcome" where
  "ln_ge_one a =
     obind (ofold ln_18_step [0, 1] (a, 0)) (\<lambda>(a, acc).
     obind (i_mul acc 100) (\<lambda>acc.
     obind (i_mul a 100) (\<lambda>a.
     obind (ofold ln_20_step [2..<12] (a, acc)) (\<lambda>(a, acc).
     obind (i_sub a I_ONE_20) (\<lambda>d.
     obind (i_mul d I_ONE_20) (\<lambda>n.
     obind (i_add a I_ONE_20) (\<lambda>s.
     obind (i_div n s) (\<lambda>z.
     obind (i_mul z z) (\<lambda>zz.
     obind (i_div zz I_ONE_20) (\<lambda>z_squared.
     obind (ofold (ln_series_step I_ONE_20 z_squared) [3, 5, 7, 9, 11] (z, z)) (\<lambda>(num, series_sum).
     obind (i_mul series_sum 2) (\<lambda>series_sum.
     obind (i_add acc series_sum) (\<lambda>total.
     i_div total 100)))))))))))))"

text \<open>
  \<open>_ln\<close>: below one it recurses on the reciprocal. The reciprocal of a number below one is at least one
  unless the argument was negative, where the recursion of the source never ends (the stack
  overflows): that abnormal end is \<open>Panic\<close>.
\<close>

definition i_ln :: "int \<Rightarrow> ('e, int) outcome" where
  "i_ln a =
     (if a < I_ONE_18 then
        obind (i_mul I_ONE_18 I_ONE_18) (\<lambda>one_36.
        obind (i_div one_36 a) (\<lambda>a'.
        if a' < I_ONE_18 then Panic
        else obind (ln_ge_one a') i_neg))
      else ln_ge_one a)"

definition i_ln_36 :: "int \<Rightarrow> ('e, int) outcome" where
  "i_ln_36 x =
     obind (i_mul x I_ONE_18) (\<lambda>x.
     obind (i_sub x I_ONE_36) (\<lambda>d.
     obind (i_mul d I_ONE_36) (\<lambda>n.
     obind (i_add x I_ONE_36) (\<lambda>s.
     obind (i_div n s) (\<lambda>z.
     obind (i_mul z z) (\<lambda>zz.
     obind (i_div zz I_ONE_36) (\<lambda>z_squared.
     obind (ofold (ln_series_step I_ONE_36 z_squared) [3, 5, 7, 9, 11, 13, 15] (z, z)) (\<lambda>(num, series_sum).
     i_mul series_sum 2))))))))"

section \<open>Powers\<close>

text \<open>\<open>I256::try_from(U256)\<close> and \<open>I256::into_raw\<close>.\<close>

definition i256_try_from :: "u256 \<Rightarrow> int option" where
  "i256_try_from x = (if uint x < 2 ^ 255 then Some (uint x) else None)"

definition i256_into_raw :: "int \<Rightarrow> u256" where
  "i256_into_raw i = of_int i"

text \<open>The logarithm of the base times the exponent, with the precise logarithm near one.\<close>

definition pow_log :: "int \<Rightarrow> int \<Rightarrow> ('e, int) outcome" where
  "pow_log x_int256 y_int256 =
     (if LN_36_LOWER_BOUND < x_int256 \<and> x_int256 < LN_36_UPPER_BOUND then
        obind (i_ln_36 x_int256) (\<lambda>ln_36_x.
        obind (i_div ln_36_x I_ONE_18) (\<lambda>q.
        obind (i_mul q y_int256) (\<lambda>hi.
        obind (i_rem ln_36_x I_ONE_18) (\<lambda>r.
        obind (i_mul r y_int256) (\<lambda>ry.
        obind (i_div ry I_ONE_18) (\<lambda>lo.
        i_add hi lo))))))
      else obind (i_ln x_int256) (\<lambda>l. i_mul l y_int256))"

definition i_pow :: "u256 \<Rightarrow> u256 \<Rightarrow> u256 bal" where
  "i_pow x y =
     (if y = 0 then Ok ONE_18
      else if x = 0 then Ok 0
      else obind (ok_or (i256_try_from x) XOutOfBounds) (\<lambda>x_int256.
           obind (if y < MILD_EXPONENT_BOUND then expect (i256_try_from y) else Err YOutOfBounds) (\<lambda>y_int256.
           obind (pow_log x_int256 y_int256) (\<lambda>logx_times_y.
           obind (i_div logx_times_y I_ONE_18) (\<lambda>logx_times_y.
           if \<not> (MIN_NATURAL_EXPONENT \<le> logx_times_y \<and> logx_times_y \<le> MAX_NATURAL_EXPONENT)
           then Err ProductOutOfBounds
           else obind (i_exp logx_times_y) (\<lambda>v. Ok (i256_into_raw v)))))))"

definition add_pow_error :: "bfp \<Rightarrow> bfp bal" where
  "add_pow_error raw =
     obind (mul_up raw MAX_POW_RELATIVE_ERROR) (\<lambda>e.
     obind (bfp_add e 1) (\<lambda>max_error.
     bfp_add raw max_error))"

definition pow_up :: "bfp \<Rightarrow> bfp \<Rightarrow> bfp bal" where
  "pow_up x e = obind (i_pow x e) add_pow_error"

definition pow_up_v3 :: "bfp \<Rightarrow> bfp \<Rightarrow> bfp bal" where
  "pow_up_v3 x e =
     (if e = bfp_one then Ok x
      else if e = bfp_two then mul_up x x
      else if e = bfp_four then obind (mul_up x x) (\<lambda>square. mul_up square square)
      else obind (i_pow x e) add_pow_error)"

type_synonym 'e pair_outcome = "('e, int \<times> int) outcome"

section \<open>Ranges of the signed operations\<close>

lemma i256_rangeI: "\<bar>i\<bar> < 2 ^ 255 \<Longrightarrow> i256_range i"
  by (auto simp: i256_range_def)

lemma returns_i256 [wp]: "returns P (i256 i) \<longleftrightarrow> i256_range i \<and> P i"
  by (auto simp: i256_def wp)

lemma returns_i_ops [wp]:
  "returns P (i_add a b) \<longleftrightarrow> i256_range (a + b) \<and> P (a + b)"
  "returns P (i_sub a b) \<longleftrightarrow> i256_range (a - b) \<and> P (a - b)"
  "returns P (i_mul a b) \<longleftrightarrow> i256_range (a * b) \<and> P (a * b)"
  "returns P (i_neg a) \<longleftrightarrow> i256_range (- a) \<and> P (- a)"
  "returns P (i_div a b) \<longleftrightarrow> b \<noteq> 0 \<and> i256_range (tdiv a b) \<and> P (tdiv a b)"
  "returns P (i_rem a b) \<longleftrightarrow> b \<noteq> 0 \<and> i256_range (trem a b) \<and> P (trem a b)"
  by (auto simp: i_add_def i_sub_def i_mul_def i_neg_def i_div_def i_rem_def wp)

lemma zdiv_mult_le: "0 < b \<Longrightarrow> a div b * b \<le> a" for a b :: int
  by (metis div_mult_mod_eq le_add_same_cancel1 pos_mod_sign)

lemma zdiv_le_self: "0 \<le> a \<Longrightarrow> 0 < b \<Longrightarrow> a div b \<le> a" for a b :: int
  using zdiv_mono2 [of a 1 b] by simp

lemma zle_divI: "0 < b \<Longrightarrow> k * b \<le> a \<Longrightarrow> k \<le> a div b" for a b :: int
  by (metis nonzero_mult_div_cancel_right order_less_irrefl zdiv_mono1)

lemma abs_tdiv: "\<bar>tdiv a b\<bar> = \<bar>a\<bar> div \<bar>b\<bar>"
  by (cases "a = 0 \<or> b = 0")
    (auto simp: tdiv_def abs_mult abs_sgn_eq pos_imp_zdiv_nonneg_iff)

lemma tdiv_nonneg_eq: "0 \<le> a \<Longrightarrow> 0 < b \<Longrightarrow> tdiv a b = a div b"
  by (cases "a = 0") (auto simp: tdiv_def)

lemma tdiv_nonneg: "0 \<le> a \<Longrightarrow> 0 < b \<Longrightarrow> 0 \<le> tdiv a b"
  by (simp add: tdiv_nonneg_eq pos_imp_zdiv_nonneg_iff)

lemma abs_tdiv_le: "0 < b \<Longrightarrow> \<bar>a\<bar> \<le> B * b \<Longrightarrow> \<bar>tdiv a b\<bar> \<le> B"
  by (metis abs_of_pos abs_tdiv nonzero_mult_div_cancel_right order_less_irrefl zdiv_mono1)

lemma abs_tdiv_le_self: "0 < b \<Longrightarrow> \<bar>tdiv a b\<bar> \<le> \<bar>a\<bar>"
  by (rule abs_tdiv_le) (simp_all add: mult_le_cancel_left1)

lemma abs_trem_less: "0 < b \<Longrightarrow> \<bar>trem a b\<bar> < b"
proof -
  assume b: "0 < b"
  have "trem a b = sgn a * (\<bar>a\<bar> mod b)"
    using b by (simp add: trem_def tdiv_def minus_div_mult_eq_mod [symmetric] algebra_simps
        abs_sgn sgn_mult_abs flip: mult.assoc)
  then show ?thesis
    using b by (auto simp: abs_mult abs_sgn_eq)
qed

subsection \<open>The series\<close>

lemma ln_series_step_bound:
  assumes "0 < one" "0 \<le> zz" "zz \<le> one" "\<bar>n\<bar> \<le> Z" "\<bar>s\<bar> \<le> S"
    and fits: "Z * one < 2 ^ 255" "S + Z < 2 ^ 255" and "0 < i"
  shows "returns (\<lambda>(n', s'). \<bar>n'\<bar> \<le> Z \<and> \<bar>s'\<bar> \<le> S + Z \<and> (0 \<le> n \<and> 0 \<le> s \<longrightarrow> 0 \<le> n' \<and> 0 \<le> s'))
           (ln_series_step one zz i (n, s))"
proof -
  define n' where "n' = tdiv (n * zz) one"
  define q where "q = tdiv n' (int i)"
  have prod: "\<bar>n * zz\<bar> \<le> Z * one"
    using assms by (auto simp: abs_mult intro: mult_mono)
  then have n': "\<bar>n'\<bar> \<le> Z"
    using assms(1) unfolding n'_def by (rule abs_tdiv_le [rotated])
  have q: "\<bar>q\<bar> \<le> Z"
    using abs_tdiv_le_self [of "int i" n'] n' \<open>0 < i\<close> unfolding q_def by simp
  have "Z < 2 ^ 255"
    using fits(2) assms(5) by linarith
  then have ranges: "i256_range (n * zz)" "i256_range n'" "i256_range q" "i256_range (s + q)"
    using prod n' q fits assms(5) by (auto intro!: i256_rangeI)
  have signs: "0 \<le> n \<longrightarrow> 0 \<le> n' \<and> 0 \<le> q"
    using assms(1,2) \<open>0 < i\<close> by (auto simp: n'_def q_def tdiv_nonneg)
  show ?thesis
    using ranges n' q signs assms(1,5) \<open>0 < i\<close>
    unfolding ln_series_step_def prod.case
    by (auto simp: wp simp flip: n'_def q_def)
qed

lemma ln_series_bound:
  assumes "0 < one" "0 \<le> zz" "zz \<le> one" "Z * one < 2 ^ 255" "\<forall>i \<in> set is. 0 < i"
    and "\<bar>n\<bar> \<le> Z" "\<bar>s\<bar> \<le> S" "S + int (length is) * Z < 2 ^ 255"
  shows "returns (\<lambda>(n', s'). \<bar>s'\<bar> \<le> S + int (length is) * Z \<and> (0 \<le> n \<and> 0 \<le> s \<longrightarrow> 0 \<le> s'))
           (ofold (ln_series_step one zz) is (n, s) :: 'e pair_outcome)"
  using assms(5-)
proof (induction "is" arbitrary: n s S)
  case (Cons i "is")
  have Z: "0 \<le> Z"
    using Cons.prems(2) by linarith
  then have "S + Z \<le> S + int (length (i # is)) * Z"
    by (simp add: algebra_simps)
  then have "S + Z < 2 ^ 255"
    using Cons.prems(4) by linarith
  then have "returns (\<lambda>(n', s'). \<bar>n'\<bar> \<le> Z \<and> \<bar>s'\<bar> \<le> S + Z \<and> (0 \<le> n \<and> 0 \<le> s \<longrightarrow> 0 \<le> n' \<and> 0 \<le> s'))
      (ln_series_step one zz i (n, s) :: 'e pair_outcome)"
    using ln_series_step_bound [of one zz n Z s S i] assms(1-4) Cons.prems by simp
  then obtain n' s' where st: "ln_series_step one zz i (n, s) = (Ok (n', s') :: 'e pair_outcome)" "\<bar>n'\<bar> \<le> Z" "\<bar>s'\<bar> \<le> S + Z"
      "0 \<le> n \<and> 0 \<le> s \<longrightarrow> 0 \<le> n' \<and> 0 \<le> s'"
    by (auto elim!: returnsE)
  have "returns (\<lambda>(n'', s''). \<bar>s''\<bar> \<le> S + Z + int (length is) * Z \<and> (0 \<le> n' \<and> 0 \<le> s' \<longrightarrow> 0 \<le> s''))
      (ofold (ln_series_step one zz) is (n', s') :: 'e pair_outcome)"
    using Cons.IH [of n' s' "S + Z"] Cons.prems st by (simp add: algebra_simps)
  then show ?case
    using st by (auto simp: algebra_simps elim!: returns_mono)
qed (auto simp: wp)

lemma exp_series_step_bound:
  assumes "0 \<le> x" "x \<le> 25000000000000000000" "0 \<le> t" "t \<le> 25000000000000000000"
    and "I_ONE_20 \<le> s" "7 * s + t \<le> 9 * I_ONE_20" "2 \<le> i"
  shows "returns (\<lambda>(t', s'). 0 \<le> t' \<and> t' \<le> 25000000000000000000 \<and> I_ONE_20 \<le> s' \<and> 7 * s' + t' \<le> 9 * I_ONE_20)
           (exp_series_step x i (t, s))"
proof -
  define w where "w = t * x"
  define q where "q = w div I_ONE_20"
  define t' where "t' = q div int i"
  have tx: "0 \<le> w" "w \<le> t * 25000000000000000000"
    using assms by (auto simp: w_def intro: mult_left_mono)
  have "q * I_ONE_20 \<le> w"
    using zdiv_mult_le [of I_ONE_20 w] unfolding q_def by (simp add: I_ONE_20_def)
  then have q4: "4 * q \<le> t"
    using tx by (simp add: I_ONE_20_def)
  have q0: "0 \<le> q"
    using tx by (simp add: q_def I_ONE_20_def pos_imp_zdiv_nonneg_iff)
  have t'0: "0 \<le> t'"
    using q0 \<open>2 \<le> i\<close> by (simp add: t'_def pos_imp_zdiv_nonneg_iff)
  have "t' * 2 \<le> t' * int i"
    using t'0 \<open>2 \<le> i\<close> by (intro mult_left_mono) auto
  moreover have "t' * int i \<le> q"
    using zdiv_mult_le [of "int i" q] \<open>2 \<le> i\<close> unfolding t'_def by simp
  ultimately have t8: "8 * t' \<le> t"
    using q4 by linarith
  have eqs: "tdiv w I_ONE_20 = q" "tdiv q (int i) = t'"
    using tx q0 \<open>2 \<le> i\<close> by (simp_all add: q_def t'_def tdiv_nonneg_eq I_ONE_20_def)
  have ranges: "i256_range w" "i256_range q" "i256_range t'" "i256_range (s + t')"
    using tx q0 q4 t'0 t8 assms by (auto simp: i256_range_def I_ONE_20_def)
  show ?thesis
    using ranges t'0 t8 assms eqs \<open>2 \<le> i\<close> unfolding exp_series_step_def prod.case
    by (auto simp: wp I_ONE_20_def simp flip: w_def)
qed

subsection \<open>The table loops\<close>

text \<open>
  Interval versions of the two table loops: from a strict upper bound of \<open>x\<close> and an upper bound of
  the product (of \<open>a\<close> and the sum), the bounds after the loop, or \<open>None\<close> when a step might overflow.
  They are only used to compute bounds in proofs.
\<close>

fun product_bound :: "nat list \<Rightarrow> int \<Rightarrow> int \<Rightarrow> (int \<times> int) option" where
  "product_bound [] X U = Some (X, U)"
| "product_bound (i # is) X U =
     (case constant_x_20 i of None \<Rightarrow> None | Some x_i \<Rightarrow>
      case constant_a_20 i of None \<Rightarrow> None | Some a_i \<Rightarrow>
      if X \<le> x_i then product_bound is X U
      else if X \<le> 2 * x_i \<and> x_i < 2 ^ 255 \<and> I_ONE_20 \<le> a_i \<and> U * a_i < 2 ^ 255
      then product_bound is x_i (U * a_i div I_ONE_20)
      else None)"

fun ln_bound :: "nat list \<Rightarrow> int \<Rightarrow> int \<Rightarrow> (int \<times> int) option" where
  "ln_bound [] A S = Some (A, S)"
| "ln_bound (i # is) A S =
     (case constant_x_20 i of None \<Rightarrow> None | Some x_i \<Rightarrow>
      case constant_a_20 i of None \<Rightarrow> None | Some a_i \<Rightarrow>
      if A < a_i then ln_bound is A S
      else if I_ONE_20 \<le> a_i \<and> 0 \<le> x_i \<and> A * I_ONE_20 < 2 ^ 255 \<and> S + x_i < 2 ^ 255
      then ln_bound is (max a_i (A * I_ONE_20 div a_i)) (S + x_i)
      else None)"

lemma exp_product_loop_bound:
  assumes "product_bound is X U = Some (X', U')" "0 \<le> x" "x < X" "I_ONE_20 \<le> p" "p \<le> U"
  shows "returns (\<lambda>(x', p'). 0 \<le> x' \<and> x' < X' \<and> I_ONE_20 \<le> p' \<and> p' \<le> U')
           (ofold exp_product_step is (x, p) :: 'e pair_outcome)"
  using assms
proof (induction "is" X U arbitrary: x p rule: product_bound.induct)
  case (2 i "is" X U)
  from 2(3) obtain xi ai where i: "constant_x_20 i = Some xi" "constant_a_20 i = Some ai"
    by (auto split: option.splits)
  show ?case
  proof (cases "x < xi")
    case True
    then have step: "exp_product_step i (x, p) = (Ok (x, p) :: 'e pair_outcome)"
      using i by (simp add: exp_product_step_def)
    show ?thesis
    proof (cases "X \<le> xi")
      case True
      with 2 i step show ?thesis
        by simp
    next
      case False
      with 2(3) i have c: "I_ONE_20 \<le> ai" "product_bound is xi (U * ai div I_ONE_20) = Some (X', U')"
          and big: "X \<le> 2 * xi \<and> xi < 2 ^ 255 \<and> I_ONE_20 \<le> ai \<and> U * ai < 2 ^ 255"
        by (auto split: if_splits)
      have "U * I_ONE_20 \<le> U * ai"
        using c(1) 2 by (intro mult_left_mono) (auto simp: I_ONE_20_def)
      then have "U \<le> U * ai div I_ONE_20"
        by (intro zle_divI) (simp_all add: I_ONE_20_def)
      with 2(2) [OF i False big c(2), of x p] 2 \<open>x < xi\<close> step show ?thesis
        by simp
    qed
  next
    case False
    with 2 i have big: "X \<le> 2 * xi \<and> xi < 2 ^ 255 \<and> I_ONE_20 \<le> ai \<and> U * ai < 2 ^ 255"
        and nle: "\<not> X \<le> xi" and c: "product_bound is xi (U * ai div I_ONE_20) = Some (X', U')"
      by (auto split: if_splits)
    define w where "w = p * ai"
    have p: "0 < I_ONE_20" "I_ONE_20 \<le> p" "p \<le> U" "I_ONE_20 \<le> ai"
      using 2(6,7) big by (simp_all add: I_ONE_20_def)
    then have "w \<le> U * ai" "I_ONE_20 * I_ONE_20 \<le> w"
      unfolding w_def by (auto intro!: mult_mono)
    then have w: "w \<le> U * ai" "I_ONE_20 * I_ONE_20 \<le> w" "I_ONE_20 \<le> w div I_ONE_20"
        "w div I_ONE_20 \<le> U * ai div I_ONE_20"
      using p(1) by (auto intro: zdiv_mono1 zle_divI)
    have "w div I_ONE_20 \<le> w"
      using w(2) by (simp add: I_ONE_20_def)
    then have ranges: "i256_range (x - xi)" "i256_range w" "i256_range (w div I_ONE_20)"
      using w big False 2(4,5) by (auto simp: i256_range_def I_ONE_20_def)
    have td: "tdiv w I_ONE_20 = w div I_ONE_20"
      using w by (intro tdiv_nonneg_eq) (auto simp: I_ONE_20_def)
    have "exp_product_step i (x, p) = (Ok (x - xi, w div I_ONE_20) :: 'e pair_outcome)"
      using i False ranges td
      by (simp add: exp_product_step_def i_sub_def i_mul_def i_div_def i256_def I_ONE_20_def
            flip: w_def)
    with 2(2) [OF i nle big c, of "x - xi" "w div I_ONE_20"] False w big 2(5) show ?thesis
      by simp
  qed
qed (simp add: wp)

lemma ln_20_loop_bound:
  assumes "ln_bound is A S = Some (A', S')" "I_ONE_20 \<le> a" "a \<le> A" "0 \<le> s" "s \<le> S"
  shows "returns (\<lambda>(a', s'). I_ONE_20 \<le> a' \<and> a' \<le> A' \<and> 0 \<le> s' \<and> s' \<le> S')
           (ofold ln_20_step is (a, s) :: 'e pair_outcome)"
  using assms
proof (induction "is" A S arbitrary: a s rule: ln_bound.induct)
  case (2 i "is" A S)
  from 2(3) obtain xi ai where i: "constant_x_20 i = Some xi" "constant_a_20 i = Some ai"
    by (auto split: option.splits)
  show ?case
  proof (cases "A < ai")
    case True
    then have "ln_20_step i (a, s) = (Ok (a, s) :: 'e pair_outcome)"
      using i 2(5) by (simp add: ln_20_step_def)
    with True 2(1) [OF i True, of a s] 2(3-) i show ?thesis
      by simp
  next
    case False
    with 2(3) i have c: "I_ONE_20 \<le> ai \<and> 0 \<le> xi \<and> A * I_ONE_20 < 2 ^ 255 \<and> S + xi < 2 ^ 255"
        and rest: "ln_bound is (max ai (A * I_ONE_20 div ai)) (S + xi) = Some (A', S')"
      by (auto split: if_splits)
    note IH = 2(2) [OF i False c rest]
    show ?thesis
    proof (cases "a < ai")
      case True
      then have "ln_20_step i (a, s) = (Ok (a, s) :: 'e pair_outcome)"
        using i by (simp add: ln_20_step_def)
      with IH [of a s] True c 2(4-) show ?thesis
        by simp
    next
      case ge: False
      define w where "w = a * I_ONE_20"
      have pos: "0 < I_ONE_20" "0 < ai"
        using c by (auto simp: I_ONE_20_def)
      have w: "w \<le> A * I_ONE_20" "I_ONE_20 * ai \<le> w" "0 \<le> w"
        using 2(4,5) pos ge by (auto simp: w_def)
      have d: "I_ONE_20 \<le> w div ai" "w div ai \<le> A * I_ONE_20 div ai"
        using w pos by (auto intro: zle_divI zdiv_mono1)
      have "w div ai * 1 \<le> w div ai * ai"
        using d pos by (intro mult_left_mono) linarith+
      then have "w div ai \<le> w"
        using zdiv_mult_le [OF pos(2), of w] by linarith
      then have ranges: "i256_range w" "i256_range (w div ai)" "i256_range (s + xi)"
        using w d pos c 2(6,7) by (auto simp: i256_range_def)
      have td: "tdiv w ai = w div ai"
        using w pos by (intro tdiv_nonneg_eq) auto
      have "ln_20_step i (a, s) = (Ok (w div ai, s + xi) :: 'e pair_outcome)"
        using i ge ranges td pos
        by (simp add: ln_20_step_def i_add_def i_mul_def i_div_def i256_def flip: w_def)
      with IH [of "w div ai" "s + xi"] d c 2(6,7) show ?thesis
        by simp
    qed
  qed
qed (simp add: wp)

subsection \<open>Logarithms stay small\<close>

lemma ln_18_step_taken:
  assumes i: "constant_a_18 i = Some a_i" "constant_x_18 i = Some x_i"
    and "0 < a_i" "a_i * I_ONE_18 \<le> a" "a < 2 ^ 255" "0 \<le> s" "0 \<le> x_i" "s + x_i < 2 ^ 255"
  shows "ln_18_step i (a, s) = Ok (a div a_i, s + x_i)"
proof -
  have "0 \<le> a_i * I_ONE_18"
    using assms by (simp add: I_ONE_18_def)
  then have a: "0 \<le> a" "i256_range (a_i * I_ONE_18)"
    using assms by (auto simp: i256_range_def)
  have "a div a_i \<le> a"
    using a(1) assms(3) by (rule zdiv_le_self)
  moreover have "0 \<le> a div a_i"
    using a(1) assms(3) by (simp add: pos_imp_zdiv_nonneg_iff)
  ultimately have "i256_range (a div a_i)" "i256_range (s + x_i)"
    using assms by (auto simp: i256_range_def)
  then show ?thesis
    using assms a by (simp add: ln_18_step_def i_add_def i_mul_def i_div_def i256_def tdiv_nonneg_eq)
qed

lemma ln_18_step_skipped:
  "constant_a_18 i = Some a_i \<Longrightarrow> i256_range (a_i * I_ONE_18) \<Longrightarrow> a < a_i * I_ONE_18 \<Longrightarrow>
     ln_18_step i (a, s) = Ok (a, s)"
  by (simp add: ln_18_step_def i_mul_def i256_def)

lemma constants_18:
  "constant_a_18 0 = Some 38877084059945950922200000000000000000000000000000000000"
  "constant_a_18 1 = Some 6235149080811616882910000000"
  "constant_x_18 0 = Some 128000000000000000000"
  "constant_x_18 1 = Some 64000000000000000000"
  by (simp_all add: constant_a_18_def constant_x_18_def)

lemma ln_18_steps:
  fixes a :: int
  assumes "I_ONE_18 \<le> a" "a < 2 ^ 255"
  shows "\<exists>a' s'. ofold ln_18_step [0, 1] (a, 0) = (Ok (a', s') :: 'e pair_outcome) \<and> I_ONE_18 \<le> a' \<and>
           (s' = 128000000000000000000 \<and> a' < 1500000000000000000000 \<or>
            0 \<le> s' \<and> s' \<le> 64000000000000000000 \<and> a' < 6300000000000000000000000000000000000000000000)"
proof (cases "38877084059945950922200000000000000000000000000000000000 * I_ONE_18 \<le> a")
  case True
  define b where "b = a div 38877084059945950922200000000000000000000000000000000000"
  have b: "I_ONE_18 \<le> b" "b < 1500000000000000000000"
    using True assms(2) by (simp_all add: b_def I_ONE_18_def)
  have "ln_18_step 0 (a, 0) = (Ok (b, 128000000000000000000) :: 'e pair_outcome)"
    using True assms by (subst ln_18_step_taken [OF constants_18(1,3)]) (simp_all add: b_def)
  moreover have "ln_18_step 1 (b, s) = (Ok (b, s) :: 'e pair_outcome)" for s
    using b by (subst ln_18_step_skipped [OF constants_18(2)]) (simp_all add: i256_range_def I_ONE_18_def)
  ultimately show ?thesis
    using b by simp
next
  case False
  then have s0: "ln_18_step 0 (a, 0) = (Ok (a, 0) :: 'e pair_outcome)"
    by (subst ln_18_step_skipped [OF constants_18(1)]) (simp_all add: i256_range_def I_ONE_18_def)
  show ?thesis
  proof (cases "6235149080811616882910000000 * I_ONE_18 \<le> a")
    case True
    define b where "b = a div 6235149080811616882910000000"
    have b: "I_ONE_18 \<le> b" "b < 6300000000000000000000000000000000000000000000"
      using True False by (simp_all add: b_def I_ONE_18_def)
    have "ln_18_step 1 (a, 0) = (Ok (b, 64000000000000000000) :: 'e pair_outcome)"
      using True assms by (subst ln_18_step_taken [OF constants_18(2,4)]) (simp_all add: b_def)
    with b s0 show ?thesis
      by simp
  next
    case False
    then have "ln_18_step 1 (a, 0) = (Ok (a, 0) :: 'e pair_outcome)"
      by (subst ln_18_step_skipped [OF constants_18(2)]) (simp_all add: i256_range_def I_ONE_18_def)
    with s0 assms False show ?thesis
      by (simp add: I_ONE_18_def)
  qed
qed

lemma ln_bound_values:
  "ln_bound [2..<12] 150000000000000000000000 12800000000000000000000
     = Some (106449445891785942956, 13593750000000000000000)"
  "ln_bound [2..<12] 630000000000000000000000000000000000000000000000 6400000000000000000000
     = Some (107556611786891978952, 12793750000000000000000)"
  by (simp_all add: upt_rec constant_x_20_def constant_a_20_def I_ONE_20_def)

lemma ln_20_steps:
  assumes "I_ONE_18 \<le> a"
    and "s = 128000000000000000000 \<and> a < 1500000000000000000000 \<or>
      0 \<le> s \<and> s \<le> 64000000000000000000 \<and> a < 6300000000000000000000000000000000000000000000"
  shows "returns (\<lambda>(a', s'). I_ONE_20 \<le> a' \<and> a' \<le> 108000000000000000000 \<and> 0 \<le> s' \<and> s' \<le> 13600000000000000000000)
           (ofold ln_20_step [2..<12] (a * 100, s * 100) :: 'e pair_outcome)"
  using assms(2)
proof
  assume "s = 128000000000000000000 \<and> a < 1500000000000000000000"
  then show ?thesis
    using ln_20_loop_bound [OF ln_bound_values(1), of "a * 100" "s * 100"] assms(1)
    by (auto simp: I_ONE_18_def I_ONE_20_def elim: returns_mono)
next
  assume "0 \<le> s \<and> s \<le> 64000000000000000000 \<and> a < 6300000000000000000000000000000000000000000000"
  then show ?thesis
    using ln_20_loop_bound [OF ln_bound_values(2), of "a * 100" "s * 100"] assms(1)
    by (auto simp: I_ONE_18_def I_ONE_20_def elim: returns_mono)
qed

lemma ln_z_bound:
  assumes "I_ONE_20 \<le> a" "a \<le> 108000000000000000000"
  shows "0 \<le> (a - I_ONE_20) * I_ONE_20 div (a + I_ONE_20)"
    and "(a - I_ONE_20) * I_ONE_20 div (a + I_ONE_20) \<le> 4000000000000000000"
proof -
  show "0 \<le> (a - I_ONE_20) * I_ONE_20 div (a + I_ONE_20)"
    using assms by (simp add: I_ONE_20_def pos_imp_zdiv_nonneg_iff)
  have "(a - I_ONE_20) * I_ONE_20 \<le> 4000000000000000000 * (a + I_ONE_20)"
    using assms by (simp add: I_ONE_20_def)
  then have "(a - I_ONE_20) * I_ONE_20 div (a + I_ONE_20) \<le> 4000000000000000000 * (a + I_ONE_20) div (a + I_ONE_20)"
    using assms by (intro zdiv_mono1) (auto simp: I_ONE_20_def)
  also have "\<dots> = 4000000000000000000"
    using assms by (intro nonzero_mult_div_cancel_right) (auto simp: I_ONE_20_def)
  finally show "(a - I_ONE_20) * I_ONE_20 div (a + I_ONE_20) \<le> 4000000000000000000" .
qed

lemma ln_ge_one_bound:
  fixes a :: int
  assumes "I_ONE_18 \<le> a" "a < 2 ^ 255"
  shows "returns (\<lambda>l. 0 \<le> l \<and> l \<le> 137000000000000000000) (ln_ge_one a :: ('e, int) outcome)"
proof -
  obtain a1 s1 where 1: "ofold ln_18_step [0, 1] (a, 0) = (Ok (a1, s1) :: 'e pair_outcome)" "I_ONE_18 \<le> a1"
      "s1 = 128000000000000000000 \<and> a1 < 1500000000000000000000 \<or>
       0 \<le> s1 \<and> s1 \<le> 64000000000000000000 \<and> a1 < 6300000000000000000000000000000000000000000000"
    using ln_18_steps [OF assms, where ?'e = 'e] by blast
  obtain a2 s2 where 2: "ofold ln_20_step [2..<12] (a1 * 100, s1 * 100) = (Ok (a2, s2) :: 'e pair_outcome)"
      and a2: "I_ONE_20 \<le> a2" "a2 \<le> 108000000000000000000" and s2: "0 \<le> s2" "s2 \<le> 13600000000000000000000"
    using ln_20_steps [OF 1(2,3), where ?'e = 'e] by (auto elim!: returnsE)
  define z where "z = (a2 - I_ONE_20) * I_ONE_20 div (a2 + I_ONE_20)"
  note z = ln_z_bound [OF a2, folded z_def]
  have ztd: "tdiv ((a2 - I_ONE_20) * I_ONE_20) (a2 + I_ONE_20) = z"
    using a2 by (simp add: z_def tdiv_nonneg_eq I_ONE_20_def)
  define zz where "zz = z * z div I_ONE_20"
  have sq: "0 \<le> z * z" "z * z \<le> 16000000000000000000000000000000000000"
    using z mult_mono [OF z(2) z(2)] by simp_all
  then have zz: "0 \<le> zz" "zz \<le> I_ONE_20" "tdiv (z * z) I_ONE_20 = zz"
    using zdiv_mono1 [OF sq(2), of I_ONE_20]
    by (simp_all add: zz_def I_ONE_20_def pos_imp_zdiv_nonneg_iff tdiv_nonneg_eq)
  have "returns (\<lambda>(n', s'). \<bar>s'\<bar> \<le> 4000000000000000000 + int (length [3, 5, 7, 9, 11 :: nat]) * 4000000000000000000 \<and>
      (0 \<le> z \<and> 0 \<le> z \<longrightarrow> 0 \<le> s'))
      (ofold (ln_series_step I_ONE_20 zz) [3, 5, 7, 9, 11] (z, z) :: 'e pair_outcome)"
    using z zz by (intro ln_series_bound) (auto simp: I_ONE_20_def)
  then obtain n3 s3 where 3: "ofold (ln_series_step I_ONE_20 zz) [3, 5, 7, 9, 11] (z, z) = (Ok (n3, s3) :: 'e pair_outcome)"
      "0 \<le> s3" "s3 \<le> 24000000000000000000"
    using z by (auto elim!: returnsE)
  have ranges: "i256_range (s1 * 100)" "i256_range (a1 * 100)" "i256_range (a2 - I_ONE_20)"
      "i256_range ((a2 - I_ONE_20) * I_ONE_20)" "i256_range (a2 + I_ONE_20)" "i256_range z" "i256_range (z * z)"
      "i256_range zz" "i256_range (s3 * 2)" "i256_range (s2 + s3 * 2)" "i256_range ((s2 + s3 * 2) div 100)"
    using 1(2,3) a2 s2 z sq zz 3(2,3) by (simp_all add: i256_range_def I_ONE_20_def I_ONE_18_def, linarith+)
  have "a2 + I_ONE_20 \<noteq> 0" "I_ONE_20 \<noteq> 0" "0 \<le> (s2 + s3 * 2) div 100"
      "(s2 + s3 * 2) div 100 \<le> 137000000000000000000"
    using a2 s2 3(2,3) by (auto simp: I_ONE_20_def)
  then show ?thesis
    using ranges s2 3(2,3) unfolding ln_ge_one_def
    by (simp add: wp 1(1) 2 3(1) ztd zz(3) tdiv_nonneg_eq del: ofold.simps upt_rec_numeral One_nat_def)
qed

lemma i_ln_bound:
  fixes a :: int
  assumes "0 < a" "a < 2 ^ 255"
  shows "returns (\<lambda>l. \<bar>l\<bar> \<le> 137000000000000000000 \<and> (I_ONE_18 \<le> a \<longrightarrow> 0 \<le> l)) (i_ln a)"
proof (cases "a < I_ONE_18")
  case True
  define b where "b = I_ONE_18 * I_ONE_18 div a"
  have "I_ONE_18 * a \<le> I_ONE_18 * I_ONE_18"
    using True by (simp add: I_ONE_18_def)
  then have "I_ONE_18 \<le> b"
    using assms(1) unfolding b_def by (intro zle_divI)
  moreover have "b \<le> I_ONE_18 * I_ONE_18"
    unfolding b_def by (intro zdiv_le_self) (use assms in \<open>simp_all add: I_ONE_18_def\<close>)
  ultimately have b: "I_ONE_18 \<le> b" "b < 2 ^ 255" "i256_range b"
    by (simp_all add: I_ONE_18_def i256_range_def)
  have td: "tdiv (I_ONE_18 * I_ONE_18) a = b"
    using assms by (simp add: b_def tdiv_nonneg_eq I_ONE_18_def)
  have "i256_range (I_ONE_18 * I_ONE_18)"
    by (simp add: I_ONE_18_def i256_range_def)
  then show ?thesis
    using True assms b ln_ge_one_bound [OF b(1,2)] unfolding i_ln_def
    by (auto simp: wp td i256_range_def elim!: returns_mono)
next
  case False
  then show ?thesis
    using ln_ge_one_bound [of a] assms by (auto simp: i_ln_def elim!: returns_mono)
qed

lemma i_ln_36_bound:
  fixes x :: int
  assumes "LN_36_LOWER_BOUND < x" "x < LN_36_UPPER_BOUND"
  shows "returns (\<lambda>l. \<bar>l\<bar> \<le> 960000000000000000000000000000000000 \<and> (I_ONE_18 \<le> x \<longrightarrow> 0 \<le> l)) (i_ln_36 x :: ('e, int) outcome)"
proof -
  define y where "y = x * I_ONE_18"
  have y: "900000000000000000000000000000000000 \<le> y" "y \<le> 1100000000000000000000000000000000000"
      "I_ONE_18 \<le> x \<longrightarrow> I_ONE_36 \<le> y"
    using assms by (auto simp: y_def LN_36_LOWER_BOUND_def LN_36_UPPER_BOUND_def I_ONE_18_def I_ONE_36_def)
  define z where "z = tdiv ((y - I_ONE_36) * I_ONE_36) (y + I_ONE_36)"
  have "\<bar>(y - I_ONE_36) * I_ONE_36\<bar> \<le> 60000000000000000000000000000000000 * (y + I_ONE_36)"
    using y by (auto simp: I_ONE_36_def)
  then have z: "\<bar>z\<bar> \<le> 60000000000000000000000000000000000"
    unfolding z_def by (intro abs_tdiv_le) (use y in \<open>simp_all add: I_ONE_36_def\<close>)
  have z0: "I_ONE_18 \<le> x \<longrightarrow> 0 \<le> z"
    using y by (auto simp: z_def I_ONE_36_def intro!: tdiv_nonneg)
  define zz where "zz = z * z div I_ONE_36"
  have sq: "0 \<le> z * z" "z * z \<le> 3600000000000000000000000000000000000000000000000000000000000000000000"
    using mult_mono [OF z z] by (simp_all add: abs_mult_self_eq)
  then have zz: "0 \<le> zz" "zz \<le> I_ONE_36" "tdiv (z * z) I_ONE_36 = zz"
    using zdiv_mono1 [OF sq(2), of I_ONE_36]
    by (simp_all add: zz_def I_ONE_36_def pos_imp_zdiv_nonneg_iff tdiv_nonneg_eq)
  have "returns (\<lambda>(n', s'). \<bar>s'\<bar> \<le> 60000000000000000000000000000000000 +
        int (length [3, 5, 7, 9, 11, 13, 15 :: nat]) * 60000000000000000000000000000000000 \<and>
      (0 \<le> z \<and> 0 \<le> z \<longrightarrow> 0 \<le> s'))
      (ofold (ln_series_step I_ONE_36 zz) [3, 5, 7, 9, 11, 13, 15] (z, z) :: 'e pair_outcome)"
    using z zz by (intro ln_series_bound) (auto simp: I_ONE_36_def)
  then obtain n3 s3 where 3: "ofold (ln_series_step I_ONE_36 zz) [3, 5, 7, 9, 11, 13, 15] (z, z) = (Ok (n3, s3) :: 'e pair_outcome)"
      "\<bar>s3\<bar> \<le> 480000000000000000000000000000000000" "0 \<le> z \<longrightarrow> 0 \<le> s3"
    by (auto elim!: returnsE)
  have ranges: "i256_range y" "i256_range (y - I_ONE_36)" "i256_range ((y - I_ONE_36) * I_ONE_36)"
      "i256_range (y + I_ONE_36)" "i256_range z" "i256_range (z * z)" "i256_range zz" "i256_range (s3 * 2)"
    using y z sq zz 3(2,3) by (simp_all add: i256_range_def I_ONE_36_def, linarith+)
  have "y + I_ONE_36 \<noteq> 0" "I_ONE_36 \<noteq> 0"
    using y by (auto simp: I_ONE_36_def)
  then show ?thesis
    using ranges z0 3(2,3) unfolding i_ln_36_def
    by (simp add: wp 3(1) zz(3) del: ofold.simps flip: y_def z_def)
qed

subsection \<open>Exponentials stay in range\<close>

lemma product_bound_values:
  "product_bound [2..<10] 6400000000000000000000 I_ONE_20
     = Some (25000000000000000000, 485593898670303750249326089141478710917884464781)"
  "product_bound [2..<10] 200000000000000000000 I_ONE_20
     = Some (25000000000000000000, 575460267600573043684)"
  by (simp_all add: upt_rec constant_x_20_def constant_a_20_def I_ONE_20_def)

lemma exp_series_bound:
  assumes "0 \<le> x" "x < 25000000000000000000"
  shows "returns (\<lambda>(t, s). I_ONE_20 \<le> s \<and> s \<le> 128571428571428571428)
           (ofold (exp_series_step x) [2..<13] (x, I_ONE_20 + x))"
proof -
  let ?I = "\<lambda>(t, s). 0 \<le> t \<and> t \<le> 25000000000000000000 \<and> I_ONE_20 \<le> s \<and> 7 * s + t \<le> 9 * I_ONE_20"
  have "returns ?I (exp_series_step x i st)" if "i \<in> set [2..<13]" "?I st" for i st
    using exp_series_step_bound [of x "fst st" "snd st" i] assms that by (auto simp: split_beta)
  then have "returns ?I (ofold (exp_series_step x) [2..<13] (x, I_ONE_20 + x))"
    using assms by (intro returns_ofold) (simp_all add: I_ONE_20_def)
  then show ?thesis
    by (rule returns_mono) (auto simp: I_ONE_20_def)
qed

text \<open>What the product loop leaves behind, with \<open>U\<close> the bound on the product.\<close>

abbreviation product_done :: "int \<Rightarrow> int \<times> int \<Rightarrow> bool" where
  "product_done U \<equiv> \<lambda>(x, p). 0 \<le> x \<and> x < 25000000000000000000 \<and> I_ONE_20 \<le> p \<and> p \<le> U"

lemma exp_reduced_bound:
  fixes x :: int
  assumes "returns (product_done U) (ofold exp_product_step [2..<10] (x * 100, I_ONE_20) :: 'e pair_outcome)"
    and x: "0 \<le> x" "x < 2 ^ 200"
    and fits: "U * 128571428571428571428 < 2 ^ 255" "U * 128571428571428571428 div I_ONE_20 * an < 2 ^ 255"
    and an: "1 \<le> an"
  shows "returns (\<lambda>v. I_ONE_18 \<le> v \<and> v < 2 ^ 255) (exp_reduced x an :: ('e, int) outcome)"
proof -
  from assms(1)
obtain x1 p where 1: "ofold exp_product_step [2..<10] (x * 100, I_ONE_20) = (Ok (x1, p) :: 'e pair_outcome)"
      and x1: "0 \<le> x1" "x1 < 25000000000000000000" and p: "I_ONE_20 \<le> p" "p \<le> U"
    by (auto elim!: returnsE)
  obtain u s where 2: "ofold (exp_series_step x1) [2..<13] (x1, I_ONE_20 + x1) = (Ok (u, s) :: 'e pair_outcome)"
      and s: "I_ONE_20 \<le> s" "s \<le> 128571428571428571428"
    using exp_series_bound [OF x1, where ?'a = 'e] by (auto elim!: returnsE)
  have one: "0 < I_ONE_20"
    by (simp add: I_ONE_20_def)
  define w where "w = p * s"
  define q where "q = w div I_ONE_20"
  define r where "r = q * an"
  have w: "I_ONE_20 * I_ONE_20 \<le> w" "w \<le> U * 128571428571428571428"
    using one p s unfolding w_def by (auto intro!: mult_mono)
  have "0 < I_ONE_20 * I_ONE_20"
    using one by simp
  then have w0: "0 \<le> w"
    using w by linarith
  have q: "I_ONE_20 \<le> q" "q \<le> U * 128571428571428571428 div I_ONE_20" "q \<le> w"
    using w w0 one zdiv_le_self [of w I_ONE_20] unfolding q_def
    by (auto intro: zle_divI zdiv_mono1)
  have "q * 1 \<le> r" "r \<le> U * 128571428571428571428 div I_ONE_20 * an"
    using q one an unfolding r_def by (auto intro!: mult_left_mono mult_right_mono)
  then have r: "I_ONE_20 \<le> r" "r < 2 ^ 255"
    using q fits by auto
  have tds: "tdiv w I_ONE_20 = q" "tdiv r 100 = r div 100"
    using w0 r one by (simp_all add: q_def tdiv_nonneg_eq)
  have v: "I_ONE_18 \<le> r div 100" "r div 100 < 2 ^ 255"
    using r by (simp_all add: I_ONE_20_def I_ONE_18_def)
  have ranges: "i256_range (x * 100)" "i256_range (I_ONE_20 + x1)" "i256_range w" "i256_range q" "i256_range r"
      "i256_range (r div 100)"
    using x x1 w0 w q r v fits one by (simp_all add: i256_range_def I_ONE_20_def I_ONE_18_def)
  then show ?thesis
    using v one unfolding exp_reduced_def
    by (simp add: wp 1 2 tds del: ofold.simps upt_rec_numeral One_nat_def flip: w_def r_def)
qed

lemma product_loop_done:
  assumes "product_bound [2..<10] X I_ONE_20 = Some (25000000000000000000, U)" "0 \<le> x" "x * 100 < X"
  shows "returns (product_done U) (ofold exp_product_step [2..<10] (x * 100, I_ONE_20))"
  using assms by (intro exp_product_loop_bound) auto

lemma product_loop_at_130:
  "returns (product_done 738905609893065022723)
     (ofold exp_product_step [2..<10] (2000000000000000000 * 100, I_ONE_20))"
  by (simp add: exp_product_step_def constant_x_20_def constant_a_20_def I_ONE_20_def returns_simps
      i_sub_def i_mul_def i_div_def i256_def i256_range_def tdiv_def)

lemma exp_nonneg_bound:
  assumes "0 \<le> x" "x \<le> MAX_NATURAL_EXPONENT"
  shows "returns (\<lambda>v. I_ONE_18 \<le> v \<and> v < 2 ^ 255) (exp_nonneg x)"
proof -
  have fits: "i256_range (x - 128000000000000000000)" "i256_range (x - 64000000000000000000)"
    using assms by (simp_all add: i256_range_def MAX_NATURAL_EXPONENT_def)
  consider "x < 64000000000000000000" | "64000000000000000000 \<le> x" "x < 128000000000000000000"
    | "128000000000000000000 \<le> x" "x < 130000000000000000000" | "x = 130000000000000000000"
    using assms unfolding MAX_NATURAL_EXPONENT_def by fastforce
  then show ?thesis
  proof cases
    case 1
    then show ?thesis
      using exp_reduced_bound [OF product_loop_done [OF product_bound_values(1), of x], of 1] assms
      by (simp add: exp_nonneg_def wp constants_18 I_ONE_20_def del: One_nat_def)
  next
    case 2
    then show ?thesis
      using exp_reduced_bound [OF product_loop_done [OF product_bound_values(1), of "x - 64000000000000000000"],
          of 6235149080811616882910000000] fits
      by (simp add: exp_nonneg_def wp constants_18 I_ONE_20_def del: One_nat_def)
  next
    case 3
    then show ?thesis
      using exp_reduced_bound [OF product_loop_done [OF product_bound_values(2), of "x - 128000000000000000000"],
          of 38877084059945950922200000000000000000000000000000000000] fits
      by (simp add: exp_nonneg_def wp constants_18 I_ONE_20_def del: One_nat_def)
  next
    case 4
    then show ?thesis
      using exp_reduced_bound [OF product_loop_at_130, of 38877084059945950922200000000000000000000000000000000000] fits
      by (simp add: exp_nonneg_def wp constants_18 I_ONE_20_def del: One_nat_def)
  qed
qed

lemma i_exp_bound:
  assumes "MIN_NATURAL_EXPONENT \<le> x" "x \<le> MAX_NATURAL_EXPONENT"
  shows "returns (\<lambda>v. 0 \<le> v \<and> v < 2 ^ 255 \<and> (0 \<le> x \<longrightarrow> I_ONE_18 \<le> v)) (i_exp x)"
proof (cases "x < 0")
  case True
  have den: "returns (\<lambda>v. I_ONE_18 \<le> v \<and> v < 2 ^ 255) (i_exp (- x))"
  proof -
    have "\<not> - x < 0" "MIN_NATURAL_EXPONENT \<le> - x \<and> - x \<le> MAX_NATURAL_EXPONENT"
      using True assms by (auto simp: MIN_NATURAL_EXPONENT_def MAX_NATURAL_EXPONENT_def)
    then show ?thesis
      using exp_nonneg_bound [of "- x"] by (simp add: i_exp.simps [of "- x"])
  qed
  have div: "0 \<le> tdiv (I_ONE_18 * I_ONE_18) v" "tdiv (I_ONE_18 * I_ONE_18) v \<le> I_ONE_18 * I_ONE_18" "v \<noteq> 0"
    if "I_ONE_18 \<le> v" for v
    using that zdiv_le_self [of "I_ONE_18 * I_ONE_18" v]
    by (auto simp: tdiv_nonneg_eq I_ONE_18_def pos_imp_zdiv_nonneg_iff)
  have big: "i256_range (- x)" "i256_range (I_ONE_18 * I_ONE_18)" "I_ONE_18 * I_ONE_18 < 2 ^ 255"
    using assms True by (auto simp: i256_range_def MIN_NATURAL_EXPONENT_def I_ONE_18_def)
  have "returns (\<lambda>v. v \<noteq> 0 \<and> i256_range (tdiv (I_ONE_18 * I_ONE_18) v) \<and>
      0 \<le> tdiv (I_ONE_18 * I_ONE_18) v \<and> tdiv (I_ONE_18 * I_ONE_18) v < 2 ^ 255) (i_exp (- x))"
    using den by (rule returns_mono) (use div big(3) in \<open>force simp: i256_range_def\<close>)
  then show ?thesis
    using True assms big by (simp add: i_exp.simps [of x] wp)
next
  case False
  then show ?thesis
    using exp_nonneg_bound [of x] assms
    by (auto simp: i_exp.simps [of x] I_ONE_18_def elim!: returns_mono)
qed

subsection \<open>Powers\<close>

lemma i256_try_from_Some [wp]: "i256_try_from x = Some i \<longleftrightarrow> uint x < 2 ^ 255 \<and> i = uint x"
  by (auto simp: i256_try_from_def)

lemma mild_exponent: "y < MILD_EXPONENT_BOUND \<longleftrightarrow> uint y < 289480223093290488558927462521719769633174961664101410098"
  by (simp add: MILD_EXPONENT_BOUND_def word_less_def)

lemma mild_mul_range:
  assumes "y < MILD_EXPONENT_BOUND" "\<bar>l\<bar> \<le> 137000000000000000000"
  shows "\<bar>l * uint y\<bar> \<le> 39658790563780796932573062365475608439744969747981893183426000000000000000000"
proof -
  have "\<bar>l\<bar> * uint y \<le> 137000000000000000000 * 289480223093290488558927462521719769633174961664101410098"
    by (rule mult_mono) (use assms in \<open>auto simp: mild_exponent\<close>)
  then show ?thesis
    by (simp add: abs_mult)
qed

lemma uint_into_raw: "0 \<le> v \<Longrightarrow> v < 2 ^ 255 \<Longrightarrow> uint (i256_into_raw v) = v"
  by (simp add: i256_into_raw_def uint_word_of_int take_bit_int_eq_self)

lemma pow_log_bound:
  assumes x: "0 < x" "x < 2 ^ 255" and y: "y < MILD_EXPONENT_BOUND"
  shows "returns (\<lambda>l. i256_range l \<and> (I_ONE_18 \<le> x \<longrightarrow> 0 \<le> l)) (pow_log x (uint y) :: ('e, int) outcome)"
proof (cases "LN_36_LOWER_BOUND < x \<and> x < LN_36_UPPER_BOUND")
  case True
  obtain l where l: "i_ln_36 x = (Ok l :: ('e, int) outcome)" "\<bar>l\<bar> \<le> 960000000000000000000000000000000000"
      "I_ONE_18 \<le> x \<longrightarrow> 0 \<le> l"
    using i_ln_36_bound [where ?'e = 'e, of x] True by (auto elim!: returnsE)
  define q where "q = tdiv l I_ONE_18"
  define r where "r = trem l I_ONE_18"
  define lo where "lo = tdiv (r * uint y) I_ONE_18"
  have q: "\<bar>q\<bar> \<le> 1000000000000000000"
    unfolding q_def using l(2) by (intro abs_tdiv_le) (simp_all add: I_ONE_18_def)
  have r: "\<bar>r\<bar> \<le> 1000000000000000000"
    using abs_trem_less [of I_ONE_18 l] by (simp add: r_def I_ONE_18_def)
  have yb: "0 \<le> uint y" "uint y \<le> 289480223093290488558927462521719769633174961664101410098"
    using y by (simp_all add: mild_exponent)
  have qy: "\<bar>q * uint y\<bar> \<le> 1000000000000000000 * 289480223093290488558927462521719769633174961664101410098"
    unfolding abs_mult by (rule mult_mono) (use q yb in auto)
  have ry: "\<bar>r * uint y\<bar> \<le> uint y * I_ONE_18"
    unfolding abs_mult using mult_mono [OF r order_refl, of "uint y"] yb by (simp add: I_ONE_18_def mult.commute)
  then have lo: "\<bar>lo\<bar> \<le> uint y"
    unfolding lo_def by (intro abs_tdiv_le) (simp_all add: I_ONE_18_def)
  have ranges: "i256_range q" "i256_range (q * uint y)" "i256_range r" "i256_range (r * uint y)" "i256_range lo"
      "i256_range (q * uint y + lo)"
    using q qy r ry lo yb by (auto simp: I_ONE_18_def intro!: i256_rangeI)
  have "0 \<le> q * uint y + lo" if "I_ONE_18 \<le> x"
  proof -
    have "0 \<le> l"
      using l(3) that by simp
    moreover from this have "0 \<le> r"
      by (simp add: r_def trem_def tdiv_nonneg_eq I_ONE_18_def zdiv_mult_le)
    ultimately have "0 \<le> q" "0 \<le> lo"
      by (simp_all add: q_def lo_def tdiv_nonneg I_ONE_18_def)
    then show ?thesis
      by simp
  qed
  moreover have "I_ONE_18 \<noteq> 0"
    by (simp add: I_ONE_18_def)
  ultimately show ?thesis
    using True ranges by (simp add: pow_log_def wp l(1) flip: q_def r_def lo_def)
next
  case False
  have "i256_range (l * uint y) \<and> (I_ONE_18 \<le> x \<longrightarrow> 0 \<le> l * uint y)"
    if "\<bar>l\<bar> \<le> 137000000000000000000 \<and> (I_ONE_18 \<le> x \<longrightarrow> 0 \<le> l)" for l
    using mild_mul_range [OF y, of l] that by (auto intro!: i256_rangeI)
  then show ?thesis
    using False i_ln_bound [OF x, where ?'a = 'e] by (auto simp: pow_log_def wp elim!: returns_mono)
qed

lemma i_pow_cases:
  "case i_pow x y of
     Ok v \<Rightarrow> ONE_18 \<le> x \<longrightarrow> ONE_18 \<le> v
   | Err e \<Rightarrow> e = XOutOfBounds \<and> 2 ^ 255 \<le> uint x \<or> e = YOutOfBounds \<and> MILD_EXPONENT_BOUND \<le> y \<or> e = ProductOutOfBounds
   | Panic \<Rightarrow> False"
proof (cases "y = 0 \<or> x = 0 \<or> \<not> uint x < 2 ^ 255 \<or> \<not> y < MILD_EXPONENT_BOUND")
  case True
  then show ?thesis
    by (auto simp: i_pow_def i256_try_from_def ONE_18_def linorder_not_less)
next
  case False
  then have "uint x \<noteq> 0"
    by (simp add: unsigned_eq_0_iff)
  then have "0 < uint x"
    using uint_ge_0 [of x] by linarith
  with False have x: "0 < uint x" "uint x < 2 ^ 255" and y: "y < MILD_EXPONENT_BOUND" "uint y < 2 ^ 255"
    by (auto simp: mild_exponent)
  obtain l where l: "pow_log (uint x) (uint y) = (Ok l :: int bal)" "i256_range l" "I_ONE_18 \<le> uint x \<longrightarrow> 0 \<le> l"
    using pow_log_bound [OF x y(1), where ?'e = bal_error] by (auto elim!: returnsE)
  define m where "m = tdiv l I_ONE_18"
  have "\<bar>m\<bar> \<le> 2 ^ 200"
    unfolding m_def by (rule abs_tdiv_le) (use l(2) in \<open>auto simp: i256_range_def I_ONE_18_def\<close>)
  then have "i256_range m"
    by (intro i256_rangeI) simp
  then have eq: "i_pow x y = (if \<not> (MIN_NATURAL_EXPONENT \<le> m \<and> m \<le> MAX_NATURAL_EXPONENT) then Err ProductOutOfBounds
      else obind (i_exp m) (\<lambda>v. Ok (i256_into_raw v)))"
    using False x y l(1) by (simp add: i_pow_def i256_try_from_def i_div_def i256_def I_ONE_18_def m_def)
  have m0: "I_ONE_18 \<le> uint x \<longrightarrow> 0 \<le> m"
    using l(3) by (simp add: m_def tdiv_nonneg I_ONE_18_def)
  show ?thesis
  proof (cases "MIN_NATURAL_EXPONENT \<le> m \<and> m \<le> MAX_NATURAL_EXPONENT")
    case True
    then obtain v where "i_exp m = Ok v" "0 \<le> v" "v < 2 ^ 255" "0 \<le> m \<longrightarrow> I_ONE_18 \<le> v"
      using i_exp_bound [of m] by (auto elim!: returnsE)
    with True m0 eq show ?thesis
      by (simp add: uint_into_raw word_le_def ONE_18_def I_ONE_18_def)
  qed (simp add: eq)
qed

section \<open>The power function never overflows\<close>

text \<open>The definitions a concrete power unfolds to, for evaluation.\<close>

lemmas pow_eval = i_pow_def i256_try_from_def MILD_EXPONENT_BOUND_def pow_log_def LN_36_LOWER_BOUND_def
  LN_36_UPPER_BOUND_def i_ln_def i_ln_36_def ln_ge_one_def ln_18_step_def ln_20_step_def ln_series_step_def
  i_exp.simps exp_nonneg_def exp_reduced_def exp_product_step_def exp_series_step_def constants_18
  constant_x_20_def constant_a_20_def I_ONE_18_def I_ONE_20_def I_ONE_36_def MIN_NATURAL_EXPONENT_def
  MAX_NATURAL_EXPONENT_def i_add_def i_sub_def i_mul_def i_div_def i_rem_def i_neg_def i256_def i256_range_def
  tdiv_def trem_def i256_into_raw_def ONE_18_def constant_a_18_def constant_x_18_def

text \<open>
  The power function of the pools (\<open>logexpmath::pow\<close>) never overflows: whatever the base and the
  exponent, no signed 256-bit operation of the logarithms and of the exponential leaves its range, no
  table index and no conversion fails, and the only errors are an out-of-range base, an out-of-range
  exponent and a product of logarithm and exponent out of the bounds of the exponential (never
  \<open>InvalidExponent\<close>). A base of at least one gives a power of at least one.
\<close>

theorem pow_never_overflows:
  "case i_pow x y of
     Ok v \<Rightarrow> ONE_18 \<le> x \<longrightarrow> ONE_18 \<le> v
   | Err e \<Rightarrow> e = XOutOfBounds \<and> 2 ^ 255 \<le> uint x \<or> e = YOutOfBounds \<and> MILD_EXPONENT_BOUND \<le> y \<or> e = ProductOutOfBounds
   | Panic \<Rightarrow> False"
  by (rule i_pow_cases)

theorem pow_never_overflows_witness:
  "i_pow 2000000000000000000 500000000000000000 = Ok 1414213562373095047 \<and>
   ONE_18 \<le> (2000000000000000000 :: u256) \<and> ONE_18 \<le> (1414213562373095047 :: u256)"
proof -
  have "i_pow 2000000000000000000 500000000000000000 = Ok 1414213562373095047"
    by (simp add: pow_eval cong: obind_eval_cong if_weak_cong)
  with pow_never_overflows [of 2000000000000000000 500000000000000000] show ?thesis
    by (simp add: ONE_18_def)
qed

end
