(* ===== verification/Weighted_Math.thy ===== *)
theory Weighted_Math
  imports Log_Exp_Math
begin

text \<open>
  The swap formulas of the Balancer weighted pools,
  \<open>crates/shared/src/sources/balancer_v2/swap/weighted_math.rs\<close>. The four functions differ in the
  side they compute and in the power function of the pool version, so the power function is an argument
  of the two bodies and the four operations instantiate it.

  The source justifies three \<open>expect\<close>s with informal proofs (``See proof above''); the theorems
  below are those proofs. They are stated for any power function with the laws of the locale
  \<open>pool_power\<close> and hold for both versions, which interpret it.
\<close>

definition MAX_IN_RATIO :: bfp where
  "MAX_IN_RATIO = 300000000000000000"

definition MAX_OUT_RATIO :: bfp where
  "MAX_OUT_RATIO = 300000000000000000"

definition weighted_out_given_in ::
  "(bfp \<Rightarrow> bfp \<Rightarrow> bfp bal) \<Rightarrow> bfp \<Rightarrow> bfp \<Rightarrow> bfp \<Rightarrow> bfp \<Rightarrow> bfp \<Rightarrow> bfp bal" where
  "weighted_out_given_in pow balance_in weight_in balance_out weight_out amount_in =
     obind (mul_down balance_in MAX_IN_RATIO) (\<lambda>max_in.
     if max_in < amount_in then Err MaxInRatio
     else obind (expect_ok (bfp_add balance_in amount_in)) (\<lambda>denominator.
          obind (div_up balance_in denominator) (\<lambda>base.
          obind (div_down weight_in weight_out) (\<lambda>exponent.
          obind (pow base exponent) (\<lambda>power.
          mul_down balance_out (complement power))))))"

definition weighted_in_given_out ::
  "(bfp \<Rightarrow> bfp \<Rightarrow> bfp bal) \<Rightarrow> bfp \<Rightarrow> bfp \<Rightarrow> bfp \<Rightarrow> bfp \<Rightarrow> bfp \<Rightarrow> bfp bal" where
  "weighted_in_given_out pow balance_in weight_in balance_out weight_out amount_out =
     obind (mul_down balance_out MAX_OUT_RATIO) (\<lambda>max_out.
     if max_out < amount_out then Err MaxOutRatio
     else obind (expect_ok (bfp_sub balance_out amount_out)) (\<lambda>denominator.
          obind (div_up balance_out denominator) (\<lambda>base.
          obind (div_up weight_out weight_in) (\<lambda>exponent.
          obind (pow base exponent) (\<lambda>power.
          obind (expect_ok (bfp_sub power bfp_one)) (\<lambda>ratio.
          mul_up balance_in ratio))))))"

definition weighted_calc_out_given_in :: "bfp \<Rightarrow> bfp \<Rightarrow> bfp \<Rightarrow> bfp \<Rightarrow> bfp \<Rightarrow> bfp bal" where
  "weighted_calc_out_given_in = weighted_out_given_in pow_up"

definition weighted_calc_in_given_out :: "bfp \<Rightarrow> bfp \<Rightarrow> bfp \<Rightarrow> bfp \<Rightarrow> bfp \<Rightarrow> bfp bal" where
  "weighted_calc_in_given_out = weighted_in_given_out pow_up"

definition weighted_calc_out_given_in_v3 :: "bfp \<Rightarrow> bfp \<Rightarrow> bfp \<Rightarrow> bfp \<Rightarrow> bfp \<Rightarrow> bfp bal" where
  "weighted_calc_out_given_in_v3 = weighted_out_given_in pow_up_v3"

definition weighted_calc_in_given_out_v3 :: "bfp \<Rightarrow> bfp \<Rightarrow> bfp \<Rightarrow> bfp \<Rightarrow> bfp \<Rightarrow> bfp bal" where
  "weighted_calc_in_given_out_v3 = weighted_in_given_out pow_up_v3"

section \<open>Weakest preconditions of the fixed point operations\<close>

lemma safe_bal_op:
  "r \<noteq> Panic \<Longrightarrow> safe P r \<longleftrightarrow> (\<forall>c. r = Ok c \<longrightarrow> P c)"
  by (cases r) (auto simp: wp)

lemma returns_bal_op: "returns P r \<longleftrightarrow> (\<exists>c. r = Ok c \<and> P c)"
  by (cases r) (auto simp: wp)

section \<open>What the formulas need of a power function\<close>

locale pool_power =
  fixes pow :: "bfp \<Rightarrow> bfp \<Rightarrow> bfp bal"
  assumes pow_no_panic: "pow x e \<noteq> Panic"
    and pow_ge_one: "pow x e = Ok v \<Longrightarrow> ONE_18 \<le> x \<Longrightarrow> ONE_18 \<le> v"
begin

lemma denominator_fits:
  assumes "mul_down balance MAX_IN_RATIO = Ok m" "\<not> m < amount"
  shows "\<exists>d. bfp_add balance amount = Ok d"
proof -
  have "unat balance * 300000000000000000 < 2 ^ 256" "unat m = unat balance * 300000000000000000 div 10 ^ 18"
    using assms(1) by (simp_all add: chk MAX_IN_RATIO_def)
  moreover have "unat amount \<le> unat m"
    using assms(2) by (simp add: word_less_nat_alt)
  ultimately have fit: "unat balance + unat amount < 2 ^ 256"
    by simp
  have "unat (balance + amount) = unat balance + unat amount"
    using fit by (intro unat_add_lem [THEN iffD1]) simp
  then have "bfp_add balance amount = Ok (balance + amount)"
    by (simp add: chk)
  then show ?thesis ..
qed

lemma out_given_in_safe:
  "safe (\<lambda>out. unat out \<le> unat balance_out) (weighted_out_given_in pow balance_in weight_in balance_out weight_out amount_in)"
proof -
  have le: "unat out \<le> unat balance_out" if "mul_down balance_out (complement power) = Ok out" for power out
  proof -
    have "unat out = unat balance_out * unat (complement power) div 10 ^ 18"
      using that by (simp add: chk del: unat_complement)
    also have "\<dots> \<le> unat balance_out * 10 ^ 18 div 10 ^ 18"
      by (intro div_le_mono mult_le_mono2) simp
    finally show ?thesis
      by simp
  qed
  show ?thesis
    unfolding weighted_out_given_in_def
    by (auto simp: wp safe_bal_op pow_no_panic returns_bal_op dest: denominator_fits intro: le)
qed

lemma in_given_out_safe:
  "safe (\<lambda>_. True) (weighted_in_given_out pow balance_in weight_in balance_out weight_out amount_out)"
proof -
  have den: "\<exists>d. bfp_sub balance_out amount_out = Ok d"
    if "mul_down balance_out MAX_OUT_RATIO = Ok m" "\<not> m < amount_out" for m
  proof -
    have "unat m = unat balance_out * 300000000000000000 div 10 ^ 18"
      using that(1) by (simp add: chk MAX_OUT_RATIO_def)
    moreover have "unat amount_out \<le> unat m"
      using that(2) by (simp add: word_less_nat_alt)
    ultimately have "unat amount_out \<le> unat balance_out"
      by simp
    then have "bfp_sub balance_out amount_out = Ok (balance_out - amount_out)"
      by (simp add: chk unat_minus_le)
    then show ?thesis ..
  qed
  have ratio: "\<exists>r. bfp_sub p bfp_one = Ok r"
    if "bfp_sub balance_out amount_out = Ok d" "div_up balance_out d = Ok base" "pow base e = Ok p" for d base e p
  proof -
    have d: "unat d \<le> unat balance_out" "unat d \<noteq> 0" "unat base = cdiv (unat balance_out * 10 ^ 18) (unat d)"
      using that(1,2) by (auto simp: chk)
    have "10 ^ 18 * unat d \<le> unat balance_out * 10 ^ 18"
      using d(1) by simp
    also have "\<dots> \<le> unat base * unat d"
      using cdiv_bounds(1) [of "unat d" "unat balance_out * 10 ^ 18"] d by simp
    finally have "ONE_18 \<le> base"
      using d(2) by (simp add: word_le_nat_alt)
    then have "ONE_18 \<le> p"
      using that(3) by (rule pow_ge_one [rotated])
    then have "bfp_sub p bfp_one = Ok (p - bfp_one)"
      by (simp add: chk bfp_one_def unat_minus_le word_le_nat_alt)
    then show ?thesis ..
  qed
  show ?thesis
    unfolding weighted_in_given_out_def
    by (auto simp: wp safe_bal_op pow_no_panic returns_bal_op) (meson den ratio)
qed

end

section \<open>Both versions of the power function qualify\<close>

lemma add_pow_error_Ok: "add_pow_error raw = Ok v \<Longrightarrow> raw \<le> v"
  by (auto simp: add_pow_error_def outc chk word_le_nat_alt)

lemma add_pow_error_not_Panic: "add_pow_error raw \<noteq> Panic"
  by (simp add: add_pow_error_def outc)

lemma i_pow_not_Panic: "i_pow x y \<noteq> Panic"
  using i_pow_cases [of x y] by auto

lemma i_pow_ge_one: "i_pow x y = Ok v \<Longrightarrow> ONE_18 \<le> x \<Longrightarrow> ONE_18 \<le> v"
  using i_pow_cases [of x y] by auto

lemma add_pow_error_ge_one:
  "i_pow x e = Ok raw \<Longrightarrow> add_pow_error raw = Ok v \<Longrightarrow> ONE_18 \<le> x \<Longrightarrow> ONE_18 \<le> v"
  by (meson i_pow_ge_one add_pow_error_Ok order_trans)

lemma mul_up_ge_one:
  assumes "mul_up x y = Ok v" "ONE_18 \<le> x" "ONE_18 \<le> y"
  shows "ONE_18 \<le> v"
proof -
  have "10 ^ 18 * 10 ^ 18 \<le> unat x * unat y"
    using assms(2,3) by (intro mult_le_mono) (simp_all add: word_le_nat_alt)
  also have "\<dots> \<le> unat v * 10 ^ 18"
    using assms(1) cdiv_bounds(1) [of "10 ^ 18" "unat x * unat y"] by (simp add: chk)
  finally show ?thesis
    by (simp add: word_le_nat_alt)
qed

interpretation v0: pool_power pow_up
  by unfold_locales
    (auto simp: pow_up_def outc i_pow_not_Panic add_pow_error_not_Panic
      dest: add_pow_error_ge_one)

interpretation v3: pool_power pow_up_v3
  by unfold_locales
    (auto simp: pow_up_v3_def outc i_pow_not_Panic add_pow_error_not_Panic split: if_splits
      dest: add_pow_error_ge_one mul_up_ge_one)

section \<open>The formulas never panic\<close>

text \<open>
  No \<open>expect\<close> of the weighted pool formulas ever fires, for any balances, weights and amount and
  for both pool versions: the addition ``See proof above'' cannot overflow, the subtraction from the
  output balance cannot underflow and the power a purchase computes is at least one. What a sale pays
  out is at most the output balance.
\<close>

theorem weighted_math_never_panics:
  "safe (\<lambda>out. unat out \<le> unat balance_out)
     (weighted_calc_out_given_in balance_in weight_in balance_out weight_out amount) \<and>
   safe (\<lambda>out. unat out \<le> unat balance_out)
     (weighted_calc_out_given_in_v3 balance_in weight_in balance_out weight_out amount) \<and>
   weighted_calc_in_given_out balance_in weight_in balance_out weight_out amount \<noteq> Panic \<and>
   weighted_calc_in_given_out_v3 balance_in weight_in balance_out weight_out amount \<noteq> Panic"
  unfolding weighted_calc_out_given_in_def weighted_calc_out_given_in_v3_def
    weighted_calc_in_given_out_def weighted_calc_in_given_out_v3_def
  by (intro conjI v0.out_given_in_safe v3.out_given_in_safe
      safe_not_Panic [OF v0.in_given_out_safe] safe_not_Panic [OF v3.in_given_out_safe])

end
