(* ===== verification/Stable_Math.thy ===== *)
theory Stable_Math
  imports Weighted_Math
begin

text \<open>
  The swap formulas of the Balancer stable pools,
  \<open>crates/shared/src/sources/balancer_v2/swap/stable_math.rs\<close>, and the amplification parameter of
  \<open>pools/stable.rs\<close>.

  Both Newton iterations run at most 255 rounds, the fuel of \<open>invariant_loop\<close> and
  \<open>token_balance_loop\<close> is that bound and running out of it is the convergence error of the source.
  The swap functions work in place on the balances of the caller: they return the balances they
  leave behind next to their result.
\<close>

section \<open>Definitions\<close>

definition AMP_PRECISION :: u256 where
  "AMP_PRECISION = 1000"

definition convergence_criteria :: "u256 \<Rightarrow> u256 \<Rightarrow> ('e, u256 option) outcome" where
  "convergence_criteria curr_value prev_value =
     (if prev_value < curr_value then
        obind (expect_ok (bsub curr_value prev_value)) (\<lambda>d. Ok (if d \<le> 1 then Some curr_value else None))
      else
        obind (expect_ok (bsub prev_value curr_value)) (\<lambda>d. Ok (if d \<le> 1 then Some curr_value else None)))"

text \<open>One round of the invariant iteration.\<close>

definition invariant_d_p :: "u256 \<Rightarrow> bfp list \<Rightarrow> u256 \<Rightarrow> u256 bal" where
  "invariant_d_p num_tokens balances invariant =
     ofold (\<lambda>balance d_p.
       obind (bmul d_p invariant) (\<lambda>n. obind (bmul balance num_tokens) (\<lambda>d. bdiv_down n d))) balances invariant"

definition invariant_step :: "u256 \<Rightarrow> u256 \<Rightarrow> bfp list \<Rightarrow> u256 \<Rightarrow> u256 \<Rightarrow> u256 bal" where
  "invariant_step amp_times_total num_tokens balances s invariant =
     obind (invariant_d_p num_tokens balances invariant) (\<lambda>d_p.
     obind (obind (bmul amp_times_total s) (\<lambda>m. obind (bdiv_down m AMP_PRECISION) (\<lambda>q.
            obind (bmul d_p num_tokens) (\<lambda>dn. obind (badd q dn) (\<lambda>t. bmul t invariant))))) (\<lambda>numerator.
     obind (obind (bsub amp_times_total AMP_PRECISION) (\<lambda>a. obind (bmul a invariant) (\<lambda>m.
            obind (bdiv_down m AMP_PRECISION) (\<lambda>q. obind (badd num_tokens 1) (\<lambda>n1.
            obind (bmul n1 d_p) (\<lambda>t. badd q t)))))) (\<lambda>denominator.
     bdiv_down numerator denominator)))"

fun invariant_loop :: "nat \<Rightarrow> u256 \<Rightarrow> u256 \<Rightarrow> bfp list \<Rightarrow> u256 \<Rightarrow> u256 \<Rightarrow> u256 bal" where
  "invariant_loop 0 amp_times_total num_tokens balances s prev_invariant = Err StableInvariantDidntConverge"
| "invariant_loop (Suc n) amp_times_total num_tokens balances s prev_invariant =
     obind (invariant_step amp_times_total num_tokens balances s prev_invariant) (\<lambda>invariant.
     obind (convergence_criteria invariant prev_invariant) (\<lambda>c.
     case c of
       None \<Rightarrow> invariant_loop n amp_times_total num_tokens balances s invariant
     | Some invariant \<Rightarrow> Ok invariant))"

definition calculate_invariant :: "u256 \<Rightarrow> bfp list \<Rightarrow> u256 bal" where
  "calculate_invariant amplification_parameter balances =
     obind (ofold (\<lambda>balance_i s. badd s balance_i) balances 0) (\<lambda>s.
     if s = 0 then Ok s
     else let num_tokens = of_nat (length balances)
          in obind (bmul amplification_parameter num_tokens) (\<lambda>amp_times_total.
             invariant_loop 255 amp_times_total num_tokens balances s s))"

text \<open>One round of the balance iteration.\<close>

definition token_balance_step :: "u256 \<Rightarrow> u256 \<Rightarrow> u256 \<Rightarrow> u256 \<Rightarrow> u256 bal" where
  "token_balance_step c b invariant token_balance =
     obind (bmul token_balance token_balance) (\<lambda>sq. obind (badd sq c) (\<lambda>n.
     obind (bmul token_balance 2) (\<lambda>tb2. obind (badd tb2 b) (\<lambda>t. obind (bsub t invariant) (\<lambda>d.
     bdiv_up n d)))))"

fun token_balance_loop :: "nat \<Rightarrow> u256 \<Rightarrow> u256 \<Rightarrow> u256 \<Rightarrow> u256 \<Rightarrow> u256 bal" where
  "token_balance_loop 0 c b invariant prev_token_balance = Err StableGetBalanceDidntConverge"
| "token_balance_loop (Suc n) c b invariant prev_token_balance =
     obind (token_balance_step c b invariant prev_token_balance) (\<lambda>token_balance.
     obind (convergence_criteria token_balance prev_token_balance) (\<lambda>r.
     case r of
       None \<Rightarrow> token_balance_loop n c b invariant token_balance
     | Some token_balance \<Rightarrow> Ok token_balance))"

text \<open>One round of the product and of the sum of the balances.\<close>

definition p_d_step :: "u256 \<Rightarrow> u256 \<Rightarrow> bfp \<Rightarrow> u256 \<times> u256 \<Rightarrow> (u256 \<times> u256) bal" where
  "p_d_step num_tokens invariant balance_j = (\<lambda>(p_d, s).
     obind (bmul p_d balance_j) (\<lambda>m. obind (bmul m num_tokens) (\<lambda>m'.
     obind (bdiv_down m' invariant) (\<lambda>p_d'. obind (badd s balance_j) (\<lambda>s'.
     Ok (p_d', s'))))))"

definition get_token_balance :: "u256 \<Rightarrow> bfp list \<Rightarrow> u256 \<Rightarrow> nat \<Rightarrow> bfp bal" where
  "get_token_balance amplification_parameter balances invariant token_index =
     (let num_tokens = of_nat (length balances)
      in obind (bmul amplification_parameter num_tokens) (\<lambda>amp_times_total.
         case balances of
           [] \<Rightarrow> Panic
         | balance_0 # rest \<Rightarrow>
             obind (bmul balance_0 num_tokens) (\<lambda>p_d.
             obind (ofold (p_d_step num_tokens invariant) rest (p_d, balance_0)) (\<lambda>(p_d, s).
             obind (if token_index < length balances then Ok (balances ! token_index) else Panic) (\<lambda>balance.
             obind (sub_p s balance) (\<lambda>s.
             obind (bmul invariant invariant) (\<lambda>inv2.
             obind (obind (bmul amp_times_total p_d) (\<lambda>d. obind (bdiv_up inv2 d) (\<lambda>q.
                    obind (bmul q AMP_PRECISION) (\<lambda>m. bmul m balance)))) (\<lambda>c.
             obind (obind (bdiv_down invariant amp_times_total) (\<lambda>q. obind (bmul q AMP_PRECISION) (\<lambda>m. badd s m))) (\<lambda>b.
             obind (obind (badd inv2 c) (\<lambda>n. obind (badd invariant b) (\<lambda>d. bdiv_up n d))) (\<lambda>token_balance.
             token_balance_loop 255 c b invariant token_balance))))))))))"

text \<open>The swaps: the result and the balances after the call.\<close>

definition stable_calc_out_given_in :: "u256 \<Rightarrow> bfp list \<Rightarrow> nat \<Rightarrow> nat \<Rightarrow> bfp \<Rightarrow> bfp bal \<times> bfp list" where
  "stable_calc_out_given_in amp balances token_index_in token_index_out token_amount_in =
     (if token_index_out \<ge> length balances \<or> token_index_in \<ge> length balances then (Err InvalidToken, balances)
      else case obind (calculate_invariant amp balances) (\<lambda>invariant.
                obind (bfp_add (balances ! token_index_in) token_amount_in) (\<lambda>b. Ok (invariant, b))) of
        Ok (invariant, b) \<Rightarrow>
          let balances' = balances[token_index_in := b]
          in (case get_token_balance amp balances' invariant token_index_out of
                Ok final_balance_out \<Rightarrow>
                  (case expect_ok (bfp_sub (balances' ! token_index_in) token_amount_in) of
                     Ok b' \<Rightarrow>
                       let balances'' = balances'[token_index_in := b']
                       in (obind (bfp_sub (balances'' ! token_index_out) final_balance_out) (\<lambda>d. bfp_sub d 1), balances'')
                   | Err e \<Rightarrow> (Err e, balances')
                   | Panic \<Rightarrow> (Panic, balances'))
              | Err e \<Rightarrow> (Err e, balances')
              | Panic \<Rightarrow> (Panic, balances'))
      | Err e \<Rightarrow> (Err e, balances)
      | Panic \<Rightarrow> (Panic, balances))"

definition stable_calc_in_given_out :: "u256 \<Rightarrow> bfp list \<Rightarrow> nat \<Rightarrow> nat \<Rightarrow> bfp \<Rightarrow> bfp bal \<times> bfp list" where
  "stable_calc_in_given_out amp balances token_index_in token_index_out token_amount_out =
     (if token_index_out \<ge> length balances \<or> token_index_in \<ge> length balances then (Err InvalidToken, balances)
      else case obind (calculate_invariant amp balances) (\<lambda>invariant.
                obind (bfp_sub (balances ! token_index_out) token_amount_out) (\<lambda>b. Ok (invariant, b))) of
        Ok (invariant, b) \<Rightarrow>
          let balances' = balances[token_index_out := b]
          in (case get_token_balance amp balances' invariant token_index_in of
                Ok final_balance_in \<Rightarrow>
                  (case expect_ok (bfp_add (balances' ! token_index_out) token_amount_out) of
                     Ok b' \<Rightarrow>
                       let balances'' = balances'[token_index_out := b']
                       in (obind (bfp_sub final_balance_in (balances'' ! token_index_in)) (\<lambda>d. bfp_add d 1), balances'')
                   | Err e \<Rightarrow> (Err e, balances')
                   | Panic \<Rightarrow> (Panic, balances'))
              | Err e \<Rightarrow> (Err e, balances')
              | Panic \<Rightarrow> (Panic, balances'))
      | Err e \<Rightarrow> (Err e, balances)
      | Panic \<Rightarrow> (Panic, balances))"

record amplification_parameter =
  ap_factor :: u256
  ap_precision :: u256

datatype amplification_error = ZeroPrecision

definition amplification_new :: "u256 \<Rightarrow> u256 \<Rightarrow> (amplification_error, amplification_parameter) outcome" where
  "amplification_new factor precision =
     (if precision = 0 then Err ZeroPrecision else Ok \<lparr> ap_factor = factor, ap_precision = precision \<rparr>)"

text \<open>\<open>with_base\<close>: \<open>None\<close> is an \<open>Err\<close> without content, the division of the source panics on a zero precision.\<close>

definition with_base :: "amplification_parameter \<Rightarrow> u256 \<Rightarrow> (unit, u256) outcome" where
  "with_base ap base = obind (ok_or (checked_mul (ap_factor ap) base) ()) (\<lambda>p. div_p p (ap_precision ap))"

section \<open>Lemmas\<close>

lemma convergence_criteria_eq:
  "convergence_criteria new old =
     Ok (if unat new \<le> unat old + 1 \<and> unat old \<le> unat new + 1 then Some new else None)"
proof (cases "old < new")
  case True
  then have "bsub new old = Ok (new - old)"
    by (simp add: chk word_less_nat_alt unat_minus_le)
  then show ?thesis
    using True by (auto simp: convergence_criteria_def word_less_nat_alt word_le_nat_alt unat_minus_le)
next
  case False
  then have "bsub old new = Ok (old - new)"
    by (simp add: chk word_less_nat_alt unat_minus_le)
  then show ?thesis
    using False by (auto simp: convergence_criteria_def word_less_nat_alt word_le_nat_alt unat_minus_le)
qed

lemma invariant_step_not_Panic: "invariant_step att n bs s i \<noteq> Panic"
proof -
  have "safe (\<lambda>_. True) (invariant_d_p n bs i)"
    unfolding invariant_d_p_def by (rule safe_ofold) (simp_all add: wp safe_bal_op)
  then have "invariant_d_p n bs i \<noteq> Panic"
    by (rule safe_not_Panic)
  then show ?thesis
    by (simp add: invariant_step_def outc)
qed

lemma invariant_loop_not_Panic: "invariant_loop k att n bs s i \<noteq> Panic"
  by (induction k arbitrary: i) (auto simp: outc invariant_step_not_Panic convergence_criteria_eq split: option.splits if_splits)

lemma calculate_invariant_not_Panic: "calculate_invariant amp bs \<noteq> Panic"
proof -
  have "ofold (\<lambda>b s. badd s b) bs (0 :: u256) \<noteq> Panic"
    by (rule safe_not_Panic [OF safe_ofold [where I = "\<lambda>_. True"]]) (simp_all add: safe_bal_op)
  then show ?thesis
    by (auto simp: calculate_invariant_def Let_def outc invariant_loop_not_Panic split: if_splits)
qed

lemma token_balance_step_not_Panic: "token_balance_step c b i t \<noteq> Panic"
  by (simp add: token_balance_step_def outc)

lemma token_balance_loop_not_Panic: "token_balance_loop k c b i t \<noteq> Panic"
  by (induction k arbitrary: t) (auto simp: outc token_balance_step_not_Panic convergence_criteria_eq split: option.splits if_splits)

lemma p_d_loop_sum:
  "ofold (p_d_step n D) xs (p, s) = Ok (p', s') \<Longrightarrow> unat s' = unat s + sum_list (map unat xs)"
proof (induction xs arbitrary: p s)
  case (Cons x xs)
  then show ?case
    by (force simp: p_d_step_def outc chk)
qed simp

lemma p_d_loop_safe:
  assumes "i < length (b # bs)"
  shows "safe (\<lambda>(p', s'). unat ((b # bs) ! i) \<le> unat s') (ofold (p_d_step n D) bs (p, b))"
proof -
  have "ofold (p_d_step n D) bs (p, b) \<noteq> Panic"
    by (rule safe_not_Panic [OF safe_ofold [where I = "\<lambda>_. True"]])
      (auto simp: p_d_step_def wp safe_bal_op split: prod.splits)
  moreover have "unat ((b # bs) ! i) \<le> unat s'" if "ofold (p_d_step n D) bs (p, b) = Ok (p', s')" for p' s'
  proof -
    have "unat s' = sum_list (map unat (b # bs))"
      using p_d_loop_sum [OF that] by simp
    moreover have "unat ((b # bs) ! i) \<in> set (map unat (b # bs))"
      unfolding set_map by (rule imageI, rule nth_mem) (rule assms)
    ultimately show ?thesis
      using member_le_sum_list [of "unat ((b # bs) ! i)" "map unat (b # bs)"] by simp
  qed
  ultimately show ?thesis
    by (auto simp: safe_bal_op)
qed

lemma get_token_balance_not_Panic:
  assumes "i < length bs"
  shows "get_token_balance amp bs D i \<noteq> Panic"
proof -
  obtain b0 rest where bs: "bs = b0 # rest"
    using assms by (cases bs) auto
  have loop: "ofold (p_d_step n D) rest (p, b0) \<noteq> Panic"
    "ofold (p_d_step n D) rest (p, b0) = Ok (p', s') \<Longrightarrow> sub_p s' ((b0 # rest) ! i) \<noteq> Panic" for n p p' s'
    using p_d_loop_safe [OF assms [unfolded bs], of n D p] by (auto simp: chk dest: safe_not_Panic safe_Ok)
  show ?thesis
    using assms unfolding bs
    by (auto simp: get_token_balance_def Let_def outc token_balance_loop_not_Panic loop(1) dest: loop(2) split: if_splits)
qed

section \<open>Safety of the swaps\<close>

text \<open>The in-place change of a balance is undone exactly.\<close>

lemma bfp_add_undone: "bfp_add a x = Ok b \<Longrightarrow> bfp_sub b x = Ok a"
  by (simp add: chk)

lemma bfp_sub_undone: "bfp_sub a x = Ok b \<Longrightarrow> bfp_add b x = Ok a"
  by (simp add: chk)

lemma stable_out_safe:
  "case stable_calc_out_given_in amp bs i j x of
     (Ok out, bs') \<Rightarrow> bs' = bs \<and> unat out < unat (bs ! j) | (Err e, bs') \<Rightarrow> True | (Panic, bs') \<Rightarrow> False"
proof (cases "j \<ge> length bs \<or> i \<ge> length bs")
  case False
  then have ij: "i < length bs" "j < length bs"
    by auto
  let ?start = "obind (calculate_invariant amp bs) (\<lambda>D. obind (bfp_add (bs ! i) x) (\<lambda>b. Ok (D, b)))"
  have unfolded: "stable_calc_out_given_in amp bs i j x =
      (case ?start of Ok (D, b) \<Rightarrow>
         (case get_token_balance amp (bs[i := b]) D j of
            Ok f \<Rightarrow> (obind (bfp_sub (bs ! j) f) (\<lambda>d. bfp_sub d 1), bs)
          | Err e \<Rightarrow> (Err e, bs[i := b]) | Panic \<Rightarrow> (Panic, bs[i := b]))
       | Err e \<Rightarrow> (Err e, bs) | Panic \<Rightarrow> (Panic, bs))"
    using False ij
    by (auto simp: stable_calc_out_given_in_def Let_def outc
        dest!: bfp_add_undone split: outcome.splits prod.splits)
  show ?thesis
  proof (cases ?start)
    case (Ok p)
    then obtain D b where p: "?start = Ok (D, b)"
      by (cases p) auto
    have "get_token_balance amp (bs[i := b]) D j \<noteq> Panic"
      using ij by (intro get_token_balance_not_Panic) simp
    moreover have "obind (bfp_sub (bs ! j) f) (\<lambda>d. bfp_sub d 1) \<noteq> Panic" for f
      by (simp add: outc)
    ultimately show ?thesis
      unfolding unfolded p by (auto simp: outc chk split: outcome.splits)
  qed (auto simp: unfolded outc calculate_invariant_not_Panic)
qed (simp add: stable_calc_out_given_in_def)

lemma stable_in_safe:
  "case stable_calc_in_given_out amp bs i j x of
     (Ok v, bs') \<Rightarrow> bs' = bs \<and> 0 < unat v | (Err e, bs') \<Rightarrow> True | (Panic, bs') \<Rightarrow> False"
proof (cases "j \<ge> length bs \<or> i \<ge> length bs")
  case False
  then have ij: "i < length bs" "j < length bs"
    by auto
  let ?start = "obind (calculate_invariant amp bs) (\<lambda>D. obind (bfp_sub (bs ! j) x) (\<lambda>b. Ok (D, b)))"
  have unfolded: "stable_calc_in_given_out amp bs i j x =
      (case ?start of Ok (D, b) \<Rightarrow>
         (case get_token_balance amp (bs[j := b]) D i of
            Ok f \<Rightarrow> (obind (bfp_sub f (bs ! i)) (\<lambda>d. bfp_add d 1), bs)
          | Err e \<Rightarrow> (Err e, bs[j := b]) | Panic \<Rightarrow> (Panic, bs[j := b]))
       | Err e \<Rightarrow> (Err e, bs) | Panic \<Rightarrow> (Panic, bs))"
    using False ij
    by (auto simp: stable_calc_in_given_out_def Let_def outc
        dest!: bfp_sub_undone split: outcome.splits prod.splits)
  show ?thesis
  proof (cases ?start)
    case (Ok p)
    then obtain D b where p: "?start = Ok (D, b)"
      by (cases p) auto
    have "get_token_balance amp (bs[j := b]) D i \<noteq> Panic"
      using ij by (intro get_token_balance_not_Panic) simp
    moreover have "obind (bfp_sub f (bs ! i)) (\<lambda>d. bfp_add d 1) \<noteq> Panic" for f
      by (simp add: outc)
    ultimately show ?thesis
      unfolding unfolded p by (auto simp: outc chk split: outcome.splits)
  qed (auto simp: unfolded outc calculate_invariant_not_Panic)
qed (simp add: stable_calc_in_given_out_def)

text \<open>
  C40. The stable pool formulas never panic, whatever the amplification, the balances, the indices and
  the amount: no index is out of range, the subtraction from the sum of the balances cannot underflow
  and the \<open>expect\<close>s that undo the change of a balance never fire. A successful swap leaves the balances of
  the caller as they were; a sale pays out less than the output balance, and a purchase costs at
  least one unit.
\<close>

theorem stable_math_safe:
  "(case stable_calc_out_given_in amp balances i j amount of
      (Ok out, balances') \<Rightarrow> balances' = balances \<and> unat out < unat (balances ! j)
    | (Err e, balances') \<Rightarrow> True
    | (Panic, balances') \<Rightarrow> False) \<and>
   (case stable_calc_in_given_out amp balances i j amount of
      (Ok v, balances') \<Rightarrow> balances' = balances \<and> 0 < unat v
    | (Err e, balances') \<Rightarrow> True
    | (Panic, balances') \<Rightarrow> False)"
  using stable_out_safe stable_in_safe by (rule conjI)

end
