(* ===== verification/Baseline.thy ===== *)
theory Baseline
  imports Orders
begin

text \<open>
  The baseline path finder, \<open>crates/shared/src/baseline_solver.rs\<close>: estimates of a trade along a
  path of on-chain liquidity and the candidate paths over the base tokens.

  The trait \<open>BaselineSolvable\<close> is a pair of functions; its contract, that an input computed for an
  output really buys that output, is the locale \<open>baseline_solvable\<close>, which the pools of the
  other theories interpret. A \<open>HashMap\<close> is a partial function and a \<open>HashSet\<close> a set, so nothing
  depends on their iteration order.
\<close>

section \<open>Optional results that may panic\<close>

type_synonym 'a maybe = "(unit, 'a) outcome"

definition ok :: "('e, 'a) outcome \<Rightarrow> 'a maybe" where
  "ok r = map_err (\<lambda>_. ()) r"

text \<open>\<open>filter_map\<close> with a closure that pairs each element with its value.\<close>

fun filter_map_p :: "('a \<Rightarrow> 'b maybe) \<Rightarrow> 'a list \<Rightarrow> ('a \<times> 'b) list maybe" where
  "filter_map_p f [] = Ok []"
| "filter_map_p f (x # xs) =
     (case f x of
        Ok y \<Rightarrow> obind (filter_map_p f xs) (\<lambda>r. Ok ((x, y) # r))
      | Err e \<Rightarrow> filter_map_p f xs
      | Panic \<Rightarrow> Panic)"

text \<open>\<open>max_by_key\<close> gives the last of the maximal elements, \<open>min_by_key\<close> the first of the minimal ones.\<close>

fun max_by_key :: "('a \<Rightarrow> 'k::linorder) \<Rightarrow> 'a list \<Rightarrow> 'a option" where
  "max_by_key k [] = None"
| "max_by_key k (x # xs) =
     (case max_by_key k xs of None \<Rightarrow> Some x | Some y \<Rightarrow> if k x \<le> k y then Some y else Some x)"

fun min_by_key :: "('a \<Rightarrow> 'k::linorder) \<Rightarrow> 'a list \<Rightarrow> 'a option" where
  "min_by_key k [] = None"
| "min_by_key k (x # xs) =
     (case min_by_key k xs of None \<Rightarrow> Some x | Some y \<Rightarrow> if k y < k x then Some y else Some x)"

section \<open>Estimates\<close>

type_synonym 'l amount_fun = "'l \<Rightarrow> h160 \<Rightarrow> u256 \<times> h160 \<Rightarrow> u256 maybe"
type_synonym 'l liquidity_map = "token_pair \<Rightarrow> 'l list option"

record 'l estimate =
  est_value :: u256
  est_path :: "'l list"

definition estimate_gas_cost :: "('l \<Rightarrow> nat) \<Rightarrow> 'l estimate \<Rightarrow> nat" where
  "estimate_gas_cost gas_cost e = 50000 + sum_list (map gas_cost (est_path e))"

text \<open>One hop of either direction: the candidates on the pair of the two tokens.\<close>

definition hop_candidates ::
  "'l amount_fun \<Rightarrow> 'l liquidity_map \<Rightarrow> h160 \<Rightarrow> u256 \<Rightarrow> h160 \<Rightarrow> ('l \<times> u256) list maybe" where
  "hop_candidates amount_fun liquidity current amount previous =
     obind (ok_or (token_pair_new current previous) ()) (\<lambda>pair.
     obind (ok_or (liquidity pair) ()) (\<lambda>ls.
     filter_map_p (\<lambda>l. amount_fun l current (amount, previous)) ls))"

definition buy_step ::
  "'l amount_fun \<Rightarrow> 'l liquidity_map \<Rightarrow> h160 \<Rightarrow> u256 \<times> h160 \<times> 'l list \<Rightarrow> (u256 \<times> h160 \<times> 'l list) maybe" where
  "buy_step get_amount_out liquidity current = (\<lambda>(amount, previous, path).
     obind (hop_candidates get_amount_out liquidity current amount previous) (\<lambda>cs.
     obind (ok_or (max_by_key snd cs) ()) (\<lambda>(best_liquidity, amount).
     Ok (amount, current, path @ [best_liquidity]))))"

definition estimate_buy_amount ::
  "'l amount_fun \<Rightarrow> u256 \<Rightarrow> h160 list \<Rightarrow> 'l liquidity_map \<Rightarrow> 'l estimate maybe" where
  "estimate_buy_amount get_amount_out sell_amount path liquidity =
     (case path of
        [] \<Rightarrow> Err ()
      | sell_token # rest \<Rightarrow>
          obind (ofold (buy_step get_amount_out liquidity) rest (sell_amount, sell_token, [])) (\<lambda>(amount, _, ls).
          Ok \<lparr> est_value = amount, est_path = ls \<rparr>))"

definition sell_step ::
  "'l amount_fun \<Rightarrow> 'l liquidity_map \<Rightarrow> h160 \<Rightarrow> u256 \<times> h160 \<times> 'l list \<Rightarrow> (u256 \<times> h160 \<times> 'l list) maybe" where
  "sell_step get_amount_in liquidity current = (\<lambda>(amount, previous, path).
     obind (hop_candidates get_amount_in liquidity current amount previous) (\<lambda>cs.
     obind (ok_or (min_by_key snd cs) ()) (\<lambda>(best_liquidity, amount).
     Ok (amount, current, path @ [best_liquidity]))))"

definition estimate_sell_amount ::
  "'l amount_fun \<Rightarrow> u256 \<Rightarrow> h160 list \<Rightarrow> 'l liquidity_map \<Rightarrow> 'l estimate maybe" where
  "estimate_sell_amount get_amount_in buy_amount path liquidity =
     (case rev path of
        [] \<Rightarrow> Err ()
      | buy_token # rest \<Rightarrow>
          obind (ofold (sell_step get_amount_in liquidity) rest (buy_amount, buy_token, [])) (\<lambda>(amount, _, ls).
          Ok \<lparr> est_value = amount, est_path = rev ls \<rparr>))"

section \<open>Base tokens and candidate paths\<close>

definition DEFAULT_MAX_HOPS :: nat where
  "DEFAULT_MAX_HOPS = 2"

record base_tokens =
  bt_tokens :: "h160 set"
  bt_pairs :: "token_pair set"

definition base_token_pairs :: "h160 list \<Rightarrow> token_pair list" where
  "base_token_pairs tokens =
     concat (map (\<lambda>(index, token). List.map_filter (\<lambda>token'. token_pair_new token token') (drop index tokens))
       (enumerate 0 tokens))"

definition base_tokens_new :: "h160 \<Rightarrow> h160 list \<Rightarrow> base_tokens" where
  "base_tokens_new native_token base_tokens =
     (let tokens = remdups_adj (sort (base_tokens @ [native_token]))
      in \<lparr> bt_tokens = set tokens, bt_pairs = set (base_token_pairs tokens) \<rparr>)"

definition relevant_pairs_of :: "h160 set \<Rightarrow> token_pair \<Rightarrow> token_pair set" where
  "relevant_pairs_of tokens pair =
     {pair} \<union> (\<Union>token \<in> set (token_pair_iter pair).
       (\<lambda>m. the m) ` Set.filter (\<lambda>m. m \<noteq> None) ((\<lambda>base_token. token_pair_new base_token token) ` tokens))"

definition relevant_pairs :: "base_tokens \<Rightarrow> token_pair list \<Rightarrow> token_pair set" where
  "relevant_pairs bt pairs =
     (let result = (\<Union>pair \<in> set pairs. relevant_pairs_of (bt_tokens bt) pair)
      in if result \<noteq> {} then result \<union> bt_pairs bt else result)"

text \<open>The rounds of \<open>path_candidates\<close>: the prefixes of one round give candidates and the next prefixes.\<close>

fun path_rounds :: "nat \<Rightarrow> h160 \<Rightarrow> h160 set \<Rightarrow> h160 list set \<Rightarrow> h160 list set \<Rightarrow> h160 list set" where
  "path_rounds 0 buy_token base_tokens path_prefixes candidates = candidates"
| "path_rounds (Suc n) buy_token base_tokens path_prefixes candidates =
     path_rounds n buy_token base_tokens
       (\<Union>p \<in> path_prefixes. (\<lambda>t. p @ [t]) ` Set.filter (\<lambda>t. t \<noteq> buy_token \<and> t \<notin> set p) base_tokens)
       (candidates \<union> (\<lambda>p. p @ [buy_token]) ` path_prefixes)"

definition path_candidates_of :: "h160 \<Rightarrow> h160 \<Rightarrow> h160 set \<Rightarrow> nat \<Rightarrow> h160 list set" where
  "path_candidates_of sell_token buy_token base_tokens max_hops =
     (if sell_token = buy_token then {}
      else path_rounds (max_hops + 1) buy_token base_tokens {[sell_token]} {})"

definition path_candidates_with_hops :: "base_tokens \<Rightarrow> h160 \<Rightarrow> h160 \<Rightarrow> nat \<Rightarrow> h160 list set" where
  "path_candidates_with_hops bt sell_token buy_token max_hops =
     path_candidates_of sell_token buy_token (bt_tokens bt) max_hops"

definition path_candidates :: "base_tokens \<Rightarrow> h160 \<Rightarrow> h160 \<Rightarrow> h160 list set" where
  "path_candidates bt sell_token buy_token = path_candidates_with_hops bt sell_token buy_token DEFAULT_MAX_HOPS"

section \<open>Iterators\<close>

lemma ok_Ok_iff [outc]: "ok r = Ok x \<longleftrightarrow> r = Ok x"
  by (simp add: ok_def outc)

lemma ok_Panic_iff [outc]: "ok r = Panic \<longleftrightarrow> r = Panic"
  by (simp add: ok_def outc)

lemma max_by_key_None [simp]: "max_by_key k xs = None \<longleftrightarrow> xs = []"
  by (cases xs) (auto split: option.splits)

lemma max_by_key_Some:
  "max_by_key k xs = Some x \<Longrightarrow> x \<in> set xs \<and> (\<forall>y \<in> set xs. k y \<le> k x)"
proof (induction xs arbitrary: x)
  case (Cons a xs)
  then show ?case
    by (cases "max_by_key k xs") (fastforce split: if_splits)+
qed simp

lemma min_by_key_None [simp]: "min_by_key k xs = None \<longleftrightarrow> xs = []"
  by (cases xs) (auto split: option.splits)

lemma min_by_key_Some:
  "min_by_key k xs = Some x \<Longrightarrow> x \<in> set xs \<and> (\<forall>y \<in> set xs. k x \<le> k y)"
proof (induction xs arbitrary: x)
  case (Cons a xs)
  then show ?case
    by (cases "min_by_key k xs") (fastforce split: if_splits)+
qed simp

lemma filter_map_p_Ok: "filter_map_p f xs = Ok r \<Longrightarrow> set r = {(x, y). x \<in> set xs \<and> f x = Ok y}"
  by (induction xs arbitrary: r) (fastforce simp: outc split: outcome.splits)+

lemma filter_map_p_Panic: "filter_map_p f xs = Panic \<longleftrightarrow> (\<exists>x \<in> set xs. f x = Panic)"
  by (induction xs) (auto simp: outc split: outcome.splits)

section \<open>Candidate paths\<close>

lemma path_rounds_eq:
  "path_rounds n b B P C = C \<union>
     {p @ mid @ [b] |p mid. p \<in> P \<and> length mid < n \<and> distinct mid \<and> set mid \<inter> set p = {} \<and> set mid \<subseteq> B \<and> b \<notin> set mid}"
proof (induction n arbitrary: P C)
  case (Suc n)
  let ?P' = "\<Union>p \<in> P. (\<lambda>t. p @ [t]) ` Set.filter (\<lambda>t. t \<noteq> b \<and> t \<notin> set p) B"
  let ?paths = "\<lambda>P n. {p @ mid @ [b] |p mid. p \<in> P \<and> length mid < n \<and> distinct mid \<and>
      set mid \<inter> set p = {} \<and> set mid \<subseteq> B \<and> b \<notin> set mid}"
  have "?paths P (Suc n) = (\<lambda>p. p @ [b]) ` P \<union> ?paths ?P' n"
  proof (intro equalityI subsetI)
    fix q assume "q \<in> ?paths P (Suc n)"
    then obtain p mid where q: "q = p @ mid @ [b]" "p \<in> P" "length mid < Suc n" "distinct mid"
        "set mid \<inter> set p = {}" "set mid \<subseteq> B" "b \<notin> set mid"
      by blast
    show "q \<in> (\<lambda>p. p @ [b]) ` P \<union> ?paths ?P' n"
    proof (cases mid)
      case (Cons t mid')
      then have "p @ [t] \<in> ?P'" "q = (p @ [t]) @ mid' @ [b]" "length mid' < n" "distinct mid'"
          "set mid' \<inter> set (p @ [t]) = {}" "set mid' \<subseteq> B" "b \<notin> set mid'"
        using q by auto
      then show ?thesis
        by blast
    qed (use q in auto)
  next
    fix q assume "q \<in> (\<lambda>p. p @ [b]) ` P \<union> ?paths ?P' n"
    then show "q \<in> ?paths P (Suc n)"
    proof
      assume "q \<in> (\<lambda>p. p @ [b]) ` P"
      then obtain p where "p \<in> P" "q = p @ [] @ [b]"
        by auto
      then show ?thesis
        by (intro CollectI exI [of _ p] exI [of _ "[]"]) simp
    next
      assume "q \<in> ?paths ?P' n"
      then obtain p' mid where mid: "p' \<in> ?P'" "q = p' @ mid @ [b]" "length mid < n"
          "distinct mid" "set mid \<inter> set p' = {}" "set mid \<subseteq> B" "b \<notin> set mid"
        by blast
      from mid(1) obtain p t where "p \<in> P" "t \<in> B" "t \<noteq> b" "t \<notin> set p" "p' = p @ [t]"
        by auto
      with mid have "p \<in> P" "q = p @ (t # mid) @ [b]" "length (t # mid) < Suc n" "distinct (t # mid)"
          "set (t # mid) \<inter> set p = {}" "set (t # mid) \<subseteq> B" "b \<notin> set (t # mid)"
        by auto
      then show ?thesis
        by blast
    qed
  qed
  then show ?case
    by (simp add: Suc.IH) blast
qed simp

lemma path_candidates_of_eq:
  "path_candidates_of s b B k =
     {s # mid @ [b] |mid. s \<noteq> b \<and> length mid \<le> k \<and> distinct (s # mid) \<and> set mid \<subseteq> B \<and> b \<notin> set mid}"
  by (auto simp: path_candidates_of_def path_rounds_eq less_Suc_eq_le)

section \<open>Relevant pairs\<close>

lemma token_pair_new_Some: "a \<noteq> b \<Longrightarrow> \<exists>p. token_pair_new a b = Some p"
  by (simp add: token_pair_new_def)

lemma base_token_pairs_complete:
  assumes "a \<in> set ts" "b \<in> set ts" "token_pair_new a b = Some p"
  shows "p \<in> set (base_token_pairs ts)"
proof -
  have main: "p \<in> set (base_token_pairs ts)" if "i \<le> j" "j < length ts" "token_pair_new (ts ! i) (ts ! j) = Some p" for i j
  proof -
    have "(i, ts ! i) \<in> set (enumerate 0 ts)"
      using that by (auto simp: in_set_enumerate_eq)
    moreover have "ts ! j \<in> set (drop i ts)"
      using that by (auto simp: in_set_conv_nth intro!: exI [of _ "j - i"])
    ultimately show ?thesis
      using that(3) by (force simp: base_token_pairs_def List.map_filter_def)
  qed
  obtain i j where "i < length ts" "a = ts ! i" "j < length ts" "b = ts ! j"
    using assms(1,2) by (metis in_set_conv_nth)
  then show ?thesis
    using main [of i j] main [of j i] assms(3) token_pair_new_commute [of a b] by (cases "i \<le> j") auto
qed

text \<open>The token pairs along a path.\<close>

fun path_pairs :: "h160 list \<Rightarrow> token_pair option set" where
  "path_pairs (a # b # rest) = insert (token_pair_new a b) (path_pairs (b # rest))"
| "path_pairs _ = {}"


lemma relevant_pairs_of_base:
  assumes "t \<in> set (token_pair_iter pair)" "x \<in> B" "token_pair_new x t = Some p"
  shows "p \<in> relevant_pairs_of B pair"
proof -
  have "Some p \<in> Set.filter (\<lambda>m. m \<noteq> None) ((\<lambda>x. token_pair_new x t) ` B)"
    using assms(2,3) by (auto intro: image_eqI [where x = x])
  then have "p \<in> (\<lambda>m. the m) ` Set.filter (\<lambda>m. m \<noteq> None) ((\<lambda>x. token_pair_new x t) ` B)"
    by (rule rev_image_eqI) simp
  then show ?thesis
    using assms(1) by (auto simp: relevant_pairs_of_def)
qed

lemma path_pairs_append:
  "path_pairs (xs @ [a, b]) = path_pairs (xs @ [a]) \<union> {token_pair_new a b}"
  by (induction xs rule: path_pairs.induct) auto

lemma path_pairs_base:
  assumes "set ts \<subseteq> B" "distinct ts"
    and closed: "\<And>a b p. a \<in> B \<Longrightarrow> b \<in> B \<Longrightarrow> token_pair_new a b = Some p \<Longrightarrow> p \<in> R"
  shows "path_pairs ts \<subseteq> Some ` R"
  using assms(1,2)
proof (induction ts rule: path_pairs.induct)
  case (1 a b rest)
  then obtain p where "token_pair_new a b = Some p"
    using token_pair_new_Some [of a b] by auto
  with 1 closed [of a b p] show ?case
    by auto
qed auto

lemma path_pairs_relevant:
  assumes pair: "token_pair_new s b = Some pair"
    and mid: "distinct (s # mid)" "set mid \<subseteq> bt_tokens bt" "b \<notin> set mid"
    and closed: "\<And>x y p. x \<in> bt_tokens bt \<Longrightarrow> y \<in> bt_tokens bt \<Longrightarrow> token_pair_new x y = Some p \<Longrightarrow> p \<in> bt_pairs bt"
  shows "path_pairs (s # mid @ [b]) \<subseteq> Some ` relevant_pairs bt [pair]"
proof -
  let ?R = "relevant_pairs bt [pair]"
  have R: "relevant_pairs_of (bt_tokens bt) pair \<subseteq> ?R" "bt_pairs bt \<subseteq> ?R" "pair \<in> ?R"
    by (auto simp: relevant_pairs_def relevant_pairs_of_def)
  have ends: "s \<in> set (token_pair_iter pair)" "b \<in> set (token_pair_iter pair)"
    using pair by (auto simp: token_pair_new_def split: if_splits)
  have hop: "token_pair_new x t \<in> Some ` ?R" if "x \<in> bt_tokens bt" "t \<in> set (token_pair_iter pair)" "x \<noteq> t" for x t
  proof -
    obtain p where "token_pair_new x t = Some p"
      using token_pair_new_Some [of x t] \<open>x \<noteq> t\<close> by auto
    then show ?thesis
      using relevant_pairs_of_base [OF that(2,1)] R(1) by auto
  qed
  show ?thesis
  proof (cases mid rule: rev_cases)
    case Nil
    then show ?thesis
      using pair R by auto
  next
    case (snoc mid' z)
    have inner: "path_pairs mid \<subseteq> Some ` ?R"
      using path_pairs_base [of mid "bt_tokens bt" "bt_pairs bt"] mid closed image_mono [OF R(2), of Some] by auto
    have last: "token_pair_new z b \<in> Some ` ?R"
      using hop [of z b] snoc mid ends by auto
    obtain y rest where cons: "mid = y # rest"
      by (cases mid) (use snoc in auto)
    have first: "token_pair_new s y \<in> Some ` ?R"
      using hop [of y s] cons mid ends token_pair_new_commute [of s y] by auto
    have "path_pairs (mid @ [b]) \<subseteq> Some ` ?R"
      using path_pairs_append [of mid' z b] inner last snoc by auto
    then show ?thesis
      using first cons by auto
  qed
qed

lemma base_tokens_new_closed:
  "x \<in> bt_tokens (base_tokens_new n ts) \<Longrightarrow> y \<in> bt_tokens (base_tokens_new n ts) \<Longrightarrow>
     token_pair_new x y = Some p \<Longrightarrow> p \<in> bt_pairs (base_tokens_new n ts)"
  by (auto simp: base_tokens_new_def Let_def intro: base_token_pairs_complete)

section \<open>The contract of a pool\<close>

text \<open>
  What the path finder relies on: an input computed for a wanted output buys at least that output on
  the same pool in the same state. The estimates along a path are then sufficient hop by hop: in a
  \<open>chain\<close> from the first token of a path to its last, every pool turns its amount into enough of the
  next one.
\<close>

fun chain :: "'l amount_fun \<Rightarrow> h160 list \<Rightarrow> 'l list \<Rightarrow> u256 list \<Rightarrow> bool" where
  "chain get_amount_out [t] [] [a] \<longleftrightarrow> True"
| "chain get_amount_out (t # u # ts) (l # ls) (a # b # as) \<longleftrightarrow>
     (case get_amount_out l u (a, t) of Ok y \<Rightarrow> b \<le> y | Err e \<Rightarrow> False | Panic \<Rightarrow> False) \<and>
     chain get_amount_out (u # ts) ls (b # as)"
| "chain get_amount_out _ _ _ \<longleftrightarrow> False"

lemma chain_Cons:
  assumes "chain out ts ls as" "out l (hd ts) (a, t) = Ok y" "hd as \<le> y"
  shows "chain out (t # ts) (l # ls) (a # as)"
  using assms by (cases "(out, ts, ls, as)" rule: chain.cases) auto

locale baseline_solvable =
  fixes get_amount_out get_amount_in :: "'l amount_fun" and invar :: "'l \<Rightarrow> bool"
  assumes sufficient: "invar l \<Longrightarrow> get_amount_in l in_token (amount, out_token) = Ok x \<Longrightarrow>
    \<exists>y. get_amount_out l out_token (x, in_token) = Ok y \<and> amount \<le> y"
begin

definition liquidity_ok :: "'l liquidity_map \<Rightarrow> bool" where
  "liquidity_ok liq \<longleftrightarrow> (\<forall>pair ls. liq pair = Some ls \<longrightarrow> list_all invar ls)"

lemma sell_step_sufficient:
  assumes "sell_step get_amount_in liq t (a, u, ls) = Ok (a', u', ls')" "liquidity_ok liq"
  shows "\<exists>l y. u' = t \<and> ls' = ls @ [l] \<and> get_amount_out l u (a', t) = Ok y \<and> a \<le> y"
proof -
  obtain cs l where cs: "hop_candidates get_amount_in liq t a u = Ok cs" "min_by_key snd cs = Some (l, a')"
      "u' = t" "ls' = ls @ [l]"
    using assms(1) by (auto simp: sell_step_def outc)
  then have "(l, a') \<in> set cs"
    using min_by_key_Some by fastforce
  moreover obtain pair pools where "liq pair = Some pools" "filter_map_p (\<lambda>l. get_amount_in l t (a, u)) pools = Ok cs"
    using cs(1) by (auto simp: hop_candidates_def outc)
  ultimately have "get_amount_in l t (a, u) = Ok a'" "invar l"
    using filter_map_p_Ok assms(2) by (fastforce simp: liquidity_ok_def list_all_iff)+
  with sufficient cs(3,4) show ?thesis
    by blast
qed

lemma sell_loop_sufficient:
  assumes "ofold (sell_step get_amount_in liq) ts (a, u, ls) = Ok (a', u', ls')" and liq: "liquidity_ok liq"
  shows "\<exists>hops as. ls' = ls @ rev hops \<and> chain get_amount_out (rev ts @ [u]) hops as \<and>
    hd as = a' \<and> last as = a \<and> as \<noteq> [] \<and> hd (rev ts @ [u]) = u'"
  using assms(1)
proof (induction ts arbitrary: a' u' ls' rule: rev_induct)
  case Nil
  then show ?case
    by (auto intro!: exI [of _ "[]"] exI [of _ "[a']"])
next
  case (snoc t ts)
  then obtain a1 u1 ls1 where 1: "ofold (sell_step get_amount_in liq) ts (a, u, ls) = Ok (a1, u1, ls1)"
      and step: "sell_step get_amount_in liq t (a1, u1, ls1) = Ok (a', u', ls')"
    by (auto simp: ofold_append outc)
  obtain hops as where IH: "ls1 = ls @ rev hops" "chain get_amount_out (rev ts @ [u]) hops as"
      "hd as = a1" "last as = a" "as \<noteq> []" "hd (rev ts @ [u]) = u1"
    using snoc.IH [OF 1] by blast
  obtain l y where l: "u' = t" "ls' = ls1 @ [l]" "get_amount_out l u1 (a', t) = Ok y" "a1 \<le> y"
    using sell_step_sufficient [OF step liq] by blast
  have "chain get_amount_out (t # rev ts @ [u]) (l # hops) (a' # as)"
    using IH l by (intro chain_Cons) auto
  then show ?case
    using IH l by (intro exI [of _ "l # hops"] exI [of _ "a' # as"]) auto
qed

lemma estimate_sell_amount_sufficient:
  assumes "estimate_sell_amount get_amount_in buy_amount path liq = Ok e" "liquidity_ok liq"
  shows "\<exists>as. chain get_amount_out path (est_path e) as \<and> hd as = est_value e \<and> last as = buy_amount"
proof -
  obtain u ts where path: "rev path = u # ts"
    using assms(1) by (auto simp: estimate_sell_amount_def split: list.splits)
  then have p: "path = rev ts @ [u]"
    by (metis rev.simps(2) rev_rev_ident)
  obtain a' u' ls' where "ofold (sell_step get_amount_in liq) ts (buy_amount, u, []) = Ok (a', u', ls')"
      "e = \<lparr> est_value = a', est_path = rev ls' \<rparr>"
    using assms(1) path by (auto simp: estimate_sell_amount_def outc)
  then show ?thesis
    using sell_loop_sufficient [of liq ts buy_amount u "[]" a' u' ls'] assms(2) p by auto
qed

end

section \<open>Properties\<close>

text \<open>
  C39. The candidate paths between two tokens are exactly the simple ones: from the sell token over at
  most the allowed number of distinct base tokens to the buy token, which occurs only at the end; there
  are none from a token to itself.
\<close>

theorem path_candidates_exact:
  "path_candidates_with_hops bt s b k =
     {s # mid @ [b] |mid. s \<noteq> b \<and> length mid \<le> k \<and> distinct (s # mid) \<and> set mid \<subseteq> bt_tokens bt \<and> b \<notin> set mid}"
  by (simp add: path_candidates_with_hops_def path_candidates_of_eq)

text \<open>
  \<open>relevant_pairs\<close> is complete for the path finder: every token pair that occurs along a candidate
  path of a pair is among the relevant pairs of that pair, so the liquidity fetched for them covers
  all candidate paths.
\<close>

theorem relevant_pairs_cover_candidates:
  "case token_pair_new s b of
     Some pair \<Rightarrow>
       \<Union> (path_pairs ` path_candidates_with_hops (base_tokens_new native tokens) s b k)
         \<subseteq> Some ` relevant_pairs (base_tokens_new native tokens) [pair]
   | None \<Rightarrow> path_candidates_with_hops (base_tokens_new native tokens) s b k = {}"
proof (cases "token_pair_new s b")
  case None
  then show ?thesis
    by (auto simp: token_pair_new_def path_candidates_with_hops_def path_candidates_of_def split: if_splits)
next
  case (Some pair)
  show ?thesis
    unfolding Some option.case path_candidates_with_hops_def path_candidates_of_eq
    using path_pairs_relevant [OF Some _ _ _ base_tokens_new_closed] by fast
qed

end
