(* ===== verification/Balancer_Swap.thy ===== *)
theory Balancer_Swap
  imports Stable_Math Baseline
begin

text \<open>
  Swaps on Balancer pools: \<open>crates/shared/src/sources/balancer_v2/swap.rs\<close> with the pool data of
  \<open>pool_fetching.rs\<close>, \<open>pools/common.rs\<close> and \<open>pools/weighted.rs\<close>.

  An \<open>Option\<close> result is an outcome whose error carries nothing, so that the panics inside remain
  visible. A \<open>BTreeMap\<close> of reserves is the list of its entries in the order of the keys, the order in
  which the source iterates over it.
\<close>

section \<open>Pool data\<close>

type_synonym 'v btree_map = "(h160 \<times> 'v) list"

definition btree_get :: "'v btree_map \<Rightarrow> h160 \<Rightarrow> 'v maybe" where
  "btree_get m k = ok_or (map_of m k) ()"

record token_state =
  ts_balance :: u256
  ts_scaling_factor :: bfp

record weighted_token_state =
  wt_common :: token_state
  wt_weight :: bfp

datatype weighted_pool_version = V0 | V3Plus

record weighted_pool_ref =
  wr_reserves :: "weighted_token_state btree_map"
  wr_swap_fee :: bfp
  wr_version :: weighted_pool_version

record stable_pool_ref =
  sr_address :: h160
  sr_reserves :: "token_state btree_map"
  sr_swap_fee :: bfp
  sr_amplification :: amplification_parameter

record common_pool_state =
  cp_id :: h256
  cp_address :: h160
  cp_swap_fee :: bfp
  cp_paused :: bool

record weighted_pool =
  wp_common :: common_pool_state
  wp_reserves :: "weighted_token_state btree_map"
  wp_version :: weighted_pool_version

record stable_pool =
  sp_common :: common_pool_state
  sp_reserves :: "token_state btree_map"
  sp_amplification :: amplification_parameter

text \<open>The scaling factor of a token with the given number of decimals.\<close>

datatype scaling_error = TooManyDecimals

definition scaling_exponent_from_decimals :: "8 word \<Rightarrow> (scaling_error, 8 word) outcome" where
  "scaling_exponent_from_decimals decimals = ok_or (checked_sub 18 decimals) TooManyDecimals"

definition scaling_factor_from_decimals :: "8 word \<Rightarrow> (scaling_error, bfp) outcome" where
  "scaling_factor_from_decimals decimals =
     obind (scaling_exponent_from_decimals decimals) (\<lambda>e. bfp_exp10 (uint e))"

section \<open>Fees and scaling\<close>

definition WEIGHTED_SWAP_GAS_COST :: nat where
  "WEIGHTED_SWAP_GAS_COST = 100000"

definition STABLE_SWAP_GAS_COST :: nat where
  "STABLE_SWAP_GAS_COST = 183520"

definition add_swap_fee_amount :: "u256 \<Rightarrow> bfp \<Rightarrow> u256 bal" where
  "add_swap_fee_amount amount swap_fee = div_up amount (complement swap_fee)"

definition subtract_swap_fee_amount :: "u256 \<Rightarrow> bfp \<Rightarrow> u256 bal" where
  "subtract_swap_fee_amount amount swap_fee =
     obind (mul_up amount swap_fee) (\<lambda>fee_amount. bfp_sub amount fee_amount)"

definition upscale :: "token_state \<Rightarrow> u256 \<Rightarrow> bfp bal" where
  "upscale ts amount = mul_down amount (ts_scaling_factor ts)"

definition upscaled_balance :: "token_state \<Rightarrow> bfp bal" where
  "upscaled_balance ts = upscale ts (ts_balance ts)"

definition downscale_up :: "token_state \<Rightarrow> bfp \<Rightarrow> u256 bal" where
  "downscale_up ts amount = div_up amount (ts_scaling_factor ts)"

definition downscale_down :: "token_state \<Rightarrow> bfp \<Rightarrow> u256 bal" where
  "downscale_down ts amount = div_down amount (ts_scaling_factor ts)"

section \<open>Converging to a sufficient input\<close>

fun converge_loop :: "nat \<Rightarrow> u256 \<Rightarrow> u256 \<Rightarrow> (u256 \<Rightarrow> u256 maybe) \<Rightarrow> u256 \<Rightarrow> u256 maybe" where
  "converge_loop 0 in_amount exact_out_amount get_amount_out bump = Err ()"
| "converge_loop (Suc n) in_amount exact_out_amount get_amount_out bump =
     obind (ok_or (checked_add in_amount bump) ()) (\<lambda>bumped_in_amount.
     obind (get_amount_out bumped_in_amount) (\<lambda>out_amount.
     if exact_out_amount \<le> out_amount then Ok bumped_in_amount
     else obind (mul_p bump 10) (\<lambda>bump.
          converge_loop n in_amount exact_out_amount get_amount_out bump)))"

definition converge_in_amount :: "u256 \<Rightarrow> u256 \<Rightarrow> (u256 \<Rightarrow> u256 maybe) \<Rightarrow> u256 maybe" where
  "converge_in_amount in_amount exact_out_amount get_amount_out =
     obind (get_amount_out in_amount) (\<lambda>out_amount.
     if exact_out_amount \<le> out_amount then Ok in_amount
     else obind (sub_p exact_out_amount out_amount) (\<lambda>deficit.
          obind (ok_or (checked_mul deficit in_amount) ()) (\<lambda>p.
          obind (ceil_div p (max out_amount 1)) (\<lambda>q.
          converge_loop 6 in_amount exact_out_amount get_amount_out (max q 1)))))"

section \<open>Weighted pools\<close>

definition weighted_get_amount_out :: "weighted_pool_ref \<Rightarrow> h160 \<Rightarrow> u256 \<times> h160 \<Rightarrow> u256 maybe" where
  "weighted_get_amount_out pool out_token input =
     (case input of (in_amount, in_token) \<Rightarrow>
        obind (btree_get (wr_reserves pool) in_token) (\<lambda>in_reserves.
        obind (btree_get (wr_reserves pool) out_token) (\<lambda>out_reserves.
        obind (ok (subtract_swap_fee_amount in_amount (wr_swap_fee pool))) (\<lambda>in_amount_minus_fees.
        let calc_out_given_in =
              (case wr_version pool of V0 \<Rightarrow> weighted_calc_out_given_in | V3Plus \<Rightarrow> weighted_calc_out_given_in_v3)
        in obind (ok (upscaled_balance (wt_common in_reserves))) (\<lambda>balance_in.
           obind (ok (upscaled_balance (wt_common out_reserves))) (\<lambda>balance_out.
           obind (ok (upscale (wt_common in_reserves) in_amount_minus_fees)) (\<lambda>amount_in.
           obind (ok (calc_out_given_in balance_in (wt_weight in_reserves) balance_out (wt_weight out_reserves) amount_in))
             (\<lambda>out_amount. ok (downscale_down (wt_common out_reserves) out_amount)))))))))"

definition weighted_get_amount_in :: "weighted_pool_ref \<Rightarrow> h160 \<Rightarrow> u256 \<times> h160 \<Rightarrow> u256 maybe" where
  "weighted_get_amount_in pool in_token output =
     (case output of (out_amount, out_token) \<Rightarrow>
        obind (btree_get (wr_reserves pool) in_token) (\<lambda>in_reserves.
        obind (btree_get (wr_reserves pool) out_token) (\<lambda>out_reserves.
        let calc_in_given_out =
              (case wr_version pool of V0 \<Rightarrow> weighted_calc_in_given_out | V3Plus \<Rightarrow> weighted_calc_in_given_out_v3)
        in obind (ok (upscaled_balance (wt_common in_reserves))) (\<lambda>balance_in.
           obind (ok (upscaled_balance (wt_common out_reserves))) (\<lambda>balance_out.
           obind (ok (upscale (wt_common out_reserves) out_amount)) (\<lambda>amount_out.
           obind (ok (calc_in_given_out balance_in (wt_weight in_reserves) balance_out (wt_weight out_reserves) amount_out))
             (\<lambda>in_amount.
           obind (ok (downscale_up (wt_common in_reserves) in_amount)) (\<lambda>amount_in_before_fee.
           obind (ok (add_swap_fee_amount amount_in_before_fee (wr_swap_fee pool))) (\<lambda>in_amount.
           converge_in_amount in_amount out_amount
             (\<lambda>x. weighted_get_amount_out pool out_token (x, in_token)))))))))))"

section \<open>Stable pools\<close>

definition reserves_without_bpt :: "stable_pool_ref \<Rightarrow> (h160 \<times> token_state) list" where
  "reserves_without_bpt pool = filter (\<lambda>(token, _). token \<noteq> sr_address pool) (sr_reserves pool)"

record balances_with_indices =
  bi_token_index_in :: nat
  bi_token_index_out :: nat
  bi_balances :: "bfp list"

definition balances_step ::
  "h160 \<Rightarrow> h160 \<Rightarrow> nat \<times> h160 \<times> token_state \<Rightarrow> balances_with_indices \<Rightarrow> balances_with_indices bal" where
  "balances_step in_token out_token = (\<lambda>(index, token, balance) st.
     let st = (if token = in_token then st\<lparr>bi_token_index_in := index\<rparr> else st);
         st = (if token = out_token then st\<lparr>bi_token_index_out := index\<rparr> else st)
     in obind (upscaled_balance balance) (\<lambda>b. Ok (st\<lparr>bi_balances := bi_balances st @ [b]\<rparr>)))"

definition upscale_balances_with_token_indices ::
  "stable_pool_ref \<Rightarrow> h160 \<Rightarrow> h160 \<Rightarrow> balances_with_indices bal" where
  "upscale_balances_with_token_indices pool in_token out_token =
     ofold (balances_step in_token out_token) (enumerate 0 (reserves_without_bpt pool))
       \<lparr> bi_token_index_in = 0, bi_token_index_out = 0, bi_balances = [] \<rparr>"

definition amplification_parameter_u256 :: "stable_pool_ref \<Rightarrow> u256 maybe" where
  "amplification_parameter_u256 pool = with_base (sr_amplification pool) AMP_PRECISION"

definition regular_swap_given_in :: "stable_pool_ref \<Rightarrow> h160 \<Rightarrow> u256 \<times> h160 \<Rightarrow> u256 maybe" where
  "regular_swap_given_in pool out_token input =
     (case input of (in_amount, in_token) \<Rightarrow>
        obind (btree_get (sr_reserves pool) in_token) (\<lambda>in_reserves.
        obind (btree_get (sr_reserves pool) out_token) (\<lambda>out_reserves.
        obind (ok (upscale_balances_with_token_indices pool in_token out_token)) (\<lambda>bi.
        obind (ok (subtract_swap_fee_amount in_amount (sr_swap_fee pool))) (\<lambda>in_amount_minus_fees.
        obind (amplification_parameter_u256 pool) (\<lambda>amp.
        obind (ok (upscale in_reserves in_amount_minus_fees)) (\<lambda>amount_in.
        obind (ok (fst (stable_calc_out_given_in amp (bi_balances bi) (bi_token_index_in bi) (bi_token_index_out bi) amount_in)))
          (\<lambda>out_amount. ok (downscale_down out_reserves out_amount)))))))))"

definition regular_swap_given_out :: "stable_pool_ref \<Rightarrow> h160 \<Rightarrow> u256 \<times> h160 \<Rightarrow> u256 maybe" where
  "regular_swap_given_out pool in_token output =
     (case output of (out_amount, out_token) \<Rightarrow>
        obind (btree_get (sr_reserves pool) in_token) (\<lambda>in_reserves.
        obind (btree_get (sr_reserves pool) out_token) (\<lambda>out_reserves.
        obind (ok (upscale_balances_with_token_indices pool in_token out_token)) (\<lambda>bi.
        obind (amplification_parameter_u256 pool) (\<lambda>amp.
        obind (ok (upscale out_reserves out_amount)) (\<lambda>amount_out.
        obind (ok (fst (stable_calc_in_given_out amp (bi_balances bi) (bi_token_index_in bi) (bi_token_index_out bi) amount_out)))
          (\<lambda>in_amount.
        obind (ok (downscale_up in_reserves in_amount)) (\<lambda>amount_in_before_fee.
        ok (add_swap_fee_amount amount_in_before_fee (sr_swap_fee pool))))))))))"

definition swap_with_bpt :: "u256 maybe" where
  "swap_with_bpt = Err ()"

definition stable_get_amount_out :: "stable_pool_ref \<Rightarrow> h160 \<Rightarrow> u256 \<times> h160 \<Rightarrow> u256 maybe" where
  "stable_get_amount_out pool out_token input =
     (case input of (in_amount, in_token) \<Rightarrow>
        if in_token = sr_address pool \<or> out_token = sr_address pool then swap_with_bpt
        else regular_swap_given_in pool out_token (in_amount, in_token))"

definition stable_get_amount_in :: "stable_pool_ref \<Rightarrow> h160 \<Rightarrow> u256 \<times> h160 \<Rightarrow> u256 maybe" where
  "stable_get_amount_in pool in_token output =
     (case output of (out_amount, out_token) \<Rightarrow>
        if in_token = sr_address pool \<or> out_token = sr_address pool then swap_with_bpt
        else obind (regular_swap_given_out pool in_token (out_amount, out_token)) (\<lambda>in_amount.
             converge_in_amount in_amount out_amount (\<lambda>x. stable_get_amount_out pool out_token (x, in_token))))"

section \<open>Pools as references\<close>

definition weighted_as_pool_ref :: "weighted_pool \<Rightarrow> weighted_pool_ref" where
  "weighted_as_pool_ref pool =
     \<lparr> wr_reserves = wp_reserves pool, wr_swap_fee = cp_swap_fee (wp_common pool), wr_version = wp_version pool \<rparr>"

definition stable_as_pool_ref :: "stable_pool \<Rightarrow> stable_pool_ref" where
  "stable_as_pool_ref pool =
     \<lparr> sr_address = cp_address (sp_common pool), sr_reserves = sp_reserves pool,
       sr_swap_fee = cp_swap_fee (sp_common pool), sr_amplification = sp_amplification pool \<rparr>"

definition weighted_pool_get_amount_out :: "weighted_pool \<Rightarrow> h160 \<Rightarrow> u256 \<times> h160 \<Rightarrow> u256 maybe" where
  "weighted_pool_get_amount_out pool = weighted_get_amount_out (weighted_as_pool_ref pool)"

definition weighted_pool_get_amount_in :: "weighted_pool \<Rightarrow> h160 \<Rightarrow> u256 \<times> h160 \<Rightarrow> u256 maybe" where
  "weighted_pool_get_amount_in pool = weighted_get_amount_in (weighted_as_pool_ref pool)"

definition stable_pool_get_amount_out :: "stable_pool \<Rightarrow> h160 \<Rightarrow> u256 \<times> h160 \<Rightarrow> u256 maybe" where
  "stable_pool_get_amount_out pool = stable_get_amount_out (stable_as_pool_ref pool)"

definition stable_pool_get_amount_in :: "stable_pool \<Rightarrow> h160 \<Rightarrow> u256 \<times> h160 \<Rightarrow> u256 maybe" where
  "stable_pool_get_amount_in pool = stable_get_amount_in (stable_as_pool_ref pool)"

section \<open>Converging\<close>

lemma converge_loop_sound:
  "converge_loop n x w f bump = Ok r \<Longrightarrow> \<exists>y. f r = Ok y \<and> w \<le> y"
  by (induction n arbitrary: bump) (auto simp: outc split: if_splits)

lemma converge_sound: "converge_in_amount x w f = Ok r \<Longrightarrow> \<exists>y. f r = Ok y \<and> w \<le> y"
  by (auto simp: converge_in_amount_def outc split: if_splits dest: converge_loop_sound)

text \<open>
  The only operation of \<open>converge_in_amount\<close> that can panic is the ceiling division, when the rounding
  term does not fit; multiplying the bump cannot overflow when \<open>get_amount_out\<close> only accepts inputs
  below a tenth of the range.
\<close>

lemma converge_loop_not_Panic:
  assumes "\<And>z. f z \<noteq> Panic" "\<And>z y. f z = Ok y \<Longrightarrow> unat z * 10 < 2 ^ 256"
  shows "converge_loop n x w f bump \<noteq> Panic"
proof (induction n arbitrary: bump)
  case (Suc n)
  have "mul_p bump 10 \<noteq> (Panic :: u256 maybe)"
    if "checked_add x bump = Some z" "f z = Ok y" for z y
  proof -
    have "unat bump * 10 \<le> unat z * 10"
      using that(1) by (simp add: chk)
    then show ?thesis
      using assms(2) [OF that(2)] by (simp add: chk)
  qed
  with Suc assms(1) show ?case
    by (auto simp: outc)
qed simp

lemma checked_ceil_div_None:
  "checked_ceil_div a b = None \<longleftrightarrow> unat b = 0 \<or> 2 ^ 256 \<le> unat a + (unat b - 1)"
proof (cases "unat b = 0 \<or> 2 ^ 256 \<le> unat a + (unat b - 1)")
  case True
  then show ?thesis
    by (cases "checked_ceil_div a b") (auto simp: checked_ceil_div_Some)
next
  case False
  define q where "q = (unat a + (unat b - 1)) div unat b"
  have "q \<le> unat a + (unat b - 1)"
    unfolding q_def by (rule div_le_dividend)
  then have "q < 2 ^ 256"
    using False by linarith
  then have "unat (of_nat q :: u256) = q"
    by (simp add: unat_of_nat)
  moreover have "0 < unat b" "unat a + (unat b - 1) < 2 ^ 256"
    using False by (metis not_le gr0I)+
  ultimately have "checked_ceil_div a b = Some (of_nat q)"
    by (simp only: checked_ceil_div_Some q_def)
  then show ?thesis
    by (metis False option.distinct(1))
qed

lemma converge_Panic_iff:
  assumes "\<And>z. f z \<noteq> Panic" "\<And>z y. f z = Ok y \<Longrightarrow> unat z * 10 < 2 ^ 256"
  shows "converge_in_amount x w f = Panic \<longleftrightarrow>
    (\<exists>y. f x = Ok y \<and> unat y < unat w \<and> (unat w - unat y) * unat x < 2 ^ 256 \<and>
       2 ^ 256 \<le> (unat w - unat y) * unat x + (unat y - 1))"
proof -
  note loop = converge_loop_not_Panic [OF assms]
  have mx: "unat (max y 1) = max (unat y) 1" for y :: u256
    by (auto simp: max_def word_le_nat_alt)
  have div: "ceil_div p (max y 1) = (Panic :: u256 maybe) \<longleftrightarrow> 2 ^ 256 \<le> unat p + (unat y - 1)" for p y
  proof -
    have "max (unat y) 1 - 1 = unat y - 1" "max (unat y) 1 \<noteq> 0"
      by simp_all
    then show ?thesis
      unfolding ceil_div_def expect_Panic_iff checked_ceil_div_None mx by simp
  qed
  show ?thesis
  proof (cases "\<exists>y. f x = Ok y \<and> unat y < unat w \<and> (unat w - unat y) * unat x < 2 ^ 256")
    case True
    then obtain y where y: "f x = Ok y" "unat y < unat w" "(unat w - unat y) * unat x < 2 ^ 256"
      by blast
    have "sub_p w y = (Ok (w - y) :: u256 maybe)" "checked_mul (w - y) x = Some ((w - y) * x)"
      using y by (simp_all add: sub_p_word checked_mul_def unat_minus_le)
    moreover have "unat ((w - y) * x) = (unat w - unat y) * unat x"
      using y calculation(2) by (simp add: checked_mul_Some unat_minus_le)
    ultimately show ?thesis
      using y loop by (simp add: converge_in_amount_def word_le_nat_alt outc div)
  next
    case False
    have "checked_mul d x = None" if "f x = Ok y" "unat w = unat y + unat d" "\<not> w \<le> y" for y d
      using False that by (auto simp: checked_mul_None word_le_nat_alt)
    then show ?thesis
      using False assms(1) loop
      by (auto simp: converge_in_amount_def outc sub_p_Ok sub_p_Panic word_le_nat_alt)
  qed
qed

section \<open>Limits of the pools\<close>

text \<open>
  A pool is well-formed when its tokens are distinct, their scaling factors are at least one (they are
  powers of ten from one up for the tokens the services accept) and its amplification precision is not zero.
\<close>

definition token_state_wf :: "token_state \<Rightarrow> bool" where
  "token_state_wf ts \<longleftrightarrow> ONE_18 \<le> ts_scaling_factor ts"

definition weighted_wf :: "weighted_pool_ref \<Rightarrow> bool" where
  "weighted_wf pool \<longleftrightarrow> list_all (\<lambda>(_, s). token_state_wf (wt_common s)) (wr_reserves pool)"

definition stable_wf :: "stable_pool_ref \<Rightarrow> bool" where
  "stable_wf pool \<longleftrightarrow> list_all (\<lambda>(_, s). token_state_wf s) (sr_reserves pool) \<and>
     distinct (map fst (sr_reserves pool)) \<and> ap_precision (sr_amplification pool) \<noteq> 0"

lemma scaling_factor_wf:
  assumes "scaling_factor_from_decimals d = Ok f"
  shows "token_state_wf \<lparr> ts_balance = b, ts_scaling_factor = f \<rparr>"
proof -
  obtain e where e: "checked_sub 18 d = Some e" "bfp_exp10 (uint e) = (Ok f :: (scaling_error, bfp) outcome)"
    using assms by (auto simp: scaling_factor_from_decimals_def scaling_exponent_from_decimals_def outc)
  define n where "n = unat e + 18"
  have n: "18 \<le> n" "n \<le> 36"
    using e(1) by (auto simp: chk n_def)
  have "nat (uint e + 18) = n"
    by (simp add: n_def nat_add_distrib flip: nat_uint_eq)
  moreover have "uint e + 18 \<le> 2 ^ 31 - 1" "\<not> uint e + 18 < 0"
    using n uint_ge_0 [of e] by (simp_all add: n_def not_less flip: nat_uint_eq)
  ultimately have "bfp_exp10 (uint e) = (u256_exp10 n :: (scaling_error, bfp) outcome)"
    by (simp add: bfp_exp10_def Let_def)
  then have f: "f = 10 ^ n"
    using e(2) unfolding u256_exp10_def by (simp only: outcome.simps split: if_splits)
  have "(10 :: nat) ^ n \<le> 10 ^ 36" "(10 :: nat) ^ 18 \<le> 10 ^ n"
    by (rule power_increasing; use n in simp)+
  moreover have "unat (of_nat (10 ^ n) :: u256) = 10 ^ n"
    using calculation(1) by (simp add: unat_of_nat del: of_nat_power)
  ultimately show ?thesis
    by (simp add: token_state_wf_def word_le_nat_alt f)
qed

lemma input_below_tenth:
  assumes "subtract_swap_fee_amount a fee = Ok a'" "upscale ts a' = Ok u" "token_state_wf ts"
  shows "unat a * 10 < 2 ^ 256"
proof -
  obtain c where "mul_up a fee = Ok c" "bfp_sub a c = Ok a'"
    using assms(1) by (auto simp: subtract_swap_fee_amount_def outc)
  then have c: "unat a * unat fee < 2 ^ 256" "unat c = cdiv (unat a * unat fee) (10 ^ 18)" "unat a = unat c + unat a'"
    unfolding mul_up_Ok bfp_sub_Ok by blast+
  have "unat a' * 10 ^ 18 \<le> unat a' * unat (ts_scaling_factor ts)"
    using assms(3) by (intro mult_le_mono2) (simp add: token_state_wf_def word_le_nat_alt)
  also have "\<dots> < 2 ^ 256"
    using assms(2) by (simp add: upscale_def chk)
  finally have "unat a' * 10 ^ 18 < 2 ^ 256" .
  moreover have "unat c * 10 ^ 18 < unat a * unat fee + 10 ^ 18"
    unfolding c(2) by (rule cdiv_bounds(2)) simp
  ultimately show ?thesis
    using c(1,3) by simp
qed

lemma downscaled_below_balance:
  assumes "upscaled_balance ts = Ok b" "downscale_down ts out = Ok y" "unat out \<le> unat b"
  shows "unat y \<le> unat (ts_balance ts)"
proof -
  let ?s = "unat (ts_scaling_factor ts)"
  have b: "unat b = unat (ts_balance ts) * ?s div 10 ^ 18"
    using assms(1) by (simp add: upscaled_balance_def upscale_def chk)
  have y: "?s \<noteq> 0" "unat y = unat out * 10 ^ 18 div ?s"
    using assms(2) by (simp_all add: downscale_down_def chk)
  have "unat out * 10 ^ 18 \<le> unat b * 10 ^ 18"
    using assms(3) by simp
  also have "\<dots> \<le> unat (ts_balance ts) * ?s"
    unfolding b by (rule div_times_less_eq_dividend)
  finally have "unat y \<le> unat (ts_balance ts) * ?s div ?s"
    unfolding y(2) by (rule div_le_mono)
  then show ?thesis
    using y(1) by simp
qed

lemma swap_ops_not_Panic [simp]:
  "subtract_swap_fee_amount a f \<noteq> Panic" "add_swap_fee_amount a f \<noteq> Panic" "upscale ts a \<noteq> Panic"
  "upscaled_balance ts \<noteq> Panic" "downscale_up ts a \<noteq> Panic" "downscale_down ts a \<noteq> Panic"
  "btree_get m k \<noteq> Panic"
  by (simp_all add: subtract_swap_fee_amount_def add_swap_fee_amount_def upscale_def upscaled_balance_def
      downscale_up_def downscale_down_def btree_get_def outc)

lemma btree_get_Ok [outc]: "btree_get m k = Ok v \<longleftrightarrow> map_of m k = Some v"
  by (simp add: btree_get_def outc)

text \<open>The formula of a pool version.\<close>

lemma weighted_calc_safe:
  "safe (\<lambda>out. unat out \<le> unat bo)
     ((case v of V0 \<Rightarrow> weighted_calc_out_given_in | V3Plus \<Rightarrow> weighted_calc_out_given_in_v3) bi wi bo wo a)"
  "(case v of V0 \<Rightarrow> weighted_calc_in_given_out | V3Plus \<Rightarrow> weighted_calc_in_given_out_v3) bi wi bo wo a \<noteq> Panic"
  using v0.out_given_in_safe v3.out_given_in_safe safe_not_Panic [OF v0.in_given_out_safe]
    safe_not_Panic [OF v3.in_given_out_safe]
  by (cases v; simp add: weighted_calc_out_given_in_def weighted_calc_out_given_in_v3_def
      weighted_calc_in_given_out_def weighted_calc_in_given_out_v3_def)+

lemma weighted_out_not_Panic: "weighted_get_amount_out pool out_token input \<noteq> Panic"
  using safe_not_Panic [OF weighted_calc_safe(1)]
  by (simp add: weighted_get_amount_out_def outc Let_def split: prod.splits)

lemma weighted_out_Ok:
  assumes "weighted_get_amount_out pool out_token (x, in_token) = Ok y"
  obtains si so where "map_of (wr_reserves pool) in_token = Some si" "map_of (wr_reserves pool) out_token = Some so"
    "unat y \<le> unat (ts_balance (wt_common so))" "token_state_wf (wt_common si) \<Longrightarrow> unat x * 10 < 2 ^ 256"
proof -
  obtain si so a' bi bo u out where
      s: "map_of (wr_reserves pool) in_token = Some si" "map_of (wr_reserves pool) out_token = Some so"
      and "subtract_swap_fee_amount x (wr_swap_fee pool) = Ok a'" "upscale (wt_common si) a' = Ok u"
      and o: "upscaled_balance (wt_common so) = Ok bo" "downscale_down (wt_common so) out = Ok y"
        "(case wr_version pool of V0 \<Rightarrow> weighted_calc_out_given_in | V3Plus \<Rightarrow> weighted_calc_out_given_in_v3)
           bi (wt_weight si) bo (wt_weight so) u = Ok out"
    using assms by (auto simp: weighted_get_amount_out_def outc Let_def)
  then show thesis
    using that [OF s] input_below_tenth downscaled_below_balance [OF o(1,2) safe_Ok [OF weighted_calc_safe(1) o(3)]]
    by blast
qed

subsection \<open>Stable pools\<close>

text \<open>The balances are the upscaled reserves in order, and the indices point at the two tokens.\<close>

lemma balances_loop:
  assumes "ofold (balances_step a b) (enumerate k rs) st = Ok st'" "distinct (map fst rs)"
  shows "\<exists>bs. bi_balances st' = bi_balances st @ bs \<and> list_all2 (\<lambda>(_, ts) x. upscaled_balance ts = Ok x) rs bs \<and>
    (\<forall>j < length rs. fst (rs ! j) = b \<longrightarrow> bi_token_index_out st' = k + j) \<and>
    (b \<notin> fst ` set rs \<longrightarrow> bi_token_index_out st' = bi_token_index_out st)"
  using assms
proof (induction rs arbitrary: k st)
  case (Cons r rs)
  obtain t ts where r: "r = (t, ts)"
    by (cases r)
  define st1 where "st1 = (let s = (if t = a then st\<lparr>bi_token_index_in := k\<rparr> else st)
    in if t = b then s\<lparr>bi_token_index_out := k\<rparr> else s)"
  obtain x where x: "upscaled_balance ts = Ok x"
      and rest: "ofold (balances_step a b) (enumerate (Suc k) rs) (st1\<lparr>bi_balances := bi_balances st1 @ [x]\<rparr>) = Ok st'"
    using Cons.prems(1) by (auto simp: r balances_step_def Let_def outc st1_def)
  obtain bs where IH: "bi_balances st' = (bi_balances st1 @ [x]) @ bs"
      "list_all2 (\<lambda>(_, ts) x. upscaled_balance ts = Ok x) rs bs"
      "\<forall>j < length rs. fst (rs ! j) = b \<longrightarrow> bi_token_index_out st' = Suc k + j"
      "b \<notin> fst ` set rs \<longrightarrow> bi_token_index_out st' = bi_token_index_out st1"
    using Cons.IH [OF rest] Cons.prems(2) by auto
  have st1: "bi_balances st1 = bi_balances st" "bi_token_index_out st1 = (if t = b then k else bi_token_index_out st)"
    by (simp_all add: st1_def Let_def)
  have "bi_token_index_out st' = k + j" if "j < length (r # rs)" "fst ((r # rs) ! j) = b" for j
    using that IH(3,4) st1 Cons.prems(2) by (cases j) (auto simp: r image_iff)
  then show ?case
    using IH x st1 by (intro exI [of _ "x # bs"]) (auto simp: r)
qed simp

lemma upscaled_out_balance:
  assumes up: "upscale_balances_with_token_indices pool i out_token = Ok bi"
    and "distinct (map fst (sr_reserves pool))" "map_of (sr_reserves pool) out_token = Some s"
    and "out_token \<noteq> sr_address pool"
  shows "upscaled_balance s = Ok (bi_balances bi ! bi_token_index_out bi)"
proof -
  let ?rs = "reserves_without_bpt pool"
  have d: "distinct (map fst ?rs)"
    using assms(2) by (simp add: reserves_without_bpt_def distinct_map_filter)
  have "(out_token, s) \<in> set ?rs"
    using map_of_SomeD [OF assms(3)] assms(4) by (simp add: reserves_without_bpt_def)
  then obtain j where j: "j < length ?rs" "?rs ! j = (out_token, s)"
    by (metis in_set_conv_nth)
  obtain bs where "bi_balances bi = bs" "list_all2 (\<lambda>(_, ts) x. upscaled_balance ts = Ok x) ?rs bs"
      "\<forall>j < length ?rs. fst (?rs ! j) = out_token \<longrightarrow> bi_token_index_out bi = 0 + j"
    using balances_loop [OF up [unfolded upscale_balances_with_token_indices_def] d] by auto
  then show ?thesis
    using j by (auto simp: list_all2_conv_all_nth)
qed

lemma upscale_balances_not_Panic [simp]: "upscale_balances_with_token_indices pool a b \<noteq> Panic"
  unfolding upscale_balances_with_token_indices_def
  by (rule safe_not_Panic [OF safe_ofold [where I = "\<lambda>_. True"]])
    (auto simp: balances_step_def Let_def wp safe_bal_op)

lemma stable_calc_not_Panic [simp]:
  "fst (stable_calc_out_given_in amp bs i j x) \<noteq> Panic" "fst (stable_calc_in_given_out amp bs i j x) \<noteq> Panic"
  using stable_out_safe [where amp = amp and bs = bs and i = i and j = j and x = x]
    stable_in_safe [where amp = amp and bs = bs and i = i and j = j and x = x]
  by (auto split: prod.splits outcome.splits)

lemma amplification_not_Panic: "stable_wf pool \<Longrightarrow> amplification_parameter_u256 pool \<noteq> Panic"
  by (auto simp: stable_wf_def amplification_parameter_u256_def with_base_def outc div_p_Panic unat_zero_iff)

lemma stable_out_not_Panic: "stable_wf pool \<Longrightarrow> stable_get_amount_out pool out_token input \<noteq> Panic"
  using amplification_not_Panic
  by (auto simp: stable_get_amount_out_def swap_with_bpt_def regular_swap_given_in_def outc split: prod.splits)

lemma stable_out_Ok:
  assumes "stable_get_amount_out pool out_token (x, in_token) = Ok y" "stable_wf pool"
  obtains so where "map_of (sr_reserves pool) out_token = Some so" "unat y \<le> unat (ts_balance so)" "unat x * 10 < 2 ^ 256"
proof -
  obtain si so a' u bi amp out where
      s: "map_of (sr_reserves pool) in_token = Some si" "map_of (sr_reserves pool) out_token = Some so"
        "out_token \<noteq> sr_address pool" "upscale_balances_with_token_indices pool in_token out_token = Ok bi"
      and i: "subtract_swap_fee_amount x (sr_swap_fee pool) = Ok a'" "upscale si a' = Ok u"
      and o: "fst (stable_calc_out_given_in amp (bi_balances bi) (bi_token_index_in bi) (bi_token_index_out bi) u) = Ok out"
        "downscale_down so out = Ok y"
    using assms(1) by (auto simp: stable_get_amount_out_def swap_with_bpt_def regular_swap_given_in_def outc split: if_splits)
  have "token_state_wf si"
    using map_of_SomeD [OF s(1)] assms(2) by (auto simp: stable_wf_def list_all_iff)
  then have "unat x * 10 < 2 ^ 256"
    using i by (intro input_below_tenth)
  moreover have "unat out < unat (bi_balances bi ! bi_token_index_out bi)"
    using stable_out_safe [where amp = amp and bs = "bi_balances bi" and i = "bi_token_index_in bi"
        and j = "bi_token_index_out bi" and x = u] o(1)
    by (auto split: prod.splits)
  moreover have "upscaled_balance so = Ok (bi_balances bi ! bi_token_index_out bi)"
    using upscaled_out_balance s assms(2) by (simp add: stable_wf_def)
  ultimately show thesis
    using that s(2) downscaled_below_balance [OF _ o(2)] by (meson less_imp_le)
qed

section \<open>The contract of the path finder\<close>

lemma weighted_in_sufficient:
  "weighted_get_amount_in pool i (w, o') = Ok x \<Longrightarrow> \<exists>y. weighted_get_amount_out pool o' (x, i) = Ok y \<and> w \<le> y"
  by (auto simp: weighted_get_amount_in_def outc Let_def dest: converge_sound)

lemma stable_in_sufficient:
  "stable_get_amount_in pool i (w, o') = Ok x \<Longrightarrow> \<exists>y. stable_get_amount_out pool o' (x, i) = Ok y \<and> w \<le> y"
  by (auto simp: stable_get_amount_in_def swap_with_bpt_def outc split: if_splits dest: converge_sound)

interpretation weighted: baseline_solvable weighted_pool_get_amount_out weighted_pool_get_amount_in "\<lambda>_. True"
  by unfold_locales (simp add: weighted_pool_get_amount_out_def weighted_pool_get_amount_in_def weighted_in_sufficient)

interpretation stable: baseline_solvable stable_pool_get_amount_out stable_pool_get_amount_in "\<lambda>_. True"
  by unfold_locales (simp add: stable_pool_get_amount_out_def stable_pool_get_amount_in_def stable_in_sufficient)

section \<open>Properties\<close>

text \<open>
  C35. Selling to a Balancer pool never panics and never promises more than the pool holds: the output
  amount is at most the balance of the output token. For a stable pool this needs a non-zero
  amplification precision (which \<open>AmplificationParameter::new\<close> ensures) and scaling factors of at least one.
\<close>

theorem balancer_out_within_reserves:
  "(case weighted_get_amount_out wpool out_token (x, in_token) of
      Ok y \<Rightarrow> (case map_of (wr_reserves wpool) out_token of Some s \<Rightarrow> unat y \<le> unat (ts_balance (wt_common s)) | None \<Rightarrow> False)
    | Err e \<Rightarrow> True | Panic \<Rightarrow> False) \<and>
   (stable_wf spool \<longrightarrow>
    (case stable_get_amount_out spool out_token (x, in_token) of
      Ok y \<Rightarrow> (case map_of (sr_reserves spool) out_token of Some s \<Rightarrow> unat y \<le> unat (ts_balance s) | None \<Rightarrow> False)
    | Err e \<Rightarrow> True | Panic \<Rightarrow> False))"
  using weighted_out_not_Panic [of wpool out_token "(x, in_token)"] stable_out_not_Panic [of spool out_token "(x, in_token)"]
  by (auto split: outcome.splits elim!: weighted_out_Ok stable_out_Ok)

text \<open>A stable pool of two tokens with 18 and 6 decimals.\<close>

definition example_stable_pool :: stable_pool_ref where
  "example_stable_pool =
     \<lparr> sr_address = 7,
       sr_reserves = [(1, \<lparr> ts_balance = 5000000000000000000000, ts_scaling_factor = 1000000000000000000 \<rparr>),
                      (2, \<lparr> ts_balance = 4000000000, ts_scaling_factor = 1000000000000000000000000000000 \<rparr>)],
       sr_swap_fee = 400000000000000,
       sr_amplification = \<lparr> ap_factor = 200000, ap_precision = 1000 \<rparr> \<rparr>"

lemma example_stable_pool_wf: "stable_wf example_stable_pool"
  by (simp add: example_stable_pool_def stable_wf_def token_state_wf_def ONE_18_def)

theorem balancer_out_within_reserves_witness:
  "stable_wf example_stable_pool \<and>
   (case stable_get_amount_out example_stable_pool 2 (1000000000000000000, 1) of
      Ok y \<Rightarrow> unat y \<le> 4000000000 | Err e \<Rightarrow> True | Panic \<Rightarrow> False)"
proof -
  have "map_of (sr_reserves example_stable_pool) 2
      = Some \<lparr> ts_balance = 4000000000, ts_scaling_factor = 1000000000000000000000000000000 \<rparr>"
    by (simp add: example_stable_pool_def)
  then show ?thesis
    using balancer_out_within_reserves [where spool = example_stable_pool and out_token = 2
        and x = 1000000000000000000 and in_token = 1, THEN conjunct2] example_stable_pool_wf
    by (simp split: outcome.splits)
qed

text \<open>
  What a Balancer pool asks for an output buys that output: whenever \<open>get_amount_in\<close> gives an
  input, \<open>get_amount_out\<close> of that input on the same pool is defined and is at least the wanted output.
  This is what \<open>converge_in_amount\<close> is for, as the closed formulas alone fall short.
\<close>

theorem balancer_in_buys_out:
  "(case weighted_get_amount_in wpool in_token (wanted, out_token) of
      Ok x \<Rightarrow> (case weighted_get_amount_out wpool out_token (x, in_token) of Ok y \<Rightarrow> wanted \<le> y | _ \<Rightarrow> False)
    | _ \<Rightarrow> True) \<and>
   (case stable_get_amount_in spool in_token (wanted, out_token) of
      Ok x \<Rightarrow> (case stable_get_amount_out spool out_token (x, in_token) of Ok y \<Rightarrow> wanted \<le> y | _ \<Rightarrow> False)
    | _ \<Rightarrow> True)"
  by (auto split: outcome.splits dest: weighted_in_sufficient stable_in_sufficient)

text \<open>
  Buying from a well-formed Balancer pool panics in one case only: the first estimate \<open>x\<close> yields
  \<open>y\<close> below the wanted output, the product of the deficit and \<open>x\<close> still fits 256 bits, and adding the
  rounding term of the ceiling division to it does not. The overflow of the product itself is handled, and the
  bump, multiplied by ten in every round, cannot overflow.
\<close>

theorem balancer_in_panics_only_in_ceil_div:
  assumes "stable_wf spool"
  shows "case stable_get_amount_in spool in_token (wanted, out_token) of
      Panic \<Rightarrow> \<exists>x y. stable_get_amount_out spool out_token (x, in_token) = Ok y \<and> unat y < unat wanted \<and>
           (unat wanted - unat y) * unat x < 2 ^ 256 \<and> 2 ^ 256 \<le> (unat wanted - unat y) * unat x + (unat y - 1)
    | _ \<Rightarrow> True"
proof (cases "stable_get_amount_in spool in_token (wanted, out_token)")
  case Panic
  let ?f = "\<lambda>z. stable_get_amount_out spool out_token (z, in_token)"
  have f: "?f z \<noteq> Panic" "?f z = Ok y \<Longrightarrow> unat z * 10 < 2 ^ 256" for z y
    using stable_out_not_Panic [OF assms] assms by (auto elim: stable_out_Ok)
  have "regular_swap_given_out spool in_token (wanted, out_token) \<noteq> Panic"
    using amplification_not_Panic [OF assms] by (simp add: regular_swap_given_out_def outc)
  then obtain x where "converge_in_amount x wanted ?f = Panic"
    using Panic by (auto simp: stable_get_amount_in_def swap_with_bpt_def outc split: if_splits)
  then show ?thesis
    using converge_Panic_iff [of ?f x wanted] f Panic by auto
qed simp_all

theorem balancer_in_panics_only_in_ceil_div_witness:
  "stable_wf example_stable_pool \<and> stable_get_amount_in example_stable_pool 1 (0, 2) \<noteq> Panic"
  using balancer_in_panics_only_in_ceil_div [OF example_stable_pool_wf, where in_token = 1 and wanted = 0 and out_token = 2] example_stable_pool_wf
  by auto

end
