(* ===== verification/Uniswap_V2.thy ===== *)
theory Uniswap_V2
  imports Baseline
begin

text \<open>
  Uniswap V2 pools: \<open>crates/shared/src/sources/uniswap_v2/pool_fetching.rs\<close> (swap amounts, reading and
  fetching of pools), \<open>pair_provider.rs\<close> (pool addresses) and the error classification of
  \<open>crates/shared/src/ethcontract_error.rs\<close>.
\<close>

section \<open>Swaps\<close>

definition POOL_SWAP_GAS_COST :: nat where
  "POOL_SWAP_GAS_COST = 60000"

definition POOL_MAX_RESERVES :: u256 where
  "POOL_MAX_RESERVES = 5192296858534827628530496329220095"

record pool =
  p_address :: h160
  p_tokens :: token_pair
  p_reserves :: "u128 \<times> u128"
  p_fee_numer :: u32
  p_fee_denom :: u32

definition pool_uniswap :: "h160 \<Rightarrow> token_pair \<Rightarrow> u128 \<times> u128 \<Rightarrow> pool" where
  "pool_uniswap address tokens reserves =
     \<lparr> p_address = address, p_tokens = tokens, p_reserves = reserves, p_fee_numer = 3, p_fee_denom = 1000 \<rparr>"

definition check_final_reserves :: "u256 \<Rightarrow> u256 \<Rightarrow> u256 \<Rightarrow> u256 \<Rightarrow> (u256 \<times> u256) option" where
  "check_final_reserves amount_in amount_out reserve_in reserve_out =
     Option.bind (checked_add reserve_in amount_in) (\<lambda>final_reserve_in.
     Option.bind (checked_sub reserve_out amount_out) (\<lambda>final_reserve_out.
     if POOL_MAX_RESERVES < final_reserve_in then None
     else Some (final_reserve_in, final_reserve_out)))"

definition pool_amount_out :: "pool \<Rightarrow> u256 \<Rightarrow> u256 \<Rightarrow> u256 \<Rightarrow> u256 option" where
  "pool_amount_out pool amount_in reserve_in reserve_out =
     (if amount_in = 0 \<or> reserve_in = 0 \<or> reserve_out = 0 then None
      else Option.bind (checked_sub (p_fee_denom pool) (p_fee_numer pool)) (\<lambda>f.
           Option.bind (checked_mul amount_in (ucast f)) (\<lambda>amount_in_with_fee.
           Option.bind (checked_mul amount_in_with_fee reserve_out) (\<lambda>numerator.
           Option.bind (checked_mul reserve_in (ucast (p_fee_denom pool))) (\<lambda>r.
           Option.bind (checked_add r amount_in_with_fee) (\<lambda>denominator.
           Option.bind (checked_div numerator denominator) (\<lambda>amount_out.
           Option.bind (check_final_reserves amount_in amount_out reserve_in reserve_out) (\<lambda>_.
           Some amount_out))))))))"

definition pool_amount_in :: "pool \<Rightarrow> u256 \<Rightarrow> u256 \<Rightarrow> u256 \<Rightarrow> u256 option" where
  "pool_amount_in pool amount_out reserve_in reserve_out =
     (if amount_out = 0 \<or> reserve_in = 0 \<or> reserve_out = 0 then None
      else Option.bind (checked_mul reserve_in amount_out) (\<lambda>m.
           Option.bind (checked_mul m (ucast (p_fee_denom pool))) (\<lambda>numerator.
           Option.bind (checked_sub reserve_out amount_out) (\<lambda>s.
           Option.bind (checked_sub (p_fee_denom pool) (p_fee_numer pool)) (\<lambda>f.
           Option.bind (checked_mul s (ucast f)) (\<lambda>denominator.
           Option.bind (checked_div numerator denominator) (\<lambda>q.
           Option.bind (checked_add q 1) (\<lambda>amount_in.
           Option.bind (check_final_reserves amount_in amount_out reserve_in reserve_out) (\<lambda>_.
           Some amount_in)))))))))"

text \<open>The assertion that the token belongs to the pool is a panic.\<close>

definition get_relative_reserves :: "pool \<Rightarrow> h160 \<Rightarrow> ('e, u256 \<times> u256 \<times> h160) outcome" where
  "get_relative_reserves pool token =
     (if token = fst (token_pair_get (p_tokens pool)) then
        Ok (ucast (fst (p_reserves pool)), ucast (snd (p_reserves pool)), snd (token_pair_get (p_tokens pool)))
      else if token = snd (token_pair_get (p_tokens pool)) then
        Ok (ucast (snd (p_reserves pool)), ucast (fst (p_reserves pool)), fst (token_pair_get (p_tokens pool)))
      else Panic)"

definition pool_get_amount_out :: "pool \<Rightarrow> h160 \<Rightarrow> u256 \<Rightarrow> (u256 \<times> h160) maybe" where
  "pool_get_amount_out pool token_in amount_in =
     obind (get_relative_reserves pool token_in) (\<lambda>(reserve_in, reserve_out, token_out).
     obind (ok_or (pool_amount_out pool amount_in reserve_in reserve_out) ()) (\<lambda>a. Ok (a, token_out)))"

definition pool_get_amount_in :: "pool \<Rightarrow> h160 \<Rightarrow> u256 \<Rightarrow> (u256 \<times> h160) maybe" where
  "pool_get_amount_in pool token_out amount_out =
     obind (get_relative_reserves pool token_out) (\<lambda>(reserve_out, reserve_in, token_in).
     obind (ok_or (pool_amount_in pool amount_out reserve_in reserve_out) ()) (\<lambda>a. Ok (a, token_in)))"

definition uniswap_get_amount_out :: "pool \<Rightarrow> h160 \<Rightarrow> u256 \<times> h160 \<Rightarrow> u256 maybe" where
  "uniswap_get_amount_out pool out_token input =
     (case input of (in_amount, in_token) \<Rightarrow>
        obind (pool_get_amount_out pool in_token in_amount) (\<lambda>(out_amount, token).
        if token = out_token then Ok out_amount else Panic))"

definition uniswap_get_amount_in :: "pool \<Rightarrow> h160 \<Rightarrow> u256 \<times> h160 \<Rightarrow> u256 maybe" where
  "uniswap_get_amount_in pool in_token output =
     (case output of (out_amount, out_token) \<Rightarrow>
        obind (pool_get_amount_in pool out_token out_amount) (\<lambda>(in_amount, token).
        if token = in_token then Ok in_amount else Panic))"

section \<open>Reading pools\<close>

text \<open>The errors of a contract call: one kind comes from the node, every other one from the contract.\<close>

datatype execution_error = Web3Error | ContractExecutionError nat

datatype ethcontract_error_type = NodeError | ContractError

fun classify :: "execution_error \<Rightarrow> ethcontract_error_type" where
  "classify Web3Error = NodeError"
| "classify (ContractExecutionError n) = ContractError"

definition handle_contract_error :: "(execution_error, 'a) outcome \<Rightarrow> (execution_error, 'a option) outcome" where
  "handle_contract_error r =
     (case r of
        Ok t \<Rightarrow> Ok (Some t)
      | Err e \<Rightarrow> (case classify e of NodeError \<Rightarrow> Err e | ContractError \<Rightarrow> Ok None)
      | Panic \<Rightarrow> Panic)"

record fetched_pool =
  fp_pair :: token_pair
  fp_reserves :: "(execution_error, u128 \<times> u128 \<times> u32) outcome"
  fp_token0_balance :: "(execution_error, u256) outcome"
  fp_token1_balance :: "(execution_error, u256) outcome"

definition handle_results :: "fetched_pool \<Rightarrow> h160 \<Rightarrow> (execution_error, pool option) outcome" where
  "handle_results fp address =
     obind (handle_contract_error (fp_reserves fp)) (\<lambda>reserves.
     obind (handle_contract_error (fp_token0_balance fp)) (\<lambda>token0_balance.
     obind (handle_contract_error (fp_token1_balance fp)) (\<lambda>token1_balance.
     Ok (Option.bind reserves (\<lambda>(r0, r1, _).
         Option.bind token0_balance (\<lambda>b0.
         if b0 < ucast r0 then None
         else Option.bind token1_balance (\<lambda>b1.
              if b1 < ucast r1 then None
              else Some (pool_uniswap address (fp_pair fp) (r0, r1)))))))))"

text \<open>
  The fetcher keeps the pairs that have no pool in a cache with expiry, whose two operations are
  parameters, and asks the reader for the others. One failed read fails the whole fetch.
\<close>

definition pool_fetch ::
  "('c \<Rightarrow> token_pair \<Rightarrow> bool) \<Rightarrow> ('c \<Rightarrow> token_pair \<Rightarrow> 'c) \<Rightarrow> (token_pair \<Rightarrow> (execution_error, pool option) outcome)
     \<Rightarrow> 'c \<Rightarrow> token_pair list \<Rightarrow> (execution_error, pool list) outcome \<times> 'c" where
  "pool_fetch contains_key insert_key read_state non_existent_pools token_pairs =
     (let token_pairs = filter (\<lambda>pair. \<not> contains_key non_existent_pools pair) token_pairs
      in case omap read_state token_pairs of
           Ok results \<Rightarrow>
             let pools = List.map_filter fst (zip results token_pairs);
                 new_missing_pairs = map snd (filter (\<lambda>(r, _). r = None) (zip results token_pairs))
             in (Ok pools, foldl insert_key non_existent_pools new_missing_pairs)
         | Err e \<Rightarrow> (Err e, non_existent_pools)
         | Panic \<Rightarrow> (Panic, non_existent_pools))"

section \<open>Pool addresses\<close>

record pair_provider =
  pp_factory :: h160
  pp_init_code_digest :: h256

definition create2_target_address :: "(bytes \<Rightarrow> h256) \<Rightarrow> h160 \<Rightarrow> h256 \<Rightarrow> h256 \<Rightarrow> ('e, h160) outcome" where
  "create2_target_address keccak256 creator salt init_code_digest =
     obind (copy_from_slice (replicate 85 0xff) 1 21 (h160_bytes creator)) (\<lambda>b.
     obind (copy_from_slice b 21 53 (h256_bytes salt)) (\<lambda>b.
     obind (copy_from_slice b 53 85 (h256_bytes init_code_digest)) (\<lambda>preimage.
     h160_from_slice_p (drop 12 (h256_bytes (keccak256 preimage))))))"

definition pair_address :: "(bytes \<Rightarrow> h256) \<Rightarrow> pair_provider \<Rightarrow> token_pair \<Rightarrow> ('e, h160) outcome" where
  "pair_address keccak256 pp pair =
     (case token_pair_get pair of (token0, token1) \<Rightarrow>
        obind (copy_from_slice (zeros 40) 0 20 (h160_bytes token0)) (\<lambda>b.
        obind (copy_from_slice b 20 40 (h160_bytes token1)) (\<lambda>buffer.
        create2_target_address keccak256 (pp_factory pp) (keccak256 buffer) (pp_init_code_digest pp))))"

section \<open>Swap amounts as equations\<close>

lemmas bind_Some = Option.bind_eq_Some_conv

lemma unat_ucast_32 [simp]: "unat (ucast (w :: u32) :: u256) = unat w"
  using unat_bound [of w] by (simp add: unsigned_ucast_eq take_bit_nat_eq_self)

lemma unat_ucast_128 [simp]: "unat (ucast (w :: u128) :: u256) = unat w"
  using unat_bound [of w] by (simp add: unsigned_ucast_eq take_bit_nat_eq_self)

lemma checked_mul_defined:
  "unat a * unat b < 2 ^ LENGTH('n) \<Longrightarrow> \<exists>c. checked_mul a b = Some c \<and> unat c = unat a * unat b"
  for a b :: "'n::len word"
  by (simp add: checked_mul_def unat_word_ariths)

lemma checked_add_defined:
  "unat a + unat b < 2 ^ LENGTH('n) \<Longrightarrow> \<exists>c. checked_add a b = Some c \<and> unat c = unat a + unat b"
  for a b :: "'n::len word"
  by (simp add: checked_add_def unat_word_ariths)

lemma check_final_reserves_defined:
  "(\<exists>r. check_final_reserves a b ri ro = Some r) \<longleftrightarrow> unat b \<le> unat ro \<and> unat ri + unat a < 2 ^ 112"
proof (cases "unat b \<le> unat ro \<and> unat ri + unat a < 2 ^ 256")
  case True
  then have "checked_add ri a = Some (ri + a)" "checked_sub ro b = Some (ro - b)" "unat (ri + a) = unat ri + unat a"
    by (simp_all add: checked_add_def checked_sub_def unat_word_ariths)
  then show ?thesis
    using True by (auto simp: check_final_reserves_def POOL_MAX_RESERVES_def word_less_nat_alt)
next
  case False
  then have "checked_add ri a = None \<or> checked_sub ro b = None"
    by (auto simp: checked_add_None checked_sub_None)
  then have "check_final_reserves a b ri ro = None"
    by (auto simp: check_final_reserves_def bind_eq_None_conv)
  then show ?thesis
    using False by auto
qed

text \<open>The fee the pool keeps is taken from the numerator of the swap: \<open>f\<close> of \<open>d\<close> parts remain.\<close>

abbreviation fee_part :: "pool \<Rightarrow> nat" where
  "fee_part p \<equiv> unat (p_fee_denom p) - unat (p_fee_numer p)"

lemma pool_amount_out_Some:
  assumes "pool_amount_out p a ri ro = Some y"
  shows "unat y = unat a * fee_part p * unat ro div (unat ri * unat (p_fee_denom p) + unat a * fee_part p)"
    and "unat y \<le> unat ro" "unat ri + unat a < 2 ^ 112" "0 < unat ri" "0 < unat a" "0 < unat ro"
      "0 < unat ri * unat (p_fee_denom p) + unat a * fee_part p"
proof -
  obtain f awf num r den x where 1: "checked_sub (p_fee_denom p) (p_fee_numer p) = Some f"
      "checked_mul a (ucast f) = Some awf" "checked_mul awf ro = Some num"
      "checked_mul ri (ucast (p_fee_denom p)) = Some r" "checked_add r awf = Some den"
      "checked_div num den = Some y" and x: "check_final_reserves a y ri ro = Some x"
      and nz: "a \<noteq> 0" "ri \<noteq> 0" "ro \<noteq> 0"
    using assms by (auto simp: pool_amount_out_def bind_Some split: if_splits)
  have f: "unat f = fee_part p"
    using 1(1) by (simp add: checked_sub_Some)
  have "unat num = unat a * fee_part p * unat ro" "unat den = unat ri * unat (p_fee_denom p) + unat a * fee_part p"
    using 1(2-5) by (simp_all add: checked_mul_Some checked_add_Some f)
  then show "unat y = unat a * fee_part p * unat ro div (unat ri * unat (p_fee_denom p) + unat a * fee_part p)"
    "0 < unat ri * unat (p_fee_denom p) + unat a * fee_part p"
    using 1(6) by (auto simp: checked_div_Some)
  show "unat y \<le> unat ro" "unat ri + unat a < 2 ^ 112"
    using check_final_reserves_defined [of a y ri ro] x by blast+
  show "0 < unat ri" "0 < unat a" "0 < unat ro"
    using nz by (simp_all add: unat_gt_0)
qed

lemma pool_amount_in_Some:
  assumes "pool_amount_in p y ri ro = Some a"
  shows "unat a = unat ri * unat y * unat (p_fee_denom p) div ((unat ro - unat y) * fee_part p) + 1"
    and "unat y \<le> unat ro" "unat ri + unat a < 2 ^ 112" "0 < unat ri" "0 < unat y" "0 < unat ro"
      "0 < (unat ro - unat y) * fee_part p" "unat (p_fee_numer p) \<le> unat (p_fee_denom p)"
proof -
  obtain m num s f den q x where 1: "checked_mul ri y = Some m" "checked_mul m (ucast (p_fee_denom p)) = Some num"
      "checked_sub ro y = Some s" "checked_sub (p_fee_denom p) (p_fee_numer p) = Some f"
      "checked_mul s (ucast f) = Some den" "checked_div num den = Some q" "checked_add q 1 = Some a"
      and x: "check_final_reserves a y ri ro = Some x" and nz: "y \<noteq> 0" "ri \<noteq> 0" "ro \<noteq> 0"
    using assms by (auto simp: pool_amount_in_def bind_Some split: if_splits)
  have f: "unat f = fee_part p" "unat (p_fee_numer p) \<le> unat (p_fee_denom p)" "unat s = unat ro - unat y"
    using 1(3,4) by (simp_all add: checked_sub_Some)
  then show "unat (p_fee_numer p) \<le> unat (p_fee_denom p)"
    by simp
  have "unat num = unat ri * unat y * unat (p_fee_denom p)" "unat den = (unat ro - unat y) * fee_part p"
    using 1(1,2,5) by (simp_all add: checked_mul_Some f)
  then show "unat a = unat ri * unat y * unat (p_fee_denom p) div ((unat ro - unat y) * fee_part p) + 1"
    "0 < (unat ro - unat y) * fee_part p"
    using 1(6,7) by (simp_all add: checked_div_Some checked_add_Some)
  show "unat y \<le> unat ro" "unat ri + unat a < 2 ^ 112"
    using check_final_reserves_defined [of a y ri ro] x by blast+
  show "0 < unat ri" "0 < unat y" "0 < unat ro"
    using nz by (simp_all add: unat_gt_0)
qed

section \<open>The constant product\<close>

lemma product_kept:
  fixes a f ri ro d y :: nat
  assumes y: "y = a * f * ro div (ri * d + a * f)" and "f \<le> d" "0 < ri" "0 < ri * d + a * f"
  shows "ri * ro \<le> (ri + a) * (ro - y)"
proof -
  have le: "y * (ri * d + a * f) \<le> a * f * ro"
    unfolding y by (rule div_times_less_eq_dividend)
  have "y * (ri + a) \<le> a * ro"
  proof (cases "f = 0")
    case True
    then show ?thesis
      by (simp add: y)
  next
    case False
    have "y * (ri + a) * f = y * (ri * f + a * f)"
      by (simp add: algebra_simps)
    also have "\<dots> \<le> y * (ri * d + a * f)"
      using \<open>f \<le> d\<close> by (intro mult_le_mono2 add_le_mono1) simp
    also note le
    finally have "y * (ri + a) * f \<le> a * ro * f"
      by (simp add: algebra_simps)
    then show ?thesis
      using False by simp
  qed
  then show ?thesis
    by (simp add: algebra_simps diff_mult_distrib2 le_diff_conv)
qed

lemma amount_in_suffices:
  fixes a f ri ro d y :: nat
  assumes "a = ri * y * d div ((ro - y) * f) + 1" "0 < (ro - y) * f" "y \<le> ro"
  shows "y \<le> a * f * ro div (ri * d + a * f)"
proof -
  define den where "den = (ro - y) * f"
  have "ri * y * d < a * den"
    unfolding assms(1) den_def using assms(2) dividend_less_times_div [of "(ro - y) * f" "ri * y * d"]
    by (simp add: algebra_simps)
  then have "y * (ri * d) + a * (y * f) \<le> a * den + a * (y * f)"
    by (simp add: algebra_simps)
  also have "\<dots> = a * f * ro"
    using assms(3) by (simp add: den_def algebra_simps diff_mult_distrib2)
  finally have le: "y * (ri * d + a * f) \<le> a * f * ro"
    by (simp add: algebra_simps)
  have "0 < f" "0 < a"
    using assms(1,2) by auto
  then have "0 < ri * d + a * f"
    by simp
  then show ?thesis
    using le by (simp add: less_eq_div_iff_mult_less_eq)
qed

lemma product_kept_in:
  fixes a f ri ro d y :: nat
  assumes "a = ri * y * d div ((ro - y) * f) + 1" "0 < (ro - y) * f" "y \<le> ro" "f \<le> d"
  shows "ri * ro \<le> (ri + a) * (ro - y)"
proof -
  have "ri * y * f \<le> ri * y * d"
    using assms(4) by simp
  also have "\<dots> < a * ((ro - y) * f)"
    unfolding assms(1) using assms(2) dividend_less_times_div [of "(ro - y) * f" "ri * y * d"]
    by (simp add: algebra_simps)
  finally have "ri * y * f < a * (ro - y) * f"
    by (simp add: mult.assoc)
  then have "ri * y < a * (ro - y)"
    by simp
  moreover have "(ri + a) * (ro - y) + ri * y = ri * ro + a * (ro - y)"
  proof -
    obtain e where "ro = y + e"
      using assms(3) le_Suc_ex by blast
    then show ?thesis
      by (simp add: algebra_simps)
  qed
  ultimately show ?thesis
    by linarith
qed

text \<open>The reserves of a Uniswap pool fit 112 bits.\<close>

definition pool_invar :: "pool \<Rightarrow> bool" where
  "pool_invar p \<longleftrightarrow> unat (fst (p_reserves p)) < 2 ^ 112 \<and> unat (snd (p_reserves p)) < 2 ^ 112"

lemma pool_amount_in_sufficient:
  assumes ain: "pool_amount_in p y ri ro = Some a" and ro: "unat ro < 2 ^ 112"
  shows "\<exists>y'. pool_amount_out p a ri ro = Some y' \<and> y \<le> y'"
proof -
  note i = pool_amount_in_Some [OF ain]
  let ?f = "fee_part p" and ?d = "unat (p_fee_denom p)"
  define q where "q = unat a * ?f * unat ro div (unat ri * ?d + unat a * ?f)"
  have f: "?f < 2 ^ 32" and d: "?d < 2 ^ 32"
    using unat_bound [of "p_fee_denom p"] by auto
  have a: "unat a < 2 ^ 112" "unat ri < 2 ^ 112"
    using i(3) by auto
  have af: "unat a * ?f < 2 ^ 112 * 2 ^ 32"
    using a f by (intro mult_strict_mono) auto
  have afro: "unat a * ?f * unat ro < 2 ^ 112 * 2 ^ 32 * 2 ^ 112"
    by (rule mult_strict_mono [OF af ro]) auto
  have rid: "unat ri * ?d < 2 ^ 112 * 2 ^ 32"
    using a d by (intro mult_strict_mono) auto
  define F where "F = p_fee_denom p - p_fee_numer p"
  have F: "checked_sub (p_fee_denom p) (p_fee_numer p) = Some F" "unat F = ?f"
    using i(8) by (simp_all add: F_def checked_sub_def unat_minus_le)
  obtain W where W: "checked_mul a (ucast F) = Some W" "unat W = unat a * ?f"
    using checked_mul_defined [of a "ucast F"] af F(2) by auto
  obtain N where N: "checked_mul W ro = Some N" "unat N = unat a * ?f * unat ro"
    using checked_mul_defined [of W ro] afro W(2) by auto
  obtain R where R: "checked_mul ri (ucast (p_fee_denom p)) = Some R" "unat R = unat ri * ?d"
    using checked_mul_defined [of ri "ucast (p_fee_denom p)"] rid by auto
  obtain D where D: "checked_add R W = Some D" "unat D = unat ri * ?d + unat a * ?f"
    using checked_add_defined [of R W] rid af R(2) W(2) by auto
  have pos: "0 < ?f" "0 < unat a"
    using i(1,7) by auto
  then have "unat D \<noteq> 0"
    using D(2) by simp
  then have "D \<noteq> 0"
    by auto
  define Y where "Y = N div D"
  have Y: "checked_div N D = Some Y" "unat Y = unat a * ?f * unat ro div (unat ri * ?d + unat a * ?f)"
    using N(2) D(2) \<open>D \<noteq> 0\<close> by (simp_all add: checked_div_def unat_div Y_def)
  have "unat Y \<le> unat ro"
  proof -
    have "unat a * ?f * unat ro \<le> unat ro * (unat ri * ?d + unat a * ?f)"
      by (simp add: algebra_simps)
    then show ?thesis
      unfolding Y(2) by (metis div_le_mono nonzero_mult_div_cancel_right D(2) \<open>unat D \<noteq> 0\<close>)
  qed
  then obtain x where "check_final_reserves a Y ri ro = Some x"
    using check_final_reserves_defined [of a Y ri ro] i(3) by blast
  moreover have "a \<noteq> 0" "ri \<noteq> 0" "ro \<noteq> 0"
    using pos i(4,6) by auto
  ultimately have "pool_amount_out p a ri ro = Some Y"
    using F W N R D Y by (simp add: pool_amount_out_def)
  moreover have "y \<le> Y"
    using amount_in_suffices [OF i(1,7,2)] Y(2) by (simp add: word_le_nat_alt)
  ultimately show ?thesis
    by blast
qed

section \<open>The contract of the path finder\<close>

lemma relative_reserves_Ok:
  "get_relative_reserves p t = (Ok (ra, rb, u) :: ('e, u256 \<times> u256 \<times> h160) outcome) \<Longrightarrow>
     t \<noteq> u \<Longrightarrow> get_relative_reserves p u = (Ok (rb, ra, t) :: ('f, u256 \<times> u256 \<times> h160) outcome)"
  by (auto simp: get_relative_reserves_def split: if_splits)

lemma relative_reserves_bound:
  "pool_invar p \<Longrightarrow> get_relative_reserves p t = Ok (ra, rb, u) \<Longrightarrow> unat ra < 2 ^ 112 \<and> unat rb < 2 ^ 112"
  by (auto simp: get_relative_reserves_def pool_invar_def split: if_splits)

lemma uniswap_in_sufficient:
  assumes "pool_invar p \<and> token_pair_wf (p_tokens p)" "uniswap_get_amount_in p i (w, t) = Ok x"
  shows "\<exists>y. uniswap_get_amount_out p t (x, i) = Ok y \<and> w \<le> y"
proof -
  obtain ro ri where r: "get_relative_reserves p t = (Ok (ro, ri, i) :: (unit, u256 \<times> u256 \<times> h160) outcome)"
      and x: "pool_amount_in p w ri ro = Some x"
    using assms(2) by (auto simp: uniswap_get_amount_in_def pool_get_amount_in_def outc split: if_splits prod.splits)
  have "t \<noteq> i"
    using r assms(1) by (auto simp: get_relative_reserves_def token_pair_wf_def split: if_splits)
  then have r': "get_relative_reserves p i = (Ok (ri, ro, t) :: (unit, u256 \<times> u256 \<times> h160) outcome)"
    using relative_reserves_Ok [OF r] by blast
  have "unat ro < 2 ^ 112"
    using relative_reserves_bound [OF _ r] assms(1) by blast
  then obtain y where "pool_amount_out p x ri ro = Some y" "w \<le> y"
    using pool_amount_in_sufficient [OF x] by blast
  then show ?thesis
    by (simp add: uniswap_get_amount_out_def pool_get_amount_out_def r')
qed

interpretation uniswap: baseline_solvable uniswap_get_amount_out uniswap_get_amount_in
    "\<lambda>p. pool_invar p \<and> token_pair_wf (p_tokens p)"
  by unfold_locales (rule uniswap_in_sufficient)

section \<open>Fetching\<close>

lemma list_all2_zip_set:
  "list_all2 (\<lambda>x y. f x = Ok y) xs ys \<Longrightarrow> set (zip ys xs) = {(y, x). x \<in> set xs \<and> f x = Ok y}"
  by (induction rule: list_all2_induct) auto

lemma foldl_insert_keys:
  assumes "\<And>c k k'. contains_key (insert_key c k) k' \<longleftrightarrow> k' = k \<or> contains_key c k'"
  shows "contains_key (foldl insert_key c ks) k \<longleftrightarrow> k \<in> set ks \<or> contains_key c k"
  by (induction ks arbitrary: c) (auto simp: assms)

section \<open>Properties\<close>

text \<open>
  C36. A swap against a Uniswap pool never decreases the product of its reserves: selling \<open>a\<close> for
  \<open>y\<close> gives at most the output reserve and leaves at least the product it had, and the input reserve
  stays within 112 bits; the same holds when the input is computed from the output.
\<close>

theorem uniswap_keeps_product:
  "(case pool_amount_out p a ri ro of
      Some y \<Rightarrow> unat y \<le> unat ro \<and> unat ri + unat a < 2 ^ 112 \<and> unat ri * unat ro \<le> (unat ri + unat a) * (unat ro - unat y)
    | None \<Rightarrow> True) \<and>
   (case pool_amount_in p y ri ro of
      Some a \<Rightarrow> unat y \<le> unat ro \<and> unat ri + unat a < 2 ^ 112 \<and> unat ri * unat ro \<le> (unat ri + unat a) * (unat ro - unat y)
    | None \<Rightarrow> True)"
proof (intro conjI)
  show "case pool_amount_out p a ri ro of
      Some y \<Rightarrow> unat y \<le> unat ro \<and> unat ri + unat a < 2 ^ 112 \<and> unat ri * unat ro \<le> (unat ri + unat a) * (unat ro - unat y)
    | None \<Rightarrow> True"
    using pool_amount_out_Some [of p a ri ro] product_kept [of _ "unat a" "fee_part p" "unat ro" "unat ri" "unat (p_fee_denom p)"]
    by (auto split: option.splits)
  show "case pool_amount_in p y ri ro of
      Some a \<Rightarrow> unat y \<le> unat ro \<and> unat ri + unat a < 2 ^ 112 \<and> unat ri * unat ro \<le> (unat ri + unat a) * (unat ro - unat y)
    | None \<Rightarrow> True"
    using pool_amount_in_Some [of p y ri ro] product_kept_in [of _ "unat ri" "unat y" "unat (p_fee_denom p)" "unat ro" "fee_part p"]
    by (auto split: option.splits)
qed

text \<open>
  A successful fetch returns exactly the pools of the requested pairs that are not known to be
  missing, and remembers exactly the pairs for which no pool was found, in addition to those it knew; a
  failed one changes nothing. The cache may be any structure in which an inserted key is found.
\<close>

theorem pool_fetch_remembers_missing:
  assumes "\<And>c k k'. contains_key (insert_key c k) k' \<longleftrightarrow> k' = k \<or> contains_key c k'"
  shows "case pool_fetch contains_key insert_key read_state cache pairs of
      (Ok pools, cache') \<Rightarrow>
        set pools = {p. \<exists>k. k \<in> set pairs \<and> \<not> contains_key cache k \<and> read_state k = Ok (Some p)} \<and>
        {k. contains_key cache' k} = {k. contains_key cache k \<or> k \<in> set pairs \<and> read_state k = Ok None}
    | (_, cache') \<Rightarrow> cache' = cache"
proof -
  let ?ps = "filter (\<lambda>k. \<not> contains_key cache k) pairs"
  show ?thesis
  proof (cases "omap read_state ?ps")
    case (Ok rs)
    have z: "set (zip rs ?ps) = {(r, k). k \<in> set ?ps \<and> read_state k = Ok r}"
      by (rule list_all2_zip_set [OF Ok [unfolded omap_Ok]])
    have pools: "set (List.map_filter fst (zip rs ?ps)) = {p. \<exists>k. k \<in> set pairs \<and> \<not> contains_key cache k \<and> read_state k = Ok (Some p)}"
      unfolding List.map_filter_def using z by (force simp: image_iff)
    have "set (map snd (filter (\<lambda>(r, _). r = None) (zip rs ?ps))) = {k. k \<in> set pairs \<and> \<not> contains_key cache k \<and> read_state k = Ok None}"
      using z by (force simp: image_iff)
    then show ?thesis
      using pools by (auto simp: pool_fetch_def Let_def Ok foldl_insert_keys [of contains_key insert_key, OF assms])
  qed (auto simp: pool_fetch_def Let_def)
qed

text \<open>A reader that finds no pool for the pair of the tokens 1 and 2.\<close>

definition example_reader :: "token_pair \<Rightarrow> (execution_error, pool option) outcome" where
  "example_reader k = Ok (if k = TokenPair 1 2 then None else Some (pool_uniswap 9 k (5, 6)))"

theorem pool_fetch_remembers_missing_witness:
  "pool_fetch (\<lambda>c k. k \<in> c) (\<lambda>c k. insert k c) example_reader {} [TokenPair 1 2, TokenPair 1 3]
     = (Ok [pool_uniswap 9 (TokenPair 1 3) (5, 6)], {TokenPair 1 2}) \<and>
   {k. k \<in> {TokenPair 1 2}} = {k. k \<in> {} \<or> k \<in> set [TokenPair 1 2, TokenPair 1 3] \<and> example_reader k = Ok None}"
proof -
  have eval: "pool_fetch (\<lambda>c k. k \<in> c) (\<lambda>c k. insert k c) example_reader {} [TokenPair 1 2, TokenPair 1 3]
     = (Ok [pool_uniswap 9 (TokenPair 1 3) (5, 6)], {TokenPair 1 2})"
    by (simp add: pool_fetch_def List.map_filter_def example_reader_def)
  show ?thesis
    using pool_fetch_remembers_missing [where contains_key = "\<lambda>c k. k \<in> c" and insert_key = "\<lambda>c k. insert k c"
        and read_state = example_reader and cache = "{}" and pairs = "[TokenPair 1 2, TokenPair 1 3]"] eval
    by simp
qed

end
