(* ===== verification/Driver_Order.thy ===== *)
theory Driver_Order
  imports Orders Numbers
begin

text \<open>
  Orders of the driver: \<open>crates/driver/src/domain/competition/order/mod.rs\<close>, \<open>order/fees.rs\<close>,
  \<open>order/signature.rs\<close>, the amounts of \<open>domain/eth/mod.rs\<close> and the rounding of \<open>util/math.rs\<close>.

  The fee factors are \<open>f64\<close> numbers. Their type is the parameter \<open>'f\<close> of the model, and the
  computations the driver does with them are parameters of the functions that use them (see
  \<open>apply_factor\<close>, and \<open>Driver_Scoring\<close>).
\<close>

section \<open>Amounts\<close>

record asset =
  as_amount :: u256
  as_token :: h160

definition ETH_TOKEN :: h160 where
  "ETH_TOKEN = 0xeeeeeeeeeeeeeeeeeeeeeeeeeeeeeeeeeeeeeeee"

text \<open>\<open>TokenAddress::wrap\<close>.\<close>

definition wrap :: "h160 \<Rightarrow> h160 \<Rightarrow> h160" where
  "wrap weth token = (if token = ETH_TOKEN then weth else token)"

text \<open>\<open>TokenAmount::apply_factor\<close>: the argument is the factor in units of \<open>10 ^ -18\<close>, converted lossily.\<close>

definition apply_factor :: "('f \<Rightarrow> u256) \<Rightarrow> u256 \<Rightarrow> 'f \<Rightarrow> u256 option" where
  "apply_factor scaled amount factor =
     Option.bind (checked_mul amount (scaled factor)) (\<lambda>p. Some (p div 1000000000000000000))"

definition mul_ratio :: "u256 \<Rightarrow> u256 \<Rightarrow> u256 \<Rightarrow> u256 option" where
  "mul_ratio x q d =
     (if d = 0 then None
      else let r = unat x * unat q div unat d in if r < 2 ^ 256 then Some (of_nat r) else None)"

definition mul_ratio_ceil :: "u256 \<Rightarrow> u256 \<Rightarrow> u256 \<Rightarrow> u256 option" where
  "mul_ratio_ceil x q d =
     (if d = 0 then None
      else let p = unat x * unat q; r = p div unat d
           in if r < 2 ^ 256 then checked_add (of_nat r) (if p mod unat d \<noteq> 0 then 1 else 0) else None)"

section \<open>Orders\<close>

datatype side = SideBuy | SideSell

fun side_of_order_kind :: "order_kind \<Rightarrow> side" where
  "side_of_order_kind Sell = SideSell"
| "side_of_order_kind Buy = SideBuy"

datatype d_kind = KindMarket | KindLimit | KindLiquidity

datatype partial = PartialYes u256 | PartialNo

record fee_quote =
  fq_sell :: asset
  fq_buy :: asset
  fq_fee :: asset

datatype 'f fee_policy =
    FeeSurplus 'f 'f
  | FeePriceImprovement 'f 'f fee_quote
  | FeeVolume 'f

datatype sell_token_balance = SellBalanceErc20 | SellBalanceInternal | SellBalanceExternal

datatype buy_token_balance = BuyBalanceErc20 | BuyBalanceInternal

record d_signature =
  ds_scheme :: signing_scheme
  ds_data :: bytes
  ds_signer :: h160

record d_interaction =
  di_target :: h160
  di_value :: u256
  di_call_data :: bytes

record 'f d_order =
  do_uid :: order_uid
  do_receiver :: "h160 option"
  do_valid_to :: u32
  do_buy :: asset
  do_sell :: asset
  do_side :: side
  do_kind :: d_kind
  do_app_data :: app_data_hash
  do_partial :: partial
  do_pre_interactions :: "d_interaction list"
  do_post_interactions :: "d_interaction list"
  do_sell_token_balance :: sell_token_balance
  do_buy_token_balance :: buy_token_balance
  do_signature :: d_signature
  do_protocol_fees :: "'f fee_policy list"

record available_amounts =
  av_sell :: asset
  av_buy :: asset

definition target :: "'f d_order \<Rightarrow> u256" where
  "target ord = (case do_side ord of SideBuy \<Rightarrow> as_amount (do_buy ord) | SideSell \<Rightarrow> as_amount (do_sell ord))"

definition trader :: "'f d_order \<Rightarrow> h160" where
  "trader ord = ds_signer (do_signature ord)"

definition is_partial :: "'f d_order \<Rightarrow> bool" where
  "is_partial ord = (case do_partial ord of PartialYes _ \<Rightarrow> True | PartialNo \<Rightarrow> False)"

definition buys_eth :: "'f d_order \<Rightarrow> bool" where
  "buys_eth ord \<longleftrightarrow> as_token (do_buy ord) = ETH_TOKEN"

definition d_receiver :: "'f d_order \<Rightarrow> h160" where
  "d_receiver ord = (case do_receiver ord of Some r \<Rightarrow> r | None \<Rightarrow> ds_signer (do_signature ord))"

definition is_liquidity :: "'f d_order \<Rightarrow> bool" where
  "is_liquidity ord \<longleftrightarrow> do_kind ord = KindLiquidity"

definition d_solver_determines_fee :: "'f d_order \<Rightarrow> bool" where
  "d_solver_determines_fee ord \<longleftrightarrow> do_kind ord = KindLimit"

definition unwrap_or_default :: "u256 option \<Rightarrow> u256" where
  "unwrap_or_default m = (case m of Some x \<Rightarrow> x | None \<Rightarrow> 0)"

definition available :: "'f d_order \<Rightarrow> available_amounts" where
  "available ord =
     (case do_partial ord of
        PartialNo \<Rightarrow> \<lparr> av_sell = do_sell ord, av_buy = do_buy ord \<rparr>
      | PartialYes a \<Rightarrow>
          \<lparr> av_sell = (do_sell ord)\<lparr>as_amount := unwrap_or_default (mul_ratio (as_amount (do_sell ord)) a (target ord))\<rparr>,
            av_buy = (do_buy ord)\<lparr>as_amount := unwrap_or_default (mul_ratio_ceil (as_amount (do_buy ord)) a (target ord))\<rparr> \<rparr>)"

definition available_is_zero :: "available_amounts \<Rightarrow> bool" where
  "available_is_zero a \<longleftrightarrow> as_amount (av_sell a) = 0 \<or> as_amount (av_buy a) = 0"

text \<open>\<open>Signature::to_boundary_signature\<close>: the conversion of the data to 65 bytes panics on another length.\<close>

definition to_boundary_signature :: "d_signature \<Rightarrow> ('e, signature) outcome" where
  "to_boundary_signature sig =
     (case ds_scheme sig of
        SchemeEip712 \<Rightarrow>
          if length (ds_data sig) = 65 then obind (ecdsa_from_bytes (ds_data sig)) (\<lambda>s. Ok (Eip712 s)) else Panic
      | SchemeEthSign \<Rightarrow>
          if length (ds_data sig) = 65 then obind (ecdsa_from_bytes (ds_data sig)) (\<lambda>s. Ok (EthSign s)) else Panic
      | SchemeEip1271 \<Rightarrow> Ok (Eip1271 (ds_data sig))
      | SchemePreSign \<Rightarrow> Ok PreSign)"

text \<open>Just-in-time orders, which a solver adds to a solution.\<close>

record d_jit =
  jo_sell :: asset
  jo_buy :: asset
  jo_receiver :: h160
  jo_valid_to :: u32
  jo_app_data :: app_data_hash
  jo_side :: side
  jo_sell_token_balance :: sell_token_balance
  jo_buy_token_balance :: buy_token_balance
  jo_signature :: d_signature
  jo_uid :: order_uid

definition jit_target :: "d_jit \<Rightarrow> u256" where
  "jit_target jit = (case jo_side jit of SideBuy \<Rightarrow> as_amount (jo_buy jit) | SideSell \<Rightarrow> as_amount (jo_sell jit))"

definition jit_fee :: "d_jit \<Rightarrow> u256" where
  "jit_fee jit = 0"

definition jit_partially_fillable :: "d_jit \<Rightarrow> partial" where
  "jit_partially_fillable jit = PartialNo"

fun sell_balance_of_source :: "sell_token_source \<Rightarrow> sell_token_balance" where
  "sell_balance_of_source SellErc20 = SellBalanceErc20"
| "sell_balance_of_source SellInternal = SellBalanceInternal"
| "sell_balance_of_source SellExternal = SellBalanceExternal"

fun buy_balance_of_destination :: "buy_token_destination \<Rightarrow> buy_token_balance" where
  "buy_balance_of_destination BuyErc20 = BuyBalanceErc20"
| "buy_balance_of_destination BuyInternal = BuyBalanceInternal"

section \<open>Rounding\<close>

lemma mul_ratio_Some:
  "mul_ratio x q d = Some r \<longleftrightarrow> 0 < unat d \<and> unat r = unat x * unat q div unat d"
proof (cases "d = 0")
  case False
  then have "0 < unat d"
    by (simp add: unat_gt_0)
  with False show ?thesis
    using unat_bound [of r] by (auto simp: mul_ratio_def Let_def word_unat_eq_iff unat_of_nat)
qed (simp add: mul_ratio_def)

lemma nat_ceil_div: "0 < d \<Longrightarrow> (p + (d - 1)) div d = p div d + (if p mod d \<noteq> 0 then 1 else 0)" for p d :: nat
proof -
  assume d: "0 < d"
  have "p + (d - 1) = d * (p div d) + (p mod d + (d - 1))"
    using mult_div_mod_eq [of d p] by linarith
  then have eq: "(p + (d - 1)) div d = p div d + (p mod d + (d - 1)) div d"
    using d by (metis div_mult_self4 nat_neq_iff add.commute)
  show ?thesis
  proof (cases "p mod d = 0")
    case True
    then show ?thesis using eq d by simp
  next
    case False
    have "p mod d < d" using d by simp
    have "(p mod d + (d - 1)) div d = 1"
    proof (rule div_nat_eqI)
      show "d * 1 \<le> p mod d + (d - 1)" using False d by linarith
      show "p mod d + (d - 1) < d * Suc 1" using \<open>p mod d < d\<close> mult_Suc_right [of d 1] by linarith
    qed
    then show ?thesis using eq False by simp
  qed
qed

lemma mul_ratio_ceil_Some:
  "mul_ratio_ceil x q d = Some r \<longleftrightarrow> 0 < unat d \<and> unat r = (unat x * unat q + (unat d - 1)) div unat d"
proof (cases "d = 0")
  case False
  then have d: "0 < unat d"
    by (simp add: unat_gt_0)
  define p where "p = unat x * unat q"
  have one: "unat (if p mod unat d \<noteq> 0 then 1 else 0 :: u256) = (if p mod unat d \<noteq> 0 then 1 else 0)"
    by simp
  show ?thesis
  proof (cases "p div unat d < 2 ^ 256")
    case True
    then have "unat (of_nat (p div unat d) :: u256) = p div unat d"
      by (simp add: unat_of_nat)
    with True d False one show ?thesis
      unfolding p_def [symmetric] nat_ceil_div [OF d]
      by (simp add: mul_ratio_ceil_def Let_def p_def [symmetric] checked_add_Some)
  next
    case False
    then show ?thesis
      using \<open>d \<noteq> 0\<close> d unat_bound [of r]
      unfolding p_def [symmetric] nat_ceil_div [OF d]
      by (auto simp: mul_ratio_ceil_def Let_def p_def [symmetric])
  qed
qed (simp add: mul_ratio_ceil_def)

lemma mul_ratio_le: "mul_ratio x q d = Some r \<Longrightarrow> unat q \<le> unat d \<Longrightarrow> unat r \<le> unat x"
proof -
  assume r: "mul_ratio x q d = Some r" and "unat q \<le> unat d"
  then have "unat x * unat q \<le> unat x * unat d"
    by simp
  then have "unat x * unat q div unat d \<le> unat x * unat d div unat d"
    by (rule div_le_mono)
  with r show ?thesis
    by (simp add: mul_ratio_Some)
qed

lemma mul_ratio_ceil_le: "mul_ratio_ceil x q d = Some r \<Longrightarrow> unat q \<le> unat d \<Longrightarrow> unat r \<le> unat x"
proof -
  assume r: "mul_ratio_ceil x q d = Some r" and q: "unat q \<le> unat d"
  then have d: "0 < unat d" and eq: "unat r = (unat x * unat q + (unat d - 1)) div unat d"
    by (auto simp: mul_ratio_ceil_Some)
  have "unat x * unat q \<le> unat x * unat d"
    using q by simp
  then have "unat x * unat q + (unat d - 1) < (unat x + 1) * unat d"
    using d unfolding add_mult_distrib by linarith
  then have "unat r < unat x + 1"
    unfolding eq using d by (simp only: div_less_iff_less_mult)
  then show ?thesis by simp
qed

lemma unwrap_or_default_nonzero: "unwrap_or_default m \<noteq> 0 \<Longrightarrow> m = Some (unwrap_or_default m)"
  by (cases m) (auto simp: unwrap_or_default_def)

section \<open>Available amounts\<close>

text \<open>What the code expects of a partially fillable order: no more is available than its target.\<close>

definition order_wf :: "'f d_order \<Rightarrow> bool" where
  "order_wf ord = (case do_partial ord of PartialYes a \<Rightarrow> unat a \<le> unat (target ord) | PartialNo \<Rightarrow> True)"

lemma available_tokens [simp]:
  "as_token (av_sell (available ord)) = as_token (do_sell ord)"
  "as_token (av_buy (available ord)) = as_token (do_buy ord)"
  by (simp_all add: available_def split: partial.split)

lemma available_PartialNo:
  "do_partial ord = PartialNo \<Longrightarrow> available ord = \<lparr> av_sell = do_sell ord, av_buy = do_buy ord \<rparr>"
  by (simp add: available_def)

lemma available_PartialYes:
  assumes "do_partial ord = PartialYes a" and "\<not> available_is_zero (available ord)"
  shows "mul_ratio (as_amount (do_sell ord)) a (target ord) = Some (as_amount (av_sell (available ord)))"
    and "mul_ratio_ceil (as_amount (do_buy ord)) a (target ord) = Some (as_amount (av_buy (available ord)))"
  using assms by (auto simp: available_def available_is_zero_def intro: unwrap_or_default_nonzero)

text \<open>
  The amounts an order makes available to the solvers never ask for a worse price than the order's limit
  price: what is sold, valued at the limit price, is at most what is bought, and this rounds in the
  favour of the user. For an order whose available target is at most its target, neither amount exceeds that of the order.
\<close>

theorem available_keeps_limit_price:
  assumes "\<not> available_is_zero (available ord)"
  shows "unat (as_amount (av_sell (available ord))) * unat (as_amount (do_buy ord))
           \<le> unat (as_amount (av_buy (available ord))) * unat (as_amount (do_sell ord))
         \<and> (order_wf ord \<longrightarrow> unat (as_amount (av_sell (available ord))) \<le> unat (as_amount (do_sell ord))
              \<and> unat (as_amount (av_buy (available ord))) \<le> unat (as_amount (do_buy ord)))"
proof (cases "do_partial ord")
  case PartialNo
  then show ?thesis
    by (simp add: available_PartialNo)
next
  case (PartialYes a)
  define s b t where "s = unat (as_amount (do_sell ord))" and "b = unat (as_amount (do_buy ord))" and "t = unat (target ord)"
  define s' b' where "s' = unat (as_amount (av_sell (available ord)))" and "b' = unat (as_amount (av_buy (available ord)))"
  note some = available_PartialYes [OF PartialYes assms]
  have t: "0 < t" and s': "s' = s * unat a div t" and b': "b' = (b * unat a + (t - 1)) div t"
    using some by (simp_all add: mul_ratio_Some mul_ratio_ceil_Some s_def b_def t_def s'_def b'_def)
  have "s' * t \<le> s * unat a"
    using div_mult_mod_eq [of "s * unat a" t] by (simp add: s')
  then have "s' * t * b \<le> s * unat a * b"
    by (rule mult_le_mono1)
  also have "\<dots> = s * (b * unat a)"
    by simp
  also have "\<dots> \<le> s * (b' * t)"
    using ceil_div_nat_bounds(1) [OF t b'] by (rule mult_le_mono2)
  finally have "s' * t * b \<le> s * (b' * t)" .
  then have "t * (s' * b) \<le> t * (b' * s)"
    by (simp add: ac_simps)
  then have "s' * b \<le> b' * s"
    using t by simp
  moreover have "s' \<le> s \<and> b' \<le> b" if "order_wf ord"
    using that PartialYes mul_ratio_le [OF some(1)] mul_ratio_ceil_le [OF some(2)]
    by (simp add: order_wf_def s_def b_def s'_def b'_def)
  ultimately show ?thesis
    by (simp add: s_def b_def s'_def b'_def)
qed

text \<open>A partially fillable order that sells 1000 for 300 and has 333 left, of which the solver sees 333 for 100.\<close>

definition example_order :: "unit d_order" where
  "example_order =
     \<lparr> do_uid = [], do_receiver = None, do_valid_to = 0,
       do_buy = \<lparr> as_amount = 300, as_token = 2 \<rparr>, do_sell = \<lparr> as_amount = 1000, as_token = 1 \<rparr>,
       do_side = SideSell, do_kind = KindLimit, do_app_data = 0, do_partial = PartialYes 333,
       do_pre_interactions = [], do_post_interactions = [],
       do_sell_token_balance = SellBalanceErc20, do_buy_token_balance = BuyBalanceErc20,
       do_signature = \<lparr> ds_scheme = SchemePreSign, ds_data = [], ds_signer = 7 \<rparr>,
       do_protocol_fees = [] \<rparr>"

lemma available_example:
  "available example_order =
     \<lparr> av_sell = \<lparr> as_amount = 333, as_token = 1 \<rparr>, av_buy = \<lparr> as_amount = 100, as_token = 2 \<rparr> \<rparr>"
  by (simp add: available_def example_order_def target_def mul_ratio_def mul_ratio_ceil_def checked_add_def unwrap_or_default_def)

theorem available_keeps_limit_price_witness:
  "order_wf example_order \<and> (333 :: nat) * 300 \<le> 100 * 1000 \<and> (333 :: nat) \<le> 1000 \<and> (100 :: nat) \<le> 300"
  using available_keeps_limit_price [of example_order]
  by (simp add: available_example available_is_zero_def example_order_def order_wf_def target_def)

end
