(* ===== verification/Rust_Maps.thy ===== *)
theory Rust_Maps
  imports Main "HOL-Library.AList"
begin

text \<open>
  The maps of the Rust standard library as association lists with distinct keys. The order of a \<open>HashMap\<close> stands for its
  unspecified order of iteration; a \<open>BTreeMap\<close> is kept in ascending order of its keys. What the services rely on of both is the
  locale \<open>map_impl\<close>, in which the laws of the loops that insert or remove many keys are proved once.
\<close>

section \<open>Ordered maps\<close>

fun bt_insert :: "'k::linorder \<Rightarrow> 'v \<Rightarrow> ('k \<times> 'v) list \<Rightarrow> ('k \<times> 'v) list" where
  "bt_insert k v [] = [(k, v)]"
| "bt_insert k v ((k', v') # m) =
     (if k < k' then (k, v) # (k', v') # m else if k = k' then (k, v) # m else (k', v') # bt_insert k v m)"

definition bt_last :: "('k \<times> 'v) list \<Rightarrow> ('k \<times> 'v) option" where
  "bt_last m = (if m = [] then None else Some (last m))"

definition bt_ok :: "('k::linorder \<times> 'v) list \<Rightarrow> bool" where
  "bt_ok m \<longleftrightarrow> sorted_wrt (<) (map fst m)"

lemma map_of_bt_insert: "bt_ok m \<Longrightarrow> map_of (bt_insert k v m) = (map_of m)(k \<mapsto> v)"
  by (induction k v m rule: bt_insert.induct) (auto simp: bt_ok_def)

lemma fst_set_bt_insert: "fst ` set (bt_insert k v m) = insert k (fst ` set m)"
  by (induction k v m rule: bt_insert.induct) auto

lemma bt_ok_insert: "bt_ok m \<Longrightarrow> bt_ok (bt_insert k v m)"
proof (induction k v m rule: bt_insert.induct)
  case (2 k v k' v' m)
  then have "bt_ok (bt_insert k v m)" if "\<not> k < k'" "k \<noteq> k'"
    using that by (simp add: bt_ok_def)
  moreover have "\<forall>x \<in> fst ` set (bt_insert k v m). k' < x" if "\<not> k < k'" "k \<noteq> k'"
    using 2(2) that by (auto simp: bt_ok_def fst_set_bt_insert)
  ultimately show ?case
    using 2(2) by (auto simp: bt_ok_def)
qed (simp add: bt_ok_def)

lemma bt_ok_delete: "bt_ok m \<Longrightarrow> bt_ok (AList.delete k m)"
  by (auto simp: bt_ok_def sorted_wrt_map AList.delete_eq intro: sorted_wrt_filter)

lemma bt_ok_distinct: "bt_ok m \<Longrightarrow> distinct (map fst m)"
  by (simp add: bt_ok_def strict_sorted_iff)

lemma bt_last_greatest:
  assumes "bt_ok m" "bt_last m = Some (k, v)"
  shows "map_of m k = Some v" "\<And>k'. k' \<in> dom (map_of m) \<Longrightarrow> k' \<le> k"
proof -
  obtain xs where m: "m = xs @ [(k, v)]"
    using assms(2) by (cases m rule: rev_cases) (auto simp: bt_last_def)
  then show "map_of m k = Some v"
    using map_of_is_SomeI [OF bt_ok_distinct [OF assms(1)], of k v] by simp
  fix k' assume "k' \<in> dom (map_of m)"
  then have "k' \<in> fst ` set m"
    by (simp add: dom_map_of_conv_image_fst)
  then show "k' \<le> k"
    using assms(1) m by (auto simp: bt_ok_def sorted_wrt_append less_imp_le)
qed

section \<open>The interface of a map\<close>

definition extend_map :: "('k \<Rightarrow> 'v \<Rightarrow> 'm \<Rightarrow> 'm) \<Rightarrow> ('k \<times> 'v) list \<Rightarrow> 'm \<Rightarrow> 'm" where
  "extend_map ins kvs m = foldl (\<lambda>m (k, v). ins k v m) m kvs"

definition remove_keys :: "('k \<Rightarrow> 'm \<Rightarrow> 'm) \<Rightarrow> 'k list \<Rightarrow> 'm \<Rightarrow> 'm" where
  "remove_keys rem ks m = foldl (\<lambda>m k. rem k m) m ks"

locale map_impl =
  fixes ins :: "'k \<Rightarrow> 'v \<Rightarrow> 'm \<Rightarrow> 'm"
    and rem :: "'k \<Rightarrow> 'm \<Rightarrow> 'm"
    and lookup :: "'m \<Rightarrow> 'k \<Rightarrow> 'v option"
    and ok :: "'m \<Rightarrow> bool"
  assumes lookup_ins: "ok m \<Longrightarrow> lookup (ins k v m) = (lookup m)(k \<mapsto> v)"
    and lookup_rem: "ok m \<Longrightarrow> lookup (rem k m) = (lookup m)(k := None)"
    and ok_ins: "ok m \<Longrightarrow> ok (ins k v m)"
    and ok_rem: "ok m \<Longrightarrow> ok (rem k m)"
begin

lemma ok_extend_map: "ok m \<Longrightarrow> ok (extend_map ins kvs m)"
  by (induction kvs arbitrary: m) (auto simp: extend_map_def ok_ins)

lemma ok_remove_keys: "ok m \<Longrightarrow> ok (remove_keys rem ks m)"
  by (induction ks arbitrary: m) (auto simp: remove_keys_def ok_rem)

lemma lookup_extend_map: "ok m \<Longrightarrow> lookup (extend_map ins kvs m) = lookup m ++ map_of (rev kvs)"
proof (induction kvs arbitrary: m)
  case (Cons kv kvs)
  then show ?case
    by (cases kv) (auto simp: extend_map_def ok_ins lookup_ins map_add_def fun_eq_iff split: option.splits)
qed (simp add: extend_map_def)

lemma lookup_remove_keys: "ok m \<Longrightarrow> lookup (remove_keys rem ks m) = (\<lambda>k. if k \<in> set ks then None else lookup m k)"
  by (induction ks arbitrary: m) (auto simp: remove_keys_def ok_rem lookup_rem fun_eq_iff)

end

interpretation btree_map: map_impl bt_insert AList.delete map_of bt_ok
  by unfold_locales (simp_all add: map_of_bt_insert AList.delete_conv' bt_ok_insert bt_ok_delete)

interpretation hash_map: map_impl AList.update AList.delete map_of "\<lambda>m. distinct (map fst m)"
  by unfold_locales (simp_all add: AList.update_conv' AList.delete_conv' AList.distinct_update AList.distinct_delete)

end
