(* ===== verification/Cow_Amms.thy ===== *)
theory Cow_Amms
  imports Orders Rust_Maps
begin

text \<open>
  The index of CoW AMMs, \<open>crates/cow-amm\<close>: the pools the factory contracts announced, kept per block so that a reorganisation
  of the chain can replace the events of a range of blocks, and the removal of empty pools.

  What the helper contract answers for the tokens of a pool is the parameter \<open>tokens\<close>, \<open>None\<close> when the call fails.
\<close>

section \<open>State\<close>

record cow_amm =
  ca_address :: h160
  ca_traded_tokens :: "h160 list"

record template_order =
  tm_order :: order_data
  tm_signature :: signature
  tm_pre_interactions :: "interaction_data list"
  tm_post_interactions :: "interaction_data list"

type_synonym amm_cache = "(u64 \<times> cow_amm list) list"

record amm_storage =
  st_cache :: amm_cache
  st_start_of_index :: u64

record amm_event =
  ev_block :: "u64 option"
  ev_amm :: h160

datatype amm_error = EventMissingMeta | TokensCallFailed

section \<open>Operations\<close>

text \<open>\<open>Storage::new\<close>; the subtraction wraps in a release build.\<close>

definition storage_new :: "u64 \<Rightarrow> amm_storage" where
  "storage_new deployment_block = \<lparr>st_cache = [], st_start_of_index = deployment_block - 1\<rparr>"

definition storage_amms :: "amm_storage \<Rightarrow> cow_amm list" where
  "storage_amms s = concat (map snd (st_cache s))"

definition remove_amms :: "h160 list \<Rightarrow> amm_storage \<Rightarrow> amm_storage" where
  "remove_amms amm_addresses s =
     s\<lparr>st_cache := map (\<lambda>(block, amms). (block, filter (\<lambda>amm. ca_address amm \<notin> set amm_addresses) amms)) (st_cache s)\<rparr>"

definition amm_new :: "(h160 \<Rightarrow> h160 list option) \<Rightarrow> h160 \<Rightarrow> (amm_error, cow_amm) outcome" where
  "amm_new tokens address =
     obind (ok_or (tokens address) TokensCallFailed) (\<lambda>tradeable_tokens.
     Ok \<lparr>ca_address = address, ca_traded_tokens = tradeable_tokens\<rparr>)"

text \<open>
  One event: the entry of its block is created before the helper contract is called, and stays, possibly empty, when that call
  fails.
\<close>

definition append_event :: "(h160 \<Rightarrow> h160 list option) \<Rightarrow> amm_event \<Rightarrow> amm_cache \<Rightarrow> (amm_error, unit) outcome \<times> amm_cache" where
  "append_event tokens event cache =
     (case ev_block event of
        None \<Rightarrow> (Err EventMissingMeta, cache)
      | Some block_number \<Rightarrow>
          let amms = (case map_of cache block_number of Some amms \<Rightarrow> amms | None \<Rightarrow> []);
              cache = bt_insert block_number amms cache
          in case amm_new tokens (ev_amm event) of
               Ok amm \<Rightarrow> (Ok (), bt_insert block_number (amms @ [amm]) cache)
             | Err e \<Rightarrow> (Err e, cache)
             | Panic \<Rightarrow> (Panic, cache))"

fun append_events :: "(h160 \<Rightarrow> h160 list option) \<Rightarrow> amm_event list \<Rightarrow> amm_cache \<Rightarrow> (amm_error, unit) outcome \<times> amm_cache" where
  "append_events tokens [] cache = (Ok (), cache)"
| "append_events tokens (event # events) cache =
     (case append_event tokens event cache of
        (Ok _, cache) \<Rightarrow> append_events tokens events cache
      | (r, cache) \<Rightarrow> (r, cache))"

text \<open>\<open>replace_events\<close> for the blocks of the inclusive range from \<open>first_block\<close> to \<open>last_block\<close>.\<close>

definition range_inclusive :: "u64 \<Rightarrow> u64 \<Rightarrow> u64 list" where
  "range_inclusive first_block last_block = map of_nat [unat first_block..<Suc (unat last_block)]"

definition replace_events ::
  "(h160 \<Rightarrow> h160 list option) \<Rightarrow> amm_event list \<Rightarrow> u64 \<Rightarrow> u64 \<Rightarrow> amm_cache \<Rightarrow> (amm_error, unit) outcome \<times> amm_cache" where
  "replace_events tokens events first_block last_block cache =
     append_events tokens events (remove_keys AList.delete (range_inclusive first_block last_block) cache)"

definition last_event_block :: "amm_storage \<Rightarrow> u64" where
  "last_event_block s = (case bt_last (st_cache s) of Some (block, _) \<Rightarrow> block | None \<Rightarrow> st_start_of_index s)"

text \<open>\<open>Registry::amms\<close>, over the storages of all its listeners.\<close>

definition registry_amms :: "amm_storage list \<Rightarrow> cow_amm list" where
  "registry_amms storages = concat (map storage_amms storages)"

text \<open>
  \<open>EmptyPoolRemoval\<close>: a pool is empty when one of its tokens has no balance. \<open>balance_of\<close> is the ERC20 contract call, \<open>None\<close>
  when it fails; \<open>select_ok\<close> panics when it is given no future, and otherwise succeeds when one of them does.
\<close>

definition has_zero_balance :: "(h160 \<Rightarrow> h160 \<Rightarrow> u256 option) \<Rightarrow> cow_amm \<Rightarrow> ('e, bool) outcome" where
  "has_zero_balance balance_of amm =
     (if ca_traded_tokens amm = [] then Panic
      else Ok (list_ex (\<lambda>token. balance_of token (ca_address amm) = Some 0) (ca_traded_tokens amm)))"

definition run_maintenance :: "(h160 \<Rightarrow> h160 \<Rightarrow> u256 option) \<Rightarrow> amm_storage list \<Rightarrow> ('e, amm_storage list) outcome" where
  "run_maintenance balance_of storages =
     (let amms_to_check = registry_amms storages
      in obind (omap (\<lambda>amm. obind (has_zero_balance balance_of amm) (\<lambda>empty.
                Ok (if empty then Some (ca_address amm) else None))) amms_to_check) (\<lambda>checked.
         let empty_amms = List.map_filter (\<lambda>c. c) checked
         in Ok (if empty_amms \<noteq> [] then map (remove_amms empty_amms) storages else storages)))"

section \<open>The pools of a block\<close>

definition amms_at :: "amm_cache \<Rightarrow> u64 \<Rightarrow> cow_amm list" where
  "amms_at cache block = (case map_of cache block of Some amms \<Rightarrow> amms | None \<Rightarrow> [])"

text \<open>An event that can be indexed, and the pools that a list of such events creates in a block.\<close>

definition event_ok :: "(h160 \<Rightarrow> h160 list option) \<Rightarrow> amm_event \<Rightarrow> bool" where
  "event_ok tokens event \<longleftrightarrow> ev_block event \<noteq> None \<and> tokens (ev_amm event) \<noteq> None"

definition amms_of_events :: "(h160 \<Rightarrow> h160 list option) \<Rightarrow> amm_event list \<Rightarrow> u64 \<Rightarrow> cow_amm list" where
  "amms_of_events tokens events block =
     map (\<lambda>event. \<lparr>ca_address = ev_amm event, ca_traded_tokens = the (tokens (ev_amm event))\<rparr>)
       (filter (\<lambda>event. ev_block event = Some block) events)"

lemma append_event_Ok:
  assumes "event_ok tokens event" "bt_ok cache"
  shows "\<exists>cache'. append_event tokens event cache = (Ok (), cache') \<and> bt_ok cache'
     \<and> amms_at cache' = (\<lambda>b. amms_at cache b @ amms_of_events tokens [event] b)
     \<and> dom (map_of cache') = insert (the (ev_block event)) (dom (map_of cache))"
proof -
  obtain block toks where "ev_block event = Some block" "tokens (ev_amm event) = Some toks"
    using assms(1) by (auto simp: event_ok_def)
  then show ?thesis
    using assms(2)
    by (auto simp: append_event_def amm_new_def Let_def btree_map.ok_ins btree_map.lookup_ins amms_at_def amms_of_events_def
        fun_eq_iff split: option.splits)
qed

lemma append_events_Ok:
  assumes "list_all (event_ok tokens) events" "bt_ok cache"
  shows "\<exists>cache'. append_events tokens events cache = (Ok (), cache') \<and> bt_ok cache'
     \<and> amms_at cache' = (\<lambda>b. amms_at cache b @ amms_of_events tokens events b)
     \<and> dom (map_of cache') = dom (map_of cache) \<union> (the \<circ> ev_block) ` set events"
  using assms
proof (induction events arbitrary: cache)
  case (Cons event events)
  obtain cache1 where c1: "append_event tokens event cache = (Ok (), cache1)" "bt_ok cache1"
    "amms_at cache1 = (\<lambda>b. amms_at cache b @ amms_of_events tokens [event] b)"
    "dom (map_of cache1) = insert (the (ev_block event)) (dom (map_of cache))"
    using append_event_Ok [of tokens event cache] Cons.prems by auto
  obtain cache2 where c2: "append_events tokens events cache1 = (Ok (), cache2)" "bt_ok cache2"
    "amms_at cache2 = (\<lambda>b. amms_at cache1 b @ amms_of_events tokens events b)"
    "dom (map_of cache2) = dom (map_of cache1) \<union> (the \<circ> ev_block) ` set events"
    using Cons.IH [of cache1] c1(2) Cons.prems(1) by auto
  have "append_events tokens (event # events) cache = (Ok (), cache2)"
    using c1(1) c2(1) by simp
  moreover have "amms_at cache2 = (\<lambda>b. amms_at cache b @ amms_of_events tokens (event # events) b)"
    by (simp add: c2(3) c1(3) amms_of_events_def fun_eq_iff)
  ultimately show ?case
    using c2(2,4) c1(4) by auto
qed (auto simp: amms_of_events_def)

lemma set_range_inclusive: "b \<in> set (range_inclusive first_block last_block) \<longleftrightarrow> first_block \<le> b \<and> b \<le> last_block"
proof
  assume "first_block \<le> b \<and> b \<le> last_block"
  then have "unat b \<in> set [unat first_block..<Suc (unat last_block)]"
    by (auto simp: word_le_nat_alt)
  then have "(of_nat (unat b) :: u64) \<in> set (range_inclusive first_block last_block)"
    unfolding range_inclusive_def set_map by (rule imageI)
  then show "b \<in> set (range_inclusive first_block last_block)"
    by simp
next
  assume "b \<in> set (range_inclusive first_block last_block)"
  then obtain n where "b = of_nat n" "unat first_block \<le> n" "n \<le> unat last_block"
    by (auto simp: range_inclusive_def less_Suc_eq_le)
  moreover from this have "unat b = n"
    using unat_bound [of last_block] by (simp add: unat_of_nat)
  ultimately show "first_block \<le> b \<and> b \<le> last_block"
    by (simp add: word_le_nat_alt)
qed

text \<open>The cache stays an ordered map, whatever happens.\<close>

lemma bt_ok_append_events: "bt_ok cache \<Longrightarrow> bt_ok (snd (append_events tokens events cache))"
proof (induction events arbitrary: cache)
  case (Cons event events)
  obtain r cache1 where e: "append_event tokens event cache = (r, cache1)"
    by (cases "append_event tokens event cache")
  then have "bt_ok cache1"
    using Cons.prems
    by (auto simp: append_event_def Let_def btree_map.ok_ins split: option.splits outcome.splits prod.splits)
  with e Cons.IH show ?case
    by (cases r) auto
qed simp

section \<open>Properties\<close>

text \<open>
  Replacing the events of a range of blocks, after a reorganisation of the chain, leaves exactly the pools of the new
  events in that range, in their order, and every other block as it was; the index says so for every block it knows, and
  replacing the range with the same events once more changes nothing that can be observed.
\<close>

theorem replace_events_exact:
  assumes "bt_ok cache" and "list_all (event_ok tokens) events"
    and "\<forall>event \<in> set events. \<exists>b. ev_block event = Some b \<and> first_block \<le> b \<and> b \<le> last_block"
  shows "\<exists>cache'. replace_events tokens events first_block last_block cache = (Ok (), cache') \<and> bt_ok cache'
     \<and> (\<forall>b. amms_at cache' b = (if first_block \<le> b \<and> b \<le> last_block then amms_of_events tokens events b else amms_at cache b))
     \<and> (\<exists>cache''. replace_events tokens events first_block last_block cache' = (Ok (), cache'') \<and> amms_at cache'' = amms_at cache')"
proof -
  let ?cut = "\<lambda>cache. remove_keys AList.delete (range_inclusive first_block last_block) cache :: amm_cache"
  have cut: "bt_ok (?cut c)" "amms_at (?cut c) b = (if first_block \<le> b \<and> b \<le> last_block then [] else amms_at c b)" if "bt_ok c" for c b
    using that by (simp_all add: btree_map.ok_remove_keys btree_map.lookup_remove_keys amms_at_def set_range_inclusive)
  have outside: "amms_of_events tokens events b = []" if "\<not> (first_block \<le> b \<and> b \<le> last_block)" for b
    using assms(3) that by (force simp: amms_of_events_def filter_empty_conv)
  have one: "\<exists>c'. replace_events tokens events first_block last_block c = (Ok (), c') \<and> bt_ok c'
      \<and> amms_at c' = (\<lambda>b. if first_block \<le> b \<and> b \<le> last_block then amms_of_events tokens events b else amms_at c b)" if "bt_ok c" for c
    using append_events_Ok [OF assms(2) cut(1) [OF that]] cut(2) [OF that] outside
    by (auto simp: replace_events_def fun_eq_iff)
  obtain c' where c': "replace_events tokens events first_block last_block cache = (Ok (), c')" "bt_ok c'"
    "amms_at c' = (\<lambda>b. if first_block \<le> b \<and> b \<le> last_block then amms_of_events tokens events b else amms_at cache b)"
    using one [OF assms(1)] by blast
  obtain c'' where c'': "replace_events tokens events first_block last_block c' = (Ok (), c'')"
    "amms_at c'' = (\<lambda>b. if first_block \<le> b \<and> b \<le> last_block then amms_of_events tokens events b else amms_at c' b)"
    using one [OF c'(2)] by blast
  have "amms_at c'' = amms_at c'"
    using c''(2) c'(3) by (simp add: fun_eq_iff)
  then show ?thesis
    using c'(1,2) c''(1) fun_cong [OF c'(3)] by blast
qed

theorem replace_events_exact_witness:
  "\<exists>cache'. replace_events (\<lambda>_. Some [1, 2]) [\<lparr>ev_block = Some 7, ev_amm = 9\<rparr>] 6 8
       [(5, []), (7, [\<lparr>ca_address = 4, ca_traded_tokens = []\<rparr>])] = (Ok (), cache')
     \<and> amms_at cache' 7 = [\<lparr>ca_address = 9, ca_traded_tokens = [1, 2]\<rparr>]"
  using replace_events_exact [of "[(5, []), (7, [\<lparr>ca_address = 4, ca_traded_tokens = []\<rparr>])]" "\<lambda>_. Some [1, 2]"
      "[\<lparr>ev_block = Some 7, ev_amm = 9\<rparr>]" 6 8]
  by (auto simp: bt_ok_def event_ok_def amms_of_events_def)

lemma storage_amms_remove: "storage_amms (remove_amms addresses s) = filter (\<lambda>amm. ca_address amm \<notin> set addresses) (storage_amms s)"
proof -
  have "concat (map snd (map (\<lambda>(b, amms). (b, filter P amms)) xs)) = filter P (concat (map snd xs))" for P and xs :: amm_cache
    by (induction xs) auto
  then show ?thesis
    by (simp add: storage_amms_def remove_amms_def)
qed

lemma registry_amms_remove:
  "registry_amms (map (remove_amms addresses) ss) = filter (\<lambda>amm. ca_address amm \<notin> set addresses) (registry_amms ss)"
  by (induction ss) (auto simp: registry_amms_def storage_amms_remove)

definition pool_is_empty :: "(h160 \<Rightarrow> h160 \<Rightarrow> u256 option) \<Rightarrow> cow_amm \<Rightarrow> bool" where
  "pool_is_empty balance_of amm \<longleftrightarrow> (\<exists>token \<in> set (ca_traded_tokens amm). balance_of token (ca_address amm) = Some 0)"

lemma checked_pools:
  assumes "list_all (\<lambda>amm. ca_traded_tokens amm \<noteq> []) amms"
  shows "omap (\<lambda>amm. obind (has_zero_balance balance_of amm) (\<lambda>empty. Ok (if empty then Some (ca_address amm) else None))) amms
     = (Ok (map (\<lambda>amm. if pool_is_empty balance_of amm then Some (ca_address amm) else None) amms) :: ('e, _) outcome)"
  using assms by (induction amms) (auto simp: has_zero_balance_def pool_is_empty_def list_ex_iff)

lemma checked_pools_Panic:
  assumes "\<exists>amm \<in> set amms. ca_traded_tokens amm = []"
  shows "omap (\<lambda>amm. obind (has_zero_balance balance_of amm) (\<lambda>empty. Ok (if empty then Some (ca_address amm) else None))) amms
     = Panic"
  using assms
proof (induction amms)
  case (Cons a amms)
  then show ?case
    by (cases "ca_traded_tokens a = []") (simp_all add: has_zero_balance_def)
qed simp

text \<open>
  The maintenance of the pools: a pool without any token makes it panic. Otherwise it removes exactly the pools one of whose
  tokens has no balance, and the pools that share an address with one; a failing balance call never removes a pool.
\<close>

theorem run_maintenance_exact:
  shows "case run_maintenance balance_of storages of
      Ok storages' \<Rightarrow>
        (\<forall>amm \<in> set (registry_amms storages). ca_traded_tokens amm \<noteq> [])
        \<and> registry_amms storages' =
            filter (\<lambda>amm. \<not> (\<exists>amm' \<in> set (registry_amms storages). ca_address amm' = ca_address amm \<and> pool_is_empty balance_of amm'))
              (registry_amms storages)
    | Err (e :: unit) \<Rightarrow> False
    | Panic \<Rightarrow> \<exists>amm \<in> set (registry_amms storages). ca_traded_tokens amm = []"
proof (cases "list_all (\<lambda>amm. ca_traded_tokens amm \<noteq> []) (registry_amms storages)")
  case True
  let ?amms = "registry_amms storages"
  let ?empty = "List.map_filter (\<lambda>c. c) (map (\<lambda>amm. if pool_is_empty balance_of amm then Some (ca_address amm) else None) ?amms)"
  have e: "a \<in> set ?empty \<longleftrightarrow> (\<exists>amm' \<in> set ?amms. ca_address amm' = a \<and> pool_is_empty balance_of amm')" for a
    by (force simp: List.map_filter_def)
  have "registry_amms (if ?empty \<noteq> [] then map (remove_amms ?empty) storages else storages) =
      filter (\<lambda>amm. ca_address amm \<notin> set ?empty) ?amms"
    by (simp add: registry_amms_remove)
  then show ?thesis
    unfolding run_maintenance_def Let_def checked_pools [OF True]
    using True by (simp add: e list_all_iff)
next
  case False
  then have "\<exists>amm \<in> set (registry_amms storages). ca_traded_tokens amm = []"
    by (auto simp: list_all_iff)
  then show ?thesis
    by (simp add: run_maintenance_def Let_def checked_pools_Panic)
qed

theorem run_maintenance_exact_witness:
  "\<exists>storages'. run_maintenance (\<lambda>token amm. if amm = 8 then Some 0 else Some 5)
       [\<lparr>st_cache = [(1, [\<lparr>ca_address = 8, ca_traded_tokens = [1, 2]\<rparr>, \<lparr>ca_address = 9, ca_traded_tokens = [1, 2]\<rparr>])],
         st_start_of_index = 0\<rparr>] = (Ok storages' :: (unit, _) outcome)
     \<and> registry_amms storages' = [\<lparr>ca_address = 9, ca_traded_tokens = [1, 2]\<rparr>]"
proof -
  let ?bal = "\<lambda>token amm :: h160. if amm = 8 then Some 0 else Some (5 :: u256)"
  let ?ss = "[\<lparr>st_cache = [(1, [\<lparr>ca_address = 8, ca_traded_tokens = [1, 2]\<rparr>, \<lparr>ca_address = 9, ca_traded_tokens = [1, 2]\<rparr>])],
     st_start_of_index = 0\<rparr>]"
  have amms: "registry_amms ?ss = [\<lparr>ca_address = 8, ca_traded_tokens = [1, 2]\<rparr>, \<lparr>ca_address = 9, ca_traded_tokens = [1, 2]\<rparr>]"
    by (simp add: registry_amms_def storage_amms_def)
  obtain ss' where run: "run_maintenance ?bal ?ss = (Ok ss' :: (unit, _) outcome)"
    by (simp add: run_maintenance_def amms has_zero_balance_def Let_def)
  from run_maintenance_exact [where balance_of = ?bal and storages = ?ss] have "registry_amms ss' = [\<lparr>ca_address = 9, ca_traded_tokens = [1, 2]\<rparr>]"
    unfolding run amms by (auto simp: pool_is_empty_def split: if_splits)
  with run show ?thesis
    by blast
qed

end
