(* ===== verification/Driver_Auction.thy ===== *)
theory Driver_Auction
  imports Driver_Order Cow_Amms Stable_Sort "HOL-Library.Sublist"
begin

text \<open>
  The auctions of the driver, \<open>crates/driver/src/domain/competition/auction.rs\<close>: prices and tokens, the
  construction of an auction, and its preprocessing by the \<open>AuctionProcessor\<close> (CoW AMM orders, sorting
  by likelihood of fulfillment, fetching of balances and their allocation to orders).

  Prices, balances and tokens are \<open>HashMap\<close>s, hence partial functions. The contract calls (traded tokens and
  template orders of the CoW AMMs, tradable balances) are parameters.
\<close>

section \<open>Prices and tokens of an auction\<close>

text \<open>A price is the number of wei for \<open>10 ^ 18\<close> units of a token; the operators panic on overflow.\<close>

type_synonym price = u256
type_synonym prices = "h160 \<Rightarrow> price option"

definition PRICE_BASE :: u256 where
  "PRICE_BASE = 1000000000000000000"

datatype invalid_price = InvalidPrice

definition price_new :: "u256 \<Rightarrow> (invalid_price, price) outcome" where
  "price_new value = (if value = 0 then Err InvalidPrice else Ok value)"

definition in_eth :: "price \<Rightarrow> u256 \<Rightarrow> ('e, u256) outcome" where
  "in_eth price amount = obind (mul_p amount price) (\<lambda>p. div_p p PRICE_BASE)"

definition from_eth :: "price \<Rightarrow> u256 \<Rightarrow> ('e, u256) outcome" where
  "from_eth price amount = obind (mul_p amount PRICE_BASE) (\<lambda>p. div_p p price)"

record token =
  tk_decimals :: "8 word option"
  tk_symbol :: "string option"
  tk_address :: h160
  tk_price :: "price option"
  tk_available_balance :: u256
  tk_trusted :: bool

type_synonym tokens = "h160 \<Rightarrow> token option"

definition tokens_get :: "tokens \<Rightarrow> h160 \<Rightarrow> token" where
  "tokens_get tokens address =
     (case tokens address of
        Some t \<Rightarrow> t
      | None \<Rightarrow> \<lparr> tk_decimals = None, tk_symbol = None, tk_address = address, tk_price = None,
                  tk_available_balance = 0, tk_trusted = False \<rparr>)"

definition auction_prices :: "tokens \<Rightarrow> prices" where
  "auction_prices tokens =
     (\<lambda>t. case tokens t of Some token \<Rightarrow> tk_price token | None \<Rightarrow> None)(ETH_TOKEN \<mapsto> PRICE_BASE)"

definition likelihood :: "'f d_order \<Rightarrow> tokens \<Rightarrow> ('e, rat) outcome" where
  "likelihood ord tokens =
     (case (tk_price (tokens_get tokens (as_token (do_buy ord))), tk_price (tokens_get tokens (as_token (do_sell ord)))) of
        (Some buy_price, Some sell_price) \<Rightarrow>
          obind (in_eth buy_price (as_amount (do_buy ord))) (\<lambda>buy.
          obind (in_eth sell_price (as_amount (do_sell ord))) (\<lambda>sell.
          Ok (if buy = 0 then 0 else u256_to_big_rational sell / u256_to_big_rational buy)))
      | _ \<Rightarrow> Ok 0)"

section \<open>Auctions\<close>

datatype auction_error = InvalidTokens | InvalidAmounts | BlockchainError

record 'f auction =
  au_id :: "int option"
  au_orders :: "'f d_order list"
  au_tokens :: tokens
  au_gas_price :: u256
  au_deadline :: int
  au_owners :: "h160 set"

definition auction_new ::
  "int option \<Rightarrow> 'f d_order list \<Rightarrow> token list \<Rightarrow> h160 \<Rightarrow> int \<Rightarrow> (auction_error, u256) outcome \<Rightarrow> h160 set
     \<Rightarrow> (auction_error, 'f auction) outcome" where
  "auction_new auction_id orders token_list weth deadline gas_price owners =
     (let tokens = foldl (\<lambda>m t. m(tk_address t \<mapsto> t)) Map.empty token_list
      in if \<not> list_all (\<lambda>ord. tokens (wrap weth (as_token (do_buy ord))) \<noteq> None \<and> tokens (as_token (do_sell ord)) \<noteq> None) orders
         then Err InvalidTokens
         else if list_ex (\<lambda>ord. available_is_zero (available ord)) orders then Err InvalidAmounts
         else obind gas_price (\<lambda>g.
              Ok \<lparr> au_id = auction_id, au_orders = orders, au_tokens = tokens, au_gas_price = g,
                   au_deadline = deadline, au_owners = owners \<rparr>))"

text \<open>The token pairs the liquidity of the auction is fetched for; \<open>TokenPair::new\<close> of the driver.\<close>

datatype invalid_token_pair = InvalidTokenPair

definition d_token_pair_new :: "h160 \<Rightarrow> h160 \<Rightarrow> (invalid_token_pair, token_pair) outcome" where
  "d_token_pair_new a b =
     (if a < b then Ok (TokenPair a b) else if a = b then Err InvalidTokenPair else Ok (TokenPair b a))"

definition liquidity_pair :: "'f d_order \<Rightarrow> token_pair option" where
  "liquidity_pair ord =
     (case do_kind ord of
        KindLiquidity \<Rightarrow> None
      | _ \<Rightarrow> (case d_token_pair_new (as_token (do_sell ord)) (as_token (do_buy ord)) of Ok p \<Rightarrow> Some p | _ \<Rightarrow> None))"

definition liquidity_pairs :: "'f auction \<Rightarrow> token_pair set" where
  "liquidity_pairs auction = set (List.map_filter liquidity_pair (au_orders auction))"

section \<open>Sorting\<close>

text \<open>
  \<open>sort_by_cached_key\<close> leaves a slice of fewer than two elements alone, computes the keys from left to
  right and is stable. A larger key comes first.
\<close>

definition kind_class :: "d_kind \<Rightarrow> nat" where
  "kind_class k = (case k of KindMarket \<Rightarrow> 2 | KindLimit \<Rightarrow> 1 | KindLiquidity \<Rightarrow> 0)"

definition order_key :: "tokens \<Rightarrow> 'f d_order \<Rightarrow> ('e, nat \<times> rat) outcome" where
  "order_key tokens ord = obind (likelihood ord tokens) (\<lambda>l. Ok (kind_class (do_kind ord), l))"

definition keyed :: "('a \<Rightarrow> ('e, 'k) outcome) \<Rightarrow> 'a list \<Rightarrow> ('e, ('k \<times> 'a) list) outcome" where
  "keyed f xs = omap (\<lambda>x. obind (f x) (\<lambda>k. Ok (k, x))) xs"

definition key_before :: "nat \<times> rat \<Rightarrow> nat \<times> rat \<Rightarrow> bool" where
  "key_before a b \<longleftrightarrow> fst b < fst a \<or> fst a = fst b \<and> snd b \<le> snd a"

definition sort_orders :: "tokens \<Rightarrow> 'f d_order list \<Rightarrow> ('e, 'f d_order list) outcome" where
  "sort_orders tokens orders =
     (if length orders < 2 then Ok orders
      else obind (keyed (order_key tokens) orders) (\<lambda>ks. Ok (map snd (sort_by (\<lambda>a b. key_before (fst a) (fst b)) ks))))"

section \<open>Allocation of balances\<close>

text \<open>
  The allocation of balances: one order at a time, with the balances threaded through. \<open>None\<close> is an order
  that is left out.
\<close>

type_synonym balance_key = "h160 \<times> h160 \<times> sell_token_balance"
type_synonym balances = "balance_key \<Rightarrow> u256 option"

definition balance_group :: "'f d_order \<Rightarrow> balance_key" where
  "balance_group ord = (trader ord, as_token (do_sell ord), do_sell_token_balance ord)"

definition allocated_balance :: "'f d_order \<Rightarrow> u256 \<Rightarrow> u256" where
  "allocated_balance ord remaining_balance =
     (let max_sell = as_amount (av_sell (available ord))
      in case do_partial ord of
           PartialYes _ \<Rightarrow> min max_sell remaining_balance
         | PartialNo \<Rightarrow> if max_sell \<le> remaining_balance then max_sell else 0)"

definition scale_available :: "'f d_order \<Rightarrow> u256 \<Rightarrow> 'f d_order" where
  "scale_available ord allocated =
     (case do_partial ord of
        PartialYes a \<Rightarrow>
          ord\<lparr>do_partial := PartialYes (unwrap_or_default (mul_ratio a allocated (as_amount (av_sell (available ord)))))\<rparr>
      | PartialNo \<Rightarrow> ord)"

definition filter_order :: "balances \<Rightarrow> 'f d_order \<Rightarrow> ('e, 'f d_order option \<times> balances) outcome" where
  "filter_order balances ord =
     (case balances (balance_group ord) of
        None \<Rightarrow> Ok (None, balances)
      | Some remaining_balance \<Rightarrow>
          let allocated = allocated_balance ord remaining_balance
          in if allocated = 0 then Ok (None, balances)
             else let ord' = scale_available ord allocated
                  in if available_is_zero (available ord') then Ok (None, balances)
                     else obind (sub_p remaining_balance allocated) (\<lambda>rest.
                          Ok (Some ord', balances(balance_group ord \<mapsto> rest))))"

fun filter_orders :: "balances \<Rightarrow> 'f d_order list \<Rightarrow> ('e, 'f d_order list \<times> balances) outcome" where
  "filter_orders balances [] = Ok ([], balances)"
| "filter_orders balances (ord # ords) =
     obind (filter_order balances ord) (\<lambda>(kept, balances).
     obind (filter_orders balances ords) (\<lambda>(rest, balances).
     Ok (case kept of Some ord' \<Rightarrow> ord' # rest | None \<Rightarrow> rest, balances)))"

section \<open>Preprocessing\<close>

text \<open>\<open>fetch_balances\<close>. \<open>Itertools::group_by\<close> groups consecutive elements with the same key.\<close>

fun group_consecutive :: "('a \<Rightarrow> 'k) \<Rightarrow> 'a list \<Rightarrow> ('k \<times> 'a list) list" where
  "group_consecutive key [] = []"
| "group_consecutive key (x # xs) =
     (case group_consecutive key xs of
        [] \<Rightarrow> [(key x, [x])]
      | (k, ys) # groups \<Rightarrow> if key x = k then (k, x # ys) # groups else (key x, [x]) # (k, ys) # groups)"

definition group_interactions :: "'f d_order list \<Rightarrow> d_interaction list" where
  "group_interactions orders =
     (case orders of
        [] \<Rightarrow> []
      | first # others \<Rightarrow>
          if list_all (\<lambda>ord. do_pre_interactions ord = do_pre_interactions first) others
          then do_pre_interactions first else [])"

definition fetch_balances ::
  "(balance_key \<Rightarrow> d_interaction list \<Rightarrow> u256 option) \<Rightarrow> 'f d_order list \<Rightarrow> balances" where
  "fetch_balances tradable_balance orders =
     foldl (\<lambda>m (key, balance). case balance of Some b \<Rightarrow> m(key \<mapsto> b) | None \<Rightarrow> m) Map.empty
       (map (\<lambda>(key, group). (key, tradable_balance key (group_interactions group)))
         (group_consecutive balance_group orders))"

text \<open>The orders of the CoW AMMs the auction names, from the template orders their helper contracts return.\<close>

definition d_interaction_of :: "interaction_data \<Rightarrow> d_interaction" where
  "d_interaction_of i = \<lparr> di_target = int_target i, di_value = int_value i, di_call_data = int_call_data i \<rparr>"

definition cow_amm_order ::
  "(bytes \<Rightarrow> h256) \<Rightarrow> h256 \<Rightarrow> h160 \<Rightarrow> template_order \<Rightarrow> ('e, 'f d_order option) outcome" where
  "cow_amm_order keccak domain_separator amm template =
     (let d = tm_order template
      in obind (order_data_uid keccak d domain_separator amm) (\<lambda>uid.
         case tm_signature template of
           Eip1271 bytes \<Rightarrow>
             Ok (Some
               \<lparr> do_uid = uid, do_receiver = od_receiver d, do_valid_to = od_valid_to d,
                 do_buy = \<lparr> as_amount = od_buy_amount d, as_token = od_buy_token d \<rparr>,
                 do_sell = \<lparr> as_amount = od_sell_amount d, as_token = od_sell_token d \<rparr>,
                 do_side = side_of_order_kind (od_kind d), do_kind = KindLimit, do_app_data = od_app_data d,
                 do_partial = (if od_partially_fillable d
                               then PartialYes (case od_kind d of Sell \<Rightarrow> od_sell_amount d | Buy \<Rightarrow> od_buy_amount d)
                               else PartialNo),
                 do_pre_interactions = map d_interaction_of (tm_pre_interactions template),
                 do_post_interactions = map d_interaction_of (tm_post_interactions template),
                 do_sell_token_balance = sell_balance_of_source (od_sell_token_balance d),
                 do_buy_token_balance = buy_balance_of_destination (od_buy_token_balance d),
                 do_signature = \<lparr> ds_scheme = SchemeEip1271, ds_data = bytes, ds_signer = amm \<rparr>,
                 do_protocol_fees = [] \<rparr>)
         | _ \<Rightarrow> Ok None))"

definition amm_prices :: "tokens \<Rightarrow> cow_amm \<Rightarrow> u256 list option" where
  "amm_prices tokens amm =
     (let prices = map (\<lambda>t. tk_price (tokens_get tokens t)) (ca_traded_tokens amm)
      in if list_all (\<lambda>p. p \<noteq> None) prices then Some (map the prices) else None)"

fun collect_orders :: "('e, 'a option) outcome list \<Rightarrow> ('e, 'a list) outcome" where
  "collect_orders [] = Ok []"
| "collect_orders (r # rs) =
     obind r (\<lambda>x. obind (collect_orders rs) (\<lambda>xs. Ok (case x of Some y \<Rightarrow> y # xs | None \<Rightarrow> xs)))"

definition cow_amm_orders ::
  "(bytes \<Rightarrow> h256) \<Rightarrow> h256 \<Rightarrow> cow_amm list \<Rightarrow> (cow_amm \<Rightarrow> u256 list \<Rightarrow> template_order option)
     \<Rightarrow> tokens \<Rightarrow> h160 set \<Rightarrow> ('e, 'f d_order list) outcome" where
  "cow_amm_orders keccak domain_separator cow_amms template tokens eligible_for_surplus =
     (let amms = filter (\<lambda>amm. ca_address amm \<in> eligible_for_surplus) cow_amms;
          priced = List.map_filter (\<lambda>amm. map_option (\<lambda>prices. (amm, prices)) (amm_prices tokens amm)) amms;
          results = map (\<lambda>(amm, prices). (ca_address amm, template amm prices)) priced
      in collect_orders (map (\<lambda>(amm, result).
           case result of Some t \<Rightarrow> cow_amm_order keccak domain_separator amm t | None \<Rightarrow> Ok None) results))"

text \<open>
  \<open>AuctionProcessor\<close>: the last auction and the task that prioritizes its orders. \<open>None\<close> is the future that never
  resolves, which a new processor holds; a task that panicked makes every waiter panic.
\<close>

type_synonym ('e, 'f) task = "('e, 'f d_order list) outcome option"

record ('e, 'f) processor =
  pr_auction :: int
  pr_fut :: "('e, 'f) task"

definition processor_new :: "('e, 'f) processor" where
  "processor_new = \<lparr> pr_auction = 0, pr_fut = None \<rparr>"

definition prioritize_task ::
  "(tokens \<Rightarrow> h160 set \<Rightarrow> ('e, 'f d_order list) outcome) \<Rightarrow> (balance_key \<Rightarrow> d_interaction list \<Rightarrow> u256 option)
     \<Rightarrow> 'f auction \<Rightarrow> ('e, 'f d_order list) outcome" where
  "prioritize_task cow_amms tradable_balance auction =
     obind (cow_amms (au_tokens auction) (au_owners auction)) (\<lambda>amm_orders.
     obind (sort_orders (au_tokens auction) (au_orders auction @ amm_orders)) (\<lambda>orders.
     obind (filter_orders (fetch_balances tradable_balance orders) orders) (\<lambda>(kept, balances).
     Ok kept)))"

definition prioritize_orders ::
  "(tokens \<Rightarrow> h160 set \<Rightarrow> ('e, 'f d_order list) outcome) \<Rightarrow> (balance_key \<Rightarrow> d_interaction list \<Rightarrow> u256 option)
     \<Rightarrow> ('e, 'f) processor \<Rightarrow> 'f auction \<Rightarrow> ('x, ('e, 'f) task \<times> ('e, 'f) processor) outcome" where
  "prioritize_orders cow_amms tradable_balance processor auction =
     obind (expect (au_id auction)) (\<lambda>new_id.
     if pr_auction processor = new_id then Ok (pr_fut processor, processor)
     else let fut = Some (prioritize_task cow_amms tradable_balance auction)
          in Ok (fut, \<lparr> pr_auction = new_id, pr_fut = fut \<rparr>))"

section \<open>Allocation of balances: lemmas\<close>

abbreviation sells :: "'f d_order \<Rightarrow> nat" where
  "sells ord \<equiv> unat (as_amount (av_sell (available ord)))"

lemma mul_ratio_defined: "0 < unat d \<Longrightarrow> unat q \<le> unat d \<Longrightarrow> \<exists>r. mul_ratio x q d = Some r"
proof -
  assume d: "0 < unat d" and q: "unat q \<le> unat d"
  have "unat x * unat q div unat d \<le> unat x * unat d div unat d"
    using q by (intro div_le_mono) simp
  also have "\<dots> = unat x" using d by simp
  finally have "unat x * unat q div unat d < 2 ^ 256"
    using unat_bound [of x] by simp
  then show ?thesis
    using d by (simp add: mul_ratio_def Let_def unat_gt_0)
qed

text \<open>Scaling down the available amount never frees more than what was allocated, whatever the rounding.\<close>

lemma scaled_ratio_le:
  fixes S T a a' M alloc :: nat
  assumes "0 < T" "M = S * a div T" "0 < alloc" "alloc \<le> M" "a' = a * alloc div M"
  shows "S * a' div T \<le> alloc"
proof -
  have M: "0 < M" using assms by simp
  have "a' * M \<le> a * alloc"
    using div_mult_mod_eq [of "a * alloc" M] by (simp add: assms(5))
  then have "S * (a' * M) \<le> S * (a * alloc)" by (rule mult_le_mono2)
  also have "\<dots> = S * a * alloc" by simp
  also have "S * a < T * (M + 1)"
    using assms(1) dividend_less_div_times [of T "S * a"] by (simp add: assms(2) algebra_simps)
  then have "S * a * alloc < T * (M + 1) * alloc"
    using assms(3) by (rule mult_strict_right_mono)
  also have "\<dots> \<le> T * (M * (alloc + 1))"
    using assms(4) by (simp add: algebra_simps)
  finally have "M * (S * a') < M * (T * (alloc + 1))"
    by (simp only: ac_simps)
  then have "S * a' < (alloc + 1) * T"
    using M by (simp only: mult_less_cancel1 ac_simps)
  then have "S * a' div T < alloc + 1"
    using assms(1) by (simp only: div_less_iff_less_mult)
  then show ?thesis by simp
qed

lemma allocated_le:
  assumes "allocated_balance ord b \<noteq> 0"
  shows "unat (allocated_balance ord b) \<le> sells ord" "unat (allocated_balance ord b) \<le> unat b"
  using assms by (auto simp: allocated_balance_def Let_def min_def word_le_nat_alt split: partial.splits if_splits)

lemma scale_available_simps [simp]:
  "do_sell (scale_available ord x) = do_sell ord" "do_buy (scale_available ord x) = do_buy ord"
  "target (scale_available ord x) = target ord" "balance_group (scale_available ord x) = balance_group ord"
  by (simp_all add: scale_available_def target_def balance_group_def trader_def split: partial.split side.split)

lemma scale_available_sells:
  assumes "allocated_balance ord b \<noteq> 0"
  shows "sells (scale_available ord (allocated_balance ord b)) \<le> unat (allocated_balance ord b)"
proof (cases "do_partial ord")
  case PartialNo
  then show ?thesis
    using assms by (auto simp: scale_available_def allocated_balance_def Let_def split: if_splits)
next
  case (PartialYes a)
  let ?S = "as_amount (do_sell ord)" and ?T = "target ord" and ?alloc = "allocated_balance ord b"
  let ?M = "as_amount (av_sell (available ord))"
  have alloc: "0 < unat ?alloc" "unat ?alloc \<le> unat ?M"
    using assms allocated_le(1) [OF assms] by (simp_all add: unat_gt_0)
  then have "?M \<noteq> 0" by (auto simp: word_unat_eq_iff)
  then have "mul_ratio ?S a ?T = Some ?M"
    using PartialYes by (auto simp: available_def intro: unwrap_or_default_nonzero)
  then have T: "0 < unat ?T" and M: "unat ?M = unat ?S * unat a div unat ?T"
    by (auto simp: mul_ratio_Some)
  from alloc have "0 < unat ?M" by linarith
  then obtain a' where a': "mul_ratio a ?alloc ?M = Some a'"
    using alloc(2) mul_ratio_defined by blast
  then have a'_eq: "unat a' = unat a * unat ?alloc div unat ?M"
    by (simp add: mul_ratio_Some)
  have scaled: "do_partial (scale_available ord ?alloc) = PartialYes a'"
    using PartialYes a' by (simp add: scale_available_def unwrap_or_default_def)
  have "unat (unwrap_or_default (mul_ratio ?S a' ?T)) \<le> unat ?alloc"
  proof (cases "mul_ratio ?S a' ?T")
    case (Some r)
    then have "unat r = unat ?S * unat a' div unat ?T"
      by (simp add: mul_ratio_Some)
    then show ?thesis
      using scaled_ratio_le [OF T M alloc a'_eq] by (simp add: Some unwrap_or_default_def)
  qed (simp add: unwrap_or_default_def)
  then show ?thesis
    using scaled by (simp add: available_def)
qed

text \<open>What a balance can still pay, and what a list of orders of one group sells.\<close>

definition balance_of :: "balances \<Rightarrow> balance_key \<Rightarrow> nat" where
  "balance_of balances g = (case balances g of Some b \<Rightarrow> unat b | None \<Rightarrow> 0)"

definition group_sells :: "balance_key \<Rightarrow> 'f d_order list \<Rightarrow> nat" where
  "group_sells g orders = sum_list (map sells (filter (\<lambda>ord. balance_group ord = g) orders))"

lemma filter_order_cases:
  "filter_order balances ord = (Ok (None, balances) :: ('e, _) outcome)
   \<or> (\<exists>b allocated rest. balances (balance_group ord) = Some b \<and> unat b = unat allocated + unat rest
        \<and> allocated = allocated_balance ord b \<and> allocated \<noteq> 0
        \<and> \<not> available_is_zero (available (scale_available ord allocated))
        \<and> filter_order balances ord
            = (Ok (Some (scale_available ord allocated), balances(balance_group ord \<mapsto> rest)) :: ('e, _) outcome))"
proof (cases "balances (balance_group ord)")
  case (Some b)
  let ?alloc = "allocated_balance ord b"
  show ?thesis
  proof (cases "?alloc = 0 \<or> available_is_zero (available (scale_available ord ?alloc))")
    case False
    then have "unat ?alloc \<le> unat b"
      using allocated_le(2) by blast
    then obtain rest where rest: "checked_sub b ?alloc = Some rest"
      by (auto simp: checked_sub_def)
    then have "unat b = unat ?alloc + unat rest"
      by (simp add: checked_sub_Some)
    with Some False rest show ?thesis
      by (auto simp: filter_order_def Let_def sub_p_def)
  qed (use Some in \<open>auto simp: filter_order_def Let_def\<close>)
qed (simp add: filter_order_def)

definition allocates :: "balances \<Rightarrow> 'f d_order list \<times> balances \<Rightarrow> bool" where
  "allocates balances r \<longleftrightarrow>
     (\<forall>g. group_sells g (fst r) + balance_of (snd r) g \<le> balance_of balances g)
     \<and> list_all (\<lambda>ord. \<not> available_is_zero (available ord)) (fst r)"

lemma allocates_Cons:
  assumes "allocates (balances(balance_group ord \<mapsto> rest)) (os, balances')"
    and "balances (balance_group ord) = Some b" "unat b = unat allocated + unat rest"
    and "allocated = allocated_balance ord b" "allocated \<noteq> 0"
    and "\<not> available_is_zero (available (scale_available ord allocated))"
  shows "allocates balances (scale_available ord allocated # os, balances')"
proof -
  have le: "sells (scale_available ord allocated) \<le> unat allocated"
    using scale_available_sells assms(4,5) by blast
  have tail: "group_sells g os + balance_of balances' g \<le> balance_of (balances(balance_group ord \<mapsto> rest)) g" for g
    using assms(1) by (simp only: allocates_def fst_conv snd_conv)
  have "group_sells g (scale_available ord allocated # os) + balance_of balances' g \<le> balance_of balances g" for g
    using le tail [of g] assms(2,3)
    by (cases "balance_group ord = g") (auto simp: group_sells_def balance_of_def)
  then show ?thesis
    using assms(1,6) by (simp add: allocates_def)
qed

lemma filter_orders_allocates: "returns (allocates balances) (filter_orders balances orders :: ('e, _) outcome)"
proof (induction orders arbitrary: balances)
  case Nil
  show ?case by (simp add: wp allocates_def group_sells_def)
next
  case (Cons ord orders)
  consider (out) "filter_order balances ord = (Ok (None, balances) :: ('e, _) outcome)"
    | (kept) b allocated rest where "balances (balance_group ord) = Some b" "unat b = unat allocated + unat rest"
        "allocated = allocated_balance ord b" "allocated \<noteq> 0"
        "\<not> available_is_zero (available (scale_available ord allocated))"
        "filter_order balances ord
            = (Ok (Some (scale_available ord allocated), balances(balance_group ord \<mapsto> rest)) :: ('e, _) outcome)"
    using filter_order_cases [where 'e = 'e, of balances ord] by blast
  then show ?case
  proof cases
    case out
    then show ?thesis
      using Cons.IH [of balances] by (auto simp: wp elim!: returns_mono)
  next
    case kept
    then show ?thesis
      using Cons.IH [of "balances(balance_group ord \<mapsto> rest)"] allocates_Cons [where balances = balances, OF _ kept(1-5)]
      by (auto simp: wp simp del: fun_upd_apply elim!: returns_mono)
  qed
qed

section \<open>Sorting: lemmas\<close>

lemma keyed_Ok: "keyed f xs = Ok ks \<longleftrightarrow> map snd ks = xs \<and> list_all (\<lambda>(k, x). f x = Ok k) ks"
  unfolding keyed_def omap_Ok
proof (induction xs arbitrary: ks)
  case (Cons x xs)
  then show ?case
    by (cases ks) (auto simp: outc)
qed auto

interpretation key_order: total_preorder "\<lambda>a b. key_before (fst a) (fst b)"
  by unfold_locales (auto simp: key_before_def)

lemma in_eth_cases:
  "in_eth price amount = (Panic :: ('e, _) outcome) \<and> 2 ^ 256 \<le> unat amount * unat price
   \<or> (\<exists>x. in_eth price amount = (Ok x :: ('e, _) outcome) \<and> unat x = unat amount * unat price div 10 ^ 18)"
proof (cases "checked_mul amount price")
  case None
  then have "2 ^ 256 \<le> unat amount * unat price"
    by (simp add: checked_mul_None)
  then show ?thesis
    by (simp add: None in_eth_def mul_p_def)
next
  case (Some p)
  then have "unat p = unat amount * unat price"
    by (simp add: checked_mul_Some)
  then show ?thesis
    by (simp add: Some in_eth_def mul_p_def div_p_def checked_div_def PRICE_BASE_def unat_div)
qed

lemma order_key_not_Err [simp]: "order_key tokens ord \<noteq> Err e"
  by (auto simp: order_key_def likelihood_def in_eth_def outc split: option.splits)

lemma keyed_not_Err: "(\<And>x. f x \<noteq> Err e) \<Longrightarrow> keyed f xs \<noteq> Err e"
  by (auto simp: keyed_def outc dest!: omap_Err)

lemma keyed_Panic: "keyed f xs = (Panic :: ('e, _) outcome) \<Longrightarrow> \<exists>x. x \<in> set xs \<and> f x = Panic"
  by (auto simp: keyed_def outc dest!: omap_Panic)

text \<open>An order whose value in the native token does not fit 256 bits.\<close>

definition value_overflows :: "tokens \<Rightarrow> asset \<Rightarrow> bool" where
  "value_overflows tokens a \<longleftrightarrow>
     (case tk_price (tokens_get tokens (as_token a)) of
        Some price \<Rightarrow> 2 ^ 256 \<le> unat (as_amount a) * unat price
      | None \<Rightarrow> False)"

lemma order_key_Panic:
  "order_key tokens ord = (Panic :: ('e, _) outcome) \<Longrightarrow>
     value_overflows tokens (do_buy ord) \<or> value_overflows tokens (do_sell ord)"
  using in_eth_cases [where 'e = 'e]
  by (auto simp: order_key_def likelihood_def value_overflows_def outc split: option.splits) fastforce+

lemma erase_scale [simp]: "(scale_available ord x)\<lparr>do_partial := p\<rparr> = ord\<lparr>do_partial := p\<rparr>"
  by (simp add: scale_available_def split: partial.split)

lemma filter_orders_subseq:
  "filter_orders balances orders = (Ok (kept, balances') :: ('e, _) outcome) \<Longrightarrow>
     subseq (map (do_partial_update (\<lambda>_. PartialNo)) kept) (map (do_partial_update (\<lambda>_. PartialNo)) orders)"
proof (induction orders arbitrary: balances kept)
  case (Cons ord orders)
  then obtain k bal rest where "filter_order balances ord = (Ok (k, bal) :: ('e, _) outcome)"
    and rest: "filter_orders bal orders = (Ok (rest, balances') :: ('e, _) outcome)"
    and kept: "kept = (case k of Some ord' \<Rightarrow> ord' # rest | None \<Rightarrow> rest)"
    by (auto simp: outc)
  then have "k = None \<or> (\<exists>x. k = Some (scale_available ord x))"
    by (auto simp: filter_order_def Let_def outc split: option.splits if_splits)
  then show ?case
    using Cons.IH [OF rest] kept by auto
qed simp

section \<open>Properties\<close>

text \<open>
  C1. The allocation of balances never promises more than a trader has: after \<open>filter_orders\<close>, the orders that
  remain for one owner, sell token and balance source sell together at most the balance of that group, whatever
  the rounding of the scaled amounts; what they sell and what is left of the balance for the next orders add up to at
  most that balance. No order with a zero amount remains, the remaining orders keep their order of priority and differ from the original ones in the available
  amount only, and the subtraction of the allocated balance never panics.
\<close>

theorem filter_orders_within_balances:
  "case filter_orders balances orders :: ('e, _) outcome of
     Ok (kept, balances') \<Rightarrow>
       (\<forall>g. group_sells g kept + balance_of balances' g \<le> balance_of balances g)
       \<and> list_all (\<lambda>ord. \<not> available_is_zero (available ord)) kept
       \<and> subseq (map (do_partial_update (\<lambda>_. PartialNo)) kept) (map (do_partial_update (\<lambda>_. PartialNo)) orders)
   | _ \<Rightarrow> False"
proof -
  obtain kept balances' 
    where r: "filter_orders balances orders = (Ok (kept, balances') :: ('e, _) outcome)" "allocates balances (kept, balances')"
    using filter_orders_allocates [where 'e = 'e, of balances orders] by (auto elim!: returnsE)
  then show ?thesis
    using filter_orders_subseq [OF r(1)] by (simp only: allocates_def fst_conv snd_conv outcome.case prod.case simp_thms)
qed

text \<open>
  Sorting an auction permutes its orders, puts market orders before limit orders before liquidity orders, and
  within a class a likelier order before a less likely one. It fails in one case only: an amount of some order,
  multiplied by the price of its token, does not fit 256 bits, and the conversion to ether panics.
\<close>

theorem sort_orders_sorts:
  "case sort_orders tokens orders :: ('e, _) outcome of
     Ok ords \<Rightarrow> mset ords = mset orders
       \<and> sorted_wrt (\<lambda>a b. key_before (ok_value (order_key tokens a :: ('e, _) outcome)) (ok_value (order_key tokens b :: ('e, _) outcome))) ords
   | Err e \<Rightarrow> False
   | Panic \<Rightarrow> \<exists>ord. ord \<in> set orders \<and> (value_overflows tokens (do_buy ord) \<or> value_overflows tokens (do_sell ord))"
proof (cases "length orders < 2")
  case True
  then have "orders = [] \<or> (\<exists>x. orders = [x])"
    by (cases orders; cases "tl orders") auto
  with True show ?thesis
    by (auto simp: sort_orders_def)
next
  case False
  show ?thesis
  proof (cases "keyed (order_key tokens) orders :: ('e, _) outcome")
    case (Ok ks)
    let ?sorted = "sort_by (\<lambda>a b. key_before (fst a) (fst b)) ks"
    from Ok have ks: "map snd ks = orders" "\<And>k x. (k, x) \<in> set ks \<Longrightarrow> order_key tokens x = (Ok k :: ('e, _) outcome)"
      by (auto simp: keyed_Ok list_all_iff)
    have key: "ok_value (order_key tokens (snd p) :: ('e, _) outcome) = fst p" if "p \<in> set ks" for p
      using ks(2) [of "fst p" "snd p"] that by simp
    have
      "sorted_wrt (\<lambda>a b. key_before (ok_value (order_key tokens (snd a) :: ('e, _) outcome))
          (ok_value (order_key tokens (snd b) :: ('e, _) outcome))) ?sorted"
      by (rule sorted_wrt_mono_rel [OF _ key_order.sorted_sort_by]) (simp add: key)
    moreover have "mset (map snd ?sorted) = mset orders"
      using ks(1) by (metis mset_sort_by mset_map)
    ultimately show ?thesis
      using False Ok by (simp add: sort_orders_def sorted_wrt_map)
  next
    case (Err e)
    then show ?thesis
      using keyed_not_Err [of "order_key tokens" e orders] by simp
  next
    case Panic
    then show ?thesis
      using False keyed_Panic [of "order_key tokens" orders] order_key_Panic by (auto simp: sort_orders_def)
  qed
qed

text \<open>
  The processors that calls of \<open>prioritize_orders\<close> lead to from a new one; the chain state behind the parameters may
  change from call to call.
\<close>

inductive processor_reachable :: "('e, 'f) processor \<Rightarrow> bool" where
  new: "processor_reachable processor_new"
| call: "processor_reachable p \<Longrightarrow>
     prioritize_orders cow_amms tradable_balance p auction = (Ok (fut, p') :: (unit, _) outcome) \<Longrightarrow> processor_reachable p'"

lemma processor_invariant: "processor_reachable p \<Longrightarrow> pr_fut p = None \<longleftrightarrow> p = processor_new"
proof (induction rule: processor_reachable.induct)
  case new
  show ?case by (simp add: processor_new_def)
next
  case (call p cow_amms tradable_balance auction fut p')
  then show ?case
    by (auto simp: prioritize_orders_def outc processor_new_def Let_def split: if_splits)
qed

text \<open>
  C38. A processor started for an auction runs its prioritization once: the task is started unless the last auction has
  the same id, in which case the running task is shared and nothing changes. In every state reached from a new
  processor, waiting for the result never ends in one case only: the first auction has the id 0, which is also the id a
  new processor starts with, so that the caller is given the initial future that never resolves.
\<close>

theorem prioritize_waits_forever_only_at_zero:
  assumes "processor_reachable p" and "au_id auction = Some new_id"
  shows "case prioritize_orders cow_amms tradable_balance p auction of
      Ok (fut, p') \<Rightarrow>
        pr_auction p' = new_id \<and> pr_fut p' = fut
        \<and> (if new_id = pr_auction p then p' = p
           else fut = Some (prioritize_task cow_amms tradable_balance auction))
        \<and> (fut = None \<longleftrightarrow> p = processor_new \<and> new_id = 0)
    | _ \<Rightarrow> False"
  using assms(2) processor_invariant [OF assms(1)]
  by (auto simp: prioritize_orders_def Let_def) (simp_all add: processor_new_def)

definition example_auction :: "int \<Rightarrow> unit auction" where
  "example_auction i =
     \<lparr> au_id = Some i, au_orders = [example_order], au_tokens = Map.empty, au_gas_price = 1, au_deadline = 0, au_owners = {} \<rparr>"

theorem prioritize_waits_forever_only_at_zero_witness:
  "processor_reachable (processor_new :: (unit, unit) processor)
   \<and> prioritize_orders (\<lambda>t owners. Ok []) (\<lambda>g is. Some 50) (processor_new :: (unit, unit) processor) (example_auction 0)
       = (Ok (None, processor_new) :: (unit, _) outcome)"
proof -
  have "au_id (example_auction 0) = Some 0"
    by (simp add: example_auction_def)
  then show ?thesis
    using prioritize_waits_forever_only_at_zero [OF processor_reachable.new, where new_id = 0 and auction = "example_auction 0"
      and cow_amms = "\<lambda>t owners. Ok []" and tradable_balance = "\<lambda>g is. Some 50"]
    by (auto split: outcome.splits if_splits simp: processor_reachable.new) (simp_all add: processor_new_def)
qed

text \<open>
  The balances are not fetched pessimistically: orders of the same group that the sorting has separated are grouped on
  their own, so that the last one decides with its own pre-interactions, although another order of the group has
  different ones.
\<close>

lemma fetch_balances_separated_group:
  assumes "balance_group o1 = g" "balance_group o2 \<noteq> g" "balance_group o3 = g"
    and "tradable_balance g (do_pre_interactions o3) = Some b"
  shows "fetch_balances tradable_balance [o1, o2, o3] g = Some b"
  using assms by (auto simp: fetch_balances_def group_interactions_def split: option.splits)

end
