(* ===== verification/Driver_Trade.thy ===== *)
theory Driver_Trade
  imports Driver_Order
begin

text \<open>
  Trades of a solution, \<open>crates/driver/src/domain/competition/solution/trade.rs\<close>, and the protocol fees the driver
  takes from them, \<open>solution/fee.rs\<close>.

  A factor is an \<open>f64\<close> of the fee policy; \<open>scaled\<close> is the conversion \<open>U256::from_f64_lossy(factor * 1e18)\<close> of
  \<open>apply_factor\<close>.
\<close>

section \<open>Errors\<close>

datatype math_error = MathOverflow | MathDivisionByZero | MathNegative

datatype trade_error = TradeProtocolFeeOnStaticOrder | InvalidExecutedAmount | TradeMath math_error

datatype fee_error = FeeProtocolFeeOnStaticOrder | FeeMath math_error | FeeFulfillment trade_error

text \<open>\<open>x.checked_mul(y)?.checked_div(z)?\<close> and its ceiling variant, with the errors the code maps them to.\<close>

definition mul_div :: "u256 \<Rightarrow> u256 \<Rightarrow> u256 \<Rightarrow> (math_error, u256) outcome" where
  "mul_div x y z =
     obind (ok_or (checked_mul x y) MathOverflow) (\<lambda>p. ok_or (checked_div p z) MathDivisionByZero)"

definition mul_ceil_div :: "u256 \<Rightarrow> u256 \<Rightarrow> u256 \<Rightarrow> (math_error, u256) outcome" where
  "mul_ceil_div x y z =
     obind (ok_or (checked_mul x y) MathOverflow) (\<lambda>p. ok_or (checked_ceil_div p z) MathDivisionByZero)"

section \<open>Fulfillments\<close>

datatype fee = Static | Dynamic u256

record clearing_prices =
  cp_sell :: u256
  cp_buy :: u256

record custom_clearing_prices =
  cc_sell :: u256
  cc_buy :: u256

record 'f fulfillment =
  fu_order :: "'f d_order"
  fu_executed :: u256
  fu_fee :: fee

definition valid_execution :: "'f d_order \<Rightarrow> u256 \<Rightarrow> bool" where
  "valid_execution ord executed_with_fee =
     (case do_partial ord of
        PartialYes a \<Rightarrow> executed_with_fee \<le> a
      | PartialNo \<Rightarrow> executed_with_fee = target ord)"

definition valid_fee :: "'f d_order \<Rightarrow> fee \<Rightarrow> bool" where
  "valid_fee ord fee = (case fee of Static \<Rightarrow> \<not> d_solver_determines_fee ord | Dynamic _ \<Rightarrow> d_solver_determines_fee ord)"

definition fee_in_target :: "'f d_order \<Rightarrow> fee \<Rightarrow> u256" where
  "fee_in_target ord fee =
     (case do_side ord of
        SideBuy \<Rightarrow> 0
      | SideSell \<Rightarrow> (case fee of Static \<Rightarrow> 0 | Dynamic f \<Rightarrow> f))"

definition fulfillment_new :: "'f d_order \<Rightarrow> u256 \<Rightarrow> fee \<Rightarrow> (trade_error, 'f fulfillment) outcome" where
  "fulfillment_new ord executed fee =
     obind (ok_or (checked_add executed (fee_in_target ord fee)) InvalidExecutedAmount) (\<lambda>executed_with_fee.
     if valid_execution ord executed_with_fee \<and> valid_fee ord fee
     then Ok \<lparr> fu_order = ord, fu_executed = executed, fu_fee = fee \<rparr>
     else Err InvalidExecutedAmount)"

definition fulfillment_fee :: "'f fulfillment \<Rightarrow> u256" where
  "fulfillment_fee f = (case fu_fee f of Static \<Rightarrow> 0 | Dynamic fee \<Rightarrow> fee)"

definition surplus_fee :: "'f fulfillment \<Rightarrow> u256 option" where
  "surplus_fee f = (case fu_fee f of Static \<Rightarrow> None | Dynamic fee \<Rightarrow> Some fee)"

definition fu_sell_amount :: "'f fulfillment \<Rightarrow> clearing_prices \<Rightarrow> (math_error, u256) outcome" where
  "fu_sell_amount f prices =
     obind (case do_side (fu_order f) of
              SideSell \<Rightarrow> Ok (fu_executed f)
            | SideBuy \<Rightarrow> mul_div (fu_executed f) (cp_buy prices) (cp_sell prices)) (\<lambda>before_fee.
     ok_or (checked_add before_fee (fulfillment_fee f)) MathOverflow)"

definition fu_buy_amount :: "'f fulfillment \<Rightarrow> clearing_prices \<Rightarrow> (math_error, u256) outcome" where
  "fu_buy_amount f prices =
     (case do_side (fu_order f) of
        SideBuy \<Rightarrow> Ok (fu_executed f)
      | SideSell \<Rightarrow> mul_ceil_div (fu_executed f) (cp_sell prices) (cp_buy prices))"

definition fu_custom_prices :: "'f fulfillment \<Rightarrow> clearing_prices \<Rightarrow> (math_error, custom_clearing_prices) outcome" where
  "fu_custom_prices f prices =
     obind (fu_buy_amount f prices) (\<lambda>sell.
     obind (fu_sell_amount f prices) (\<lambda>buy.
     Ok \<lparr> cc_sell = sell, cc_buy = buy \<rparr>))"

definition surplus_over_reference_price ::
  "'f fulfillment \<Rightarrow> u256 \<Rightarrow> u256 \<Rightarrow> clearing_prices \<Rightarrow> (trade_error, u256) outcome" where
  "surplus_over_reference_price f limit_sell limit_buy prices =
     (let executed = fu_executed f; side = do_side (fu_order f)
      in obind (case side of
                  SideBuy \<Rightarrow> map_err TradeMath (mul_div executed (cp_buy prices) (cp_sell prices))
                | SideSell \<Rightarrow> Ok executed) (\<lambda>executed_sell_amount.
         obind (ok_or (surplus_fee f) TradeProtocolFeeOnStaticOrder) (\<lambda>fee.
         obind (ok_or (checked_add executed_sell_amount fee) (TradeMath MathOverflow)) (\<lambda>executed_sell_amount_with_fee.
         case side of
           SideBuy \<Rightarrow>
             obind (map_err TradeMath (mul_div limit_sell executed limit_buy)) (\<lambda>limit_sell_amount.
             Ok (saturating_sub limit_sell_amount executed_sell_amount_with_fee))
         | SideSell \<Rightarrow>
             obind (map_err TradeMath (mul_ceil_div limit_buy executed_sell_amount_with_fee limit_sell)) (\<lambda>limit_buy_amount.
             obind (map_err TradeMath (mul_ceil_div executed (cp_sell prices) (cp_buy prices))) (\<lambda>executed_buy_amount.
             Ok (saturating_sub executed_buy_amount limit_buy_amount)))))))"

section \<open>Just-in-time trades and trades\<close>

record jit_trade =
  jt_order :: d_jit
  jt_executed :: u256
  jt_fee :: u256

definition jit_new :: "d_jit \<Rightarrow> u256 \<Rightarrow> u256 \<Rightarrow> (trade_error, jit_trade) outcome" where
  "jit_new jit executed fee =
     (let fee_target_amount = (case jo_side jit of SideBuy \<Rightarrow> 0 | SideSell \<Rightarrow> fee)
      in obind (ok_or (checked_add executed fee_target_amount) InvalidExecutedAmount) (\<lambda>executed_with_fee.
         if (case jit_partially_fillable jit of
               PartialYes a \<Rightarrow> executed_with_fee \<le> a
             | PartialNo \<Rightarrow> executed_with_fee = jit_target jit)
         then Ok \<lparr> jt_order = jit, jt_executed = executed, jt_fee = fee \<rparr>
         else Err InvalidExecutedAmount))"

datatype 'f trade = Fulfillment "'f fulfillment" | JitTrade jit_trade

fun trade_side :: "'f trade \<Rightarrow> side" where
  "trade_side (Fulfillment f) = do_side (fu_order f)"
| "trade_side (JitTrade j) = jo_side (jt_order j)"

fun trade_protocol_fees :: "'f trade \<Rightarrow> 'f fee_policy list" where
  "trade_protocol_fees (Fulfillment f) = do_protocol_fees (fu_order f)"
| "trade_protocol_fees (JitTrade j) = []"

fun trade_executed :: "'f trade \<Rightarrow> u256" where
  "trade_executed (Fulfillment f) = fu_executed f"
| "trade_executed (JitTrade j) = jt_executed j"

fun trade_fee :: "'f trade \<Rightarrow> u256" where
  "trade_fee (Fulfillment f) = fulfillment_fee f"
| "trade_fee (JitTrade j) = jt_fee j"

fun trade_buy :: "'f trade \<Rightarrow> asset" where
  "trade_buy (Fulfillment f) = do_buy (fu_order f)"
| "trade_buy (JitTrade j) = jo_buy (jt_order j)"

fun trade_sell :: "'f trade \<Rightarrow> asset" where
  "trade_sell (Fulfillment f) = do_sell (fu_order f)"
| "trade_sell (JitTrade j) = jo_sell (jt_order j)"

definition trade_sell_amount :: "'f trade \<Rightarrow> clearing_prices \<Rightarrow> (math_error, u256) outcome" where
  "trade_sell_amount t prices =
     obind (case trade_side t of
              SideSell \<Rightarrow> Ok (trade_executed t)
            | SideBuy \<Rightarrow> mul_div (trade_executed t) (cp_buy prices) (cp_sell prices)) (\<lambda>before_fee.
     ok_or (checked_add before_fee (trade_fee t)) MathOverflow)"

definition trade_buy_amount :: "'f trade \<Rightarrow> clearing_prices \<Rightarrow> (math_error, u256) outcome" where
  "trade_buy_amount t prices =
     (case trade_side t of
        SideBuy \<Rightarrow> Ok (trade_executed t)
      | SideSell \<Rightarrow> mul_ceil_div (trade_executed t) (cp_sell prices) (cp_buy prices))"

definition trade_custom_prices :: "'f trade \<Rightarrow> clearing_prices \<Rightarrow> (math_error, custom_clearing_prices) outcome" where
  "trade_custom_prices t prices =
     obind (trade_buy_amount t prices) (\<lambda>sell.
     obind (trade_sell_amount t prices) (\<lambda>buy.
     Ok \<lparr> cc_sell = sell, cc_buy = buy \<rparr>))"

section \<open>Protocol fees\<close>

record price_limits =
  pl_sell :: u256
  pl_buy :: u256

record limit_order =
  lo_sell_amount :: u256
  lo_buy_amount :: u256
  lo_side :: side

record limit_quote =
  lq_sell_amount :: u256
  lq_buy_amount :: u256
  lq_fee_amount :: u256

definition adjust_quote_to_order_limits :: "limit_order \<Rightarrow> limit_quote \<Rightarrow> (math_error, price_limits) outcome" where
  "adjust_quote_to_order_limits ord quote =
     (case lo_side ord of
        SideSell \<Rightarrow>
          obind (mul_div (lq_fee_amount quote) (lq_buy_amount quote) (lq_sell_amount quote)) (\<lambda>fee_in_buy.
          obind (ok_or (checked_sub (lq_buy_amount quote) fee_in_buy) MathNegative) (\<lambda>quote_buy_amount.
          obind (mul_div quote_buy_amount (lo_sell_amount ord) (lq_sell_amount quote)) (\<lambda>scaled_buy_amount.
          Ok \<lparr> pl_sell = lo_sell_amount ord, pl_buy = max (lo_buy_amount ord) scaled_buy_amount \<rparr>)))
      | SideBuy \<Rightarrow>
          obind (ok_or (checked_add (lq_sell_amount quote) (lq_fee_amount quote)) MathOverflow) (\<lambda>quote_sell_amount.
          obind (mul_div quote_sell_amount (lo_buy_amount ord) (lq_buy_amount quote)) (\<lambda>scaled_sell_amount.
          Ok \<lparr> pl_sell = min (lo_sell_amount ord) scaled_sell_amount, pl_buy = lo_buy_amount ord \<rparr>)))"

definition fee_from_surplus ::
  "('f \<Rightarrow> u256) \<Rightarrow> 'f fulfillment \<Rightarrow> u256 \<Rightarrow> u256 \<Rightarrow> clearing_prices \<Rightarrow> 'f \<Rightarrow> (fee_error, u256) outcome" where
  "fee_from_surplus scaled f sell_amount buy_amount prices factor =
     obind (map_err FeeFulfillment (surplus_over_reference_price f sell_amount buy_amount prices)) (\<lambda>surplus.
     ok_or (apply_factor scaled surplus factor) (FeeMath MathOverflow))"

definition fee_from_volume :: "('f \<Rightarrow> u256) \<Rightarrow> 'f fulfillment \<Rightarrow> clearing_prices \<Rightarrow> 'f \<Rightarrow> (fee_error, u256) outcome" where
  "fee_from_volume scaled f prices factor =
     obind (map_err FeeMath (case do_side (fu_order f) of
                               SideBuy \<Rightarrow> fu_sell_amount f prices
                             | SideSell \<Rightarrow> fu_buy_amount f prices)) (\<lambda>volume.
     ok_or (apply_factor scaled volume factor) (FeeMath MathOverflow))"

definition calculate_fee ::
  "('f \<Rightarrow> u256) \<Rightarrow> 'f fulfillment \<Rightarrow> price_limits \<Rightarrow> clearing_prices \<Rightarrow> 'f \<Rightarrow> 'f \<Rightarrow> (fee_error, u256) outcome" where
  "calculate_fee scaled f limits prices factor max_volume_factor =
     obind (fee_from_surplus scaled f (pl_sell limits) (pl_buy limits) prices factor) (\<lambda>fee_surplus.
     obind (fee_from_volume scaled f prices max_volume_factor) (\<lambda>fee_volume.
     Ok (min fee_surplus fee_volume)))"

definition quote_limits :: "'f d_order \<Rightarrow> fee_quote \<Rightarrow> (math_error, price_limits) outcome" where
  "quote_limits ord quote =
     adjust_quote_to_order_limits
       \<lparr> lo_sell_amount = as_amount (do_sell ord), lo_buy_amount = as_amount (do_buy ord), lo_side = do_side ord \<rparr>
       \<lparr> lq_sell_amount = as_amount (fq_sell quote), lq_buy_amount = as_amount (fq_buy quote),
         lq_fee_amount = as_amount (fq_fee quote) \<rparr>"

definition protocol_fee ::
  "('f \<Rightarrow> u256) \<Rightarrow> 'f fulfillment \<Rightarrow> clearing_prices \<Rightarrow> 'f fee_policy \<Rightarrow> (fee_error, u256) outcome" where
  "protocol_fee scaled f prices policy =
     (case policy of
        FeeSurplus factor max_volume_factor \<Rightarrow>
          calculate_fee scaled f
            \<lparr> pl_sell = as_amount (do_sell (fu_order f)), pl_buy = as_amount (do_buy (fu_order f)) \<rparr>
            prices factor max_volume_factor
      | FeePriceImprovement factor max_volume_factor quote \<Rightarrow>
          obind (map_err FeeMath (quote_limits (fu_order f) quote)) (\<lambda>limits.
          calculate_fee scaled f limits prices factor max_volume_factor)
      | FeeVolume factor \<Rightarrow> fee_from_volume scaled f prices factor)"

definition protocol_fee_in_sell_token ::
  "('f \<Rightarrow> u256) \<Rightarrow> 'f fulfillment \<Rightarrow> clearing_prices \<Rightarrow> 'f fee_policy \<Rightarrow> (fee_error, u256) outcome" where
  "protocol_fee_in_sell_token scaled f prices policy =
     (case do_side (fu_order f) of
        SideBuy \<Rightarrow> protocol_fee scaled f prices policy
      | SideSell \<Rightarrow>
          obind (protocol_fee scaled f prices policy) (\<lambda>fee.
          map_err FeeMath (mul_div fee (cp_buy prices) (cp_sell prices))))"

definition with_protocol_fee ::
  "('f \<Rightarrow> u256) \<Rightarrow> clearing_prices \<Rightarrow> 'f fee_policy \<Rightarrow> 'f fulfillment \<Rightarrow> (fee_error, 'f fulfillment) outcome" where
  "with_protocol_fee scaled prices policy f =
     obind (protocol_fee_in_sell_token scaled f prices policy) (\<lambda>pfee.
     obind (case surplus_fee f of
              None \<Rightarrow> if pfee \<noteq> 0 then Err FeeProtocolFeeOnStaticOrder else Ok Static
            | Some fee \<Rightarrow> obind (ok_or (checked_add fee pfee) (FeeMath MathOverflow)) (\<lambda>s. Ok (Dynamic s))) (\<lambda>fee.
     obind (case do_side (fu_order f) of
              SideBuy \<Rightarrow> Ok (fu_executed f)
            | SideSell \<Rightarrow> ok_or (checked_sub (fu_executed f) pfee) (FeeMath MathOverflow)) (\<lambda>executed.
     map_err FeeFulfillment (fulfillment_new (fu_order f) executed fee))))"

definition with_protocol_fees ::
  "('f \<Rightarrow> u256) \<Rightarrow> clearing_prices \<Rightarrow> 'f fulfillment \<Rightarrow> (fee_error, 'f fulfillment) outcome" where
  "with_protocol_fees scaled prices f = ofold (with_protocol_fee scaled prices) (do_protocol_fees (fu_order f)) f"

section \<open>Arithmetic\<close>

lemma mul_div_Ok [chk]:
  "mul_div x y z = Ok r \<longleftrightarrow> unat x * unat y < 2 ^ 256 \<and> 0 < unat z \<and> unat r = unat x * unat y div unat z"
proof (cases "checked_mul x y")
  case None
  then show ?thesis
    using checked_mul_None [of x y] by (simp add: mul_div_def)
next
  case (Some p)
  then have p: "unat p = unat x * unat y"
    by (simp add: checked_mul_Some)
  then show ?thesis
    using unat_bound [of p] by (auto simp: mul_div_def Some ok_or_Ok_iff checked_div_Some)
qed

lemma mul_ceil_div_Ok [chk]:
  "mul_ceil_div x y z = Ok r \<longleftrightarrow>
     unat x * unat y + (unat z - 1) < 2 ^ 256 \<and> 0 < unat z \<and> unat r = (unat x * unat y + (unat z - 1)) div unat z"
proof (cases "checked_mul x y")
  case None
  then show ?thesis
    using checked_mul_None [of x y] by (simp add: mul_ceil_div_def)
next
  case (Some p)
  then have "unat p = unat x * unat y"
    by (simp add: checked_mul_Some)
  then show ?thesis
    by (auto simp: mul_ceil_div_def Some ok_or_Ok_iff checked_ceil_div_Some)
qed

lemma mul_div_not_Panic [simp]: "mul_div x y z \<noteq> Panic" "mul_ceil_div x y z \<noteq> Panic"
  by (simp_all add: mul_div_def mul_ceil_div_def outc)

lemma mul_div_not_Negative [simp]: "mul_div x y z \<noteq> Err MathNegative"
  by (auto simp: mul_div_def outc)

lemma apply_factor_Some:
  "apply_factor scaled amount factor = Some r \<Longrightarrow> unat r = unat amount * unat (scaled factor) div 10 ^ 18"
  by (auto simp: apply_factor_def bind_eq_Some_conv checked_mul_Some unat_div)

lemma apply_factor_le:
  assumes "apply_factor scaled amount factor = Some r" "unat (scaled factor) \<le> 10 ^ 18"
  shows "unat r \<le> unat amount"
proof -
  have "unat amount * unat (scaled factor) div 10 ^ 18 \<le> unat amount * 10 ^ 18 div 10 ^ 18"
    using assms(2) by (intro div_le_mono mult_le_mono2)
  then show ?thesis
    using apply_factor_Some [OF assms(1)] by simp
qed

lemma u256_of_nat: "n < 2 ^ 256 \<Longrightarrow> \<exists>w :: u256. unat w = n"
  by (rule exI [of _ "of_nat n"]) (simp add: unat_of_nat)

lemma unat_min_word: "unat (min a b) = min (unat a) (unat (b :: 'n::len word))"
  by (simp add: min_def word_le_nat_alt)

section \<open>Fulfillments: lemmas\<close>

lemma fulfillment_new_Ok_iff:
  "fulfillment_new ord executed fee = Ok f \<longleftrightarrow>
     f = \<lparr> fu_order = ord, fu_executed = executed, fu_fee = fee \<rparr> \<and> valid_fee ord fee
     \<and> (\<exists>x. checked_add executed (fee_in_target ord fee) = Some x \<and> valid_execution ord x)"
  by (auto simp: fulfillment_new_def outc split: if_splits)

lemma fulfillment_new_not_Panic [simp]: "fulfillment_new ord executed fee \<noteq> Panic"
  by (auto simp: fulfillment_new_def outc)

text \<open>The invariant of fulfillments: what \<open>Fulfillment::new\<close> has accepted.\<close>

definition fulfillment_valid :: "'f fulfillment \<Rightarrow> bool" where
  "fulfillment_valid f \<longleftrightarrow> fulfillment_new (fu_order f) (fu_executed f) (fu_fee f) = Ok f"

lemma fulfillment_new_valid: "fulfillment_new ord executed fee = Ok f \<Longrightarrow> fulfillment_valid f"
  by (auto simp: fulfillment_valid_def fulfillment_new_Ok_iff)

lemma fulfillment_new_total:
  assumes "fulfillment_valid f" and "valid_fee (fu_order f) fee"
    and "unat executed + unat (fee_in_target (fu_order f) fee)
           = unat (fu_executed f) + unat (fee_in_target (fu_order f) (fu_fee f))"
  shows "fulfillment_new (fu_order f) executed fee = Ok \<lparr> fu_order = fu_order f, fu_executed = executed, fu_fee = fee \<rparr>"
proof -
  have "checked_add executed (fee_in_target (fu_order f) fee)
      = checked_add (fu_executed f) (fee_in_target (fu_order f) (fu_fee f))"
    using assms(3) by (auto simp: checked_add_def word_unat_eq_iff unat_word_ariths)
  with assms(1,2) show ?thesis
    by (simp add: fulfillment_valid_def fulfillment_new_Ok_iff)
qed

lemma surplus_over_not_Panic [simp]: "surplus_over_reference_price f ls lb prices \<noteq> Panic"
  by (auto simp: surplus_over_reference_price_def Let_def outc split: side.splits)

lemma fee_from_volume_not_Panic [simp]: "fee_from_volume scaled f prices factor \<noteq> Panic"
  by (auto simp: fee_from_volume_def fu_sell_amount_def fu_buy_amount_def outc split: side.splits)

lemma calculate_fee_not_Panic [simp]: "calculate_fee scaled f limits prices factor mvf \<noteq> Panic"
  by (auto simp: calculate_fee_def fee_from_surplus_def outc)

lemma quote_limits_not_Panic [simp]: "quote_limits ord quote \<noteq> Panic"
  by (auto simp: quote_limits_def adjust_quote_to_order_limits_def outc split: side.splits)

lemma protocol_fee_not_Panic [simp]:
  "protocol_fee scaled f prices policy \<noteq> Panic" "protocol_fee_in_sell_token scaled f prices policy \<noteq> Panic"
  by (auto simp: protocol_fee_in_sell_token_def protocol_fee_def outc split: fee_policy.splits side.splits)

section \<open>Protocol fees: lemmas\<close>

text \<open>What one fee policy changes: the order stays, the fee grows by the protocol fee, and a sell order executes less.\<close>

definition charged :: "nat \<Rightarrow> 'f fulfillment \<Rightarrow> 'f fulfillment \<Rightarrow> bool" where
  "charged pfee f f' \<longleftrightarrow>
     fu_order f' = fu_order f
     \<and> unat (fulfillment_fee f') = unat (fulfillment_fee f) + pfee
     \<and> (fu_fee f' = Static \<longleftrightarrow> fu_fee f = Static)
     \<and> (case do_side (fu_order f) of
          SideBuy \<Rightarrow> fu_executed f' = fu_executed f
        | SideSell \<Rightarrow> unat (fu_executed f) = unat (fu_executed f') + pfee)"

lemma with_protocol_fee_Ok:
  assumes "with_protocol_fee scaled prices policy f = Ok f'"
  obtains pfee where "protocol_fee_in_sell_token scaled f prices policy = Ok pfee" "charged (unat pfee) f f'" "fulfillment_valid f'"
proof -
  from assms obtain pfee fee executed where p: "protocol_fee_in_sell_token scaled f prices policy = Ok pfee"
    and fee: "(case surplus_fee f of
              None \<Rightarrow> if pfee \<noteq> 0 then Err FeeProtocolFeeOnStaticOrder else Ok Static
            | Some fee \<Rightarrow> obind (ok_or (checked_add fee pfee) (FeeMath MathOverflow)) (\<lambda>s. Ok (Dynamic s))) = Ok fee"
    and ex: "(case do_side (fu_order f) of
              SideBuy \<Rightarrow> Ok (fu_executed f)
            | SideSell \<Rightarrow> ok_or (checked_sub (fu_executed f) pfee) (FeeMath MathOverflow)) = Ok executed"
    and new: "fulfillment_new (fu_order f) executed fee = Ok f'"
    by (auto simp: with_protocol_fee_def outc)
  from new have f': "f' = \<lparr> fu_order = fu_order f, fu_executed = executed, fu_fee = fee \<rparr>"
    by (simp add: fulfillment_new_Ok_iff)
  have "unat (fulfillment_fee f') = unat (fulfillment_fee f) + unat pfee \<and> (fu_fee f' = Static \<longleftrightarrow> fu_fee f = Static)"
    using fee by (auto simp: f' surplus_fee_def fulfillment_fee_def outc checked_add_Some split: fee.splits if_splits)
  moreover have "case do_side (fu_order f) of
          SideBuy \<Rightarrow> fu_executed f' = fu_executed f
        | SideSell \<Rightarrow> unat (fu_executed f) = unat (fu_executed f') + unat pfee"
    using ex by (auto simp: f' ok_or_Ok_iff checked_sub_Some split: side.splits)
  moreover have "fu_order f' = fu_order f"
    by (simp add: f')
  ultimately have "charged (unat pfee) f f'"
    by (simp add: charged_def)
  with p show ?thesis
    using that fulfillment_new_valid [OF new] by blast
qed

lemma with_protocol_fee_safe:
  assumes "fulfillment_valid f"
  shows "case with_protocol_fee scaled prices policy f of
      Ok f' \<Rightarrow> True | Err e \<Rightarrow> e \<noteq> FeeFulfillment InvalidExecutedAmount | Panic \<Rightarrow> False"
proof (cases "protocol_fee_in_sell_token scaled f prices policy")
  case (Ok pfee)
  have fee_total: "unat executed + unat (fee_in_target (fu_order f) fee)
      = unat (fu_executed f) + unat (fee_in_target (fu_order f) (fu_fee f))" "valid_fee (fu_order f) fee"
    if "(case surplus_fee f of
              None \<Rightarrow> if pfee \<noteq> 0 then Err FeeProtocolFeeOnStaticOrder else Ok Static
            | Some fee \<Rightarrow> obind (ok_or (checked_add fee pfee) (FeeMath MathOverflow)) (\<lambda>s. Ok (Dynamic s))) = Ok fee"
      and "(case do_side (fu_order f) of
              SideBuy \<Rightarrow> Ok (fu_executed f)
            | SideSell \<Rightarrow> ok_or (checked_sub (fu_executed f) pfee) (FeeMath MathOverflow)) = Ok executed" for fee executed
    using that assms
    by (auto simp: surplus_fee_def fee_in_target_def outc checked_add_Some checked_sub_Some fulfillment_valid_def
        fulfillment_new_Ok_iff valid_fee_def split: fee.splits side.splits if_splits)
  have "with_protocol_fee scaled prices policy f \<noteq> Panic
      \<and> with_protocol_fee scaled prices policy f \<noteq> Err (FeeFulfillment InvalidExecutedAmount)"
    using fulfillment_new_total [OF assms fee_total(2) fee_total(1)]
    by (auto simp: with_protocol_fee_def Ok outc split: option.splits side.splits if_splits)
  then show ?thesis
    by (cases "with_protocol_fee scaled prices policy f") auto
next
  case (Err e)
  have "e \<noteq> FeeFulfillment InvalidExecutedAmount"
    using Err by (auto simp: protocol_fee_in_sell_token_def protocol_fee_def calculate_fee_def fee_from_surplus_def
        fee_from_volume_def surplus_over_reference_price_def Let_def outc split: side.splits fee_policy.splits)
  with Err show ?thesis
    by (simp add: with_protocol_fee_def)
next
  case Panic
  then show ?thesis by simp
qed

text \<open>The price limits of a fee are at least as strict as those of the order.\<close>

definition tightens :: "'f d_order \<Rightarrow> price_limits \<Rightarrow> bool" where
  "tightens ord limits =
     (case do_side ord of
        SideSell \<Rightarrow> pl_sell limits = as_amount (do_sell ord) \<and> as_amount (do_buy ord) \<le> pl_buy limits
      | SideBuy \<Rightarrow> pl_buy limits = as_amount (do_buy ord) \<and> pl_sell limits \<le> as_amount (do_sell ord))"

lemma quote_limits_tighten: "quote_limits ord quote = Ok limits \<Longrightarrow> tightens ord limits"
  by (auto simp: quote_limits_def adjust_quote_to_order_limits_def tightens_def outc split: side.splits)

definition capped :: "('f \<Rightarrow> u256) \<Rightarrow> 'f fee_policy \<Rightarrow> bool" where
  "capped scaled policy =
     (case policy of
        FeeSurplus factor _ \<Rightarrow> unat (scaled factor) \<le> 10 ^ 18
      | FeePriceImprovement factor _ _ \<Rightarrow> unat (scaled factor) \<le> 10 ^ 18
      | FeeVolume _ \<Rightarrow> False)"

lemma calculate_fee_le_surplus:
  assumes "calculate_fee scaled f limits prices factor mvf = Ok fee" "unat (scaled factor) \<le> 10 ^ 18"
  obtains s where "surplus_over_reference_price f (pl_sell limits) (pl_buy limits) prices = Ok s" "unat fee \<le> unat s"
proof -
  from assms(1) obtain s x y where s: "surplus_over_reference_price f (pl_sell limits) (pl_buy limits) prices = Ok s"
    and x: "apply_factor scaled s factor = Some x" and fee: "fee = min x y"
    by (auto simp: calculate_fee_def fee_from_surplus_def outc)
  have "unat fee \<le> unat s"
    using apply_factor_le [OF x assms(2)] by (simp add: fee unat_min_word)
  with s show ?thesis using that by blast
qed

lemma capped_fee_le_surplus:
  assumes "protocol_fee scaled f prices policy = Ok fee" "capped scaled policy"
  obtains limits s where "tightens (fu_order f) limits"
    "surplus_over_reference_price f (pl_sell limits) (pl_buy limits) prices = Ok s" "unat fee \<le> unat s"
proof (cases policy)
  case (FeeSurplus factor mvf)
  let ?limits = "\<lparr> pl_sell = as_amount (do_sell (fu_order f)), pl_buy = as_amount (do_buy (fu_order f)) \<rparr>"
  have "calculate_fee scaled f ?limits prices factor mvf = Ok fee" "unat (scaled factor) \<le> 10 ^ 18"
    using assms FeeSurplus by (simp_all add: protocol_fee_def capped_def)
  then obtain s where "surplus_over_reference_price f (pl_sell ?limits) (pl_buy ?limits) prices = Ok s" "unat fee \<le> unat s"
    by (rule calculate_fee_le_surplus)
  moreover have "tightens (fu_order f) ?limits"
    by (simp add: tightens_def split: side.split)
  ultimately show ?thesis
    using that by blast
next
  case (FeePriceImprovement factor mvf quote)
  then obtain limits where limits: "quote_limits (fu_order f) quote = Ok limits"
    and fee: "calculate_fee scaled f limits prices factor mvf = Ok fee" "unat (scaled factor) \<le> 10 ^ 18"
    using assms by (auto simp: protocol_fee_def capped_def outc)
  from fee obtain s where "surplus_over_reference_price f (pl_sell limits) (pl_buy limits) prices = Ok s" "unat fee \<le> unat s"
    by (rule calculate_fee_le_surplus)
  with quote_limits_tighten [OF limits] show ?thesis
    using that by blast
qed (use assms in \<open>simp add: capped_def\<close>)

text \<open>The limit price of an order is respected by what the user pays and receives at the given clearing prices.\<close>

definition limit_respected :: "clearing_prices \<Rightarrow> 'f fulfillment \<Rightarrow> bool" where
  "limit_respected prices f =
     (case do_side (fu_order f) of
        SideSell \<Rightarrow>
          (case fu_buy_amount f prices of
             Ok bought \<Rightarrow> unat (as_amount (do_buy (fu_order f))) * (unat (fu_executed f) + unat (fulfillment_fee f))
                              \<le> unat bought * unat (as_amount (do_sell (fu_order f)))
           | _ \<Rightarrow> False)
      | SideBuy \<Rightarrow>
          (case fu_sell_amount f prices of
             Ok sold \<Rightarrow> unat sold * unat (as_amount (do_buy (fu_order f)))
                          \<le> unat (as_amount (do_sell (fu_order f))) * unat (fu_executed f)
           | _ \<Rightarrow> False))"

lemma ceil_div_shift:
  fixes x x' k d :: nat
  assumes "0 < d" "x \<le> x' + k * d"
  shows "(x + (d - 1)) div d \<le> (x' + (d - 1)) div d + k"
proof -
  have "(x + (d - 1)) div d \<le> (x' + (d - 1) + k * d) div d"
    using assms(2) by (intro div_le_mono) simp
  also have "\<dots> = (x' + (d - 1)) div d + k"
    using assms(1) by (metis add.commute div_mult_self1 less_not_refl2)
  finally show ?thesis .
qed

lemma surplus_sell_Ok:
  assumes "surplus_over_reference_price f ls lb prices = Ok s" "do_side (fu_order f) = SideSell" "0 < unat s"
  obtains bought where "fu_buy_amount f prices = Ok bought"
    "unat lb * (unat (fu_executed f) + unat (fulfillment_fee f)) \<le> (unat bought - unat s) * unat ls" "unat s \<le> unat bought"
proof -
  from assms(1,2) obtain fee sold limit bought where "surplus_fee f = Some fee"
    and sold: "checked_add (fu_executed f) fee = Some sold"
    and limit: "mul_ceil_div lb sold ls = Ok limit"
    and bought: "mul_ceil_div (fu_executed f) (cp_sell prices) (cp_buy prices) = Ok bought"
    and s: "s = saturating_sub bought limit"
    by (auto simp: surplus_over_reference_price_def Let_def outc)
  then have sold_eq: "unat sold = unat (fu_executed f) + unat (fulfillment_fee f)"
    by (auto simp: checked_add_Some surplus_fee_def fulfillment_fee_def split: fee.splits)
  have "unat s = unat bought - unat limit" "unat limit < unat bought"
    using s assms(3) by simp_all
  then have eq: "unat bought - unat s = unat limit" "unat s \<le> unat bought"
    by simp_all
  have "0 < unat ls" "unat limit = (unat lb * unat sold + (unat ls - 1)) div unat ls"
    using limit by (simp_all only: mul_ceil_div_Ok)
  then have "unat lb * unat sold \<le> unat limit * unat ls"
    by (rule ceil_div_nat_bounds)
  with that [of bought] bought assms(2) sold_eq eq show ?thesis
    by (simp add: fu_buy_amount_def)
qed

lemma surplus_buy_Ok:
  assumes "surplus_over_reference_price f ls lb prices = Ok s" "do_side (fu_order f) = SideBuy" "0 < unat s"
  obtains sold where "fu_sell_amount f prices = Ok sold"
    "(unat sold + unat s) * unat lb \<le> unat ls * unat (fu_executed f)" "unat sold + unat s < 2 ^ 256"
proof -
  from assms(1,2) obtain fee before sold limit where "surplus_fee f = Some fee"
    and before: "mul_div (fu_executed f) (cp_buy prices) (cp_sell prices) = Ok before"
    and sold: "checked_add before fee = Some sold"
    and limit: "mul_div ls (fu_executed f) lb = Ok limit"
    and s: "s = saturating_sub limit sold"
    by (auto simp: surplus_over_reference_price_def Let_def outc)
  then have fee: "fulfillment_fee f = fee"
    by (auto simp: surplus_fee_def fulfillment_fee_def split: fee.splits)
  have eq: "unat sold + unat s = unat limit"
    using s assms(3) by simp
  have "unat limit = unat ls * unat (fu_executed f) div unat lb"
    using limit by (simp add: mul_div_Ok)
  then have "unat limit * unat lb \<le> unat ls * unat (fu_executed f)"
    using div_mult_mod_eq [of "unat ls * unat (fu_executed f)" "unat lb"] by simp
  with that [of sold] before sold assms(2) fee eq unat_bound [of limit] show ?thesis
    by (simp add: fu_sell_amount_def)
qed

lemma sell_fee_keeps_limit:
  assumes "charged (unat pfee) f f'" "do_side (fu_order f) = SideSell"
    and "mul_div fee (cp_buy prices) (cp_sell prices) = Ok pfee"
    and "tightens (fu_order f) limits"
    and "surplus_over_reference_price f (pl_sell limits) (pl_buy limits) prices = Ok s" "unat fee \<le> unat s" "0 < unat fee"
  shows "limit_respected prices f'"
proof -
  let ?ps = "unat (cp_sell prices)" and ?pb = "unat (cp_buy prices)"
  have "0 < unat s" using assms(6,7) by linarith
  with assms(5,2) obtain bought where bought: "fu_buy_amount f prices = Ok bought"
    and limit: "unat (pl_buy limits) * (unat (fu_executed f) + unat (fulfillment_fee f)) \<le> (unat bought - unat s) * unat (pl_sell limits)"
    and s: "unat s \<le> unat bought"
    by (rule surplus_sell_Ok)
  have ex: "unat (fu_executed f) = unat (fu_executed f') + unat pfee"
    and total: "unat (fu_executed f') + unat (fulfillment_fee f') = unat (fu_executed f) + unat (fulfillment_fee f)"
    and ord: "fu_order f' = fu_order f"
    using assms(1,2) by (simp_all add: charged_def)
  have pb: "0 < ?pb" and b: "unat bought = (unat (fu_executed f) * ?ps + (?pb - 1)) div ?pb"
    and fits: "unat (fu_executed f) * ?ps + (?pb - 1) < 2 ^ 256"
    using bought assms(2) unfolding fu_buy_amount_def by (simp_all only: side.case mul_ceil_div_Ok)
  have "unat pfee * ?ps \<le> unat fee * ?pb"
    using assms(3) div_mult_mod_eq [of "unat fee * ?pb" ?ps] by (simp add: mul_div_Ok)
  then have "unat (fu_executed f) * ?ps \<le> unat (fu_executed f') * ?ps + unat fee * ?pb"
    by (simp add: ex add_mult_distrib)
  from ceil_div_shift [OF pb this] b have le: "unat bought \<le> (unat (fu_executed f') * ?ps + (?pb - 1)) div ?pb + unat fee"
    by simp
  have fits': "unat (fu_executed f') * ?ps + (?pb - 1) < 2 ^ 256"
    using fits by (simp add: ex add_mult_distrib)
  then have "(unat (fu_executed f') * ?ps + (?pb - 1)) div ?pb < 2 ^ 256"
    by (meson div_le_dividend le_less_trans)
  then obtain bought' :: u256 where b': "unat bought' = (unat (fu_executed f') * ?ps + (?pb - 1)) div ?pb"
    using u256_of_nat by blast
  then have got: "fu_buy_amount f' prices = Ok bought'"
    using fits' pb assms(2) ord unfolding fu_buy_amount_def by (simp only: side.case mul_ceil_div_Ok)
  have "unat (as_amount (do_buy (fu_order f))) * (unat (fu_executed f) + unat (fulfillment_fee f))
      \<le> unat (pl_buy limits) * (unat (fu_executed f) + unat (fulfillment_fee f))"
    using assms(2,4) by (intro mult_le_mono1) (simp add: tightens_def word_le_nat_alt)
  also note limit
  also have "(unat bought - unat s) * unat (pl_sell limits) \<le> unat bought' * unat (pl_sell limits)"
    using le b' assms(6) by (intro mult_le_mono1) simp
  finally show ?thesis
    using assms(2,4) ord got total by (simp add: limit_respected_def tightens_def)
qed

lemma buy_fee_keeps_limit:
  assumes "charged (unat pfee) f f'" "do_side (fu_order f) = SideBuy"
    and "tightens (fu_order f) limits"
    and "surplus_over_reference_price f (pl_sell limits) (pl_buy limits) prices = Ok s" "unat pfee \<le> unat s" "0 < unat pfee"
  shows "limit_respected prices f'"
proof -
  have "0 < unat s" using assms(5,6) by linarith
  with assms(4,2) obtain sold where sold: "fu_sell_amount f prices = Ok sold"
    and limit: "(unat sold + unat s) * unat (pl_buy limits) \<le> unat (pl_sell limits) * unat (fu_executed f)"
    and fits: "unat sold + unat s < 2 ^ 256"
    by (rule surplus_buy_Ok)
  have ord: "fu_order f' = fu_order f" "fu_executed f' = fu_executed f"
    and fee: "unat (fulfillment_fee f') = unat (fulfillment_fee f) + unat pfee"
    using assms(1,2) by (simp_all add: charged_def)
  from sold assms(2) obtain before where before: "mul_div (fu_executed f) (cp_buy prices) (cp_sell prices) = Ok before"
    "unat sold = unat before + unat (fulfillment_fee f)"
    by (auto simp: fu_sell_amount_def outc checked_add_Some)
  then obtain sold' where sold': "checked_add before (fulfillment_fee f') = Some sold'"
    using fits fee assms(5) by (cases "checked_add before (fulfillment_fee f')") (simp_all add: checked_add_None)
  have "unat sold' = unat sold + unat pfee"
    using sold' before(2) fee by (simp add: checked_add_Some)
  then have "unat sold' * unat (pl_buy limits) \<le> (unat sold + unat s) * unat (pl_buy limits)"
    using assms(5) by (intro mult_le_mono1) simp
  also note limit
  also have "unat (pl_sell limits) * unat (fu_executed f) \<le> unat (as_amount (do_sell (fu_order f))) * unat (fu_executed f)"
    using assms(2,3) by (intro mult_le_mono1) (simp add: tightens_def word_le_nat_alt)
  finally show ?thesis
    using assms(2,3) ord before(1) sold' by (simp add: limit_respected_def fu_sell_amount_def tightens_def)
qed

lemma charged_refl: "charged 0 f f"
  by (simp add: charged_def split: side.split)

lemma charged_trans: "charged m f g \<Longrightarrow> charged n g h \<Longrightarrow> charged (m + n) f h"
  by (auto simp: charged_def split: side.splits)

lemma charged_zero: "charged 0 f f' \<Longrightarrow> f' = f"
  by (cases f; cases f') (auto simp: charged_def fulfillment_fee_def word_unat_eq_iff split: side.splits fee.splits)

lemma with_protocol_fee_keeps_limit:
  assumes "limit_respected prices f" "capped scaled policy" "with_protocol_fee scaled prices policy f = Ok f'"
  shows "limit_respected prices f'"
proof -
  obtain pfee where p: "protocol_fee_in_sell_token scaled f prices policy = Ok pfee" and charged: "charged (unat pfee) f f'"
    using assms(3) by (rule with_protocol_fee_Ok)
  show ?thesis
  proof (cases "pfee = 0")
    case True
    then show ?thesis
      using charged charged_zero [of f f'] assms(1) by simp
  next
    case False
    then have pos: "0 < unat pfee" by (simp add: unat_gt_0)
    show ?thesis
    proof (cases "do_side (fu_order f)")
      case SideSell
      with p obtain fee where fee: "protocol_fee scaled f prices policy = Ok fee"
        and conv: "mul_div fee (cp_buy prices) (cp_sell prices) = Ok pfee"
        by (auto simp: protocol_fee_in_sell_token_def outc)
      have "0 < unat fee"
        using conv pos by (cases "unat fee = 0") (auto simp: mul_div_Ok)
      with capped_fee_le_surplus [OF fee assms(2)] sell_fee_keeps_limit [OF charged SideSell conv] show ?thesis
        by metis
    next
      case SideBuy
      with p have "protocol_fee scaled f prices policy = Ok pfee"
        by (simp add: protocol_fee_in_sell_token_def)
      from capped_fee_le_surplus [OF this assms(2)] buy_fee_keeps_limit [OF charged SideBuy] pos show ?thesis
        by metis
    qed
  qed
qed

lemma with_protocol_fee_list:
  assumes "fulfillment_valid f"
  shows "case ofold (with_protocol_fee scaled prices) policies f of
      Ok f' \<Rightarrow> fulfillment_valid f' \<and> (\<exists>n. charged n f f')
    | Err e \<Rightarrow> e \<noteq> FeeFulfillment InvalidExecutedAmount
    | Panic \<Rightarrow> False"
  using assms
proof (induction policies arbitrary: f)
  case Nil
  then show ?case
    using charged_refl by auto
next
  case (Cons policy policies)
  show ?case
  proof (cases "with_protocol_fee scaled prices policy f")
    case (Ok g)
    then obtain pfee where "protocol_fee_in_sell_token scaled f prices policy = Ok pfee"
      and "charged (unat pfee) f g" "fulfillment_valid g"
      by (rule with_protocol_fee_Ok)
    with Cons.IH [of g] show ?thesis
      using charged_trans by (fastforce simp: Ok split: outcome.splits)
  qed (use with_protocol_fee_safe [OF Cons.prems, of scaled prices policy] in auto)
qed

text \<open>
  A sell order of 1000 for 300 of which 323 are executed with a network fee of 10, at prices 4 and 10: half of the
  surplus of 30 is charged, that is 15 of the bought or 37 of the sold token.
\<close>

definition example_prices :: clearing_prices where
  "example_prices = \<lparr> cp_sell = 4, cp_buy = 10 \<rparr>"

definition example_charged_order :: "unit d_order" where
  "example_charged_order = example_order\<lparr>do_protocol_fees := [FeeSurplus () ()]\<rparr>"

definition example_fulfillment :: "u256 \<Rightarrow> u256 \<Rightarrow> unit fulfillment" where
  "example_fulfillment executed fee = \<lparr> fu_order = example_charged_order, fu_executed = executed, fu_fee = Dynamic fee \<rparr>"

lemma example_order_simps:
  "do_side example_charged_order = SideSell" "do_partial example_charged_order = PartialYes 333"
  "do_kind example_charged_order = KindLimit" "as_amount (do_sell example_charged_order) = 1000"
  "as_amount (do_buy example_charged_order) = 300" "do_protocol_fees example_charged_order = [FeeSurplus () ()]"
  by (simp_all add: example_charged_order_def example_order_def)

lemma example_fulfillment_valid: "fulfillment_valid (example_fulfillment 323 10)"
  by (simp add: fulfillment_valid_def fulfillment_new_def example_fulfillment_def fee_in_target_def valid_execution_def valid_fee_def
      d_solver_determines_fee_def example_order_simps checked_add_def)

lemma example_fees_charged:
  "with_protocol_fees (\<lambda>_. 500000000000000000) example_prices (example_fulfillment 323 10) = Ok (example_fulfillment 286 47)"
  by (simp add: with_protocol_fees_def with_protocol_fee_def protocol_fee_in_sell_token_def protocol_fee_def calculate_fee_def
      fee_from_surplus_def fee_from_volume_def surplus_over_reference_price_def fu_buy_amount_def surplus_fee_def mul_div_def
      mul_ceil_div_def checked_mul_def checked_div_def checked_add_def checked_sub_def checked_ceil_div_def apply_factor_def
      saturating_sub_def fulfillment_new_def fee_in_target_def valid_execution_def valid_fee_def d_solver_determines_fee_def
      example_fulfillment_def example_prices_def example_order_simps cong: obind_eval_cong if_weak_cong)

section \<open>Properties\<close>

text \<open>
  C5. Applying the protocol fees to a valid fulfillment never makes it invalid, whatever the fee policies: either a
  valid fulfillment of the same order results, or the computation of a fee failed, but \<open>Fulfillment::new\<close> never rejects the
  adjusted amounts and nothing panics. For a sell order the executed amount and the fee together
  stay the same, for a buy order the executed amount does, and the fee never shrinks.
\<close>

theorem protocol_fees_keep_execution:
  assumes "fulfillment_valid f"
  shows "case with_protocol_fees scaled prices f of
      Ok f' \<Rightarrow> fulfillment_valid f' \<and> fu_order f' = fu_order f
        \<and> unat (fulfillment_fee f) \<le> unat (fulfillment_fee f')
        \<and> (case do_side (fu_order f) of
             SideSell \<Rightarrow> unat (fu_executed f') + unat (fulfillment_fee f') = unat (fu_executed f) + unat (fulfillment_fee f)
           | SideBuy \<Rightarrow> fu_executed f' = fu_executed f)
    | Err e \<Rightarrow> e \<noteq> FeeFulfillment InvalidExecutedAmount
    | Panic \<Rightarrow> False"
  using with_protocol_fee_list [OF assms, of scaled prices "do_protocol_fees (fu_order f)"]
  by (auto simp: with_protocol_fees_def charged_def split: outcome.splits side.splits)

theorem protocol_fees_keep_execution_witness:
  "fulfillment_valid (example_fulfillment 323 10) \<and> fulfillment_valid (example_fulfillment 286 47)
   \<and> unat (286 :: u256) + unat (47 :: u256) = unat (323 :: u256) + unat (10 :: u256)"
  using protocol_fees_keep_execution [OF example_fulfillment_valid, of "\<lambda>_. 500000000000000000" example_prices]
    example_fulfillment_valid by (simp add: example_fees_charged)

text \<open>
  C2. Surplus and price improvement fees with a factor of at most 1 are taken out of the surplus only: if the execution
  respects the limit price of the order, it still does after all protocol fees, through all roundings (of the fee, of its
  conversion into the sell token and of the bought amount). A volume fee carries no such guarantee.
\<close>

theorem capped_fees_respect_limit:
  assumes "limit_respected prices f" and "list_all (capped scaled) (do_protocol_fees (fu_order f))"
  shows "case with_protocol_fees scaled prices f of Ok f' \<Rightarrow> limit_respected prices f' | _ \<Rightarrow> True"
proof -
  have "limit_respected prices f' "
    if "ofold (with_protocol_fee scaled prices) policies g = Ok f'" "list_all (capped scaled) policies" "limit_respected prices g"
    for policies g f'
    using that
    by (induction policies arbitrary: g) (auto simp: outc intro: with_protocol_fee_keeps_limit)
  with assms show ?thesis
    by (simp add: with_protocol_fees_def split: outcome.split)
qed

theorem capped_fees_respect_limit_witness:
  "limit_respected example_prices (example_fulfillment 323 10) \<and> limit_respected example_prices (example_fulfillment 286 47)"
proof -
  have "limit_respected example_prices (example_fulfillment 323 10)"
    by (simp add: limit_respected_def example_fulfillment_def example_order_simps fu_buy_amount_def fulfillment_fee_def
        example_prices_def mul_ceil_div_def checked_mul_def checked_ceil_div_def checked_sub_def checked_add_def checked_div_def)
  moreover have "list_all (capped (\<lambda>_. 500000000000000000)) (do_protocol_fees (fu_order (example_fulfillment 323 10)))"
    by (simp add: example_fulfillment_def example_order_simps capped_def)
  ultimately show ?thesis
    using capped_fees_respect_limit [of example_prices "example_fulfillment 323 10" "\<lambda>_. 500000000000000000"]
    by (simp add: example_fees_charged)
qed

text \<open>
  Adjusting a quote to the limits of an order never loosens them: a sell order keeps its sell amount and asks
  for at least its own buy amount, a buy order keeps its buy amount and pays at most its own sell amount. The
  limits are at least as good as the quote, scaled to the order, net of the quote's fee.
\<close>

theorem adjusted_quote_tightens_limits:
  "case adjust_quote_to_order_limits ord quote of
     Ok limits \<Rightarrow>
       (case lo_side ord of
          SideSell \<Rightarrow> pl_sell limits = lo_sell_amount ord \<and> lo_buy_amount ord \<le> pl_buy limits
            \<and> (unat (lq_buy_amount quote) - unat (lq_fee_amount quote) * unat (lq_buy_amount quote) div unat (lq_sell_amount quote))
                 * unat (lo_sell_amount ord) div unat (lq_sell_amount quote) \<le> unat (pl_buy limits)
        | SideBuy \<Rightarrow> pl_buy limits = lo_buy_amount ord \<and> pl_sell limits \<le> lo_sell_amount ord
            \<and> unat (pl_sell limits) \<le> (unat (lq_sell_amount quote) + unat (lq_fee_amount quote))
                 * unat (lo_buy_amount ord) div unat (lq_buy_amount quote))
   | Err MathNegative \<Rightarrow> lo_side ord = SideSell
       \<and> unat (lq_buy_amount quote) < unat (lq_fee_amount quote) * unat (lq_buy_amount quote) div unat (lq_sell_amount quote)
   | Err e \<Rightarrow> True
   | Panic \<Rightarrow> False"
proof (cases "lo_side ord")
  case SideSell
  show ?thesis
  proof (cases "adjust_quote_to_order_limits ord quote")
    case (Ok limits)
    with SideSell obtain x q sc where "mul_div (lq_fee_amount quote) (lq_buy_amount quote) (lq_sell_amount quote) = Ok x"
      "checked_sub (lq_buy_amount quote) x = Some q" "mul_div q (lo_sell_amount ord) (lq_sell_amount quote) = Ok sc"
      and limits: "limits = \<lparr> pl_sell = lo_sell_amount ord, pl_buy = max (lo_buy_amount ord) sc \<rparr>"
      by (auto simp: adjust_quote_to_order_limits_def outc)
    then have "unat x = unat (lq_fee_amount quote) * unat (lq_buy_amount quote) div unat (lq_sell_amount quote)"
      and "unat (lq_buy_amount quote) - unat x = unat q"
      and "unat sc = unat q * unat (lo_sell_amount ord) div unat (lq_sell_amount quote)"
      by (simp_all add: mul_div_Ok checked_sub_Some)
    then show ?thesis
      using SideSell by (simp add: Ok limits max_def word_le_nat_alt)
  next
    case (Err e)
    with SideSell have "unat (lq_buy_amount quote)
        < unat (lq_fee_amount quote) * unat (lq_buy_amount quote) div unat (lq_sell_amount quote)" if "e = MathNegative"
      using that by (auto simp: adjust_quote_to_order_limits_def outc mul_div_Ok checked_sub_None)
    with SideSell show ?thesis
      by (simp add: Err split: math_error.split)
  next
    case Panic
    then have False
      using SideSell by (simp add: adjust_quote_to_order_limits_def outc)
    then show ?thesis ..
  qed
next
  case SideBuy
  then show ?thesis
    by (auto simp: adjust_quote_to_order_limits_def outc mul_div_Ok checked_add_Some min_def word_le_nat_alt
        split: outcome.splits math_error.splits)
qed

end
