(* ===== verification/Driver_Scoring.thy ===== *)
theory Driver_Scoring
  imports Driver_Auction Driver_Trade
begin

text \<open>
  Scoring of a solution, \<open>crates/driver/src/domain/competition/solution/scoring.rs\<close>: the CIP38 score of a trade is its
  surplus plus its protocol fees, both observed from the amounts that are settled, in the native token.

  The two conversions of an \<open>f64\<close> factor, \<open>factor / (1.0 - factor)\<close> and \<open>factor / (1.0 + factor)\<close>, are the parameters
  \<open>fo_over_one_minus\<close> and \<open>fo_over_one_plus\<close> of the model, collected with the scaling of \<open>apply_factor\<close> in a record.
\<close>

record 'f factor_ops =
  fo_scaled :: "'f \<Rightarrow> u256"
  fo_over_one_minus :: "'f \<Rightarrow> 'f"
  fo_over_one_plus :: "'f \<Rightarrow> 'f"

datatype scoring_error = ScoringMissingPrice h160 | ScoringMath math_error

record 'f scored_trade =
  st_sell :: asset
  st_buy :: asset
  st_side :: side
  st_executed :: u256
  st_custom_price :: custom_clearing_prices
  st_policies :: "'f fee_policy list"

definition surplus_token :: "'f scored_trade \<Rightarrow> h160" where
  "surplus_token t = (case st_side t of SideBuy \<Rightarrow> as_token (st_sell t) | SideSell \<Rightarrow> as_token (st_buy t))"

definition surplus_over :: "'f scored_trade \<Rightarrow> price_limits \<Rightarrow> (math_error, asset) outcome" where
  "surplus_over t limits =
     obind (case st_side t of
        SideBuy \<Rightarrow>
          obind (mul_div (pl_sell limits) (st_executed t) (pl_buy limits)) (\<lambda>limit_sell.
          obind (mul_div (st_executed t) (cc_buy (st_custom_price t)) (cc_sell (st_custom_price t))) (\<lambda>sold.
          ok_or (checked_sub limit_sell sold) MathNegative))
      | SideSell \<Rightarrow>
          obind (mul_ceil_div (st_executed t) (pl_buy limits) (pl_sell limits)) (\<lambda>limit_buy.
          obind (mul_ceil_div (st_executed t) (cc_sell (st_custom_price t)) (cc_buy (st_custom_price t))) (\<lambda>bought.
          ok_or (checked_sub bought limit_buy) MathNegative))) (\<lambda>surplus.
     Ok \<lparr> as_amount = surplus, as_token = surplus_token t \<rparr>)"

definition surplus_over_limit_price :: "'f scored_trade \<Rightarrow> (scoring_error, asset) outcome" where
  "surplus_over_limit_price t =
     map_err ScoringMath (surplus_over t \<lparr> pl_sell = as_amount (st_sell t), pl_buy = as_amount (st_buy t) \<rparr>)"

text \<open>The price of a token, and the value of an amount at that price; the product panics on overflow.\<close>

definition native_value :: "prices \<Rightarrow> asset \<Rightarrow> (scoring_error, u256) outcome" where
  "native_value prices a =
     obind (ok_or (prices (as_token a)) (ScoringMissingPrice (as_token a))) (\<lambda>price. in_eth price (as_amount a))"

definition native_surplus :: "'f scored_trade \<Rightarrow> prices \<Rightarrow> (scoring_error, u256) outcome" where
  "native_surplus t prices = obind (surplus_over_limit_price t) (native_value prices)"

definition st_sell_amount :: "'f scored_trade \<Rightarrow> (math_error, u256) outcome" where
  "st_sell_amount t =
     (case st_side t of
        SideSell \<Rightarrow> Ok (st_executed t)
      | SideBuy \<Rightarrow> mul_div (st_executed t) (cc_buy (st_custom_price t)) (cc_sell (st_custom_price t)))"

definition st_buy_amount :: "'f scored_trade \<Rightarrow> (math_error, u256) outcome" where
  "st_buy_amount t =
     (case st_side t of
        SideSell \<Rightarrow> mul_ceil_div (st_executed t) (cc_sell (st_custom_price t)) (cc_buy (st_custom_price t))
      | SideBuy \<Rightarrow> Ok (st_executed t))"

definition calculate_custom_prices :: "'f scored_trade \<Rightarrow> u256 \<Rightarrow> (math_error, custom_clearing_prices) outcome" where
  "calculate_custom_prices t pfee =
     obind (case st_side t of
              SideSell \<Rightarrow> obind (st_buy_amount t) (\<lambda>b. ok_or (checked_add b pfee) MathOverflow)
            | SideBuy \<Rightarrow> st_buy_amount t) (\<lambda>sell.
     obind (case st_side t of
              SideSell \<Rightarrow> st_sell_amount t
            | SideBuy \<Rightarrow> obind (st_sell_amount t) (\<lambda>s. ok_or (checked_sub s pfee) MathNegative)) (\<lambda>buy.
     Ok \<lparr> cc_sell = sell, cc_buy = buy \<rparr>))"

definition price_improvement :: "'f scored_trade \<Rightarrow> fee_quote \<Rightarrow> (scoring_error, asset) outcome" where
  "price_improvement t quote =
     obind (map_err ScoringMath (adjust_quote_to_order_limits
       \<lparr> lo_sell_amount = as_amount (st_sell t), lo_buy_amount = as_amount (st_buy t), lo_side = st_side t \<rparr>
       \<lparr> lq_sell_amount = as_amount (fq_sell quote), lq_buy_amount = as_amount (fq_buy quote),
         lq_fee_amount = as_amount (fq_fee quote) \<rparr>)) (\<lambda>limits.
     let surplus = surplus_over t limits
     in if surplus = Err MathNegative then Ok \<lparr> as_amount = 0, as_token = surplus_token t \<rparr>
        else map_err ScoringMath surplus)"

definition st_surplus_fee :: "'f factor_ops \<Rightarrow> asset \<Rightarrow> 'f \<Rightarrow> (scoring_error, asset) outcome" where
  "st_surplus_fee ops surplus factor =
     obind (ok_or (apply_factor (fo_scaled ops) (as_amount surplus) (fo_over_one_minus ops factor)) (ScoringMath MathOverflow)) (\<lambda>fee.
     Ok \<lparr> as_amount = fee, as_token = as_token surplus \<rparr>)"

definition volume_fee :: "'f factor_ops \<Rightarrow> 'f scored_trade \<Rightarrow> 'f \<Rightarrow> (scoring_error, asset) outcome" where
  "volume_fee ops t factor =
     obind (map_err ScoringMath (case st_side t of
        SideSell \<Rightarrow> mul_div (st_executed t) (cc_sell (st_custom_price t)) (cc_buy (st_custom_price t))
      | SideBuy \<Rightarrow> mul_div (st_executed t) (cc_buy (st_custom_price t)) (cc_sell (st_custom_price t)))) (\<lambda>executed_in_surplus_token.
     let factor' = (case st_side t of SideSell \<Rightarrow> fo_over_one_minus ops factor | SideBuy \<Rightarrow> fo_over_one_plus ops factor)
     in obind (ok_or (apply_factor (fo_scaled ops) executed_in_surplus_token factor') (ScoringMath MathOverflow)) (\<lambda>fee.
        Ok \<lparr> as_amount = fee, as_token = surplus_token t \<rparr>))"

definition st_protocol_fee :: "'f factor_ops \<Rightarrow> 'f scored_trade \<Rightarrow> 'f fee_policy \<Rightarrow> (scoring_error, u256) outcome" where
  "st_protocol_fee ops t policy =
     (case policy of
        FeeSurplus factor max_volume_factor \<Rightarrow>
          obind (surplus_over_limit_price t) (\<lambda>surplus.
          obind (st_surplus_fee ops surplus factor) (\<lambda>fee.
          obind (volume_fee ops t max_volume_factor) (\<lambda>cap.
          Ok (min (as_amount fee) (as_amount cap)))))
      | FeePriceImprovement factor max_volume_factor quote \<Rightarrow>
          obind (price_improvement t quote) (\<lambda>improvement.
          obind (st_surplus_fee ops improvement factor) (\<lambda>fee.
          obind (volume_fee ops t max_volume_factor) (\<lambda>cap.
          Ok (min (as_amount fee) (as_amount cap)))))
      | FeeVolume factor \<Rightarrow> obind (volume_fee ops t factor) (\<lambda>fee. Ok (as_amount fee)))"

text \<open>
  The fees are undone from the last policy to the first. The total is added up with an operator that panics on overflow,
  and the prices before the fee are recomputed from the original trade and the total so far.
\<close>

definition fee_step ::
  "'f factor_ops \<Rightarrow> 'f scored_trade \<Rightarrow> nat \<times> 'f fee_policy \<Rightarrow> custom_clearing_prices \<times> u256
     \<Rightarrow> (scoring_error, custom_clearing_prices \<times> u256) outcome" where
  "fee_step ops t = (\<lambda>(i, policy) (custom_price, amount).
     obind (st_protocol_fee ops (t\<lparr>st_custom_price := custom_price\<rparr>) policy) (\<lambda>fee.
     obind (add_p amount fee) (\<lambda>amount.
     if i \<noteq> 0
     then obind (map_err ScoringMath (calculate_custom_prices t amount)) (\<lambda>custom_price. Ok (custom_price, amount))
     else Ok (custom_price, amount))))"

definition st_protocol_fees :: "'f factor_ops \<Rightarrow> 'f scored_trade \<Rightarrow> (scoring_error, asset) outcome" where
  "st_protocol_fees ops t =
     obind (ofold (fee_step ops t) (rev (List.enumerate 0 (st_policies t))) (st_custom_price t, 0)) (\<lambda>(custom_price, amount).
     Ok \<lparr> as_amount = amount, as_token = surplus_token t \<rparr>)"

definition native_protocol_fee :: "'f factor_ops \<Rightarrow> 'f scored_trade \<Rightarrow> prices \<Rightarrow> (scoring_error, u256) outcome" where
  "native_protocol_fee ops t prices = obind (st_protocol_fees ops t) (native_value prices)"

definition st_score :: "'f factor_ops \<Rightarrow> prices \<Rightarrow> 'f scored_trade \<Rightarrow> (scoring_error, u256) outcome" where
  "st_score ops prices t =
     obind (native_surplus t prices) (\<lambda>surplus.
     obind (native_protocol_fee ops t prices) (\<lambda>fee.
     add_p surplus fee))"

definition score :: "'f factor_ops \<Rightarrow> prices \<Rightarrow> 'f scored_trade list \<Rightarrow> (scoring_error, u256) outcome" where
  "score ops prices trades =
     ofold (\<lambda>t total. obind (st_score ops prices t) (\<lambda>x. add_p total x)) trades 0"

section \<open>Lemmas\<close>

text \<open>At the custom prices of a trade, its executed amounts are the ones the prices were made of.\<close>

lemma mul_div_self: "mul_div x y x = Ok r \<Longrightarrow> r = y"
  by (auto simp: mul_div_Ok word_unat_eq_iff)

lemma ceil_div_self: "0 < x \<Longrightarrow> (x * y + (x - 1)) div x = y" for x y :: nat
  by (metis add.commute add_0 diff_less div_less div_mult_self2 less_not_refl2 zero_less_one)

lemma mul_ceil_div_self: "mul_ceil_div x y x = Ok r \<Longrightarrow> r = y"
proof -
  assume "mul_ceil_div x y x = Ok r"
  then have "0 < unat x" "unat r = (unat x * unat y + (unat x - 1)) div unat x"
    by (simp_all only: mul_ceil_div_Ok)
  then show ?thesis
    using ceil_div_self [of "unat x" "unat y"] by (simp add: word_unat_eq_iff)
qed

lemma mul_ceil_div_not_Negative: "mul_ceil_div x y z \<noteq> Err MathNegative"
  by (auto simp: mul_ceil_div_def outc)

lemma mul_ceil_div_commute: "mul_ceil_div x y z = mul_ceil_div y x z"
  by (simp add: mul_ceil_div_def checked_mul_def mult.commute)

text \<open>A fulfillment as it is scored: for a sell order the executed amount includes the fee.\<close>

definition scored_fulfillment :: "'f fulfillment \<Rightarrow> u256 \<Rightarrow> custom_clearing_prices \<Rightarrow> 'f scored_trade" where
  "scored_fulfillment f executed prices =
     \<lparr> st_sell = do_sell (fu_order f), st_buy = do_buy (fu_order f), st_side = do_side (fu_order f),
       st_executed = executed, st_custom_price = prices, st_policies = do_protocol_fees (fu_order f) \<rparr>"

section \<open>Properties\<close>

text \<open>
  C37. The surplus that is scored from the settled amounts is the surplus the fees were computed from: for a fulfillment
  with a solver-determined fee and its custom prices, \<open>surplus_over\<close> of the scoring returns exactly the
  amount of \<open>surplus_over_reference_price\<close> over the same limits, and reports a negative surplus only where
  the latter is zero. It never panics.
\<close>

theorem scored_surplus_agrees:
  assumes "fu_custom_prices f prices = Ok custom"
    and "surplus_over_reference_price f (pl_sell limits) (pl_buy limits) prices = Ok s"
    and "case do_side (fu_order f) of
           SideSell \<Rightarrow> checked_add (fu_executed f) (fulfillment_fee f) = Some executed
         | SideBuy \<Rightarrow> executed = fu_executed f"
  shows "case surplus_over (scored_fulfillment f executed custom) limits of
      Ok a \<Rightarrow> as_amount a = s
    | Err e \<Rightarrow> e = MathNegative \<longrightarrow> s = 0
    | Panic \<Rightarrow> False"
proof (cases "do_side (fu_order f)")
  case SideSell
  with assms(1) obtain bought sold where bought: "mul_ceil_div (fu_executed f) (cp_sell prices) (cp_buy prices) = Ok bought"
    and sold: "checked_add (fu_executed f) (fulfillment_fee f) = Some sold"
    and custom: "custom = \<lparr> cc_sell = bought, cc_buy = sold \<rparr>"
    by (auto simp: fu_custom_prices_def fu_buy_amount_def fu_sell_amount_def outc)
  with assms(3) SideSell have executed: "executed = sold" by simp
  have "surplus_fee f = Some fee \<Longrightarrow> fulfillment_fee f = fee" for fee
    by (auto simp: surplus_fee_def fulfillment_fee_def split: fee.splits)
  with assms(2) SideSell bought sold obtain limit where limit: "mul_ceil_div (pl_buy limits) sold (pl_sell limits) = Ok limit"
    and s: "s = saturating_sub bought limit"
    by (auto simp: surplus_over_reference_price_def Let_def outc)
  have over: "surplus_over (scored_fulfillment f executed custom) limits =
      obind (obind (mul_ceil_div sold bought sold) (\<lambda>b. ok_or (checked_sub b limit) MathNegative))
        (\<lambda>surplus. Ok \<lparr> as_amount = surplus, as_token = as_token (do_buy (fu_order f)) \<rparr>)"
    using SideSell limit
    by (simp add: surplus_over_def scored_fulfillment_def custom executed surplus_token_def mul_ceil_div_commute [of sold "pl_buy limits"])
  show ?thesis
    unfolding over
    by (auto split: outcome.split simp: outc s word_unat_eq_iff checked_sub_Some checked_sub_None mul_ceil_div_not_Negative
        dest!: mul_ceil_div_self)
next
  case SideBuy
  with assms(1) obtain sold where sold: "fu_sell_amount f prices = Ok sold"
    and custom: "custom = \<lparr> cc_sell = fu_executed f, cc_buy = sold \<rparr>"
    by (auto simp: fu_custom_prices_def fu_buy_amount_def outc)
  from assms(3) SideBuy have executed: "executed = fu_executed f" by simp
  have "surplus_fee f = Some fee \<Longrightarrow> fulfillment_fee f = fee" for fee
    by (auto simp: surplus_fee_def fulfillment_fee_def split: fee.splits)
  with assms(2) SideBuy sold obtain limit where limit: "mul_div (pl_sell limits) (fu_executed f) (pl_buy limits) = Ok limit"
    and s: "s = saturating_sub limit sold"
    by (auto simp: surplus_over_reference_price_def fu_sell_amount_def Let_def outc)
  have over: "surplus_over (scored_fulfillment f executed custom) limits =
      obind (obind (mul_div (fu_executed f) sold (fu_executed f)) (\<lambda>x. ok_or (checked_sub limit x) MathNegative))
        (\<lambda>surplus. Ok \<lparr> as_amount = surplus, as_token = as_token (do_sell (fu_order f)) \<rparr>)"
    using SideBuy limit by (simp add: surplus_over_def scored_fulfillment_def custom executed surplus_token_def)
  show ?thesis
    unfolding over
    by (auto split: outcome.split simp: outc s word_unat_eq_iff checked_sub_Some checked_sub_None dest!: mul_div_self)
qed

theorem scored_surplus_agrees_witness:
  "\<exists>a. surplus_over (scored_fulfillment (example_fulfillment 323 10) 333 \<lparr> cc_sell = 130, cc_buy = 333 \<rparr>)
      \<lparr> pl_sell = 1000, pl_buy = 300 \<rparr> = Ok a \<and> as_amount a = 30"
proof -
  note eval = surplus_over_def scored_fulfillment_def fu_custom_prices_def fu_buy_amount_def fu_sell_amount_def
    surplus_over_reference_price_def surplus_fee_def fulfillment_fee_def mul_div_def mul_ceil_div_def checked_mul_def
    checked_add_def checked_sub_def checked_div_def checked_ceil_div_def saturating_sub_def
    example_fulfillment_def example_prices_def example_order_simps
  let ?f = "example_fulfillment 323 10" and ?limits = "\<lparr> pl_sell = 1000, pl_buy = 300 \<rparr>"
    and ?custom = "\<lparr> cc_sell = 130, cc_buy = 333 \<rparr> :: custom_clearing_prices"
  have "fu_custom_prices ?f example_prices = Ok ?custom"
    by (simp add: eval)
  moreover have "surplus_over_reference_price ?f (pl_sell ?limits) (pl_buy ?limits) example_prices = Ok 30"
    by (simp add: eval)
  moreover have "case do_side (fu_order ?f) of
      SideSell \<Rightarrow> checked_add (fu_executed ?f) (fulfillment_fee ?f) = Some 333 | SideBuy \<Rightarrow> 333 = fu_executed ?f"
    by (simp add: eval)
  ultimately have "case surplus_over (scored_fulfillment ?f 333 ?custom) ?limits of
      Ok a \<Rightarrow> as_amount a = 30 | Err e \<Rightarrow> e = MathNegative \<longrightarrow> (30 :: u256) = 0 | Panic \<Rightarrow> False"
    by (rule scored_surplus_agrees)
  moreover have "is_ok (surplus_over (scored_fulfillment ?f 333 ?custom) ?limits)"
    by (simp add: eval)
  ultimately show ?thesis
    by (auto split: outcome.splits)
qed

end
