(* ===== verification/Driver_Solution.thy ===== *)
theory Driver_Solution
  imports Driver_Scoring "HOL-Library.AList"
begin

text \<open>
  Solutions of the driver, \<open>crates/driver/src/domain/competition/solution/mod.rs\<close>: their construction from the answer of
  a solver, scoring, merging, clearing prices and token allowances, with the interactions of
  \<open>solution/interaction.rs\<close> and the allowances of \<open>domain/eth/allowance.rs\<close>.

  The clearing prices are a \<open>HashMap\<close> that the code iterates over: an association list whose order stands for the
  (unspecified) order of iteration; look-ups use its first entry. The solver is known by the address of its account, and a
  liquidity pool by its kind and the contract that spends the input token.
\<close>

section \<open>Interactions and allowances\<close>

record allowance =
  al_token :: h160
  al_spender :: h160
  al_amount :: u256

definition approval :: "allowance \<Rightarrow> allowance \<Rightarrow> allowance option" where
  "approval required existing =
     (if al_spender required \<noteq> al_spender existing \<or> al_amount required \<le> al_amount existing then None else Some required)"

definition approval_max :: "allowance \<Rightarrow> allowance" where
  "approval_max a = a\<lparr>al_amount := u256_max\<rparr>"

definition approval_revoke :: "allowance \<Rightarrow> allowance" where
  "approval_revoke a = a\<lparr>al_amount := 0\<rparr>"

datatype liquidity_kind =
    UniswapV2 (spender: h160) | UniswapV3 (spender: h160) | BalancerV2Stable (spender: h160)
  | BalancerV2Weighted (spender: h160) | Swapr (spender: h160) | ZeroEx (spender: h160)

record custom_interaction =
  ci_target :: h160
  ci_value :: u256
  ci_call_data :: bytes
  ci_allowances :: "allowance list"
  ci_inputs :: "asset list"
  ci_outputs :: "asset list"
  ci_internalize :: bool

record liquidity_interaction =
  li_liquidity :: liquidity_kind
  li_input :: asset
  li_output :: asset
  li_internalize :: bool

datatype s_interaction = Custom custom_interaction | LiquidityUse liquidity_interaction

fun internalize :: "s_interaction \<Rightarrow> bool" where
  "internalize (Custom c) = ci_internalize c"
| "internalize (LiquidityUse l) = li_internalize l"

fun interaction_inputs :: "s_interaction \<Rightarrow> asset list" where
  "interaction_inputs (Custom c) = ci_inputs c"
| "interaction_inputs (LiquidityUse l) = [li_input l]"

fun interaction_outputs :: "s_interaction \<Rightarrow> asset list" where
  "interaction_outputs (Custom c) = ci_outputs c"
| "interaction_outputs (LiquidityUse l) = [li_output l]"

fun interaction_allowances :: "s_interaction \<Rightarrow> allowance list" where
  "interaction_allowances (Custom c) = ci_allowances c"
| "interaction_allowances (LiquidityUse l) =
     [\<lparr> al_token = as_token (li_input l), al_spender = spender (li_liquidity l), al_amount = u256_max \<rparr>]"

section \<open>Solutions\<close>

datatype solution_id = Single u64 | Merged "u64 list"

fun ids :: "solution_id \<Rightarrow> u64 list" where
  "ids (Single i) = [i]"
| "ids (Merged is) = is"

definition count_merges :: "solution_id \<Rightarrow> nat" where
  "count_merges i = length (ids i)"

type_synonym s_prices = "(h160 \<times> u256) list"

record 'f solution =
  so_id :: solution_id
  so_trades :: "'f trade list"
  so_prices :: s_prices
  so_pre_interactions :: "d_interaction list"
  so_interactions :: "s_interaction list"
  so_post_interactions :: "d_interaction list"
  so_solver :: h160
  so_weth :: h160
  so_gas :: "u256 option"

datatype solution_error = InvalidClearingPrices | ProtocolFee fee_error | InvalidJitTrade trade_error

datatype merge_error = Incompatible string | DuplicateTrade | IncongruentPrices | MergeMath number_error

datatype solution_scoring_error =
    ScoringInvalidClearingPrices | SolutionMath math_error | CalculateCustomPrices trade_error | MissingPrice h160

fun solution_scoring_error_of :: "scoring_error \<Rightarrow> solution_scoring_error" where
  "solution_scoring_error_of (ScoringMissingPrice t) = MissingPrice t"
| "solution_scoring_error_of (ScoringMath e) = SolutionMath e"

datatype fee_handler = HandlerDriver | HandlerSolver

datatype internalization = Enable | Disable

fun user_trade :: "'f trade \<Rightarrow> 'f fulfillment option" where
  "user_trade (Fulfillment f) = (case do_kind (fu_order f) of KindLiquidity \<Rightarrow> None | _ \<Rightarrow> Some f)"
| "user_trade (JitTrade j) = None"

definition user_trades :: "'f solution \<Rightarrow> 'f fulfillment list" where
  "user_trades s = List.map_filter user_trade (so_trades s)"

definition clearing_price :: "'f solution \<Rightarrow> h160 \<Rightarrow> u256 option" where
  "clearing_price s token = map_of (so_prices s) (wrap (so_weth s) token)"

text \<open>The conversion of a just-in-time trade that captures surplus.\<close>

definition jit_order :: "d_jit \<Rightarrow> 'f d_order" where
  "jit_order jit =
     \<lparr> do_uid = jo_uid jit, do_receiver = Some (jo_receiver jit), do_valid_to = jo_valid_to jit,
       do_buy = jo_buy jit, do_sell = jo_sell jit, do_side = jo_side jit, do_kind = KindLimit,
       do_app_data = jo_app_data jit, do_partial = jit_partially_fillable jit,
       do_pre_interactions = [], do_post_interactions = [],
       do_sell_token_balance = jo_sell_token_balance jit, do_buy_token_balance = jo_buy_token_balance jit,
       do_signature = jo_signature jit, do_protocol_fees = [] \<rparr>"

fun convert_jit :: "h160 set \<Rightarrow> 'f trade \<Rightarrow> (solution_error, 'f trade) outcome" where
  "convert_jit owners (Fulfillment f) = Ok (Fulfillment f)"
| "convert_jit owners (JitTrade j) =
     (if ds_signer (jo_signature (jt_order j)) \<in> owners
      then obind (map_err InvalidJitTrade (fulfillment_new (jit_order (jt_order j)) (jt_executed j) (Dynamic (jt_fee j)))) (\<lambda>f.
           Ok (Fulfillment f))
      else Ok (JitTrade j))"

text \<open>The protocol fees of one trade; indexing the prices panics for a token without a price.\<close>

fun charge_trade :: "('f \<Rightarrow> u256) \<Rightarrow> s_prices \<Rightarrow> h160 \<Rightarrow> 'f trade \<Rightarrow> (solution_error, 'f trade) outcome" where
  "charge_trade scaled prices weth (Fulfillment f) =
     (case do_kind (fu_order f) of
        KindLiquidity \<Rightarrow> Ok (Fulfillment f)
      | _ \<Rightarrow>
          obind (expect (map_of prices (wrap weth (as_token (do_sell (fu_order f)))))) (\<lambda>sell.
          obind (expect (map_of prices (wrap weth (as_token (do_buy (fu_order f)))))) (\<lambda>buy.
          obind (map_err ProtocolFee (with_protocol_fees scaled \<lparr> cp_sell = sell, cp_buy = buy \<rparr> f)) (\<lambda>f'.
          Ok (Fulfillment f')))))"
| "charge_trade scaled prices weth (JitTrade j) = Ok (JitTrade j)"

definition solution_new ::
  "('f \<Rightarrow> u256) \<Rightarrow> 'f solution \<Rightarrow> fee_handler \<Rightarrow> h160 set \<Rightarrow> (solution_error, 'f solution) outcome" where
  "solution_new scaled args handler owners =
     obind (omap (convert_jit owners) (so_trades args)) (\<lambda>trades.
     let solution = args\<lparr>so_trades := trades\<rparr>
     in if list_ex (\<lambda>f. clearing_price solution (as_token (do_sell (fu_order f))) = None
                      \<or> clearing_price solution (as_token (do_buy (fu_order f))) = None) (user_trades solution)
        then Err InvalidClearingPrices
        else if handler \<noteq> HandlerDriver then Ok solution
        else obind (omap (charge_trade scaled (so_prices solution) (so_weth solution)) trades) (\<lambda>trades.
             Ok (solution\<lparr>so_trades := trades\<rparr>)))"

fun trade_count_for_scorable :: "h160 set \<Rightarrow> 'f trade \<Rightarrow> bool" where
  "trade_count_for_scorable owners (Fulfillment f) = (case do_kind (fu_order f) of KindLiquidity \<Rightarrow> False | _ \<Rightarrow> True)"
| "trade_count_for_scorable owners (JitTrade j) \<longleftrightarrow> ds_signer (jo_signature (jt_order j)) \<in> owners"

definition is_empty :: "'f solution \<Rightarrow> h160 set \<Rightarrow> bool" where
  "is_empty s owners \<longleftrightarrow> \<not> list_ex (trade_count_for_scorable owners) (so_trades s)"

definition scored_trade_of :: "'f solution \<Rightarrow> 'f trade \<Rightarrow> (solution_scoring_error, 'f scored_trade) outcome" where
  "scored_trade_of s t =
     obind (case trade_side t of
              SideSell \<Rightarrow> add_p (trade_executed t) (trade_fee t)
            | SideBuy \<Rightarrow> Ok (trade_executed t)) (\<lambda>executed.
     obind (ok_or (clearing_price s (as_token (trade_sell t))) ScoringInvalidClearingPrices) (\<lambda>sell.
     obind (ok_or (clearing_price s (as_token (trade_buy t))) ScoringInvalidClearingPrices) (\<lambda>buy.
     obind (map_err SolutionMath (trade_custom_prices t \<lparr> cp_sell = sell, cp_buy = buy \<rparr>)) (\<lambda>custom.
     Ok \<lparr> st_sell = trade_sell t, st_buy = trade_buy t, st_side = trade_side t, st_executed = executed,
          st_custom_price = custom, st_policies = trade_protocol_fees t \<rparr>))))"

definition scoring ::
  "'f factor_ops \<Rightarrow> 'f solution \<Rightarrow> prices \<Rightarrow> h160 set \<Rightarrow> (solution_scoring_error, u256) outcome" where
  "scoring ops s prices owners =
     obind (omap (scored_trade_of s) (filter (trade_count_for_scorable owners) (so_trades s))) (\<lambda>trades.
     map_err solution_scoring_error_of (score ops prices trades))"

text \<open>\<open>revertable\<close>, and the clearing prices that are encoded on chain.\<close>

definition revertable :: "'f solution \<Rightarrow> bool" where
  "revertable s \<longleftrightarrow>
     list_ex (\<lambda>i. \<not> internalize i) (so_interactions s)
     \<or> list_ex (\<lambda>f. ds_scheme (do_signature (fu_order f)) = SchemeEip1271) (user_trades s)"

definition clearing_price_assets :: "'f solution \<Rightarrow> ('e, asset list) outcome" where
  "clearing_price_assets s =
     (let prices = map (\<lambda>(token, amount). \<lparr> as_amount = amount, as_token = token \<rparr>) (so_prices s)
      in if list_ex (\<lambda>f. buys_eth (fu_order f)) (user_trades s)
         then let prices =
                (if list_all (\<lambda>f. as_token (do_sell (fu_order f)) \<noteq> so_weth s \<and> as_token (do_buy (fu_order f)) \<noteq> so_weth s)
                      (user_trades s)
                 then filter (\<lambda>a. as_token a \<noteq> so_weth s) prices
                 else prices)
              in obind (expect (map_of (so_prices s) (so_weth s))) (\<lambda>weth_price.
                 Ok (prices @ [\<lparr> as_amount = weth_price, as_token = ETH_TOKEN \<rparr>]))
         else Ok prices)"

section \<open>Allowances\<close>

text \<open>One entry per token and spender, then sorted by token, spender and amount.\<close>

definition add_allowance :: "((h160 \<times> h160) \<times> u256) list \<Rightarrow> allowance \<Rightarrow> ((h160 \<times> h160) \<times> u256) list" where
  "add_allowance m a =
     (let key = (al_token a, al_spender a);
          amount = (case map_of m key of Some x \<Rightarrow> x | None \<Rightarrow> 0)
      in AList.update key (saturating_add amount (al_amount a)) m)"

definition allowance_le :: "allowance \<Rightarrow> allowance \<Rightarrow> bool" where
  "allowance_le a b \<longleftrightarrow>
     al_token a < al_token b
     \<or> al_token a = al_token b \<and> (al_spender a < al_spender b \<or> al_spender a = al_spender b \<and> al_amount a \<le> al_amount b)"

definition required_allowances :: "'f solution \<Rightarrow> internalization \<Rightarrow> allowance list" where
  "required_allowances s mode =
     concat (map (\<lambda>i. if internalize i \<and> mode = Enable then [] else interaction_allowances i) (so_interactions s))"

definition allowances :: "'f solution \<Rightarrow> internalization \<Rightarrow> allowance list" where
  "allowances s mode =
     (let normalized = foldl add_allowance [] (required_allowances s mode)
      in sort_by allowance_le
           (map (\<lambda>((token, spender), amount). \<lparr> al_token = token, al_spender = spender, al_amount = amount \<rparr>) normalized))"

text \<open>The approvals that are missing; \<open>existing\<close> reads the allowance the settlement contract has given to a spender.\<close>

definition approvals ::
  "(h160 \<Rightarrow> h160 \<Rightarrow> ('e, allowance) outcome) \<Rightarrow> 'f solution \<Rightarrow> internalization \<Rightarrow> ('e, allowance list) outcome" where
  "approvals existing s mode =
     obind (omap (\<lambda>required. obind (existing (al_token required) (al_spender required)) (\<lambda>e. Ok (required, e))) (allowances s mode))
       (\<lambda>pairs. Ok (List.map_filter (\<lambda>(required, e). approval required e) pairs))"

section \<open>Merging\<close>

text \<open>\<open>BigRational::new\<close> panics on a zero denominator.\<close>

definition big_rational_new :: "int \<Rightarrow> int \<Rightarrow> ('e, rat) outcome" where
  "big_rational_new n d = (if d = 0 then Panic else Ok (Fract n d))"

definition common_tokens :: "s_prices \<Rightarrow> s_prices \<Rightarrow> h160 list" where
  "common_tokens first second = filter (\<lambda>t. t \<in> fst ` set second) (remdups (map fst first))"

definition price_ratio :: "s_prices \<Rightarrow> s_prices \<Rightarrow> h160 \<Rightarrow> ('e, rat) outcome" where
  "price_ratio first second token =
     obind (expect (map_of first token)) (\<lambda>first_price.
     obind (expect (map_of second token)) (\<lambda>second_price.
     big_rational_new (u256_to_big_int first_price) (u256_to_big_int second_price)))"

definition scaling_factor :: "s_prices \<Rightarrow> s_prices \<Rightarrow> ('e, rat option) outcome" where
  "scaling_factor first second =
     obind (omap (price_ratio first second) (common_tokens first second)) (\<lambda>ratios.
     Ok (case remdups ratios of [] \<Rightarrow> Some 1 | [factor] \<Rightarrow> Some factor | _ \<Rightarrow> None))"

definition merge_price :: "rat \<Rightarrow> h160 \<times> u256 \<Rightarrow> s_prices \<Rightarrow> (merge_error, s_prices) outcome" where
  "merge_price factor = (\<lambda>(token, price) prices.
     obind (map_err MergeMath (big_rational_to_u256 (u256_to_big_rational price * factor))) (\<lambda>scaled.
     case map_of prices token of
       Some p \<Rightarrow> if p \<noteq> scaled then Err IncongruentPrices else Ok prices
     | None \<Rightarrow> Ok (prices @ [(token, scaled)])))"

definition merge_gas :: "u256 option \<Rightarrow> u256 option \<Rightarrow> ('e, u256 option) outcome" where
  "merge_gas a b =
     (case (a, b) of
        (Some x, Some y) \<Rightarrow> obind (add_p x y) (\<lambda>g. Ok (Some g))
      | (Some x, None) \<Rightarrow> Ok (Some x)
      | (None, Some y) \<Rightarrow> Ok (Some y)
      | (None, None) \<Rightarrow> Ok None)"

definition user_uids :: "'f solution \<Rightarrow> order_uid list" where
  "user_uids s = map (\<lambda>f. do_uid (fu_order f)) (user_trades s)"

text \<open>The part of \<open>merge\<close> after the direction is settled.\<close>

definition merge_into :: "rat \<Rightarrow> 'f solution \<Rightarrow> 'f solution \<Rightarrow> (merge_error, 'f solution) outcome" where
  "merge_into factor s other =
     obind (ofold (merge_price factor) (so_prices other) (so_prices s)) (\<lambda>prices.
     obind (merge_gas (so_gas s) (so_gas other)) (\<lambda>gas.
     Ok \<lparr> so_id = Merged (ids (so_id s) @ ids (so_id other)),
          so_trades = so_trades s @ so_trades other,
          so_prices = prices,
          so_pre_interactions = so_pre_interactions s @ so_pre_interactions other,
          so_interactions = so_interactions s @ so_interactions other,
          so_post_interactions = so_post_interactions s @ so_post_interactions other,
          so_solver = so_solver s, so_weth = so_weth s, so_gas = gas \<rparr>))"

subsection \<open>The scaling factor\<close>

lemma u256_rational: "u256_to_big_rational x = of_nat (unat x)"
  by (simp add: u256_to_big_rational_def u256_to_big_int_def Fract_of_int_eq of_int_rat [symmetric])

lemma price_ratio_Ok:
  "price_ratio a b t = (Ok q :: ('e, _) outcome) \<longleftrightarrow>
     (\<exists>x y. map_of a t = Some x \<and> map_of b t = Some y \<and> y \<noteq> 0 \<and> q = of_nat (unat x) / of_nat (unat y))"
  by (cases "map_of a t"; cases "map_of b t")
     (auto simp: price_ratio_def big_rational_new_def u256_to_big_int_def Fract_of_int_quotient unsigned_eq_0_iff)

lemma common_tokens_iff: "t \<in> set (common_tokens a b) \<longleftrightarrow> t \<in> fst ` set a \<and> t \<in> fst ` set b"
  by (auto simp: common_tokens_def)

lemma scaling_factor_Some:
  "scaling_factor a b = (Ok (Some q) :: ('e, _) outcome) \<longleftrightarrow>
     (common_tokens a b = [] \<and> q = 1
      \<or> common_tokens a b \<noteq> [] \<and> list_all (\<lambda>t. price_ratio a b t = (Ok q :: ('e, _) outcome)) (common_tokens a b))"
proof -
  have sel: "(case remdups rs of [] \<Rightarrow> Some 1 | [factor] \<Rightarrow> Some factor | _ \<Rightarrow> None) = Some q \<longleftrightarrow>
      rs = [] \<and> q = 1 \<or> set rs = {q}" for rs :: "rat list"
  proof (cases "remdups rs" rule: remdups_adj.cases)
    case (2 x)
    then have "set rs = {x}" by (metis set_remdups empty_set list.simps(15))
    with 2 show ?thesis by auto
  next
    case (3 x y ys)
    then have "set rs = insert x (insert y (set ys))" "x \<noteq> y"
      by (metis set_remdups list.simps(15)) (metis 3 distinct_remdups distinct_length_2_or_more)
    with 3 show ?thesis by auto
  qed (auto simp: remdups_eq_nil_iff)
  have "set rs = {q} \<longleftrightarrow> ts \<noteq> [] \<and> list_all (\<lambda>t. price_ratio a b t = (Ok q :: ('e, _) outcome)) ts"
    if "list_all2 (\<lambda>t r. price_ratio a b t = (Ok r :: ('e, _) outcome)) ts rs" for ts rs
  proof -
    have "set rs = {q} \<longleftrightarrow> rs \<noteq> [] \<and> list_all (\<lambda>r. r = q) rs"
      by (cases rs) (auto simp: list_all_iff)
    moreover have "rs = [] \<longleftrightarrow> ts = []"
      using that by auto
    moreover have "list_all (\<lambda>r. r = q) rs \<longleftrightarrow> list_all (\<lambda>t. price_ratio a b t = (Ok q :: ('e, _) outcome)) ts"
      using that by (induction rule: list_all2_induct) auto
    ultimately show ?thesis by simp
  qed
  note ratios = this
  have all_same: "list_all2 (\<lambda>t r. price_ratio a b t = (Ok r :: ('e, _) outcome)) ts (map (\<lambda>_. q) ts)"
    if "list_all (\<lambda>t. price_ratio a b t = (Ok q :: ('e, _) outcome)) ts" for ts
    using that by (induction ts) auto
  show ?thesis
    using ratios by (auto simp: scaling_factor_def outc omap_Ok sel) (metis all_same)
qed

lemma scaling_factor_inverse:
  assumes "scaling_factor a b = (Ok (Some q) :: ('e, _) outcome)" "q < 1" "scaling_factor b a = (Ok (Some r) :: ('e, _) outcome)"
  shows "1 < r"
proof -
  obtain t where t: "t \<in> set (common_tokens a b)" and q: "price_ratio a b t = (Ok q :: ('e, _) outcome)"
    using assms(1,2) by (cases "common_tokens a b") (auto simp: scaling_factor_Some list_all_iff)
  then have "t \<in> set (common_tokens b a)"
    by (simp add: common_tokens_iff)
  then have r: "price_ratio b a t = (Ok r :: ('e, _) outcome)"
    using assms(3) by (auto simp: scaling_factor_Some list_all_iff)
  from q r obtain x y :: u256 where "q = of_nat (unat x) / of_nat (unat y)" "r = of_nat (unat y) / of_nat (unat x)"
    and "y \<noteq> 0" "x \<noteq> 0"
    by (auto simp: price_ratio_Ok)
  moreover have "0 < (of_nat (unat x) :: rat)" "0 < (of_nat (unat y) :: rat)"
    using \<open>x \<noteq> 0\<close> \<open>y \<noteq> 0\<close> by (simp_all only: of_nat_0_less_iff unat_gt_0 simp_thms)
  ultimately show ?thesis
    using assms(2) by (simp only: divide_less_eq_1_pos less_divide_eq_1_pos)
qed

definition scales_down :: "'f solution \<times> 'f solution \<Rightarrow> nat" where
  "scales_down p =
     (case scaling_factor (so_prices (fst p)) (so_prices (snd p)) :: (merge_error, _) outcome of
        Ok (Some q) \<Rightarrow> if q < 1 then 1 else 0
      | _ \<Rightarrow> 0)"

text \<open>
  \<open>Solution::merge\<close>. When the factor is below one the roles are swapped; the factor of the swapped call, if there is one, is
  above one, so that the recursion ends.
\<close>

function merge :: "'f solution \<Rightarrow> 'f solution \<Rightarrow> (merge_error, 'f solution) outcome" where
  "merge s other =
     (if so_solver s \<noteq> so_solver other then Err (Incompatible ''Solvers'')
      else if set (user_uids s) \<inter> set (user_uids other) \<noteq> {} then Err DuplicateTrade
      else obind (scaling_factor (so_prices s) (so_prices other)) (\<lambda>f.
           obind (ok_or f IncongruentPrices) (\<lambda>factor.
           if factor < 1 then merge other s else merge_into factor s other)))"
  by pat_completeness auto
termination
proof (relation "measure scales_down")
  fix s other :: "'f solution" and f factor
  assume "scaling_factor (so_prices s) (so_prices other) = (Ok f :: (merge_error, _) outcome)"
    and "ok_or f IncongruentPrices = Ok factor" "factor < 1"
  then have "scaling_factor (so_prices s) (so_prices other) = (Ok (Some factor) :: (merge_error, _) outcome)"
    by (simp add: ok_or_Ok_iff)
  with scaling_factor_inverse [OF this \<open>factor < 1\<close>] \<open>factor < 1\<close> show "((other, s), s, other) \<in> measure scales_down"
    by (force simp: scales_down_def split: outcome.split option.split)
qed simp

declare merge.simps [simp del]

subsection \<open>Merging: lemmas\<close>

lemma price_ratio_Panic:
  "price_ratio a b t = Panic \<Longrightarrow> t \<in> set (common_tokens a b) \<Longrightarrow> map_of b t = Some 0"
  by (auto simp: price_ratio_def big_rational_new_def outc u256_to_big_int_def unsigned_eq_0_iff common_tokens_iff
      map_of_eq_None_iff split: if_splits)

lemma scaling_factor_Panic:
  assumes "scaling_factor a b = Panic"
  shows "\<exists>t. t \<in> fst ` set a \<and> map_of b t = Some 0"
  using assms omap_Panic [of "price_ratio a b" "common_tokens a b"] price_ratio_Panic [of a b]
  by (auto simp: scaling_factor_def outc common_tokens_iff)

lemma price_ratio_not_Err [simp]: "price_ratio a b t \<noteq> Err e"
  by (auto simp: price_ratio_def big_rational_new_def outc)

lemma scaling_factor_not_Err [simp]: "scaling_factor a b \<noteq> Err e"
  using omap_Err [of "price_ratio a b" "common_tokens a b"] by (auto simp: scaling_factor_def outc)

lemma merge_cases:
  obtains (err) e where "merge s other = Err e"
  | (panic) t where "merge s other = Panic"
      "map_of (so_prices s) t = Some 0 \<and> t \<in> fst ` set (so_prices other)
       \<or> map_of (so_prices other) t = Some 0 \<and> t \<in> fst ` set (so_prices s)"
  | (into) q where "1 \<le> q" "merge s other = merge_into q s other" "set (user_uids s) \<inter> set (user_uids other) = {}"
  | (swapped) q where "1 \<le> q" "merge s other = merge_into q other s" "set (user_uids s) \<inter> set (user_uids other) = {}"
proof (cases "so_solver s \<noteq> so_solver other \<or> set (user_uids s) \<inter> set (user_uids other) \<noteq> {}")
  case True
  then have "merge s other = Err (Incompatible ''Solvers'') \<or> merge s other = Err DuplicateTrade"
    by (subst merge.simps, subst (2) merge.simps) auto
  then show ?thesis
    using err by blast
next
  case False
  have step: "merge x y = (case scaling_factor (so_prices x) (so_prices y) of
        Ok (Some q) \<Rightarrow> if q < 1 then merge y x else merge_into q x y
      | Ok None \<Rightarrow> Err IncongruentPrices | Err e \<Rightarrow> Err e | Panic \<Rightarrow> Panic)"
    if "so_solver x = so_solver y" "set (user_uids x) \<inter> set (user_uids y) = {}" for x y :: "'f solution"
    using that by (subst merge.simps) (auto split: outcome.split option.split)
  have fwd: "so_solver s = so_solver other" "set (user_uids s) \<inter> set (user_uids other) = {}"
    and bwd: "so_solver other = so_solver s" "set (user_uids other) \<inter> set (user_uids s) = {}"
    using False by auto
  show ?thesis
  proof (cases "scaling_factor (so_prices s) (so_prices other) :: (merge_error, _) outcome")
    case Panic
    then show ?thesis
      using panic step [OF fwd] scaling_factor_Panic [OF Panic] by auto
  next
    case (Ok f)
    show ?thesis
    proof (cases f)
      case None
      with Ok show ?thesis
        using err step [OF fwd] by simp
    next
      case (Some q)
      show ?thesis
      proof (cases "q < 1")
        case False
        with Ok Some show ?thesis
          using into [of q] step [OF fwd] fwd(2) by simp
      next
        case True
        have eq: "merge s other = merge other s"
          using Ok Some True step [OF fwd] by simp
        show ?thesis
        proof (cases "scaling_factor (so_prices other) (so_prices s) :: (merge_error, _) outcome")
          case Panic
          then show ?thesis
            using panic eq step [OF bwd] scaling_factor_Panic [OF Panic] by auto
        next
          case (Ok f')
          show ?thesis
          proof (cases f')
            case None
            with Ok show ?thesis
              using err eq step [OF bwd] by simp
          next
            case (Some r)
            have "1 < r"
              using scaling_factor_inverse [of "so_prices s" "so_prices other" q r, where 'e = merge_error]
                \<open>scaling_factor (so_prices s) (so_prices other) = Ok f\<close> \<open>f = Some q\<close> True Ok Some by simp
            then show ?thesis
              using swapped [of r] eq step [OF bwd] Ok Some fwd(2) by simp
          qed
        qed simp
      qed
    qed
  qed simp
qed

lemma merge_price_Ok:
  assumes "merge_price q (token, price) prices = Ok prices'"
  obtains v where "map_of prices \<subseteq>\<^sub>m map_of prices'" "map_of prices' token = Some v"
    "big_rational_to_u256 (u256_to_big_rational price * q) = Ok v"
proof -
  from assms obtain v where v: "big_rational_to_u256 (u256_to_big_rational price * q) = Ok v"
    and ins: "(case map_of prices token of
       Some p \<Rightarrow> if p \<noteq> v then Err IncongruentPrices else Ok prices
     | None \<Rightarrow> Ok (prices @ [(token, v)])) = Ok prices'"
    by (auto simp: merge_price_def outc)
  from ins have "map_of prices \<subseteq>\<^sub>m map_of prices' \<and> map_of prices' token = Some v"
    by (auto simp: map_le_def map_add_def split: option.splits if_splits)
  with v that show ?thesis by blast
qed

lemma merge_prices_Ok:
  assumes "ofold (merge_price q) other base = Ok prices"
  shows "map_of base \<subseteq>\<^sub>m map_of prices
    \<and> list_all (\<lambda>(token, price). \<exists>v. map_of prices token = Some v
          \<and> big_rational_to_u256 (u256_to_big_rational price * q) = Ok v) other"
  using assms
proof (induction other arbitrary: base)
  case (Cons e other)
  obtain token price where e: "e = (token, price)" by (cases e)
  with Cons.prems obtain mid where mid: "merge_price q (token, price) base = Ok mid"
    and rest: "ofold (merge_price q) other mid = Ok prices"
    by (auto simp: outc)
  from mid obtain v where "map_of base \<subseteq>\<^sub>m map_of mid" "map_of mid token = Some v"
    "big_rational_to_u256 (u256_to_big_rational price * q) = Ok v"
    by (rule merge_price_Ok)
  moreover note Cons.IH [OF rest]
  ultimately show ?case
    by (auto simp: e map_le_def dom_def intro: map_le_trans)
qed simp

lemma merge_price_not_Panic: "ofold (merge_price q) other base \<noteq> Panic"
  by (induction other arbitrary: base) (auto simp: outc merge_price_def split: option.splits if_splits)

lemma merge_into_Panic: "merge_into q s other = Panic \<Longrightarrow>
    \<exists>x y. so_gas s = Some x \<and> so_gas other = Some y \<and> 2 ^ 256 \<le> unat x + unat y"
  by (auto simp: merge_into_def outc merge_price_not_Panic merge_gas_def add_p_Panic split: option.splits)

subsection \<open>What a merged solution is\<close>

text \<open>The merge of \<open>y\<close> into \<open>x\<close>, with the prices of \<open>y\<close> scaled by \<open>q\<close> and rounded down.\<close>

definition merged_with :: "rat \<Rightarrow> 'f solution \<Rightarrow> 'f solution \<Rightarrow> 'f solution \<Rightarrow> bool" where
  "merged_with q x y m \<longleftrightarrow>
     so_trades m = so_trades x @ so_trades y
     \<and> ids (so_id m) = ids (so_id x) @ ids (so_id y)
     \<and> so_interactions m = so_interactions x @ so_interactions y
     \<and> map_of (so_prices x) \<subseteq>\<^sub>m map_of (so_prices m)
     \<and> list_all (\<lambda>(token, price). map_option (\<lambda>v. int (unat v)) (map_of (so_prices m) token)
                                       = Some \<lfloor>of_nat (unat price) * q\<rfloor>) (so_prices y)"

lemma scaled_price:
  assumes "1 \<le> q" "big_rational_to_u256 (u256_to_big_rational price * q) = Ok v"
  shows "int (unat v) = \<lfloor>of_nat (unat price) * q\<rfloor>"
proof -
  have "0 \<le> of_nat (unat price) * q"
    using assms(1) by (intro mult_nonneg_nonneg of_nat_0_le_iff) simp
  then have "0 \<le> \<lfloor>of_nat (unat price) * q\<rfloor>"
    by simp
  then show ?thesis
    using assms(2) by (simp only: big_rational_to_u256_Ok u256_rational max_absorb2)
qed

lemma merge_into_Ok:
  assumes "1 \<le> q" "merge_into q x y = Ok m"
  shows "merged_with q x y m"
proof -
  from assms(2) have prices: "ofold (merge_price q) (so_prices y) (so_prices x) = Ok (so_prices m)"
    and fields: "so_trades m = so_trades x @ so_trades y" "ids (so_id m) = ids (so_id x) @ ids (so_id y)"
      "so_interactions m = so_interactions x @ so_interactions y"
    by (auto simp: merge_into_def outc)
  have "list_all (\<lambda>(token, price). map_option (\<lambda>v. int (unat v)) (map_of (so_prices m) token)
                                       = Some \<lfloor>of_nat (unat price) * q\<rfloor>) (so_prices y)"
    using merge_prices_Ok [OF prices] scaled_price [OF assms(1)]
    by (fastforce simp: list_all_iff)
  with fields merge_prices_Ok [OF prices] show ?thesis
    by (simp add: merged_with_def)
qed

section \<open>Allowances: lemmas\<close>

abbreviation allowance_key :: "allowance \<Rightarrow> h160 \<times> h160" where
  "allowance_key a \<equiv> (al_token a, al_spender a)"

definition required_amount :: "allowance list \<Rightarrow> h160 \<times> h160 \<Rightarrow> nat" where
  "required_amount as k = sum_list (map (\<lambda>a. unat (al_amount a)) (filter (\<lambda>a. allowance_key a = k) as))"

lemma normalized_allowances:
  "distinct (map fst (foldl add_allowance [] as))
   \<and> (\<forall>k. map_of (foldl add_allowance [] as) k =
        (if k \<in> allowance_key ` set as then Some (of_nat (min (required_amount as k) (2 ^ 256 - 1))) else None))"
proof (induction as rule: rev_induct)
  case Nil
  show ?case by simp
next
  case (snoc a as)
  let ?m = "foldl add_allowance [] as" and ?k = "allowance_key a"
  have amount: "unat (case map_of ?m ?k of Some x \<Rightarrow> x | None \<Rightarrow> 0) = min (required_amount as ?k) (2 ^ 256 - 1)"
  proof (cases "?k \<in> allowance_key ` set as")
    case True
    then show ?thesis
      using snoc by (simp add: unat_of_nat)
  next
    case False
    have "allowance_key b \<noteq> ?k" if "b \<in> set as" for b
      using False rev_image_eqI [OF that, of ?k allowance_key] by auto
    then have "filter (\<lambda>b. allowance_key b = ?k) as = []"
      unfolding filter_empty_conv by blast
    with False show ?thesis
      using snoc by (simp add: required_amount_def)
  qed
  have "saturating_add (case map_of ?m ?k of Some x \<Rightarrow> x | None \<Rightarrow> 0) (al_amount a)
      = of_nat (min (required_amount (as @ [a]) ?k) (2 ^ 256 - 1))"
    unfolding word_unat_eq_iff unat_saturating_add amount
    by (simp add: unat_of_nat required_amount_def min_def)
  moreover have "required_amount (as @ [a]) k = required_amount as k" if "k \<noteq> ?k" for k
    using that by (simp add: required_amount_def)
  ultimately show ?case
    using snoc by (auto simp: add_allowance_def Let_def update_conv distinct_update)
qed

interpretation allowance_order: total_preorder allowance_le
  by unfold_locales (auto simp: allowance_le_def)

section \<open>Solutions: lemmas\<close>

definition valid_trade :: "'f trade \<Rightarrow> bool" where
  "valid_trade t = (case t of Fulfillment f \<Rightarrow> fulfillment_valid f | JitTrade j \<Rightarrow> True)"

definition captures_surplus :: "h160 set \<Rightarrow> 'f trade \<Rightarrow> bool" where
  "captures_surplus owners t =
     (case t of Fulfillment f \<Rightarrow> False | JitTrade j \<Rightarrow> ds_signer (jo_signature (jt_order j)) \<in> owners)"

definition priced :: "s_prices \<Rightarrow> h160 \<Rightarrow> 'f fulfillment \<Rightarrow> bool" where
  "priced prices weth f \<longleftrightarrow>
     map_of prices (wrap weth (as_token (do_sell (fu_order f)))) \<noteq> None
     \<and> map_of prices (wrap weth (as_token (do_buy (fu_order f)))) \<noteq> None"

lemma convert_jit_Ok:
  assumes "convert_jit owners t = Ok t'" "valid_trade t"
  shows "valid_trade t' \<and> \<not> captures_surplus owners t'"
  using assms
  by (cases t) (auto simp: valid_trade_def captures_surplus_def outc intro: fulfillment_new_valid split: if_splits)

lemma convert_jit_not_Panic [simp]: "convert_jit owners t \<noteq> Panic"
  by (cases t) (auto simp: outc)

lemma convert_jit_Err: "convert_jit owners t = Err e \<Longrightarrow> \<exists>e'. e = InvalidJitTrade e'"
  by (cases t) (auto simp: outc split: if_splits)

text \<open>Every user trade of the list has prices, in terms of the trades themselves.\<close>

definition priced_trade :: "s_prices \<Rightarrow> h160 \<Rightarrow> 'f trade \<Rightarrow> bool" where
  "priced_trade prices weth t = (case user_trade t of None \<Rightarrow> True | Some f \<Rightarrow> priced prices weth f)"

lemma priced_user_trades:
  "list_all (priced prices weth) (List.map_filter user_trade ts) \<longleftrightarrow> list_all (priced_trade prices weth) ts"
  by (induction ts) (auto simp: List.map_filter_simps priced_trade_def split: option.split)

lemma charge_trade_cases:
  assumes "valid_trade t" "priced_trade prices weth t"
  shows "case charge_trade scaled prices weth t of
      Ok t' \<Rightarrow> valid_trade t' \<and> priced_trade prices weth t' \<and> captures_surplus owners t' = captures_surplus owners t
    | Err e \<Rightarrow> e \<noteq> ProtocolFee (FeeFulfillment InvalidExecutedAmount)
    | Panic \<Rightarrow> False"
proof (cases "user_trade t")
  case None
  then have "charge_trade scaled prices weth t = Ok t"
    by (cases t) (auto split: d_kind.splits)
  with assms show ?thesis by simp
next
  case (Some f)
  then have t: "t = Fulfillment f" and kind: "do_kind (fu_order f) \<noteq> KindLiquidity"
    by (cases t; auto split: d_kind.splits)+
  from assms Some t have valid: "fulfillment_valid f" and "priced prices weth f"
    by (simp_all add: valid_trade_def priced_trade_def)
  then obtain sell buy where prices: "map_of prices (wrap weth (as_token (do_sell (fu_order f)))) = Some sell"
    "map_of prices (wrap weth (as_token (do_buy (fu_order f)))) = Some buy"
    by (auto simp: priced_def)
  have eq: "charge_trade scaled prices weth t =
      obind (map_err ProtocolFee (with_protocol_fees scaled \<lparr> cp_sell = sell, cp_buy = buy \<rparr> f)) (\<lambda>f'. Ok (Fulfillment f'))"
    using kind prices by (simp add: t split: d_kind.split)
  show ?thesis
    using with_protocol_fee_list [OF valid, of scaled "\<lparr> cp_sell = sell, cp_buy = buy \<rparr>" "do_protocol_fees (fu_order f)"]
      \<open>priced prices weth f\<close> kind
    unfolding eq with_protocol_fees_def [symmetric]
    by (cases "with_protocol_fees scaled \<lparr> cp_sell = sell, cp_buy = buy \<rparr> f")
       (auto simp: valid_trade_def priced_trade_def captures_surplus_def charged_def priced_def t split: d_kind.split)
qed

lemma charge_trades_cases:
  assumes "list_all valid_trade ts" "list_all (priced_trade prices weth) ts" "list_all (\<lambda>t. \<not> captures_surplus owners t) ts"
  shows "case omap (charge_trade scaled prices weth) ts of
      Ok ts' \<Rightarrow> list_all valid_trade ts' \<and> list_all (priced_trade prices weth) ts' \<and> list_all (\<lambda>t. \<not> captures_surplus owners t) ts'
    | Err e \<Rightarrow> e \<noteq> ProtocolFee (FeeFulfillment InvalidExecutedAmount)
    | Panic \<Rightarrow> False"
  using assms
proof (induction ts)
  case (Cons t ts)
  then show ?case
    using charge_trade_cases [where t = t and prices = prices and weth = weth and scaled = scaled and owners = owners]
    by (cases "charge_trade scaled prices weth t"; cases "omap (charge_trade scaled prices weth) ts") auto
qed simp

text \<open>
  What becomes of a trade: a just-in-time trade of a surplus-capturing owner is a limit order with the executed amount and fee of the
  trade; a user's fulfillment is charged at the clearing prices of its tokens, when the driver charges the fees; the others stay.
\<close>

definition becomes :: "('f \<Rightarrow> u256) \<Rightarrow> fee_handler \<Rightarrow> h160 set \<Rightarrow> s_prices \<Rightarrow> h160 \<Rightarrow> 'f trade \<Rightarrow> 'f trade \<Rightarrow> bool" where
  "becomes scaled handler owners prices weth t t' =
     (case t of
        JitTrade j \<Rightarrow>
          t' = (if ds_signer (jo_signature (jt_order j)) \<in> owners
                then Fulfillment \<lparr>fu_order = jit_order (jt_order j), fu_executed = jt_executed j, fu_fee = Dynamic (jt_fee j)\<rparr>
                else JitTrade j)
      | Fulfillment f \<Rightarrow>
          if handler \<noteq> HandlerDriver \<or> do_kind (fu_order f) = KindLiquidity then t' = Fulfillment f
          else \<exists>f' sell buy. t' = Fulfillment f' \<and> fu_order f' = fu_order f
             \<and> map_of prices (wrap weth (as_token (do_sell (fu_order f)))) = Some sell
             \<and> map_of prices (wrap weth (as_token (do_buy (fu_order f)))) = Some buy
             \<and> with_protocol_fees scaled \<lparr> cp_sell = sell, cp_buy = buy \<rparr> f = Ok f')"

lemma with_protocol_fees_order:
  assumes "with_protocol_fees scaled prices f = Ok f'"
  shows "fu_order f' = fu_order f"
proof -
  have "fu_order f' = fu_order g" if "ofold (with_protocol_fee scaled prices) policies g = Ok f'" for policies g
    using that
  proof (induction policies arbitrary: g)
    case (Cons policy policies)
    then obtain g' where g': "with_protocol_fee scaled prices policy g = Ok g'"
      and "ofold (with_protocol_fee scaled prices) policies g' = Ok f'"
      by (auto simp: outc)
    moreover have "fu_order g' = fu_order g"
      using g' by (auto simp: with_protocol_fee_def fulfillment_new_def outc split: if_splits)
    ultimately show ?case
      using Cons.IH by simp
  qed simp
  with assms show ?thesis
    by (simp add: with_protocol_fees_def)
qed

lemma convert_jit_becomes:
  "handler \<noteq> HandlerDriver \<Longrightarrow> convert_jit owners t = Ok t' \<Longrightarrow> becomes scaled handler owners prices weth t t'"
  by (cases t) (auto simp: becomes_def outc fulfillment_new_def split: if_splits)

lemma charge_trade_becomes:
  assumes "convert_jit owners t = Ok t'" "charge_trade scaled prices weth t' = Ok t''"
  shows "becomes scaled HandlerDriver owners prices weth t t''"
proof (cases t)
  case (Fulfillment f)
  with assms show ?thesis
    by (auto simp: becomes_def outc with_protocol_fees_order split: d_kind.splits)
next
  case (JitTrade j)
  with assms show ?thesis
    by (auto simp: becomes_def outc fulfillment_new_def jit_order_def with_protocol_fees_def split: if_splits)
qed

lemma charge_trades_become:
  assumes "omap (convert_jit owners) ts = Ok ts'" "omap (charge_trade scaled prices weth) ts' = Ok ts''"
  shows "list_all2 (becomes scaled HandlerDriver owners prices weth) ts ts''"
  using assms unfolding omap_Ok by (rule list_all2_trans [rotated]) (rule charge_trade_becomes)

section \<open>Properties\<close>

text \<open>
  C14. Constructing a solution from valid fulfillments never panics, although the prices are indexed without a check. In
  the result every user trade has a clearing price for both of its tokens, and every fulfillment is valid. The trades are
  those of the answer, one for one and in their order: a just-in-time trade of a surplus-capturing owner has become the fulfillment of
  its order with its executed amount and its fee, any other one is unchanged, a user's fulfillment is charged the protocol fees of its order
  at the clearing prices of its tokens if the driver handles the fees, and unchanged otherwise. The protocol fees never
  turn a valid fulfillment into one that is rejected for its executed amount, and all other fields are those of the answer.
\<close>

theorem solution_new_valid:
  assumes "list_all valid_trade (so_trades args)"
  shows "case solution_new scaled args handler owners of
      Ok s \<Rightarrow> list_all valid_trade (so_trades s)
        \<and> list_all (\<lambda>t. \<not> captures_surplus owners t) (so_trades s)
        \<and> list_all (priced (so_prices s) (so_weth s)) (user_trades s)
        \<and> list_all2 (becomes scaled handler owners (so_prices args) (so_weth args)) (so_trades args) (so_trades s)
        \<and> s = args\<lparr>so_trades := so_trades s\<rparr>
    | Err e \<Rightarrow> e \<noteq> ProtocolFee (FeeFulfillment InvalidExecutedAmount)
    | Panic \<Rightarrow> False"
proof (cases "omap (convert_jit owners) (so_trades args)")
  case (Err e)
  then obtain e' where "e = InvalidJitTrade e'"
    using omap_Err [of "convert_jit owners" "so_trades args" e] convert_jit_Err by blast
  with Err show ?thesis
    by (simp add: solution_new_def)
next
  case Panic
  then show ?thesis
    using omap_Panic [of "convert_jit owners" "so_trades args"] by auto
next
  case (Ok ts)
  let ?s = "args\<lparr>so_trades := ts\<rparr>" and ?charge = "charge_trade scaled (so_prices args) (so_weth args)"
  have ts: "list_all valid_trade ts" "list_all (\<lambda>t. \<not> captures_surplus owners t) ts"
    by (rule omap_list_all [OF Ok assms], use convert_jit_Ok [of owners] in blast)+
  show ?thesis
  proof (cases "list_all (priced (so_prices args) (so_weth args)) (user_trades ?s)")
    case False
    then have "solution_new scaled args handler owners = Err InvalidClearingPrices"
      by (auto simp: solution_new_def Ok Let_def clearing_price_def priced_def list_all_iff list_ex_iff)
    then show ?thesis by simp
  next
    case True
    then have trades: "list_all (priced_trade (so_prices args) (so_weth args)) ts"
      by (simp add: user_trades_def priced_user_trades)
    have new: "solution_new scaled args handler owners =
        (if handler \<noteq> HandlerDriver then Ok ?s else obind (omap ?charge ts) (\<lambda>ts'. Ok (args\<lparr>so_trades := ts'\<rparr>)))"
      using True by (auto simp: solution_new_def Ok Let_def clearing_price_def priced_def list_all_iff list_ex_iff)
    show ?thesis
    proof (cases "handler = HandlerDriver")
      case False
      have "list_all2 (becomes scaled handler owners (so_prices args) (so_weth args)) (so_trades args) ts"
        using Ok unfolding omap_Ok by (rule list_all2_mono) (rule convert_jit_becomes [OF False])
      with False new ts True show ?thesis by simp
    next
      case driver: True
      show ?thesis
        using charge_trades_cases [OF ts(1) trades ts(2), of scaled] charge_trades_become [OF Ok]
        unfolding new
        by (cases "omap ?charge ts") (simp_all add: driver user_trades_def priced_user_trades)
    qed
  qed
qed

text \<open>Two solutions of one solver that share a token, at prices 4 and 8 of it.\<close>

definition example_solution :: "u64 \<Rightarrow> unit trade list \<Rightarrow> s_prices \<Rightarrow> unit solution" where
  "example_solution i trades prices =
     \<lparr> so_id = Single i, so_trades = trades, so_prices = prices, so_pre_interactions = [], so_interactions = [],
       so_post_interactions = [], so_solver = 5, so_weth = 9, so_gas = None \<rparr>"

theorem solution_new_valid_witness:
  "\<exists>s. solution_new (\<lambda>_. 500000000000000000)
        (example_solution 1 [Fulfillment (example_fulfillment 323 10)] [(1, 4), (2, 10)]) HandlerDriver {}
      = Ok s \<and> list_all (priced (so_prices s) (so_weth s)) (user_trades s) \<and> user_trades s = [example_fulfillment 286 47]"
proof -
  let ?args = "example_solution 1 [Fulfillment (example_fulfillment 323 10)] [(1, 4), (2, 10)]"
  have ord: "do_kind (fu_order (example_fulfillment e f)) = KindLimit" "as_token (do_sell (fu_order (example_fulfillment e f))) = 1"
    "as_token (do_buy (fu_order (example_fulfillment e f))) = 2" for e f
    by (simp_all add: example_fulfillment_def example_charged_order_def example_order_def)
  have charged: "with_protocol_fees (\<lambda>_. 500000000000000000) \<lparr> cp_sell = 4, cp_buy = 10 \<rparr> (example_fulfillment 323 10)
      = Ok (example_fulfillment 286 47)"
    using example_fees_charged by (simp add: example_prices_def)
  have "solution_new (\<lambda>_. 500000000000000000) ?args HandlerDriver {}
      = Ok (?args\<lparr>so_trades := [Fulfillment (example_fulfillment 286 47)]\<rparr>)"
    by (simp add: solution_new_def example_solution_def user_trades_def List.map_filter_simps clearing_price_def wrap_def
        ETH_TOKEN_def ord charged)
  moreover have "list_all valid_trade (so_trades ?args)"
    by (simp add: example_solution_def valid_trade_def example_fulfillment_valid)
  ultimately show ?thesis
    using solution_new_valid [where args = ?args and scaled = "\<lambda>_. 500000000000000000" and handler = HandlerDriver and owners = "{}"]
    by (simp add: user_trades_def List.map_filter_simps ord)
qed

text \<open>
  C15. Merging is sound: it happens only for solutions that settle no order of a user in common; the trades, interactions
  and identifiers are put one after the other; all prices of one of the two solutions are kept, and every price of the other
  one is multiplied by one common factor of at least 1 and rounded down, so that no price of either solution is lost or
  contradicted. It panics in two cases only: a token that both solutions price has the price zero in one of them,
  or the sum of the gas estimates overflows.
\<close>

theorem merge_sound:
  "case merge s other of
     Ok m \<Rightarrow> set (user_uids s) \<inter> set (user_uids other) = {}
       \<and> (\<exists>q. 1 \<le> q \<and> (merged_with q s other m \<or> merged_with q other s m))
   | Err e \<Rightarrow> True
   | Panic \<Rightarrow> (\<exists>t. map_of (so_prices s) t = Some 0 \<and> t \<in> fst ` set (so_prices other)
                   \<or> map_of (so_prices other) t = Some 0 \<and> t \<in> fst ` set (so_prices s))
       \<or> (\<exists>x y. so_gas s = Some x \<and> so_gas other = Some y \<and> 2 ^ 256 \<le> unat x + unat y)"
proof (cases s other rule: merge_cases)
  case (err e)
  then show ?thesis by simp
next
  case (panic t)
  then show ?thesis by auto
next
  case (into q)
  then show ?thesis
    using merge_into_Ok [of q s other] merge_into_Panic [of q s other] by (auto split: outcome.split)
next
  case (swapped q)
  then show ?thesis
    using merge_into_Ok [of q other s] merge_into_Panic [of q other s]
    by (auto split: outcome.split simp: add.commute)
qed

text \<open>
  The allowances of a solution are normalized: sorted, with one entry for each pair of a token and a spender that some
  executed interaction needs, whose amount is the sum of what the interactions need, capped at the largest 256-bit
  integer. Internalized interactions need none when internalization is enabled.
\<close>

theorem allowances_normalized:
  "sorted_wrt allowance_le (allowances s mode)
   \<and> distinct (map allowance_key (allowances s mode))
   \<and> allowance_key ` set (allowances s mode) = allowance_key ` set (required_allowances s mode)
   \<and> list_all (\<lambda>a. unat (al_amount a) = min (required_amount (required_allowances s mode) (allowance_key a)) (2 ^ 256 - 1))
       (allowances s mode)"
proof -
  let ?req = "required_allowances s mode"
  let ?m = "foldl add_allowance [] ?req"
  let ?mk = "\<lambda>((token, spender), amount). \<lparr> al_token = token, al_spender = spender, al_amount = amount \<rparr>"
  have mset: "mset (allowances s mode) = mset (map ?mk ?m)" and sorted: "sorted_wrt allowance_le (allowances s mode)"
    by (simp_all add: allowances_def Let_def allowance_order.sorted_sort_by)
  from mset have set: "set (allowances s mode) = ?mk ` set ?m"
    using mset_eq_setD [OF mset] by (simp only: set_map)
  have norm: "distinct (map fst ?m)" "\<And>k. map_of ?m k =
      (if k \<in> allowance_key ` set ?req then Some (of_nat (min (required_amount ?req k) (2 ^ 256 - 1))) else None)"
    using normalized_allowances [of ?req] by (simp_all only: simp_thms)
  have key: "allowance_key (?mk p) = fst p" "al_amount (?mk p) = snd p" for p
    by (cases p; cases "fst p"; simp)+
  have "map allowance_key (map ?mk ?m) = map fst ?m"
    unfolding map_map by (rule map_cong [OF refl]) (simp only: comp_def key)
  then have "distinct (map allowance_key (map ?mk ?m))"
    using norm(1) by (simp only:)
  moreover have "mset (map allowance_key (allowances s mode)) = mset (map allowance_key (map ?mk ?m))"
    using mset by (metis mset_map)
  ultimately have "distinct (map allowance_key (allowances s mode))"
    using mset_eq_imp_distinct_iff by blast
  moreover have "allowance_key ` set (allowances s mode) = allowance_key ` set ?req"
  proof -
    have "allowance_key ` set (allowances s mode) = fst ` set ?m"
      unfolding set image_image by (rule image_cong [OF refl]) (simp only: key)
    also have "\<dots> = dom (map_of ?m)"
      by (simp add: dom_map_of_conv_image_fst)
    also have "\<dots> = allowance_key ` set ?req"
      using norm(2) by (auto simp: dom_def)
    finally show ?thesis .
  qed
  moreover have "unat (al_amount (?mk p)) = min (required_amount ?req (allowance_key (?mk p))) (2 ^ 256 - 1)" if "p \<in> set ?m" for p
  proof -
    have "map_of ?m (fst p) = Some (snd p)"
      using norm(1) that by simp
    then have "snd p = of_nat (min (required_amount ?req (fst p)) (2 ^ 256 - 1))"
      using norm(2) [of "fst p"] by (simp split: if_splits)
    then show ?thesis
      by (simp only: key) (simp add: unat_of_nat)
  qed
  ultimately show ?thesis
    using sorted by (auto simp: list_all_iff set)
qed

end
