(* ===== verification/Native_Prices.thy ===== *)
theory Native_Prices
  imports Stable_Sort Prelude Complex_Main "HOL-Library.AList"
begin

text \<open>
  Native token prices: the cache \<open>crates/shared/src/price_estimation/native_price_cache.rs\<close> and the normalisation of a price
  to wei, \<open>to_normalized_price\<close> and \<open>get_native_prices\<close> of \<open>crates/autopilot/src/solvable_orders.rs\<close>.

  An \<open>f64\<close> is not a number, an infinity or a rational. The rounding of an exact result to the nearest \<open>f64\<close> is the parameter
  \<open>rnd\<close>, the conversion \<open>U256::from_f64_lossy\<close> the parameter \<open>from_f64_lossy\<close>. An \<open>Instant\<close> and a \<open>Duration\<close> are in
  nanoseconds; an \<open>Instant\<close> has signed 64-bit seconds. A \<open>HashMap\<close> is an association list with distinct keys: its order stands
  for the unspecified order of iteration.

  The background task fetches several prices at once. What its tasks do to the cache, interleaved in any order with the look-ups
  of the other threads, is the step relation \<open>cache_reachable\<close>; the functions, one call after the other, are runs of it. The
  clock is read before the lock is taken, so the relation does not assume that the instants are in the order of the steps.
\<close>

section \<open>Floating point numbers\<close>

datatype f64 = NaN | Infinite bool | Finite rat

text \<open>A product with, and a quotient by, a positive literal.\<close>

fun f64_scale :: "(rat \<Rightarrow> f64) \<Rightarrow> rat \<Rightarrow> f64 \<Rightarrow> f64" where
  "f64_scale rnd c NaN = NaN"
| "f64_scale rnd c (Infinite neg) = Infinite neg"
| "f64_scale rnd c (Finite x) = rnd (c * x)"

fun f64_div_by :: "(rat \<Rightarrow> f64) \<Rightarrow> f64 \<Rightarrow> rat \<Rightarrow> f64" where
  "f64_div_by rnd NaN c = NaN"
| "f64_div_by rnd (Infinite neg) c = Infinite neg"
| "f64_div_by rnd (Finite x) c = rnd (x / c)"

fun f64_is_normal :: "f64 \<Rightarrow> bool" where
  "f64_is_normal (Finite x) \<longleftrightarrow> 1 / 2 ^ 1022 \<le> \<bar>x\<bar>"
| "f64_is_normal _ \<longleftrightarrow> False"

text \<open>The comparisons with a literal: those of \<open>NaN\<close> are all false.\<close>

fun f64_ge :: "f64 \<Rightarrow> rat \<Rightarrow> bool" where
  "f64_ge NaN c \<longleftrightarrow> False"
| "f64_ge (Infinite neg) c \<longleftrightarrow> \<not> neg"
| "f64_ge (Finite x) c \<longleftrightarrow> c \<le> x"

fun f64_lt :: "f64 \<Rightarrow> rat \<Rightarrow> bool" where
  "f64_lt NaN c \<longleftrightarrow> False"
| "f64_lt (Infinite neg) c \<longleftrightarrow> neg"
| "f64_lt (Finite x) c \<longleftrightarrow> x < c"

definition to_normalized_price :: "(rat \<Rightarrow> f64) \<Rightarrow> (f64 \<Rightarrow> u256) \<Rightarrow> f64 \<Rightarrow> u256 option" where
  "to_normalized_price rnd from_f64_lossy price =
     (let price_in_eth = f64_scale rnd (10 ^ 18) price
      in if f64_is_normal price_in_eth \<and> f64_ge price_in_eth 1 \<and> f64_lt price_in_eth (2 ^ 256)
         then Some (from_f64_lossy price_in_eth) else None)"

section \<open>The cache\<close>

datatype price_estimation_error =
    UnsupportedToken h160 string | NoLiquidity | UnsupportedOrderType string | RateLimited
  | EstimatorInternal string | ProtocolInternal string

type_synonym cache_entry = "price_estimation_error + f64"
type_synonym instant = int
type_synonym duration = nat

record cached_result =
  cr_result :: cache_entry
  cr_updated_at :: instant
  cr_requested_at :: instant

type_synonym price_cache = "(h160 \<times> cached_result) list"

record native_inner =
  ni_cache :: price_cache
  ni_high_priority :: "h160 list"
  ni_max_age :: duration

definition saturating_duration_since :: "instant \<Rightarrow> instant \<Rightarrow> duration" where
  "saturating_duration_since now earlier = nat (now - earlier)"

definition instant_checked_sub :: "instant \<Rightarrow> duration \<Rightarrow> instant option" where
  "instant_checked_sub t d = (if - (2 ^ 63 * 10 ^ 9) \<le> t - int d then Some (t - int d) else None)"

text \<open>\<open>Inner::get_cached_price\<close>: a look-up marks the entry as requested; a missing entry is created outdated on demand.\<close>

definition get_cached_price ::
  "h160 \<Rightarrow> instant \<Rightarrow> duration \<Rightarrow> bool \<Rightarrow> price_cache \<Rightarrow> ('e, cache_entry option \<times> price_cache) outcome" where
  "get_cached_price token now max_age create_missing_entry cache =
     (case map_of cache token of
        Some entry \<Rightarrow>
          let is_recent = saturating_duration_since now (cr_updated_at entry) < max_age
          in Ok (if is_recent then Some (cr_result entry) else None,
                 AList.update token (entry\<lparr>cr_requested_at := now\<rparr>) cache)
      | None \<Rightarrow>
          if create_missing_entry then
            obind (expect (instant_checked_sub now max_age)) (\<lambda>outdated_timestamp.
            Ok (None, AList.update token
              \<lparr>cr_result = Inr (Finite 0), cr_updated_at = outdated_timestamp, cr_requested_at = now\<rparr> cache))
          else Ok (None, cache))"

fun should_cache :: "cache_entry \<Rightarrow> bool" where
  "should_cache (Inr _) \<longleftrightarrow> True"
| "should_cache (Inl NoLiquidity) \<longleftrightarrow> True"
| "should_cache (Inl (UnsupportedToken _ _)) \<longleftrightarrow> True"
| "should_cache (Inl (EstimatorInternal _)) \<longleftrightarrow> False"
| "should_cache (Inl (ProtocolInternal _)) \<longleftrightarrow> False"
| "should_cache (Inl RateLimited) \<longleftrightarrow> False"
| "should_cache (Inl (UnsupportedOrderType _)) \<longleftrightarrow> False"

text \<open>The second half of a task of \<open>estimate_prices_and_update_cache\<close>: the result of the estimator is stored, or not.\<close>

definition store_estimate :: "h160 \<Rightarrow> instant \<Rightarrow> cache_entry \<Rightarrow> price_cache \<Rightarrow> price_cache" where
  "store_estimate token now result cache =
     (if should_cache result
      then AList.update token \<lparr>cr_result = result, cr_updated_at = now, cr_requested_at = now\<rparr> cache
      else cache)"

text \<open>
  One task: the cache is checked at the instant \<open>fst now\<close>, the price fetched, and the cache updated at the instant \<open>snd now\<close>.
\<close>

definition estimate_task ::
  "(h160 \<Rightarrow> cache_entry) \<Rightarrow> duration \<Rightarrow> h160 \<Rightarrow> instant \<times> instant \<Rightarrow> price_cache
    \<Rightarrow> ('e, cache_entry \<times> price_cache) outcome" where
  "estimate_task estimate_native_price max_age token now cache =
     obind (get_cached_price token (fst now) max_age False cache) (\<lambda>(price, cache).
     case price of
       Some price \<Rightarrow> Ok (price, cache)
     | None \<Rightarrow>
         let result = estimate_native_price token
         in Ok (result, store_estimate token (snd now) result cache))"

text \<open>\<open>estimate_prices_and_update_cache\<close> with the tasks one after the other; \<open>clock i\<close> are the instants of the task \<open>i\<close>.\<close>

fun estimate_prices_and_update_cache ::
  "(h160 \<Rightarrow> cache_entry) \<Rightarrow> (nat \<Rightarrow> instant \<times> instant) \<Rightarrow> duration \<Rightarrow> nat \<Rightarrow> h160 list \<Rightarrow> price_cache
    \<Rightarrow> ('e, (nat \<times> cache_entry) list \<times> price_cache) outcome" where
  "estimate_prices_and_update_cache est clock max_age index [] cache = Ok ([], cache)"
| "estimate_prices_and_update_cache est clock max_age index (token # tokens) cache =
     obind (estimate_task est max_age token (clock index) cache) (\<lambda>(result, cache).
     obind (estimate_prices_and_update_cache est clock max_age (Suc index) tokens cache) (\<lambda>(results, cache).
     Ok ((index, result) # results, cache)))"

text \<open>\<open>get_index_of\<close> in the set of high priority tokens; a token outside it comes last (\<open>usize::MAX\<close>).\<close>

fun get_index_of :: "h160 list \<Rightarrow> h160 \<Rightarrow> nat option" where
  "get_index_of [] token = None"
| "get_index_of (t # ts) token = (if t = token then Some 0 else map_option Suc (get_index_of ts token))"

definition token_index :: "h160 list \<Rightarrow> h160 \<Rightarrow> nat" where
  "token_index high_priority token = (case get_index_of high_priority token of Some i \<Rightarrow> i | None \<Rightarrow> 2 ^ 64 - 1)"

text \<open>The key \<open>(index, Reverse(requested_at))\<close> as an order on the outdated entries.\<close>

definition update_le :: "h160 list \<Rightarrow> h160 \<times> instant \<Rightarrow> h160 \<times> instant \<Rightarrow> bool" where
  "update_le high_priority a b \<longleftrightarrow>
     token_index high_priority (fst a) < token_index high_priority (fst b)
     \<or> token_index high_priority (fst a) = token_index high_priority (fst b) \<and> snd b \<le> snd a"

definition sorted_tokens_to_update :: "native_inner \<Rightarrow> duration \<Rightarrow> instant \<Rightarrow> h160 list" where
  "sorted_tokens_to_update inner max_age now =
     (let outdated =
        map (\<lambda>(token, cached). (token, cr_requested_at cached))
          (filter (\<lambda>(_, cached). max_age < saturating_duration_since now (cr_updated_at cached)) (ni_cache inner))
      in map fst (sort_by (update_le (ni_high_priority inner)) outdated))"

text \<open>\<open>UpdateTask::single_update\<close>, and the operations of \<open>CachingNativePriceEstimator\<close>.\<close>

definition single_update ::
  "(h160 \<Rightarrow> cache_entry) \<Rightarrow> instant \<Rightarrow> (nat \<Rightarrow> instant \<times> instant) \<Rightarrow> duration \<Rightarrow> nat option \<Rightarrow> native_inner
    \<Rightarrow> ('e, native_inner) outcome" where
  "single_update est now clock prefetch_time update_size inner =
     (let max_age = ni_max_age inner - prefetch_time;
          outdated_entries = sorted_tokens_to_update inner max_age now;
          outdated_entries = (case update_size of Some n \<Rightarrow> take n outdated_entries | None \<Rightarrow> outdated_entries)
      in if outdated_entries \<noteq> [] then
           obind (estimate_prices_and_update_cache est clock max_age 0 outdated_entries (ni_cache inner)) (\<lambda>(_, cache).
           Ok (inner\<lparr>ni_cache := cache\<rparr>))
         else Ok inner)"

fun get_cached_prices_loop ::
  "instant \<Rightarrow> duration \<Rightarrow> h160 list \<Rightarrow> (h160 \<times> cache_entry) list \<times> price_cache
    \<Rightarrow> ('e, (h160 \<times> cache_entry) list \<times> price_cache) outcome" where
  "get_cached_prices_loop now max_age [] (results, cache) = Ok (results, cache)"
| "get_cached_prices_loop now max_age (token # tokens) (results, cache) =
     obind (get_cached_price token now max_age True cache) (\<lambda>(cached, cache).
     get_cached_prices_loop now max_age tokens
       (case cached of Some result \<Rightarrow> AList.update token result results | None \<Rightarrow> results, cache))"

definition get_cached_prices ::
  "instant \<Rightarrow> h160 list \<Rightarrow> native_inner \<Rightarrow> ('e, (h160 \<times> cache_entry) list \<times> native_inner) outcome" where
  "get_cached_prices now tokens inner =
     obind (get_cached_prices_loop now (ni_max_age inner) tokens ([], ni_cache inner)) (\<lambda>(results, cache).
     Ok (results, inner\<lparr>ni_cache := cache\<rparr>))"

definition replace_high_priority :: "h160 list \<Rightarrow> native_inner \<Rightarrow> native_inner" where
  "replace_high_priority tokens inner = inner\<lparr>ni_high_priority := tokens\<rparr>"

definition estimate_native_price ::
  "(h160 \<Rightarrow> cache_entry) \<Rightarrow> instant \<Rightarrow> instant \<times> instant \<Rightarrow> h160 \<Rightarrow> native_inner
    \<Rightarrow> ('e, cache_entry \<times> native_inner) outcome" where
  "estimate_native_price est now clock token inner =
     obind (get_cached_price token now (ni_max_age inner) False (ni_cache inner)) (\<lambda>(cached, cache).
     case cached of
       Some price \<Rightarrow> Ok (price, inner\<lparr>ni_cache := cache\<rparr>)
     | None \<Rightarrow>
         obind (estimate_prices_and_update_cache est (\<lambda>_. clock) (ni_max_age inner) 0 [token] cache) (\<lambda>(results, cache).
         obind (expect (case results of [] \<Rightarrow> None | r # _ \<Rightarrow> Some r)) (\<lambda>(_, result).
         Ok (result, inner\<lparr>ni_cache := cache\<rparr>))))"

text \<open>\<open>get_native_prices\<close>: the cached prices that are a price in wei.\<close>

definition get_native_prices ::
  "(rat \<Rightarrow> f64) \<Rightarrow> (f64 \<Rightarrow> u256) \<Rightarrow> instant \<Rightarrow> h160 list \<Rightarrow> native_inner
    \<Rightarrow> ('e, (h160 \<times> u256) list \<times> native_inner) outcome" where
  "get_native_prices rnd from_f64_lossy now tokens inner =
     obind (get_cached_prices now tokens inner) (\<lambda>(cached, inner).
     Ok (List.map_filter (\<lambda>(token, result).
           case result of
             Inl _ \<Rightarrow> None
           | Inr price \<Rightarrow> map_option (Pair token) (to_normalized_price rnd from_f64_lossy price)) cached,
         inner))"

section \<open>Prices in wei\<close>

text \<open>What the services rely on of \<open>from_f64_lossy\<close>: a number of the range is truncated to its integer part.\<close>

definition lossy_truncates :: "(f64 \<Rightarrow> u256) \<Rightarrow> bool" where
  "lossy_truncates from_f64_lossy \<longleftrightarrow>
     (\<forall>x. 1 \<le> x \<and> x < 2 ^ 256 \<longrightarrow> from_f64_lossy (Finite x) = word_of_int \<lfloor>x\<rfloor>)"

lemma to_normalized_price_nonzero:
  assumes "lossy_truncates lossy" and "to_normalized_price rnd lossy price = Some w"
  shows "w \<noteq> 0"
proof -
  obtain x where x: "f64_scale rnd (10 ^ 18) price = Finite x" "1 \<le> x" "x < 2 ^ 256"
    and w: "w = lossy (Finite x)"
    using assms(2) by (cases "f64_scale rnd (10 ^ 18) price") (auto simp: to_normalized_price_def split: if_splits)
  have "1 \<le> \<lfloor>x\<rfloor>" "\<lfloor>x\<rfloor> < 2 ^ 256"
    using x(2,3) by (simp_all add: floor_less_iff)
  then have "uint (word_of_int \<lfloor>x\<rfloor> :: u256) = \<lfloor>x\<rfloor>"
    by (simp add: unsigned_of_int take_bit_int_eq_self)
  with \<open>1 \<le> \<lfloor>x\<rfloor>\<close> have "(word_of_int \<lfloor>x\<rfloor> :: u256) \<noteq> 0"
    by (metis not_one_le_zero unsigned_0)
  then show ?thesis
    using assms(1) x(2,3) w by (simp add: lossy_truncates_def)
qed

section \<open>Runs of the cache\<close>

text \<open>
  \<open>cache_reachable max_age cache history created\<close>: after look-ups and stores of any threads, in the order in which they held the
  lock, the cache is \<open>cache\<close>; \<open>history\<close> are the results of the estimator with the instants they were stored at, and \<open>created\<close> the
  missing entries that were created, with the instants of these look-ups. A thread reads the clock before it waits for the
  lock, so that the instants of successive steps are in no particular order.
\<close>

type_synonym price_history = "(h160 \<times> cache_entry \<times> instant) set"
type_synonym placeholders = "(h160 \<times> instant) set"

inductive cache_reachable :: "duration \<Rightarrow> price_cache \<Rightarrow> price_history \<Rightarrow> placeholders \<Rightarrow> bool"
  for max_age :: duration where
  init: "cache_reachable max_age [] {} {}"
| lookup:
    "cache_reachable max_age cache history created \<Longrightarrow> age \<le> max_age \<Longrightarrow> (create \<Longrightarrow> age = max_age) \<Longrightarrow>
     get_cached_price token now age create cache = (Ok (price, cache') :: (unit, _) outcome) \<Longrightarrow>
     cache_reachable max_age cache' history
       (if create \<and> map_of cache token = None then insert (token, now) created else created)"
| store:
    "cache_reachable max_age cache history created \<Longrightarrow>
     cache_reachable max_age (store_estimate token now result cache) (insert (token, result, now) history) created"

text \<open>An entry is a result of the estimator, or the placeholder of a missing price, dated back by the maximal age.\<close>

definition entry_ok :: "duration \<Rightarrow> price_history \<Rightarrow> placeholders \<Rightarrow> h160 \<Rightarrow> cached_result \<Rightarrow> bool" where
  "entry_ok max_age history created token entry \<longleftrightarrow>
     (token, cr_result entry, cr_updated_at entry) \<in> history \<and> should_cache (cr_result entry)
     \<or> cr_result entry = Inr (Finite 0) \<and> (token, cr_updated_at entry + int max_age) \<in> created"

definition cache_ok :: "duration \<Rightarrow> price_cache \<Rightarrow> price_history \<Rightarrow> placeholders \<Rightarrow> bool" where
  "cache_ok max_age cache history created \<longleftrightarrow>
     distinct (map fst cache) \<and> (\<forall>token entry. map_of cache token = Some entry \<longrightarrow> entry_ok max_age history created token entry)"

lemma cache_ok_mono:
  "cache_ok max_age cache history created \<Longrightarrow> history \<subseteq> history' \<Longrightarrow> created \<subseteq> created' \<Longrightarrow> cache_ok max_age cache history' created'"
  unfolding cache_ok_def entry_ok_def by blast

lemma cache_ok_update:
  assumes "cache_ok max_age cache history created" "entry_ok max_age history created token entry"
  shows "cache_ok max_age (AList.update token entry cache) history created"
  using assms by (auto simp: cache_ok_def AList.distinct_update AList.update_conv')

lemma get_cached_price_ok:
  assumes "cache_ok max_age cache history created" "create \<Longrightarrow> age = max_age"
    and "get_cached_price token now age create cache = (Ok (price, cache') :: ('e, _) outcome)"
  shows "cache_ok max_age cache' history
    (if create \<and> map_of cache token = None then insert (token, now) created else created)"
proof (cases "map_of cache token")
  case None
  have "cache_ok max_age cache history (insert (token, now) created)"
    using assms(1) by (rule cache_ok_mono) auto
  with None assms show ?thesis
    by (auto simp: get_cached_price_def outc instant_checked_sub_def entry_ok_def intro!: cache_ok_update split: if_splits)
next
  case (Some entry)
  have "entry_ok max_age history created token (entry\<lparr>cr_requested_at := now\<rparr>)"
    using assms(1) Some by (simp add: cache_ok_def entry_ok_def)
  then show ?thesis
    using assms(1,3) Some by (auto simp: get_cached_price_def Let_def intro: cache_ok_update)
qed

lemma cache_reachable_ok: "cache_reachable max_age cache history created \<Longrightarrow> cache_ok max_age cache history created"
proof (induction rule: cache_reachable.induct)
  case init
  show ?case by (simp add: cache_ok_def)
next
  case (lookup cache history created age create token now price cache')
  show ?case
    using lookup.IH lookup.hyps(3,4) by (rule get_cached_price_ok)
next
  case (store cache history created token now result)
  have "cache_ok max_age cache (insert (token, result, now) history) created"
    using store.IH by (rule cache_ok_mono) auto
  then show ?case
    by (auto simp: store_estimate_def entry_ok_def intro!: cache_ok_update)
qed

text \<open>The functions of the cache, one call after the other, are such runs, whatever the clock shows.\<close>

lemma estimate_task_reachable:
  assumes "cache_reachable max_age cache history created" "age \<le> max_age"
    and "estimate_task est age token now cache = (Ok (result, cache') :: (unit, _) outcome)"
  shows "\<exists>history'. cache_reachable max_age cache' history' created"
proof -
  from assms(3) obtain price cache1 where
    look: "get_cached_price token (fst now) age False cache = (Ok (price, cache1) :: (unit, _) outcome)"
    by (auto simp: estimate_task_def outc)
  have r1: "cache_reachable max_age cache1 history created"
    using cache_reachable.lookup [OF assms(1,2) _ look] by simp
  show ?thesis
  proof (cases price)
    case None
    then show ?thesis
      using assms(3) look cache_reachable.store [OF r1, of token "snd now" "est token"]
      by (auto simp: estimate_task_def Let_def)
  next
    case (Some p)
    then show ?thesis
      using assms(3) look r1 by (auto simp: estimate_task_def)
  qed
qed

lemma estimates_reachable:
  assumes "cache_reachable max_age cache history created" "age \<le> max_age"
    and "estimate_prices_and_update_cache est clock age index tokens cache = (Ok (results, cache') :: (unit, _) outcome)"
  shows "\<exists>history'. cache_reachable max_age cache' history' created"
  using assms(1,3)
proof (induction tokens arbitrary: history index cache results)
  case (Cons token tokens)
  from Cons.prems(2) obtain result cache1 results1 where
    task: "estimate_task est age token (clock index) cache = (Ok (result, cache1) :: (unit, _) outcome)" and
    rest: "estimate_prices_and_update_cache est clock age (Suc index) tokens cache1
             = (Ok (results1, cache') :: (unit, _) outcome)"
    by (auto simp: outc)
  show ?case
    using estimate_task_reachable [OF Cons.prems(1) assms(2) task] Cons.IH [OF _ rest] by blast
qed auto

text \<open>A placeholder can be returned: a thread that read the clock first, and gets the lock last, finds it recent.\<close>

lemma placeholder_seen_by_older_instant:
  "\<exists>cache cache'. cache_reachable 5 cache {} {(7, 100)} \<and>
     get_cached_price 7 99 5 True cache = (Ok (Some (Inr (Finite 0)), cache') :: (unit, _) outcome)"
proof -
  let ?cache = "[(7, \<lparr>cr_result = Inr (Finite 0), cr_updated_at = 95, cr_requested_at = 100\<rparr>)]"
  have "get_cached_price 7 100 5 True [] = (Ok (None, ?cache) :: (unit, _) outcome)"
    by (simp add: get_cached_price_def instant_checked_sub_def)
  from cache_reachable.lookup [OF cache_reachable.init _ _ this] have "cache_reachable 5 ?cache {} {(7, 100)}"
    by simp
  moreover have "\<exists>cache'. get_cached_price 7 99 5 True ?cache = (Ok (Some (Inr (Finite 0)), cache') :: (unit, _) outcome)"
    by (simp add: get_cached_price_def saturating_duration_since_def)
  ultimately show ?thesis
    by blast
qed

section \<open>Look-ups\<close>

lemma get_cached_price_not_Panic:
  "- (2 ^ 63 * 10 ^ 9) \<le> now - int age \<Longrightarrow> get_cached_price token now age create cache \<noteq> Panic"
  by (auto simp: get_cached_price_def outc instant_checked_sub_def Let_def split: option.split)

lemma get_cached_price_not_Err [simp]: "get_cached_price token now age create cache \<noteq> Err e"
  by (auto simp: get_cached_price_def outc Let_def split: option.split)

lemma get_cached_prices_loop_not_Err [simp]: "get_cached_prices_loop now age tokens s \<noteq> Err e"
proof (induction tokens arbitrary: s)
  case (Cons token tokens)
  then show ?case
    by (cases s) (auto simp: outc)
qed (auto elim: get_cached_prices_loop.cases)

lemma get_cached_prices_loop_not_Panic:
  "- (2 ^ 63 * 10 ^ 9) \<le> now - int age \<Longrightarrow> get_cached_prices_loop now age tokens s \<noteq> Panic"
proof (induction tokens arbitrary: s)
  case (Cons token tokens)
  then show ?case
    by (cases s) (auto simp: outc get_cached_price_not_Panic)
qed (auto elim: get_cached_prices_loop.cases)

text \<open>\<open>fresh\<close>: what a look-up finds; looking up does not change what later look-ups at the same instant find.\<close>

definition fresh :: "instant \<Rightarrow> duration \<Rightarrow> price_cache \<Rightarrow> h160 \<Rightarrow> cache_entry option" where
  "fresh now age cache token =
     (case map_of cache token of
        Some entry \<Rightarrow> if saturating_duration_since now (cr_updated_at entry) < age then Some (cr_result entry) else None
      | None \<Rightarrow> None)"

lemma get_cached_price_fresh:
  assumes "get_cached_price token now age create cache = (Ok (price, cache') :: ('e, _) outcome)"
  shows "price = fresh now age cache token" "fresh now age cache' = fresh now age cache"
    "dom (map_of cache) \<subseteq> dom (map_of cache')" "create \<Longrightarrow> token \<in> dom (map_of cache')"
  using assms
  by (auto simp: get_cached_price_def fresh_def outc Let_def instant_checked_sub_def saturating_duration_since_def
      AList.update_conv' fun_eq_iff split: option.splits if_splits)

lemma get_cached_prices_loop_fresh:
  assumes "get_cached_prices_loop now age tokens (results, cache) = (Ok (results', cache') :: ('e, _) outcome)"
  shows "map_of results' = (\<lambda>t. if t \<in> set tokens \<and> fresh now age cache t \<noteq> None then fresh now age cache t
                                else map_of results t)
         \<and> fresh now age cache' = fresh now age cache
         \<and> dom (map_of cache) \<union> set tokens \<subseteq> dom (map_of cache')
         \<and> (distinct (map fst results) \<longrightarrow> distinct (map fst results'))"
  using assms
proof (induction tokens arbitrary: results cache)
  case (Cons token tokens)
  from Cons.prems obtain price cache1 where
    look: "get_cached_price token now age True cache = (Ok (price, cache1) :: ('e, _) outcome)" and
    rest: "get_cached_prices_loop now age tokens
      (case price of Some result \<Rightarrow> AList.update token result results | None \<Rightarrow> results, cache1)
      = (Ok (results', cache') :: ('e, _) outcome)"
    by (auto simp: outc)
  note f = get_cached_price_fresh [OF look] and ih = Cons.IH [OF rest]
  show ?case
  proof (intro conjI)
    show "map_of results' = (\<lambda>t. if t \<in> set (token # tokens) \<and> fresh now age cache t \<noteq> None
        then fresh now age cache t else map_of results t)"
      using ih f(1) [symmetric] f(2) by (cases price) (auto simp: fun_eq_iff AList.update_conv')
    show "dom (map_of cache) \<union> set (token # tokens) \<subseteq> dom (map_of cache')"
      using ih f(3,4) by auto
    show "distinct (map fst results) \<longrightarrow> distinct (map fst results')"
      using ih by (cases price) (simp_all add: AList.distinct_update)
  qed (use ih f(2) in simp)
qed auto

lemma get_native_prices_Ok:
  assumes "get_native_prices rnd lossy now tokens inner = (Ok (prices, inner') :: ('e, _) outcome)"
  shows "distinct (map fst prices)"
    "map_of prices token = (if token \<in> set tokens then
       (case fresh now (ni_max_age inner) (ni_cache inner) token of
          Some (Inr price) \<Rightarrow> to_normalized_price rnd lossy price | _ \<Rightarrow> None) else None)"
proof -
  let ?f = "\<lambda>(token, result). case result of Inl _ \<Rightarrow> None
     | Inr price \<Rightarrow> map_option (Pair token) (to_normalized_price rnd lossy price)"
  from assms obtain results cache where
    loop: "get_cached_prices_loop now (ni_max_age inner) tokens ([], ni_cache inner) = (Ok (results, cache) :: ('e, _) outcome)"
    and prices: "prices = List.map_filter ?f results"
    by (auto simp: get_native_prices_def get_cached_prices_def outc)
  have gen: "distinct (map fst rs) \<Longrightarrow> distinct (map fst (List.map_filter ?f rs)) \<and>
      map_of (List.map_filter ?f rs) token = (case map_of rs token of
        Some (Inr price) \<Rightarrow> to_normalized_price rnd lossy price | _ \<Rightarrow> None)
      \<and> fst ` set (List.map_filter ?f rs) \<subseteq> fst ` set rs" for rs :: "(h160 \<times> cache_entry) list" and token
  proof (induction rs)
    case (Cons r rs)
    then have "fst r \<notin> fst ` set rs"
      by simp
    then have "map_of rs (fst r) = None"
      by (simp add: map_of_eq_None_iff)
    with Cons show ?case
      by (cases r) (auto simp: map_filter_simps split: sum.split option.split)
  qed (simp add: map_filter_simps)
  show "distinct (map fst prices)"
    "map_of prices token = (if token \<in> set tokens then
       (case fresh now (ni_max_age inner) (ni_cache inner) token of
          Some (Inr price) \<Rightarrow> to_normalized_price rnd lossy price | _ \<Rightarrow> None) else None)"
    using gen [of results] get_cached_prices_loop_fresh [OF loop] prices by auto
qed

lemma get_native_prices_total:
  assumes "- (2 ^ 63 * 10 ^ 9) \<le> now - int (ni_max_age inner)"
  shows "\<exists>prices inner'. get_native_prices rnd lossy now tokens inner = (Ok (prices, inner') :: ('e, _) outcome)"
proof (cases "get_cached_prices_loop now (ni_max_age inner) tokens ([], ni_cache inner) :: ('e, _) outcome")
  case (Ok p)
  then show ?thesis
    by (cases p) (simp add: get_native_prices_def get_cached_prices_def)
next
  case Panic
  then show ?thesis
    using get_cached_prices_loop_not_Panic [OF assms] by blast
qed simp

text \<open>A look-up does not change what is found at a later instant either, and changes nothing but the cache.\<close>

lemma get_cached_price_fresh_later:
  assumes "get_cached_price token now age create cache = (Ok (price, cache') :: ('e, _) outcome)" "now \<le> later"
  shows "fresh later age cache' = fresh later age cache"
  using assms
  by (auto simp: get_cached_price_def fresh_def outc Let_def instant_checked_sub_def saturating_duration_since_def
      AList.update_conv' fun_eq_iff split: option.splits if_splits)

lemma get_cached_prices_loop_fresh_later:
  assumes "get_cached_prices_loop now age tokens (results, cache) = (Ok (results', cache') :: ('e, _) outcome)" "now \<le> later"
  shows "fresh later age cache' = fresh later age cache"
  using assms(1)
proof (induction tokens arbitrary: results cache)
  case (Cons token tokens)
  then obtain price cache1 where
    look: "get_cached_price token now age True cache = (Ok (price, cache1) :: ('e, _) outcome)" and
    rest: "get_cached_prices_loop now age tokens
      (case price of Some result \<Rightarrow> AList.update token result results | None \<Rightarrow> results, cache1)
      = (Ok (results', cache') :: ('e, _) outcome)"
    by (auto simp: outc)
  show ?case
    using Cons.IH [OF rest] get_cached_price_fresh_later [OF look assms(2)] by simp
qed simp

lemma get_native_prices_fresh_later:
  assumes "get_native_prices rnd lossy now tokens inner = (Ok (prices, inner') :: ('e, _) outcome)" "now \<le> later"
  shows "fresh later (ni_max_age inner) (ni_cache inner') = fresh later (ni_max_age inner) (ni_cache inner)"
    "ni_max_age inner' = ni_max_age inner"
  using assms get_cached_prices_loop_fresh_later [OF _ assms(2), of _ _ _ _ _ _]
  by (auto simp: get_native_prices_def get_cached_prices_def outc)

text \<open>\<open>estimate_native_price\<close> always returns: a result that was found in the cache, or that of the estimator.\<close>

lemma get_cached_price_existing:
  "\<exists>cache'. get_cached_price token now age False cache = Ok (fresh now age cache token, cache') \<and> fresh t age cache' = fresh t age cache"
  by (auto simp: get_cached_price_def fresh_def Let_def AList.update_conv' fun_eq_iff split: option.splits)

lemma estimate_native_price_Ok:
  "\<exists>result inner'. estimate_native_price est now clock token inner = (Ok (result, inner') :: ('e, _) outcome)
     \<and> ni_max_age inner' = ni_max_age inner
     \<and> (result = est token \<or> (\<exists>t \<in> {now, fst clock}. fresh t (ni_max_age inner) (ni_cache inner) token = Some result))"
proof -
  let ?age = "ni_max_age inner"
  obtain cache1 where c1: "get_cached_price token now ?age False (ni_cache inner)
      = (Ok (fresh now ?age (ni_cache inner) token, cache1) :: ('e, _) outcome)"
    and f1: "fresh (fst clock) ?age cache1 = fresh (fst clock) ?age (ni_cache inner)"
    using get_cached_price_existing by blast
  obtain cache2 where c2: "get_cached_price token (fst clock) ?age False cache1
      = (Ok (fresh (fst clock) ?age cache1 token, cache2) :: ('e, _) outcome)"
    using get_cached_price_existing by blast
  show ?thesis
    using f1 by (cases "fresh now ?age (ni_cache inner) token"; cases "fresh (fst clock) ?age cache1 token")
      (auto simp: estimate_native_price_def c1 estimate_task_def c2 Let_def)
qed

interpretation update_order: total_preorder "update_le high_priority" for high_priority
  by unfold_locales (auto simp: update_le_def)

section \<open>Properties\<close>

text \<open>
  C21. Whatever the threads did before, in whatever order their instants are, a price that a look-up returns from the cache is a
  result the estimator gave for that token, not a transient error, and stored less than the accepted age before the
  instant of the look-up; or it is the placeholder price zero of a missing entry, and then the entry was created by a
  look-up whose instant is later than that of this one. So a look-up that has the latest instant never returns a placeholder, while a thread that
  reads the clock before another one and gets the lock after it can.
\<close>

theorem cached_price_was_estimated:
  assumes "cache_reachable max_age cache history created" and "age \<le> max_age"
    and "get_cached_price token now age create cache = (Ok (Some price, cache') :: (unit, _) outcome)"
  shows "(\<exists>stored_at. (token, price, stored_at) \<in> history \<and> should_cache price \<and> now < stored_at + int age)
       \<or> price = Inr (Finite 0) \<and> (\<exists>created_at. (token, created_at) \<in> created \<and> now < created_at)"
proof -
  have "fresh now age cache token = Some price"
    using get_cached_price_fresh(1) [OF assms(3)] by simp
  then obtain entry where entry: "map_of cache token = Some entry" "cr_result entry = price"
    and "nat (now - cr_updated_at entry) < age"
    by (auto simp: fresh_def saturating_duration_since_def split: option.splits if_splits)
  then have recent: "now < cr_updated_at entry + int age" "now < cr_updated_at entry + int max_age"
    using assms(2) by linarith+
  have "entry_ok max_age history created token entry"
    using cache_reachable_ok [OF assms(1)] entry(1) by (simp add: cache_ok_def)
  with entry(2) recent show ?thesis
    unfolding entry_ok_def by blast
qed

theorem cached_price_was_estimated_witness:
  "\<exists>stored_at. (7, Inr (Finite 3), stored_at) \<in> {(7 :: h160, Inr (Finite 3) :: cache_entry, 10 :: instant)}
     \<and> should_cache (Inr (Finite 3)) \<and> (12 :: int) < stored_at + int 5"
proof -
  let ?cache = "[(7, \<lparr>cr_result = Inr (Finite 3), cr_updated_at = 10, cr_requested_at = 10\<rparr>)]"
  have "cache_reachable 5 (store_estimate 7 10 (Inr (Finite 3)) []) {(7, Inr (Finite 3), 10)} {}"
    by (rule cache_reachable.store [OF cache_reachable.init])
  then have "cache_reachable 5 ?cache {(7, Inr (Finite 3), 10)} {}"
    by (simp add: store_estimate_def)
  from cached_price_was_estimated [OF this, where now = 12 and age = 5 and token = 7 and price = "Inr (Finite 3)"
      and create = True and cache' = "AList.update 7 \<lparr>cr_result = Inr (Finite 3), cr_updated_at = 10, cr_requested_at = 12\<rparr> ?cache"]
  show ?thesis
    by (simp add: get_cached_price_def saturating_duration_since_def)
qed

text \<open>
  Tokens that are asked for while an auction is built, and have no price that is recent enough, are fetched by the
  background task: at every later instant they are among the tokens it updates (with a prefetch time), and the tokens of the
  high priority set come first, in their order.
\<close>

theorem missing_prices_get_updated:
  assumes "get_cached_prices now tokens inner = (Ok (results, inner') :: (unit, _) outcome)"
    and "token \<in> set tokens" and "map_of results token = None"
    and "0 < prefetch" and "0 < ni_max_age inner" and "now \<le> later"
  shows "token \<in> set (sorted_tokens_to_update inner' (ni_max_age inner' - prefetch) later)
       \<and> sorted_wrt (\<lambda>a b. token_index (ni_high_priority inner') a \<le> token_index (ni_high_priority inner') b)
           (sorted_tokens_to_update inner' (ni_max_age inner' - prefetch) later)"
proof -
  from assms(1) obtain cache where
    loop: "get_cached_prices_loop now (ni_max_age inner) tokens ([], ni_cache inner) = (Ok (results, cache) :: (unit, _) outcome)"
    and inner': "inner' = inner\<lparr>ni_cache := cache\<rparr>"
    by (auto simp: get_cached_prices_def outc)
  note f = get_cached_prices_loop_fresh [OF loop]
  have none: "fresh now (ni_max_age inner) cache token = None"
    using f assms(2,3) by (auto split: if_splits)
  have "token \<in> dom (map_of cache)"
    using f assms(2) by blast
  then obtain entry where entry: "map_of cache token = Some entry"
    by blast
  then have "ni_max_age inner \<le> nat (now - cr_updated_at entry)"
    using none by (simp add: fresh_def saturating_duration_since_def split: if_splits)
  then have "ni_max_age inner - prefetch < nat (later - cr_updated_at entry)"
    using assms(4,5,6) by linarith
  then have mem: "token \<in> set (sorted_tokens_to_update inner' (ni_max_age inner' - prefetch) later)"
    using map_of_SomeD [OF entry] by (force simp: sorted_tokens_to_update_def inner' saturating_duration_since_def)
  have "sorted_wrt (\<lambda>a b. token_index hp (fst a) \<le> token_index hp (fst b)) (sort_by (update_le hp) xs)" for hp xs
    by (rule sorted_wrt_mono_rel [OF _ update_order.sorted_sort_by]) (auto simp: update_le_def)
  then show ?thesis
    using mem by (simp add: sorted_tokens_to_update_def sorted_wrt_map)
qed

theorem missing_prices_get_updated_witness:
  "\<exists>inner'. get_cached_prices 100 [1, 2] \<lparr>ni_cache = [], ni_high_priority = [2], ni_max_age = 10\<rparr>
        = (Ok ([], inner') :: (unit, _) outcome)
     \<and> 1 \<in> set (sorted_tokens_to_update inner' 7 105)"
proof -
  let ?inner = "\<lparr>ni_cache = [], ni_high_priority = [2], ni_max_age = 10\<rparr>"
  let ?e = "\<lparr>cr_result = Inr (Finite 0), cr_updated_at = 90, cr_requested_at = 100\<rparr>"
  let ?inner' = "\<lparr>ni_cache = [(1, ?e), (2, ?e)], ni_high_priority = [2], ni_max_age = 10\<rparr>"
  have run: "get_cached_prices 100 [1, 2] ?inner = (Ok ([], ?inner') :: (unit, _) outcome)"
    by (simp add: get_cached_prices_def get_cached_price_def instant_checked_sub_def)
  from missing_prices_get_updated [OF run, where token = 1 and prefetch = 3 and later = 105]
  have "1 \<in> set (sorted_tokens_to_update ?inner' 7 105)"
    by simp
  with run show ?thesis
    by blast
qed

end
