(* ===== verification/Protocol_Fees.thy ===== *)
theory Protocol_Fees
  imports Native_Prices Remaining_Amounts
begin

text \<open>
  The protocol fees the autopilot attaches to the orders of an auction: \<open>crates/autopilot/src/domain/fee/mod.rs\<close> and
  \<open>fee/policy.rs\<close>, the conversion \<open>to_domain\<close> of \<open>boundary/order.rs\<close> into the order of \<open>domain/auction/order.rs\<close>, and the
  check \<open>is_order_outside_market_price\<close> of \<open>crates/shared/src/order_validation.rs\<close> that selects the policies.

  The enumerations of the domain order (side, class, sources and destinations of balances, signatures) copy those of the order
  model variant by variant and are not repeated. The partner fee comes from the app data document of the order: parsing that
  JSON document is the parameter \<open>partner_bps\<close>, the basis points of the partner fee of a valid document.
\<close>

section \<open>Factors\<close>

fun f64_less :: "f64 \<Rightarrow> f64 \<Rightarrow> bool" where
  "f64_less NaN _ \<longleftrightarrow> False"
| "f64_less _ NaN \<longleftrightarrow> False"
| "f64_less (Infinite neg) (Infinite neg') \<longleftrightarrow> neg \<and> \<not> neg'"
| "f64_less (Infinite neg) (Finite _) \<longleftrightarrow> neg"
| "f64_less (Finite _) (Infinite neg) \<longleftrightarrow> \<not> neg"
| "f64_less (Finite x) (Finite y) \<longleftrightarrow> x < y"

text \<open>\<open>f64::max\<close> and \<open>f64::min\<close> ignore an argument that is not a number.\<close>

definition f64_max :: "f64 \<Rightarrow> f64 \<Rightarrow> f64" where
  "f64_max a b = (if a = NaN then b else if b = NaN then a else if f64_less a b then b else a)"

definition f64_min :: "f64 \<Rightarrow> f64 \<Rightarrow> f64" where
  "f64_min a b = (if a = NaN then b else if b = NaN then a else if f64_less b a then b else a)"

datatype fee_factor_error = FactorOutOfRange

definition fee_factor_try_from :: "f64 \<Rightarrow> (fee_factor_error, f64) outcome" where
  "fee_factor_try_from v = (if f64_ge v 0 \<and> f64_lt v 1 then Ok v else Err FactorOutOfRange)"

definition try_from_capped :: "f64 \<Rightarrow> f64 \<Rightarrow> (fee_factor_error, f64) outcome" where
  "try_from_capped v cap = fee_factor_try_from (f64_min (f64_max v (Finite 0)) cap)"

section \<open>Policies\<close>

record fee_policy_quote =
  fpq_sell_amount :: u256
  fpq_buy_amount :: u256
  fpq_fee :: u256

datatype policy =
    Surplus f64 f64
  | PriceImprovement f64 f64 fee_policy_quote
  | Volume f64

record domain_quote =
  dq_order_uid :: order_uid
  dq_sell_amount :: u256
  dq_buy_amount :: u256
  dq_fee :: u256

definition fee_policy_quote_of :: "domain_quote \<Rightarrow> fee_policy_quote" where
  "fee_policy_quote_of q =
     \<lparr>fpq_sell_amount = dq_sell_amount q, fpq_buy_amount = dq_buy_amount q, fpq_fee = dq_fee q\<rparr>"

text \<open>The configured policies, \<open>policy.rs\<close>, and the orders they are meant for.\<close>

datatype policy_config =
    SurplusConfig f64 f64
  | PriceImprovementConfig f64 f64
  | VolumeConfig f64

datatype fee_order_class = FeeMarket | FeeLimit | FeeAny

record fee_config =
  fc_policy :: policy_config
  fc_order_class :: fee_order_class

record fees_config =
  fs_fee_policies :: "fee_config list"
  fs_max_partner_fee :: f64
  fs_enable_protocol_fees :: bool

fun surplus_apply :: "f64 \<Rightarrow> f64 \<Rightarrow> order \<Rightarrow> policy option" where
  "surplus_apply f max_volume_factor ord =
     (case om_class (o_metadata ord) of
        Market \<Rightarrow> None | Liquidity \<Rightarrow> None | Limit \<Rightarrow> Some (Surplus f max_volume_factor))"

fun price_improvement_apply :: "f64 \<Rightarrow> f64 \<Rightarrow> order \<Rightarrow> domain_quote \<Rightarrow> policy option" where
  "price_improvement_apply f max_volume_factor ord quote =
     (case om_class (o_metadata ord) of
        Market \<Rightarrow> None | Liquidity \<Rightarrow> None
      | Limit \<Rightarrow> Some (PriceImprovement f max_volume_factor (fee_policy_quote_of quote)))"

fun volume_apply :: "f64 \<Rightarrow> order \<Rightarrow> policy option" where
  "volume_apply f ord =
     (case om_class (o_metadata ord) of Market \<Rightarrow> None | Liquidity \<Rightarrow> None | Limit \<Rightarrow> Some (Volume f))"

fun variant_fee_apply :: "order \<Rightarrow> domain_quote \<Rightarrow> policy_config \<Rightarrow> policy option" where
  "variant_fee_apply ord quote (SurplusConfig f m) = surplus_apply f m ord"
| "variant_fee_apply ord quote (PriceImprovementConfig f m) = price_improvement_apply f m ord quote"
| "variant_fee_apply ord quote (VolumeConfig f) = volume_apply f ord"

section \<open>Market price\<close>

record amounts =
  am_sell :: u256
  am_buy :: u256
  am_fee :: u256

text \<open>
  \<open>is_order_outside_market_price\<close>: the products are 512 bits wide, the sum of a buy order's quote panics on overflow; a sell
  order whose computation fails counts as outside the market.
\<close>

definition sell_quote_buy :: "amounts \<Rightarrow> u256 option" where
  "sell_quote_buy quote =
     Option.bind (checked_mul (am_fee quote) (am_buy quote)) (\<lambda>p.
     Option.bind (checked_div p (am_sell quote)) (\<lambda>fee_in_buy.
     checked_sub (am_buy quote) fee_in_buy))"

definition is_order_outside_market_price :: "amounts \<Rightarrow> amounts \<Rightarrow> order_kind \<Rightarrow> ('e, bool) outcome" where
  "is_order_outside_market_price ord quote kind =
     (case kind of
        Buy \<Rightarrow>
          obind (add_p (am_sell quote) (am_fee quote)) (\<lambda>quote_sell.
          Ok (unat (am_sell ord) * unat (am_buy quote) < unat quote_sell * unat (am_buy ord)))
      | Sell \<Rightarrow>
          (case sell_quote_buy quote of
             Some quote_buy \<Rightarrow> Ok (unat (am_sell ord) * unat quote_buy < unat (am_sell quote) * unat (am_buy ord))
           | None \<Rightarrow> Ok True))"

definition protocol_fee_into_policy :: "order \<Rightarrow> amounts \<Rightarrow> amounts \<Rightarrow> fee_config \<Rightarrow> ('e, policy_config option) outcome" where
  "protocol_fee_into_policy ord order_amounts quote_amounts config =
     obind (is_order_outside_market_price order_amounts quote_amounts (od_kind (o_data ord))) (\<lambda>outside_market_price.
     Ok (case (outside_market_price, fc_order_class config) of
           (_, FeeAny) \<Rightarrow> Some (fc_policy config)
         | (True, FeeLimit) \<Rightarrow> Some (fc_policy config)
         | (False, FeeMarket) \<Rightarrow> Some (fc_policy config)
         | _ \<Rightarrow> None))"

section \<open>Orders of the auction\<close>

record domain_order =
  ao_uid :: order_uid
  ao_sell_token :: h160
  ao_sell_amount :: u256
  ao_buy_token :: h160
  ao_buy_amount :: u256
  ao_protocol_fees :: "policy list"
  ao_side :: order_kind
  ao_class :: order_class
  ao_valid_to :: u32
  ao_receiver :: "h160 option"
  ao_owner :: h160
  ao_partially_fillable :: bool
  ao_executed :: u256
  ao_pre_interactions :: "interaction_data list"
  ao_post_interactions :: "interaction_data list"
  ao_sell_token_balance :: sell_token_source
  ao_buy_token_balance :: buy_token_destination
  ao_app_data :: app_data_hash
  ao_signature :: signature

definition to_domain :: "order \<Rightarrow> policy list \<Rightarrow> domain_order" where
  "to_domain ord protocol_fees =
     (let d = o_data ord; m = o_metadata ord;
          remaining_order = remaining_order_of ord;
          order_is_untouched = (ro_executed_amount remaining_order = 0)
      in \<lparr>ao_uid = om_uid m,
          ao_sell_token = od_sell_token d, ao_sell_amount = od_sell_amount d,
          ao_buy_token = od_buy_token d, ao_buy_amount = od_buy_amount d,
          ao_protocol_fees = protocol_fees,
          ao_side = od_kind d,
          ao_class = om_class m,
          ao_valid_to = od_valid_to d,
          ao_receiver = od_receiver d,
          ao_owner = om_owner m,
          ao_partially_fillable = od_partially_fillable d,
          ao_executed = ro_executed_amount remaining_order,
          ao_pre_interactions = (if order_is_untouched then ints_pre (o_interactions ord) else []),
          ao_post_interactions = ints_post (o_interactions ord),
          ao_sell_token_balance = od_sell_token_balance d,
          ao_buy_token_balance = od_buy_token_balance d,
          ao_app_data = od_app_data d,
          ao_signature = o_signature ord\<rparr>)"

section \<open>Applying the policies\<close>

text \<open>\<open>find_map\<close> and \<open>filter_map\<close> with a function that may panic.\<close>

fun ofind_map :: "('a \<Rightarrow> ('e, 'b option) outcome) \<Rightarrow> 'a list \<Rightarrow> ('e, 'b option) outcome" where
  "ofind_map f [] = Ok None"
| "ofind_map f (x # xs) = obind (f x) (\<lambda>r. case r of Some y \<Rightarrow> Ok (Some y) | None \<Rightarrow> ofind_map f xs)"

definition ofilter_map :: "('a \<Rightarrow> ('e, 'b option) outcome) \<Rightarrow> 'a list \<Rightarrow> ('e, 'b list) outcome" where
  "ofilter_map f xs = obind (omap f xs) (\<lambda>ys. Ok (List.map_filter (\<lambda>y. y) ys))"

definition apply_single_policy ::
  "fees_config \<Rightarrow> order \<Rightarrow> domain_quote \<Rightarrow> amounts \<Rightarrow> amounts \<Rightarrow> policy list \<Rightarrow> ('e, domain_order) outcome" where
  "apply_single_policy fees ord quote order_amounts quote_amounts partner_fees =
     (case partner_fees of
        partner_fee # _ \<Rightarrow> Ok (to_domain ord [partner_fee])
      | [] \<Rightarrow>
          obind (ofind_map (protocol_fee_into_policy ord order_amounts quote_amounts) (fs_fee_policies fees)) (\<lambda>found.
          let protocol_fees = (case Option.bind found (variant_fee_apply ord quote) of Some p \<Rightarrow> [p] | None \<Rightarrow> [])
          in Ok (to_domain ord protocol_fees)))"

definition apply_multiple_policies ::
  "fees_config \<Rightarrow> order \<Rightarrow> domain_quote \<Rightarrow> amounts \<Rightarrow> amounts \<Rightarrow> policy list \<Rightarrow> ('e, domain_order) outcome" where
  "apply_multiple_policies fees ord quote order_amounts quote_amounts partner_fees =
     obind (ofilter_map (protocol_fee_into_policy ord order_amounts quote_amounts) (fs_fee_policies fees)) (\<lambda>policies.
     let protocol_fees = List.map_filter (variant_fee_apply ord quote) policies @ partner_fees
     in Ok (to_domain ord protocol_fees))"

text \<open>The partner fee: \<open>bps / 10_000.0\<close>, capped; \<open>unwrap\<close> panics when the capped number is no factor.\<close>

definition partner_fee_policy ::
  "(rat \<Rightarrow> f64) \<Rightarrow> (string \<Rightarrow> u64 option) \<Rightarrow> fees_config \<Rightarrow> order \<Rightarrow> ('e, policy list) outcome" where
  "partner_fee_policy rnd partner_bps fees ord =
     (case Option.bind (om_full_app_data (o_metadata ord)) partner_bps of
        None \<Rightarrow> Ok []
      | Some bps \<Rightarrow>
          obind (expect_ok (try_from_capped
                   (f64_div_by rnd (rnd (of_nat (unat bps))) 10000) (fs_max_partner_fee fees))) (\<lambda>capped.
          Ok [Volume capped]))"

definition fees_apply ::
  "(rat \<Rightarrow> f64) \<Rightarrow> (string \<Rightarrow> u64 option) \<Rightarrow> fees_config \<Rightarrow> order \<Rightarrow> domain_quote option \<Rightarrow> h160 list
    \<Rightarrow> ('e, domain_order) outcome" where
  "fees_apply rnd partner_bps fees ord quote surplus_capturing_jit_order_owners =
     obind (partner_fee_policy rnd partner_bps fees ord) (\<lambda>partner_fee.
     if om_owner (o_metadata ord) \<in> set surplus_capturing_jit_order_owners then Ok (to_domain ord partner_fee)
     else
       let order_amounts = \<lparr>am_sell = od_sell_amount (o_data ord), am_buy = od_buy_amount (o_data ord),
                            am_fee = od_fee_amount (o_data ord)\<rparr>;
           quote = (case quote of
                      Some q \<Rightarrow> q
                    | None \<Rightarrow> \<lparr>dq_order_uid = om_uid (o_metadata ord), dq_sell_amount = od_sell_amount (o_data ord),
                               dq_buy_amount = 0, dq_fee = od_fee_amount (o_data ord)\<rparr>);
           quote_amounts = \<lparr>am_sell = dq_sell_amount quote, am_buy = dq_buy_amount quote, am_fee = dq_fee quote\<rparr>
       in if fs_enable_protocol_fees fees
          then apply_multiple_policies fees ord quote order_amounts quote_amounts partner_fee
          else apply_single_policy fees ord quote order_amounts quote_amounts partner_fee)"

section \<open>Valid factors\<close>

fun factor_valid :: "f64 \<Rightarrow> bool" where
  "factor_valid (Finite x) \<longleftrightarrow> 0 \<le> x \<and> x < 1"
| "factor_valid _ \<longleftrightarrow> False"

fun policy_valid :: "policy \<Rightarrow> bool" where
  "policy_valid (Surplus f m) \<longleftrightarrow> factor_valid f \<and> factor_valid m"
| "policy_valid (PriceImprovement f m _) \<longleftrightarrow> factor_valid f \<and> factor_valid m"
| "policy_valid (Volume f) \<longleftrightarrow> factor_valid f"

fun config_valid :: "policy_config \<Rightarrow> bool" where
  "config_valid (SurplusConfig f m) \<longleftrightarrow> factor_valid f \<and> factor_valid m"
| "config_valid (PriceImprovementConfig f m) \<longleftrightarrow> factor_valid f \<and> factor_valid m"
| "config_valid (VolumeConfig f) \<longleftrightarrow> factor_valid f"

definition fees_wf :: "fees_config \<Rightarrow> bool" where
  "fees_wf fees \<longleftrightarrow> factor_valid (fs_max_partner_fee fees) \<and> (\<forall>c \<in> set (fs_fee_policies fees). config_valid (fc_policy c))"

lemma fee_factor_try_from_Ok: "fee_factor_try_from v = Ok f \<longleftrightarrow> f = v \<and> factor_valid v"
  by (cases v) (auto simp: fee_factor_try_from_def)

text \<open>A capped number is always a factor, also when it is not a number, and never above the cap.\<close>

lemma try_from_capped_valid:
  assumes "factor_valid cap"
  shows "\<exists>f. try_from_capped v cap = Ok f \<and> factor_valid f \<and> \<not> f64_less cap f"
proof -
  obtain c where c: "cap = Finite c" "0 \<le> c" "c < 1"
    using assms by (cases cap) auto
  have "factor_valid (f64_min (f64_max v (Finite 0)) cap) \<and> \<not> f64_less cap (f64_min (f64_max v (Finite 0)) cap)"
    using c by (cases v) (auto simp: f64_max_def f64_min_def)
  then show ?thesis
    by (simp add: try_from_capped_def fee_factor_try_from_Ok)
qed

text \<open>The partner fees of an order: at most one, a volume fee within the cap.\<close>

definition partner_only :: "fees_config \<Rightarrow> policy list \<Rightarrow> bool" where
  "partner_only fees ps \<longleftrightarrow>
     ps = [] \<or> (\<exists>f. ps = [Volume f] \<and> factor_valid f \<and> \<not> f64_less (fs_max_partner_fee fees) f)"

lemma returns_expect_ok [wp]: "returns P (expect_ok r) \<longleftrightarrow> returns P r"
  by (cases r) (auto simp: wp)

lemma partner_fee_policy_returns:
  assumes "fees_wf fees"
  shows "returns (partner_only fees) (partner_fee_policy rnd partner_bps fees ord)"
proof -
  have "returns (\<lambda>f. factor_valid f \<and> \<not> f64_less (fs_max_partner_fee fees) f) (try_from_capped v (fs_max_partner_fee fees))" for v
    using try_from_capped_valid [of "fs_max_partner_fee fees" v] assms by (auto simp: fees_wf_def wp)
  then show ?thesis
    by (simp add: partner_fee_policy_def partner_only_def wp split: option.split)
qed

lemma partner_only_valid: "partner_only fees ps \<Longrightarrow> list_all policy_valid ps \<and> length ps \<le> 1"
  by (auto simp: partner_only_def)

lemma variant_fee_apply_Some:
  assumes "variant_fee_apply ord quote config = Some p"
  shows "om_class (o_metadata ord) = Limit" "config_valid config \<Longrightarrow> policy_valid p"
  using assms by (cases config; auto split: order_class.splits)+

lemma protocol_fee_into_policy_Ok:
  "protocol_fee_into_policy ord oa qa c = Ok (Some pc) \<Longrightarrow> pc = fc_policy c"
  by (auto simp: protocol_fee_into_policy_def outc split: fee_order_class.splits bool.splits)

lemma ofind_map_Ok_Some: "ofind_map f xs = Ok (Some y) \<Longrightarrow> \<exists>x \<in> set xs. f x = Ok (Some y)"
  by (induction xs) (auto simp: outc split: option.splits)

lemma ofilter_map_Ok:
  assumes "ofilter_map f xs = Ok ys" "y \<in> set ys"
  shows "\<exists>x \<in> set xs. f x = Ok (Some y)"
proof -
  obtain rs where "list_all2 (\<lambda>x r. f x = Ok r) xs rs" "Some y \<in> set rs"
    using assms by (auto simp: ofilter_map_def outc omap_Ok List.map_filter_def)
  then show ?thesis
    by (induction rule: list_all2_induct) auto
qed

lemma is_order_outside_market_price_not_Err [simp]: "is_order_outside_market_price oa qa k \<noteq> Err e"
  by (auto simp: is_order_outside_market_price_def outc split: order_kind.split option.split)

lemma is_order_outside_market_price_Panic:
  "is_order_outside_market_price oa qa k = Panic \<longleftrightarrow> k = Buy \<and> 2 ^ 256 \<le> unat (am_sell qa) + unat (am_fee qa)"
  by (auto simp: is_order_outside_market_price_def outc chk split: order_kind.split option.split)

lemma protocol_fee_into_policy_Panic:
  "protocol_fee_into_policy ord oa qa c = Panic \<longleftrightarrow>
     od_kind (o_data ord) = Buy \<and> 2 ^ 256 \<le> unat (am_sell qa) + unat (am_fee qa)"
  by (auto simp: protocol_fee_into_policy_def outc is_order_outside_market_price_Panic)

lemma ofind_map_Panic:
  assumes "\<And>x. f x = Panic \<longleftrightarrow> c"
  shows "ofind_map f xs = Panic \<longleftrightarrow> c \<and> xs \<noteq> []"
proof (induction xs)
  case (Cons x xs)
  then show ?case
    using assms by (cases "f x") (auto split: option.split)
qed simp

lemma ofilter_map_Panic:
  fixes f :: "'a \<Rightarrow> ('e, 'b option) outcome"
  assumes "\<And>x. f x = Panic \<longleftrightarrow> c"
  shows "ofilter_map f xs = Panic \<longleftrightarrow> c \<and> xs \<noteq> []"
proof -
  have "omap f xs = Panic \<longleftrightarrow> c \<and> xs \<noteq> []"
  proof (induction xs)
    case (Cons x xs)
    then show ?case
      using assms [of x] by (cases "f x") (auto simp: outc)
  qed simp
  then show ?thesis
    by (simp add: ofilter_map_def outc)
qed

text \<open>The quote an order is compared with: without one, an order is outside the market.\<close>

definition effective_quote :: "order \<Rightarrow> domain_quote option \<Rightarrow> domain_quote" where
  "effective_quote ord quote =
     (case quote of
        Some q \<Rightarrow> q
      | None \<Rightarrow> \<lparr>dq_order_uid = om_uid (o_metadata ord), dq_sell_amount = od_sell_amount (o_data ord),
                 dq_buy_amount = 0, dq_fee = od_fee_amount (o_data ord)\<rparr>)"

lemma protocol_fees_to_domain [simp]: "ao_protocol_fees (to_domain ord ps) = ps"
  by (simp add: to_domain_def Let_def)

text \<open>A configured policy that is selected is one of the configured ones, and charged to limit orders only.\<close>

lemma selected_policy_valid:
  assumes "fees_wf fees" "c \<in> set (fs_fee_policies fees)"
    and "protocol_fee_into_policy ord oa qa c = (Ok (Some pc) :: ('e, _) outcome)" "variant_fee_apply ord q pc = Some p"
  shows "policy_valid p \<and> om_class (o_metadata ord) = Limit"
  using protocol_fee_into_policy_Ok [OF assms(3)] variant_fee_apply_Some [OF assms(4)] assms(1,2)
  by (auto simp: fees_wf_def)

lemma apply_multiple_policies_Ok:
  assumes "fees_wf fees" "partner_only fees partner"
    and "apply_multiple_policies fees ord q oa qa partner = (Ok d :: ('e, _) outcome)"
  shows "list_all policy_valid (ao_protocol_fees d)
       \<and> (om_class (o_metadata ord) \<noteq> Limit \<longrightarrow> partner_only fees (ao_protocol_fees d))
       \<and> d = to_domain ord (ao_protocol_fees d)"
proof -
  obtain policies where
    policies: "ofilter_map (protocol_fee_into_policy ord oa qa) (fs_fee_policies fees) = (Ok policies :: ('e, _) outcome)" and
    d: "d = to_domain ord (List.map_filter (variant_fee_apply ord q) policies @ partner)"
    using assms(3) by (auto simp: apply_multiple_policies_def outc Let_def)
  have each: "policy_valid p \<and> om_class (o_metadata ord) = Limit"
    if "p \<in> set (List.map_filter (variant_fee_apply ord q) policies)" for p
  proof -
    from that obtain pc where "pc \<in> set policies" and pc: "variant_fee_apply ord q pc = Some p"
      by (auto simp: List.map_filter_def)
    then obtain c where "c \<in> set (fs_fee_policies fees)" "protocol_fee_into_policy ord oa qa c = (Ok (Some pc) :: ('e, _) outcome)"
      using ofilter_map_Ok [OF policies] by blast
    with assms(1) show ?thesis
      using pc by (rule selected_policy_valid)
  qed
  have none: "List.map_filter (variant_fee_apply ord q) policies = []" if "om_class (o_metadata ord) \<noteq> Limit"
  proof (rule ccontr)
    assume "List.map_filter (variant_fee_apply ord q) policies \<noteq> []"
    then show False
      using each [OF hd_in_set] that by blast
  qed
  show ?thesis
    using d each none partner_only_valid [OF assms(2)] assms(2) by (auto simp: list_all_iff)
qed

lemma apply_single_policy_Ok:
  assumes "fees_wf fees" "partner_only fees partner"
    and "apply_single_policy fees ord q oa qa partner = (Ok d :: ('e, _) outcome)"
  shows "list_all policy_valid (ao_protocol_fees d) \<and> length (ao_protocol_fees d) \<le> 1
       \<and> (om_class (o_metadata ord) \<noteq> Limit \<longrightarrow> partner_only fees (ao_protocol_fees d))
       \<and> d = to_domain ord (ao_protocol_fees d)"
proof (cases partner)
  case (Cons p ps)
  with assms(2) have "ps = []"
    by (auto simp: partner_only_def)
  with Cons show ?thesis
    using assms(2,3) partner_only_valid [OF assms(2)] by (auto simp: apply_single_policy_def)
next
  case Nil
  then obtain found where
    found: "ofind_map (protocol_fee_into_policy ord oa qa) (fs_fee_policies fees) = (Ok found :: ('e, _) outcome)" and
    d: "d = to_domain ord (case Option.bind found (variant_fee_apply ord q) of Some p \<Rightarrow> [p] | None \<Rightarrow> [])"
    using assms(3) by (auto simp: apply_single_policy_def outc Let_def)
  show ?thesis
  proof (cases "Option.bind found (variant_fee_apply ord q)")
    case None
    then show ?thesis using d by (simp add: partner_only_def)
  next
    case (Some p)
    then obtain pc where pc: "found = Some pc" "variant_fee_apply ord q pc = Some p"
      by (auto simp: bind_eq_Some_conv)
    then obtain c where c: "c \<in> set (fs_fee_policies fees)"
      "protocol_fee_into_policy ord oa qa c = (Ok (Some pc) :: ('e, _) outcome)"
      using ofind_map_Ok_Some [of "protocol_fee_into_policy ord oa qa" "fs_fee_policies fees" pc] found by blast
    have "policy_valid p \<and> om_class (o_metadata ord) = Limit"
      using assms(1) c pc(2) by (rule selected_policy_valid)
    then show ?thesis
      using d Some by simp
  qed
qed

text \<open>\<open>fees_apply\<close> as the case distinction it makes.\<close>

definition order_amounts_of :: "order \<Rightarrow> amounts" where
  "order_amounts_of ord =
     \<lparr>am_sell = od_sell_amount (o_data ord), am_buy = od_buy_amount (o_data ord), am_fee = od_fee_amount (o_data ord)\<rparr>"

definition quote_amounts_of :: "domain_quote \<Rightarrow> amounts" where
  "quote_amounts_of q = \<lparr>am_sell = dq_sell_amount q, am_buy = dq_buy_amount q, am_fee = dq_fee q\<rparr>"

lemma fees_apply_unfold:
  assumes "fees_wf fees"
  obtains partner where "partner_only fees partner"
    "partner_fee_policy rnd partner_bps fees ord = (Ok partner :: ('e, _) outcome)"
    "(fees_apply rnd partner_bps fees ord quote owners :: ('e, _) outcome) =
       (if om_owner (o_metadata ord) \<in> set owners then Ok (to_domain ord partner)
        else let q = effective_quote ord quote in
          (if fs_enable_protocol_fees fees then apply_multiple_policies else apply_single_policy)
            fees ord q (order_amounts_of ord) (quote_amounts_of q) partner)"
proof -
  obtain partner where
    p: "partner_fee_policy rnd partner_bps fees ord = (Ok partner :: ('e, _) outcome)" and po: "partner_only fees partner"
    using partner_fee_policy_returns [OF assms] by (rule returnsE)
  show thesis
    by (rule that [OF po p])
       (cases "fs_enable_protocol_fees fees",
        simp_all add: p fees_apply_def effective_quote_def order_amounts_of_def quote_amounts_of_def Let_def)
qed

text \<open>An open limit order, used by the concrete examples.\<close>

definition example_order :: "order_kind \<Rightarrow> h160 \<Rightarrow> order_uid \<Rightarrow> order" where
  "example_order kind owner uid =
     \<lparr>o_metadata =
        \<lparr>om_creation_date = 0, om_owner = owner, om_uid = uid, om_available_balance = None,
         om_executed_buy_amount = 0, om_executed_sell_amount = 0, om_executed_sell_amount_before_fees = 0,
         om_executed_fee_amount = 0, om_executed_surplus_fee = 0, om_invalidated = False, om_status = Open,
         om_class = Limit, om_settlement_contract = 0, om_full_fee_amount = 0, om_solver_fee = 0,
         om_ethflow_data = None, om_onchain_order_data = None, om_onchain_user = None,
         om_is_liquidity_order = False, om_full_app_data = Some ''doc''\<rparr>,
      o_data =
        \<lparr>od_sell_token = 1, od_buy_token = 2, od_receiver = None, od_sell_amount = 100, od_buy_amount = 50,
         od_valid_to = 1000, od_app_data = 0, od_fee_amount = 0, od_kind = kind, od_partially_fillable = False,
         od_sell_token_balance = SellErc20, od_buy_token_balance = BuyErc20\<rparr>,
      o_signature = PreSign,
      o_interactions = \<lparr>ints_pre = [], ints_post = []\<rparr>\<rparr>"

lemma fees_apply_Panic:
  assumes "fees_wf fees"
  shows "fees_apply rnd partner_bps fees ord quote owners = (Panic :: ('e, _) outcome) \<longleftrightarrow>
     om_owner (o_metadata ord) \<notin> set owners \<and> od_kind (o_data ord) = Buy \<and> fs_fee_policies fees \<noteq> []
     \<and> (fs_enable_protocol_fees fees \<or> partner_fee_policy rnd partner_bps fees ord = (Ok [] :: ('e, _) outcome))
     \<and> 2 ^ 256 \<le> unat (dq_sell_amount (effective_quote ord quote)) + unat (dq_fee (effective_quote ord quote))"
proof -
  let ?q = "effective_quote ord quote"
  let ?c = "od_kind (o_data ord) = Buy \<and> 2 ^ 256 \<le> unat (dq_sell_amount ?q) + unat (dq_fee ?q)"
  let ?into = "protocol_fee_into_policy ord (order_amounts_of ord) (quote_amounts_of ?q) :: _ \<Rightarrow> ('e, _) outcome"
  have into: "?into c = Panic \<longleftrightarrow> ?c" for c
    by (simp add: protocol_fee_into_policy_Panic quote_amounts_of_def)
  from assms(1) obtain partner where p: "partner_fee_policy rnd partner_bps fees ord = (Ok partner :: ('e, _) outcome)"
    and eq: "fees_apply rnd partner_bps fees ord quote owners =
       ((if om_owner (o_metadata ord) \<in> set owners then Ok (to_domain ord partner)
        else let q = effective_quote ord quote in
          (if fs_enable_protocol_fees fees then apply_multiple_policies else apply_single_policy)
            fees ord q (order_amounts_of ord) (quote_amounts_of q) partner) :: ('e, _) outcome)"
    by (rule fees_apply_unfold)
  show ?thesis
    using ofind_map_Panic [of ?into, OF into] ofilter_map_Panic [of ?into, OF into]
    by (auto simp: eq p Let_def apply_multiple_policies_def apply_single_policy_def outc split: list.split)
qed

lemma ofind_map_not_Err: "(\<And>x. f x \<noteq> Err e) \<Longrightarrow> ofind_map f xs \<noteq> Err e"
  by (induction xs) (auto simp: outc split: option.split)

lemma ofilter_map_not_Err: "(\<And>x. f x \<noteq> Err e) \<Longrightarrow> ofilter_map f xs \<noteq> Err e"
  using omap_Err [of f xs e] by (auto simp: ofilter_map_def outc)

lemma protocol_fee_into_policy_not_Err [simp]: "protocol_fee_into_policy ord oa qa c \<noteq> Err e"
  by (simp add: protocol_fee_into_policy_def outc)

lemma fees_apply_not_Err [simp]: "fees_apply rnd partner_bps fees ord quote owners \<noteq> Err e"
  by (simp add: fees_apply_def partner_fee_policy_def apply_single_policy_def apply_multiple_policies_def outc Let_def
      ofind_map_not_Err ofilter_map_not_Err split: option.split list.split)

lemma fees_apply_to_domain:
  "fees_apply rnd partner_bps fees ord quote owners = Ok d \<Longrightarrow> \<exists>ps. d = to_domain ord ps"
  by (auto simp: fees_apply_def apply_single_policy_def apply_multiple_policies_def outc Let_def split: if_splits list.splits)

lemma fees_apply_total:
  assumes "fees_wf fees"
    and "od_kind (o_data ord) = Buy \<Longrightarrow>
      unat (dq_sell_amount (effective_quote ord quote)) + unat (dq_fee (effective_quote ord quote)) < 2 ^ 256"
  shows "\<exists>d. fees_apply rnd partner_bps fees ord quote owners = (Ok d :: ('e, _) outcome)"
proof (cases "fees_apply rnd partner_bps fees ord quote owners :: ('e, _) outcome")
  case Panic
  then show ?thesis
    using assms(2) unfolding fees_apply_Panic [OF assms(1)] by linarith
qed simp_all

section \<open>Properties\<close>

text \<open>
  C22. Every fee policy that reaches the solvers has its factors in \<open>[0, 1)\<close>. Orders that are not limit orders, and the orders
  of the surplus capturing owners, pay at most the partner fee, which stays within the cap; the single-policy mode charges at
  most one policy; and nothing else of the order changes.
\<close>

theorem fees_apply_sound:
  assumes "fees_wf fees"
    and "fees_apply rnd partner_bps fees ord quote owners = (Ok d :: (unit, _) outcome)"
  shows "list_all policy_valid (ao_protocol_fees d)
       \<and> (om_class (o_metadata ord) \<noteq> Limit \<or> om_owner (o_metadata ord) \<in> set owners \<longrightarrow> partner_only fees (ao_protocol_fees d))
       \<and> (\<not> fs_enable_protocol_fees fees \<longrightarrow> length (ao_protocol_fees d) \<le> 1)
       \<and> d = to_domain ord (ao_protocol_fees d)"
proof -
  from assms(1) obtain partner where po: "partner_only fees partner"
    and eq: "fees_apply rnd partner_bps fees ord quote owners =
       ((if om_owner (o_metadata ord) \<in> set owners then Ok (to_domain ord partner)
        else let q = effective_quote ord quote in
          (if fs_enable_protocol_fees fees then apply_multiple_policies else apply_single_policy)
            fees ord q (order_amounts_of ord) (quote_amounts_of q) partner) :: (unit, _) outcome)"
    by (rule fees_apply_unfold)
  note result = assms(2) [unfolded eq Let_def]
  consider (owner) "om_owner (o_metadata ord) \<in> set owners"
    | (multi) "om_owner (o_metadata ord) \<notin> set owners" "fs_enable_protocol_fees fees"
    | (single) "om_owner (o_metadata ord) \<notin> set owners" "\<not> fs_enable_protocol_fees fees"
    by blast
  then show ?thesis
  proof cases
    case owner
    then have "d = to_domain ord partner"
      using result by simp
    then show ?thesis
      using po partner_only_valid [OF po] by simp
  next
    case multi
    with result have "apply_multiple_policies fees ord (effective_quote ord quote) (order_amounts_of ord)
        (quote_amounts_of (effective_quote ord quote)) partner = (Ok d :: (unit, _) outcome)"
      by simp
    then show ?thesis
      using apply_multiple_policies_Ok [OF assms(1) po] multi by blast
  next
    case single
    with result have "apply_single_policy fees ord (effective_quote ord quote) (order_amounts_of ord)
        (quote_amounts_of (effective_quote ord quote)) partner = (Ok d :: (unit, _) outcome)"
      by simp
    then show ?thesis
      using apply_single_policy_Ok [OF assms(1) po] single by blast
  qed
qed

theorem fees_apply_sound_witness:
  "list_all policy_valid [Surplus (Finite (1 / 2)) (Finite (1 / 100)), Volume (Finite (1 / 1000))]"
proof -
  let ?fees = "\<lparr>fs_fee_policies = [\<lparr>fc_policy = SurplusConfig (Finite (1 / 2)) (Finite (1 / 100)), fc_order_class = FeeAny\<rparr>],
     fs_max_partner_fee = Finite (1 / 100), fs_enable_protocol_fees = True\<rparr>"
  let ?o = "example_order Sell 3 []"
  let ?d = "to_domain ?o [Surplus (Finite (1 / 2)) (Finite (1 / 100)), Volume (Finite (1 / 1000))]"
  have wf: "fees_wf ?fees"
    by (simp add: fees_wf_def)
  have partner: "partner_fee_policy Finite (\<lambda>_. Some 10) ?fees ?o = (Ok [Volume (Finite (1 / 1000))] :: (unit, _) outcome)"
    by (simp add: partner_fee_policy_def example_order_def try_from_capped_def f64_max_def f64_min_def fee_factor_try_from_def)
  have "fees_apply Finite (\<lambda>_. Some 10) ?fees ?o None [] = (Ok ?d :: (unit, _) outcome)"
    unfolding fees_apply_def partner
    by (simp add: apply_multiple_policies_def ofilter_map_def protocol_fee_into_policy_def example_order_def
        is_order_outside_market_price_def sell_quote_buy_def checked_mul_def checked_div_def checked_sub_def List.map_filter_def)
  from fees_apply_sound [OF wf this] show ?thesis
    by simp
qed

text \<open>
  C30. Exactly when the computation of the fees panics: for a buy order, not of a surplus capturing owner, that some policy is
  configured for, when the sell amount and the fee of its quote (of the order itself, when it has none) do not add up within
  256 bits, provided that several policies may apply to one order (\<open>enable_protocol_fees\<close>) or that the app data of the order has
  no partner fee: in the mode of a single policy, an order with a partner fee pays that one and no other policy is computed. The factors
  of the configuration are fee factors, as their type guarantees. All the other computations that could overflow are handled.
\<close>

theorem fees_apply_panics_iff:
  assumes "fees_wf fees"
  shows "fees_apply rnd partner_bps fees ord quote owners = (Panic :: (unit, _) outcome) \<longleftrightarrow>
     om_owner (o_metadata ord) \<notin> set owners \<and> od_kind (o_data ord) = Buy \<and> fs_fee_policies fees \<noteq> []
     \<and> (fs_enable_protocol_fees fees \<or> partner_fee_policy rnd partner_bps fees ord = (Ok [] :: (unit, _) outcome))
     \<and> 2 ^ 256 \<le> unat (dq_sell_amount (effective_quote ord quote)) + unat (dq_fee (effective_quote ord quote))"
  using assms by (rule fees_apply_Panic)

theorem fees_apply_panics_iff_witness:
  "fees_apply Finite (\<lambda>_. None)
     \<lparr>fs_fee_policies = [\<lparr>fc_policy = VolumeConfig (Finite 0), fc_order_class = FeeAny\<rparr>],
      fs_max_partner_fee = Finite 0, fs_enable_protocol_fees = True\<rparr>
     (example_order Buy 3 [])
     (Some \<lparr>dq_order_uid = [], dq_sell_amount = u256_max, dq_buy_amount = 1, dq_fee = 1\<rparr>) []
   = (Panic :: (unit, _) outcome)"
proof -
  have "unat u256_max = 2 ^ 256 - 1"
    by (simp add: unat_neg_one)
  then show ?thesis
    by (subst fees_apply_panics_iff) (simp_all add: fees_wf_def example_order_def effective_quote_def)
qed

end
