(* ===== verification/Programs.thy ===== *)
theory Programs
  imports Prelude
begin

text \<open>
  Programs over a state: they end with a value, an error or a panic and leave a state in each case. For the operations that
  change the state of a service in several places and may fail between them.
\<close>

section \<open>Programs over a state\<close>

type_synonym ('s, 'e, 'a) prog = "'s \<Rightarrow> ('e, 'a) outcome \<times> 's"

definition pret :: "'a \<Rightarrow> ('s, 'e, 'a) prog" where
  "pret x = (\<lambda>s. (Ok x, s))"

definition pbind :: "('s, 'e, 'a) prog \<Rightarrow> ('a \<Rightarrow> ('s, 'e, 'b) prog) \<Rightarrow> ('s, 'e, 'b) prog" where
  "pbind m f = (\<lambda>s. case m s of (Ok x, s') \<Rightarrow> f x s' | (Err e, s') \<Rightarrow> (Err e, s') | (Panic, s') \<Rightarrow> (Panic, s'))"

definition plift :: "('e, 'a) outcome \<Rightarrow> ('s, 'e, 'a) prog" where
  "plift r = (\<lambda>s. (r, s))"

definition pmodify :: "('s \<Rightarrow> 's) \<Rightarrow> ('s, 'e, unit) prog" where
  "pmodify f = (\<lambda>s. (Ok (), f s))"

text \<open>A function of a part of the state that returns its value and the new part; the part is kept when it does not return.\<close>

definition pfield :: "('s \<Rightarrow> 'p) \<Rightarrow> ('p \<Rightarrow> 's \<Rightarrow> 's) \<Rightarrow> ('p \<Rightarrow> ('e, 'a \<times> 'p) outcome) \<Rightarrow> ('s, 'e, 'a) prog" where
  "pfield get set_field f = (\<lambda>s. case f (get s) of
     Ok (x, p) \<Rightarrow> (Ok x, set_field p s) | Err e \<Rightarrow> (Err e, s) | Panic \<Rightarrow> (Panic, s))"

text \<open>A value read from the state, and another type of errors.\<close>

definition pread :: "('s \<Rightarrow> 'a) \<Rightarrow> ('s, 'e, 'a) prog" where
  "pread f = (\<lambda>s. (Ok (f s), s))"

definition pmap_err :: "('e \<Rightarrow> 'f) \<Rightarrow> ('s, 'e, 'a) prog \<Rightarrow> ('s, 'f, 'a) prog" where
  "pmap_err g m = (\<lambda>s. case m s of (r, s') \<Rightarrow> (map_err g r, s'))"

text \<open>A program over a part of the state.\<close>

definition ppart :: "('s \<Rightarrow> 'p) \<Rightarrow> ('p \<Rightarrow> 's \<Rightarrow> 's) \<Rightarrow> ('p, 'e, 'a) prog \<Rightarrow> ('s, 'e, 'a) prog" where
  "ppart get set_field m = (\<lambda>s. case m (get s) of (r, p) \<Rightarrow> (r, set_field p s))"

section \<open>Rules of programs\<close>

lemma pbind_Ok: "pbind m f s = (Ok y, s') \<longleftrightarrow> (\<exists>x s1. m s = (Ok x, s1) \<and> f x s1 = (Ok y, s'))"
  by (auto simp: pbind_def split: prod.splits outcome.splits)

lemma plift_Ok: "plift r s = (Ok x, s') \<longleftrightarrow> r = Ok x \<and> s' = s"
  by (auto simp: plift_def)

lemma pret_Ok: "pret x s = (r, s') \<longleftrightarrow> r = Ok x \<and> s' = s"
  by (auto simp: pret_def)

lemma pmodify_Ok: "pmodify f s = (r, s') \<longleftrightarrow> r = Ok () \<and> s' = f s"
  by (auto simp: pmodify_def)

lemma pfield_Ok: "pfield get upd f s = (Ok x, s') \<longleftrightarrow> (\<exists>p. f (get s) = Ok (x, p) \<and> s' = upd p s)"
  by (auto simp: pfield_def split: outcome.splits prod.splits)

lemma pread_Ok: "pread f s = (r, s') \<longleftrightarrow> r = Ok (f s) \<and> s' = s"
  by (auto simp: pread_def)

lemma pmap_err_Ok: "pmap_err g m s = (Ok x, s') \<longleftrightarrow> m s = (Ok x, s')"
  by (auto simp: pmap_err_def outc split: prod.splits)

lemma ppart_Ok: "ppart get upd m s = (Ok x, s') \<longleftrightarrow> (\<exists>p. m (get s) = (Ok x, p) \<and> s' = upd p s)"
  by (auto simp: ppart_def split: prod.splits)

lemma pbind_Panic: "fst (pbind m f s) = Panic \<longleftrightarrow> fst (m s) = Panic \<or> (\<exists>x s1. m s = (Ok x, s1) \<and> fst (f x s1) = Panic)"
  by (auto simp: pbind_def split: prod.splits outcome.splits)

lemma pmap_err_Panic: "fst (pmap_err g m s) = Panic \<longleftrightarrow> fst (m s) = Panic"
  by (auto simp: pmap_err_def outc split: prod.splits)

lemma ppart_Panic: "fst (ppart get upd m s) = Panic \<longleftrightarrow> fst (m (get s)) = Panic"
  by (auto simp: ppart_def split: prod.splits)

lemma simple_Panic: "fst (plift r s) = Panic \<longleftrightarrow> r = Panic" "fst (pret x s) \<noteq> Panic" "fst (pread g s) \<noteq> Panic" "fst (pmodify h s) \<noteq> Panic"
  by (simp_all add: plift_def pret_def pread_def pmodify_def)

lemmas prog_Ok = pbind_Ok plift_Ok pret_Ok pmodify_Ok pfield_Ok pread_Ok pmap_err_Ok ppart_Ok

lemmas prog_Panic = pbind_Panic pmap_err_Panic ppart_Panic simple_Panic

text \<open>The evaluation of a program: its first part returns, and the rest runs on.\<close>

named_theorems prog_run \<open>evaluation of programs\<close>

lemma pbind_plift [prog_run]: "pbind (plift (Ok x)) f s = f x s"
  by (simp add: pbind_def plift_def)

lemma pbind_pfield [prog_run]: "g (get s) = Ok (x, p) \<Longrightarrow> pbind (pfield get upd g) f s = f x (upd p s)"
  by (simp add: pbind_def pfield_def)

lemma pbind_pmodify [prog_run]: "pbind (pmodify g) f s = f () (g s)"
  by (simp add: pbind_def pmodify_def)

lemma pbind_pread [prog_run]: "pbind (pread g) f s = f (g s) s"
  by (simp add: pbind_def pread_def)

lemma pbind_step: "m s = (Ok x, s1) \<Longrightarrow> pbind m f s = f x s1"
  by (simp add: pbind_def)

text \<open>\<open>pkeeps g m\<close>: the program \<open>m\<close> leaves the part \<open>g\<close> of the state as it is, however it ends.\<close>

definition pkeeps :: "('s \<Rightarrow> 'p) \<Rightarrow> ('s, 'e, 'a) prog \<Rightarrow> bool" where
  "pkeeps g m \<longleftrightarrow> (\<forall>s. g (snd (m s)) = g s)"

named_theorems pkeeps_intro \<open>programs that keep a part of the state\<close>

lemma pkeeps_pbind [pkeeps_intro]: "pkeeps g m \<Longrightarrow> (\<And>x. pkeeps g (f x)) \<Longrightarrow> pkeeps g (pbind m f)"
  by (auto simp: pkeeps_def pbind_def split: prod.split outcome.split) (metis snd_conv)+

lemma pkeeps_plift [pkeeps_intro]: "pkeeps g (plift r)"
  by (simp add: pkeeps_def plift_def)

lemma pkeeps_pret [pkeeps_intro]: "pkeeps g (pret x)"
  by (simp add: pkeeps_def pret_def)

lemma pkeeps_pmodify [pkeeps_intro]: "(\<And>s. g (f s) = g s) \<Longrightarrow> pkeeps g (pmodify f)"
  by (simp add: pkeeps_def pmodify_def)

lemma pkeeps_pfield [pkeeps_intro]: "(\<And>p s. g (upd p s) = g s) \<Longrightarrow> pkeeps g (pfield get upd f)"
  by (auto simp: pkeeps_def pfield_def split: outcome.split)

lemma pkeeps_pread [pkeeps_intro]: "pkeeps g (pread f)"
  by (simp add: pkeeps_def pread_def)

lemma pkeeps_pmap_err [pkeeps_intro]: "pkeeps g m \<Longrightarrow> pkeeps g (pmap_err e m)"
  by (auto simp: pkeeps_def pmap_err_def split: prod.split) (metis snd_conv)

lemma pkeeps_ppart [pkeeps_intro]: "(\<And>p s. g (upd p s) = g s) \<Longrightarrow> pkeeps g (ppart get upd m)"
  by (auto simp: pkeeps_def ppart_def split: prod.split)

lemma pkeeps_outcome [pkeeps_intro]:
  "(\<And>x. pkeeps g (f x)) \<Longrightarrow> (\<And>e. pkeeps g (h e)) \<Longrightarrow> pkeeps g k
    \<Longrightarrow> pkeeps g (case r of Ok x \<Rightarrow> f x | Err e \<Rightarrow> h e | Panic \<Rightarrow> k)"
  by (cases r) simp_all

lemma pkeeps_sum [pkeeps_intro]:
  "(\<And>x. pkeeps g (f x)) \<Longrightarrow> (\<And>x. pkeeps g (h x)) \<Longrightarrow> pkeeps g (case r of Inl x \<Rightarrow> f x | Inr x \<Rightarrow> h x)"
  by (cases r) simp_all

lemma pkeeps_if [pkeeps_intro]: "pkeeps g f \<Longrightarrow> pkeeps g h \<Longrightarrow> pkeeps g (if b then f else h)"
  by simp

lemma pkeeps_prod [pkeeps_intro]: "(\<And>a b. p = (a, b) \<Longrightarrow> pkeeps g (f a b)) \<Longrightarrow> pkeeps g (case p of (a, b) \<Rightarrow> f a b)"
  by (cases p) simp

lemma pkeeps_option [pkeeps_intro]:
  "(\<And>x. pkeeps g (f x)) \<Longrightarrow> pkeeps g h \<Longrightarrow> pkeeps g (case m of None \<Rightarrow> h | Some x \<Rightarrow> f x)"
  by (cases m) simp_all

lemma pkeeps_Let [pkeeps_intro]: "(\<And>x. pkeeps g (f x)) \<Longrightarrow> pkeeps g (Let v f)"
  by (simp add: Let_def)

text \<open>A program that keeps a part of the state unless it returns.\<close>

definition pkeeps_failed :: "('s \<Rightarrow> 'p) \<Rightarrow> ('s, 'e, 'a) prog \<Rightarrow> bool" where
  "pkeeps_failed g m \<longleftrightarrow> (\<forall>s. is_ok (fst (m s)) \<or> g (snd (m s)) = g s)"

lemma pkeeps_failed_pbind: "pkeeps g m \<Longrightarrow> (\<And>x. pkeeps_failed g (f x)) \<Longrightarrow> pkeeps_failed g (pbind m f)"
  by (auto simp: pkeeps_def pkeeps_failed_def pbind_def split: prod.split outcome.split) (metis snd_conv)+

lemma pkeeps_failed_pmodify: "pkeeps_failed g (pmodify f)"
  by (simp add: pkeeps_failed_def pmodify_def)

lemma pkeeps_failed_prod: "(\<And>a b. p = (a, b) \<Longrightarrow> pkeeps_failed g (f a b)) \<Longrightarrow> pkeeps_failed g (case p of (a, b) \<Rightarrow> f a b)"
  by (cases p) simp

lemmas pkeeps_failed_intro = pkeeps_failed_pbind pkeeps_failed_pmodify pkeeps_failed_prod

end
