(* ===== verification/Solvable_Orders.thy ===== *)
theory Solvable_Orders
  imports Protocol_Fees Programs Rust_Maps
begin

text \<open>
  The filters that turn the open orders of the database into the orders of an auction, \<open>crates/autopilot/src/solvable_orders.rs\<close>:
  banned users (\<open>crates/order-validation/src/banned.rs\<close>), signatures, unsupported tokens, balances
  (\<open>crates/shared/src/account_balances.rs\<close>), dust, native prices and mispriced limit orders, and the \<open>OrderFilterCounter\<close> that
  records which orders a filter removed. \<open>Auction_Update\<close> composes them.

  The services the filters ask (sanctions registry, signature validation, token quality, balances) are parameters. A filter
  that asks for many orders at once is shown to judge each order on its own when the service does.
\<close>

section \<open>Banned users\<close>

text \<open>
  The cache of the on-chain registry holds the answers that are younger than an hour (\<open>TimedCache\<close>). \<open>fetch\<close> is the call
  \<open>is_sanctioned\<close> of the contract, \<open>None\<close> when it fails.
\<close>

record banned_users =
  bu_list :: "h160 list"
  bu_onchain :: "(h160 \<times> bool) list option"

definition users_none :: banned_users where
  "users_none = \<lparr>bu_list = [], bu_onchain = None\<rparr>"

definition users_from_set :: "h160 list \<Rightarrow> banned_users" where
  "users_from_set l = \<lparr>bu_list = l, bu_onchain = None\<rparr>"

fun banned_fetched ::
  "(h160 \<times> bool option) list \<Rightarrow> h160 list \<Rightarrow> (h160 \<times> bool) list \<Rightarrow> h160 list \<times> (h160 \<times> bool) list" where
  "banned_fetched [] banned cache = (banned, cache)"
| "banned_fetched ((address, result) # to_cache) banned cache =
     (case result of
        Some is_banned \<Rightarrow>
          banned_fetched to_cache (if is_banned then address # banned else banned) (AList.update address is_banned cache)
      | None \<Rightarrow> banned_fetched to_cache banned cache)"

definition users_banned :: "(h160 \<Rightarrow> bool option) \<Rightarrow> h160 list \<Rightarrow> banned_users \<Rightarrow> h160 list \<times> banned_users" where
  "users_banned fetch addresses users =
     (let banned = filter (\<lambda>a. a \<in> set (bu_list users)) addresses;
          need_lookup = remdups (filter (\<lambda>a. a \<notin> set (bu_list users)) addresses)
      in case bu_onchain users of
           None \<Rightarrow> (banned, users)
         | Some cache \<Rightarrow>
             let banned = filter (\<lambda>a. map_of cache a = Some True) need_lookup @ banned;
                 need_lookup = filter (\<lambda>a. map_of cache a = None) need_lookup;
                 to_cache = map (\<lambda>a. (a, fetch a)) need_lookup;
                 (banned, cache) = banned_fetched to_cache banned cache
             in (banned, users\<lparr>bu_onchain := Some cache\<rparr>))"

definition order_receiver :: "order \<Rightarrow> h160" where
  "order_receiver ord = (case od_receiver (o_data ord) of Some r \<Rightarrow> r | None \<Rightarrow> 0)"

definition filter_banned_user_orders :: "(h160 \<Rightarrow> bool option) \<Rightarrow> order list \<Rightarrow> banned_users \<Rightarrow> order list \<times> banned_users" where
  "filter_banned_user_orders fetch orders users =
     (let (banned, users) = users_banned fetch
            (concat (map (\<lambda>ord. [om_owner (o_metadata ord), order_receiver ord]) orders)) users
      in (filter (\<lambda>ord. om_owner (o_metadata ord) \<notin> set banned \<and> order_receiver ord \<notin> set banned) orders, users))"

section \<open>Signatures\<close>

record signature_check =
  sc_signer :: h160
  sc_hash :: h256
  sc_signature :: bytes
  sc_interactions :: "interaction_data list"

datatype signature_validation_error = SignatureInvalid | SignatureCheckFailed

type_synonym validation = "signature_validation_error + unit"

definition signature_check_of :: "order \<Rightarrow> ('e, signature_check option) outcome" where
  "signature_check_of ord =
     (case o_signature ord of
        Eip1271 sig \<Rightarrow>
          obind (uid_parts (om_uid (o_metadata ord))) (\<lambda>(hash, signer, _).
          Ok (Some \<lparr>sc_signer = signer, sc_hash = hash, sc_signature = sig,
                    sc_interactions = ints_pre (o_interactions ord)\<rparr>))
      | _ \<Rightarrow> Ok None)"

fun is_eip1271 :: "signature \<Rightarrow> bool" where
  "is_eip1271 (Eip1271 _) \<longleftrightarrow> True"
| "is_eip1271 _ \<longleftrightarrow> False"

fun filter_validated :: "order list \<Rightarrow> validation list \<Rightarrow> ('e, order list) outcome" where
  "filter_validated [] validations = Ok []"
| "filter_validated (ord # orders) validations =
     (if is_eip1271 (o_signature ord) then
        (case validations of
           [] \<Rightarrow> Panic
         | Inl _ # validations \<Rightarrow> filter_validated orders validations
         | Inr _ # validations \<Rightarrow> obind (filter_validated orders validations) (\<lambda>os. Ok (ord # os)))
      else obind (filter_validated orders validations) (\<lambda>os. Ok (ord # os)))"

definition filter_invalid_signature_orders ::
  "(signature_check list \<Rightarrow> validation list) \<Rightarrow> order list \<Rightarrow> ('e, order list) outcome" where
  "filter_invalid_signature_orders validate_signatures orders =
     (let orders = filter (\<lambda>ord. om_status (o_metadata ord) \<noteq> PresignaturePending) orders
      in obind (ofilter_map signature_check_of orders) (\<lambda>checks.
         if checks = [] then Ok orders
         else filter_validated orders (validate_signatures checks)))"

section \<open>Unsupported tokens\<close>

datatype token_quality = TokenGood | TokenBad string

fun token_is_good :: "token_quality \<Rightarrow> bool" where
  "token_is_good TokenGood \<longleftrightarrow> True"
| "token_is_good (TokenBad _) \<longleftrightarrow> False"

fun tokens_good :: "(h160 \<Rightarrow> ('e, token_quality) outcome) \<Rightarrow> h160 list \<Rightarrow> ('e, bool) outcome" where
  "tokens_good detect [] = Ok True"
| "tokens_good detect (token # tokens) =
     obind (detect token) (\<lambda>quality. if token_is_good quality then tokens_good detect tokens else Ok False)"

text \<open>\<open>Vec::swap_remove\<close> at an index of the vector.\<close>

definition swap_remove :: "nat \<Rightarrow> 'a list \<Rightarrow> 'a list" where
  "swap_remove i xs = (let front = butlast xs in if i < length front then front[i := last xs] else front)"

lemma length_swap_remove: "length (swap_remove i xs) = length xs - 1"
  by (simp add: swap_remove_def Let_def)

function unsupported_loop :: "(h160 \<Rightarrow> ('e, token_quality) outcome) \<Rightarrow> nat \<Rightarrow> order list \<Rightarrow> ('e, order list) outcome" where
  "unsupported_loop detect index orders =
     (if index < length orders then
        obind (expect (od_token_pair (o_data (orders ! index)))) (\<lambda>pair.
        obind (tokens_good detect (token_pair_iter pair)) (\<lambda>good.
        if good then unsupported_loop detect (Suc index) orders
        else unsupported_loop detect index (swap_remove index orders)))
      else Ok orders)"
  by pat_completeness auto

termination
  by (relation "measure (\<lambda>(detect, index, orders). length orders - index)") (auto simp: length_swap_remove)

declare unsupported_loop.simps [simp del]

definition filter_unsupported_tokens :: "(h160 \<Rightarrow> ('e, token_quality) outcome) \<Rightarrow> order list \<Rightarrow> ('e, order list) outcome" where
  "filter_unsupported_tokens detect orders = unsupported_loop detect 0 orders"

section \<open>Balances\<close>

record query =
  q_owner :: h160
  q_token :: h160
  q_source :: sell_token_source
  q_interactions :: "interaction_data list"

type_synonym order_balances = "(query \<times> u256) list"

definition query_from_order :: "order \<Rightarrow> query" where
  "query_from_order ord =
     \<lparr>q_owner = om_owner (o_metadata ord), q_token = od_sell_token (o_data ord),
      q_source = od_sell_token_balance (o_data ord), q_interactions = ints_pre (o_interactions ord)\<rparr>"

definition collect_balances :: "(query list \<Rightarrow> ('b + u256) list) \<Rightarrow> order list \<Rightarrow> order_balances" where
  "collect_balances get_balances orders =
     (let missing_queries = map query_from_order orders;
          fetched_balances = get_balances missing_queries
      in extend_map AList.update
           (List.map_filter (\<lambda>(query, balance). case balance of Inr b \<Rightarrow> Some (query, b) | Inl _ \<Rightarrow> None)
             (zip missing_queries fetched_balances)) [])"

definition has_balance :: "order_balances \<Rightarrow> order \<Rightarrow> bool" where
  "has_balance balances ord =
     (case map_of balances (query_from_order ord) of
        None \<Rightarrow> False
      | Some balance \<Rightarrow>
          if od_partially_fillable (o_data ord) \<and> 1 \<le> balance then True
          else (case checked_add (od_sell_amount (o_data ord)) (od_fee_amount (o_data ord)) of
                  None \<Rightarrow> False
                | Some needed_balance \<Rightarrow> needed_balance \<le> balance))"

definition newer :: "order \<Rightarrow> order \<Rightarrow> bool" where
  "newer a b \<longleftrightarrow> om_creation_date (o_metadata b) \<le> om_creation_date (o_metadata a)"

definition orders_with_balance :: "order list \<Rightarrow> order_balances \<Rightarrow> order list" where
  "orders_with_balance orders balances = filter (has_balance balances) (sort_by newer orders)"

definition not_dust :: "order_balances \<Rightarrow> order \<Rightarrow> bool" where
  "not_dust balances ord =
     (if \<not> od_partially_fillable (o_data ord) then True
      else (case map_of balances (query_from_order ord) of
              None \<Rightarrow> False
            | Some balance \<Rightarrow>
                (case from_order_with_balance (remaining_order_of ord) balance of
                   Ok rem \<Rightarrow>
                     (case (remaining_amount rem (od_sell_amount (o_data ord)), remaining_amount rem (od_buy_amount (o_data ord))) of
                        (Ok sell_amount, Ok buy_amount) \<Rightarrow> sell_amount \<noteq> 0 \<and> buy_amount \<noteq> 0
                      | _ \<Rightarrow> False)
                 | _ \<Rightarrow> False)))"

definition filter_dust_orders :: "order list \<Rightarrow> order_balances \<Rightarrow> order list" where
  "filter_dust_orders orders balances = filter (not_dust balances) orders"

section \<open>Native prices\<close>

type_synonym wei_prices = "(h160 \<times> u256) list"

definition order_tokens :: "order \<Rightarrow> h160 list" where
  "order_tokens ord = [od_sell_token (o_data ord), od_buy_token (o_data ord)]"

text \<open>An \<open>IndexSet\<close> is a list without duplicates, a new element comes last.\<close>

definition index_set_insert :: "'a \<Rightarrow> 'a list \<Rightarrow> 'a list" where
  "index_set_insert x xs = (if x \<in> set xs then xs else xs @ [x])"

definition index_set_extend :: "'a list \<Rightarrow> 'a list \<Rightarrow> 'a list" where
  "index_set_extend xs new = foldl (\<lambda>xs x. index_set_insert x xs) xs new"

definition count_token :: "h160 \<Rightarrow> (h160 \<times> nat) list \<Rightarrow> (h160 \<times> nat) list" where
  "count_token token counts = AList.update token ((case map_of counts token of Some n \<Rightarrow> n | None \<Rightarrow> 0) + 1) counts"

definition MARKET_ORDER_AGE_MINUTES :: int where
  "MARKET_ORDER_AGE_MINUTES = 30"

definition more_used :: "h160 \<times> nat \<Rightarrow> h160 \<times> nat \<Rightarrow> bool" where
  "more_used a b \<longleftrightarrow> snd b \<le> snd a"

text \<open>One order of the loop of \<open>prioritize_missing_prices\<close>; times are in seconds.\<close>

definition prioritize_step :: "int \<Rightarrow> h160 list \<times> (h160 \<times> nat) list \<Rightarrow> order \<Rightarrow> h160 list \<times> (h160 \<times> nat) list" where
  "prioritize_step now acc ord =
     (let (high_priority_tokens, most_used_tokens) = acc;
          sell_token = od_sell_token (o_data ord);
          buy_token = od_buy_token (o_data ord);
          is_market = now - om_creation_date (o_metadata ord) \<le> MARKET_ORDER_AGE_MINUTES * 60
      in if is_market then (index_set_extend high_priority_tokens [sell_token, buy_token], most_used_tokens)
         else (high_priority_tokens, count_token buy_token (count_token sell_token most_used_tokens)))"

definition prioritize_missing_prices :: "int \<Rightarrow> order list \<Rightarrow> h160 list" where
  "prioritize_missing_prices now orders =
     (let (high_priority_tokens, most_used_tokens) = foldl (prioritize_step now) ([], []) (sort_by newer orders)
      in index_set_extend high_priority_tokens (map fst (sort_by more_used most_used_tokens)))"

definition has_prices :: "wei_prices \<Rightarrow> order \<Rightarrow> bool" where
  "has_prices prices ord \<longleftrightarrow>
     map_of prices (od_sell_token (o_data ord)) \<noteq> None \<and> map_of prices (od_buy_token (o_data ord)) \<noteq> None"

definition use_prices :: "wei_prices \<Rightarrow> wei_prices \<Rightarrow> order \<Rightarrow> wei_prices" where
  "use_prices prices used_prices ord =
     (case (map_of prices (od_sell_token (o_data ord)), map_of prices (od_buy_token (o_data ord))) of
        (Some p0, Some p1) \<Rightarrow> bt_insert (od_buy_token (o_data ord)) p1 (bt_insert (od_sell_token (o_data ord)) p0 used_prices)
      | _ \<Rightarrow> used_prices)"

text \<open>
  \<open>get_orders_with_native_prices\<close>, from the instant of the look-up and the time now: the orders with prices, their prices, the
  number of market orders among the others, and the native price cache.
\<close>

definition get_orders_with_native_prices ::
  "(rat \<Rightarrow> f64) \<Rightarrow> (f64 \<Rightarrow> u256) \<Rightarrow> instant \<Rightarrow> int \<Rightarrow> order list \<Rightarrow> native_inner
    \<Rightarrow> ('e, (order list \<times> wei_prices \<times> nat) \<times> native_inner) outcome" where
  "get_orders_with_native_prices rnd from_f64_lossy instant now orders inner =
     (let traded_tokens = remdups (concat (map order_tokens orders))
      in obind (get_native_prices rnd from_f64_lossy instant traded_tokens inner) (\<lambda>(prices, inner).
         let usable = filter (has_prices prices) orders;
             filtered = filter (\<lambda>ord. \<not> has_prices prices ord) orders;
             used_prices = foldl (use_prices prices) [] orders;
             filtered_market_orders = length (filter (\<lambda>ord. om_class (o_metadata ord) = Market) filtered);
             tokens_by_priority = prioritize_missing_prices now filtered
         in Ok ((usable, used_prices, filtered_market_orders), replace_high_priority tokens_by_priority inner)))"

text \<open>The check of one order by \<open>filter_mispriced_limit_orders\<close>; a missing price panics.\<close>

definition well_priced :: "wei_prices \<Rightarrow> big_decimal \<Rightarrow> order \<Rightarrow> ('e, bool) outcome" where
  "well_priced prices price_factor ord =
     (if \<not> is_limit_order ord then Ok True
      else
        obind (expect (map_of prices (od_sell_token (o_data ord)))) (\<lambda>sell_price.
        obind (expect (map_of prices (od_buy_token (o_data ord)))) (\<lambda>buy_price.
        case (checked_mul (od_sell_amount (o_data ord)) sell_price, checked_mul (od_buy_amount (o_data ord)) buy_price) of
          (Some sell_native, Some buy_native) \<Rightarrow>
            Ok (bd_value (u256_to_big_decimal sell_native) \<ge> bd_value (u256_to_big_decimal buy_native) * bd_value price_factor)
        | _ \<Rightarrow> Ok False)))"

text \<open>\<open>retain\<close> with a check that may panic.\<close>

fun oretain :: "('a \<Rightarrow> ('e, bool) outcome) \<Rightarrow> 'a list \<Rightarrow> ('e, 'a list) outcome" where
  "oretain f [] = Ok []"
| "oretain f (x # xs) = obind (f x) (\<lambda>keep. obind (oretain f xs) (\<lambda>ys. Ok (if keep then x # ys else ys)))"

definition filter_mispriced_limit_orders :: "order list \<Rightarrow> wei_prices \<Rightarrow> big_decimal \<Rightarrow> ('e, order list) outcome" where
  "filter_mispriced_limit_orders orders prices price_factor = oretain (well_priced prices price_factor) orders"

section \<open>Counting the filtered orders\<close>

type_synonym reason = string

text \<open>The gauges of \<open>Metrics\<close>, as large as an \<open>i64\<close>.\<close>

record auction_metrics =
  mt_creations :: nat
  mt_candidate_orders :: "(order_class \<times> nat) list"
  mt_solvable_orders :: "(order_class \<times> nat) list"
  mt_filtered_orders :: "(reason \<times> nat) list"
  mt_market_order_missing_price :: nat

definition gauge :: "nat \<Rightarrow> nat" where
  "gauge n = min n (2 ^ 63 - 1)"

definition order_class_variants :: "order_class list" where
  "order_class_variants = [Market, Liquidity, Limit]"

record order_filter_counter =
  fc_orders :: "(order_uid \<times> order_class) list"
  fc_counts :: "(reason \<times> nat) list"

definition class_counts :: "order_class list \<Rightarrow> (order_class \<times> nat) list" where
  "class_counts classes = map (\<lambda>class. (class, gauge (count_list classes class))) order_class_variants"

definition counter_new :: "order list \<Rightarrow> auction_metrics \<Rightarrow> order_filter_counter \<times> auction_metrics" where
  "counter_new orders metrics =
     (\<lparr>fc_orders = extend_map AList.update (map (\<lambda>ord. (om_uid (o_metadata ord), om_class (o_metadata ord))) orders) [],
       fc_counts = []\<rparr>,
      metrics\<lparr>mt_candidate_orders := class_counts (map (\<lambda>ord. om_class (o_metadata ord)) orders)\<rparr>)"

text \<open>Removing the filtered orders one by one; \<open>unwrap\<close> panics when one is not there.\<close>

fun counter_remove :: "order_uid list \<Rightarrow> (order_uid \<times> order_class) list \<Rightarrow> ('e, (order_uid \<times> order_class) list) outcome" where
  "counter_remove [] orders = Ok orders"
| "counter_remove (uid # uids) orders =
     (if map_of orders uid = None then Panic else counter_remove uids (AList.delete uid orders))"

definition checkpoint :: "reason \<Rightarrow> order list \<Rightarrow> order_filter_counter \<Rightarrow> ('e, order_uid list \<times> order_filter_counter) outcome" where
  "checkpoint reason orders counter =
     (let filtered_orders = remove_keys AList.delete (map (\<lambda>ord. om_uid (o_metadata ord)) orders) (fc_orders counter);
          counts = AList.update reason
            ((case map_of (fc_counts counter) reason of Some n \<Rightarrow> n | None \<Rightarrow> 0) + length filtered_orders) (fc_counts counter)
      in obind (counter_remove (map fst filtered_orders) (fc_orders counter)) (\<lambda>remaining.
         Ok (map fst filtered_orders, \<lparr>fc_orders = remaining, fc_counts = counts\<rparr>)))"

definition counter_record :: "order list \<Rightarrow> order_filter_counter \<Rightarrow> auction_metrics \<Rightarrow> ('e, order_uid list \<times> auction_metrics) outcome" where
  "counter_record orders counter metrics =
     obind (checkpoint ''other'' orders counter) (\<lambda>(removed, counter).
     Ok (removed,
         metrics\<lparr>mt_creations := mt_creations metrics + 1,
                 mt_solvable_orders := class_counts (map snd (fc_orders counter)),
                 mt_filtered_orders :=
                   extend_map AList.update (map (\<lambda>(reason, n). (reason, gauge n)) (fc_counts counter))
                     (mt_filtered_orders metrics)\<rparr>))"

section \<open>What each filter keeps\<close>

text \<open>Banned users: the answer for an address does not depend on the other addresses asked for.\<close>

definition user_banned :: "(h160 \<Rightarrow> bool option) \<Rightarrow> banned_users \<Rightarrow> h160 \<Rightarrow> bool" where
  "user_banned fetch users a \<longleftrightarrow>
     a \<in> set (bu_list users)
     \<or> (case bu_onchain users of
          None \<Rightarrow> False
        | Some cache \<Rightarrow> (case map_of cache a of Some is_banned \<Rightarrow> is_banned | None \<Rightarrow> fetch a = Some True))"

definition not_banned :: "(h160 \<Rightarrow> bool option) \<Rightarrow> banned_users \<Rightarrow> order \<Rightarrow> bool" where
  "not_banned fetch users ord \<longleftrightarrow>
     \<not> user_banned fetch users (om_owner (o_metadata ord)) \<and> \<not> user_banned fetch users (order_receiver ord)"

lemma set_banned_fetched:
  "set (fst (banned_fetched to_cache banned cache)) = set banned \<union> {a. (a, Some True) \<in> set to_cache}"
  by (induction to_cache banned cache rule: banned_fetched.induct) (auto split: option.split)

lemma set_users_banned:
  "set (fst (users_banned fetch addresses users)) = {a \<in> set addresses. user_banned fetch users a}"
proof (cases "bu_onchain users")
  case None
  then show ?thesis
    by (auto simp: users_banned_def user_banned_def)
next
  case (Some cache)
  show ?thesis
  proof (rule set_eqI)
    fix a
    show "a \<in> set (fst (users_banned fetch addresses users)) \<longleftrightarrow> a \<in> {a \<in> set addresses. user_banned fetch users a}"
      using Some by (cases "map_of cache a")
        (auto simp: users_banned_def user_banned_def Let_def set_banned_fetched case_prod_beta image_iff)
  qed
qed

lemma filter_banned_user_orders_eq:
  "fst (filter_banned_user_orders fetch orders users) = filter (not_banned fetch users) orders"
proof -
  have "(om_owner (o_metadata ord) \<notin> set (fst (users_banned fetch
            (concat (map (\<lambda>ord. [om_owner (o_metadata ord), order_receiver ord]) orders)) users))
        \<and> order_receiver ord \<notin> set (fst (users_banned fetch
            (concat (map (\<lambda>ord. [om_owner (o_metadata ord), order_receiver ord]) orders)) users)))
      \<longleftrightarrow> not_banned fetch users ord" if "ord \<in> set orders" for ord
    using that by (auto simp: set_users_banned not_banned_def)
  then show ?thesis
    by (auto simp: filter_banned_user_orders_def case_prod_beta intro: filter_cong)
qed

text \<open>Signatures: \<open>validate\<close> is the answer for one check.\<close>

definition eip1271_check :: "order \<Rightarrow> bytes \<Rightarrow> signature_check" where
  "eip1271_check ord sig =
     (case uid_parts (om_uid (o_metadata ord)) :: (unit, _) outcome of
        Ok (hash, signer, _) \<Rightarrow>
          \<lparr>sc_signer = signer, sc_hash = hash, sc_signature = sig, sc_interactions = ints_pre (o_interactions ord)\<rparr>
      | _ \<Rightarrow> \<lparr>sc_signer = 0, sc_hash = 0, sc_signature = sig, sc_interactions = ints_pre (o_interactions ord)\<rparr>)"

definition signature_ok :: "(signature_check \<Rightarrow> validation) \<Rightarrow> order \<Rightarrow> bool" where
  "signature_ok validate ord \<longleftrightarrow>
     om_status (o_metadata ord) \<noteq> PresignaturePending
     \<and> (case o_signature ord of Eip1271 sig \<Rightarrow> validate (eip1271_check ord sig) = Inr () | _ \<Rightarrow> True)"

lemma uid_parts_Ok:
  "length uid = 56 \<Longrightarrow> uid_parts uid =
     Ok (u256_from_big_endian (take 32 uid), h160_from_slice (drop 32 (take 52 uid)), u32_from_le_bytes (drop 52 uid))"
  by (simp add: uid_parts_def h256_from_slice_def h160_from_slice_p_def)

lemma signature_check_of_Ok:
  "length (om_uid (o_metadata ord)) = 56 \<Longrightarrow>
     signature_check_of ord = Ok (case o_signature ord of Eip1271 sig \<Rightarrow> Some (eip1271_check ord sig) | _ \<Rightarrow> None)"
  by (simp add: signature_check_of_def eip1271_check_def uid_parts_Ok split: signature.split)

definition order_checks :: "order list \<Rightarrow> signature_check list" where
  "order_checks orders =
     List.map_filter (\<lambda>ord. case o_signature ord of Eip1271 sig \<Rightarrow> Some (eip1271_check ord sig) | _ \<Rightarrow> None) orders"

lemma ofilter_map_checks:
  "\<forall>ord \<in> set orders. length (om_uid (o_metadata ord)) = 56 \<Longrightarrow>
     ofilter_map signature_check_of orders = Ok (order_checks orders)"
proof (induction orders)
  case Nil
  then show ?case
    by (simp add: ofilter_map_def order_checks_def List.map_filter_def)
next
  case (Cons ord orders)
  then show ?case
    by (cases "omap signature_check_of orders :: ('a, _) outcome")
       (auto simp: ofilter_map_def order_checks_def List.map_filter_def signature_check_of_Ok split: signature.split)
qed

lemma filter_validated_pointwise:
  "\<forall>ord \<in> set orders. om_status (o_metadata ord) \<noteq> PresignaturePending \<Longrightarrow>
     filter_validated orders (map validate (order_checks orders)) = (Ok (filter (signature_ok validate) orders) :: ('e, _) outcome)"
proof (induction orders)
  case (Cons ord orders)
  then have ih: "filter_validated orders (map validate (order_checks orders)) = (Ok (filter (signature_ok validate) orders) :: ('e, _) outcome)"
    by simp
  show ?case
  proof (cases "o_signature ord")
    case (Eip1271 sig)
    then have checks: "order_checks (ord # orders) = eip1271_check ord sig # order_checks orders"
      by (simp add: order_checks_def List.map_filter_def)
    show ?thesis
      using ih Cons.prems Eip1271 unfolding checks
      by (cases "validate (eip1271_check ord sig)") (auto simp: signature_ok_def [of validate ord])
  qed (use ih Cons.prems in \<open>auto simp: order_checks_def List.map_filter_def signature_ok_def [of validate ord]\<close>)
qed simp

lemma filter_invalid_signature_orders_eq:
  assumes "\<forall>ord \<in> set orders. length (om_uid (o_metadata ord)) = 56"
  shows "filter_invalid_signature_orders (map validate) orders = (Ok (filter (signature_ok validate) orders) :: ('e, _) outcome)"
proof -
  let ?orders = "filter (\<lambda>ord. om_status (o_metadata ord) \<noteq> PresignaturePending) orders"
  have ok: "filter (signature_ok validate) ?orders = filter (signature_ok validate) orders"
    by (auto simp: signature_ok_def intro: filter_cong)
  have validated: "filter_validated ?orders (map validate (order_checks ?orders)) = (Ok (filter (signature_ok validate) ?orders) :: ('e, _) outcome)"
    by (rule filter_validated_pointwise) simp
  have none: "filter_validated os [] = (Ok os :: ('e, _) outcome)" if "order_checks os = []" for os
    using that by (induction os) (auto simp: order_checks_def List.map_filter_def split: signature.splits)
  have checks: "ofilter_map signature_check_of ?orders = (Ok (order_checks ?orders) :: ('e, _) outcome)"
    using assms by (intro ofilter_map_checks) simp
  have "filter_invalid_signature_orders (map validate) orders = (Ok (filter (signature_ok validate) ?orders) :: ('e, _) outcome)"
    unfolding filter_invalid_signature_orders_def Let_def checks obind.simps
    using validated none [of ?orders] by (cases "order_checks ?orders = []") (simp_all del: filter_filter)
  then show ?thesis
    by (simp only: ok)
qed

text \<open>Unsupported tokens: the loop that swaps orders is a filter, up to the order of what it keeps.\<close>

lemma mset_swap_remove:
  assumes "i < length xs"
  shows "mset (swap_remove i xs) = mset xs - {#xs ! i#}"
proof -
  obtain ys y where xs: "xs = ys @ [y]"
    using assms by (cases xs rule: rev_cases) auto
  show ?thesis
  proof (cases "i < length ys")
    case True
    then show ?thesis
      using xs by (simp add: swap_remove_def nth_append mset_update)
  next
    case False
    then have "i = length ys"
      using assms xs by simp
    then show ?thesis
      using xs by (simp add: swap_remove_def)
  qed
qed

lemma swap_remove_parts:
  assumes "i < length xs"
  shows "take i (swap_remove i xs) = take i xs" "mset (drop i (swap_remove i xs)) = mset (drop (Suc i) xs)"
proof -
  show t: "take i (swap_remove i xs) = take i xs"
    using assms by (cases xs rule: rev_cases) (auto simp: swap_remove_def)
  have "mset (take i xs) + mset (drop i (swap_remove i xs)) = mset (swap_remove i xs)"
    by (metis append_take_drop_id mset_append t)
  also have "\<dots> = mset (take i xs) + mset (drop (Suc i) xs)"
    using assms id_take_nth_drop [OF assms] by (simp add: mset_swap_remove) (metis add_diff_cancel_right' add_mset_add_single mset.simps(2) mset_append union_mset_add_mset_right)
  finally show "mset (drop i (swap_remove i xs)) = mset (drop (Suc i) xs)"
    by simp
qed

text \<open>\<open>quality\<close> is what the detector answers for a token.\<close>

definition tokens_supported :: "(h160 \<Rightarrow> token_quality) \<Rightarrow> order \<Rightarrow> bool" where
  "tokens_supported quality ord \<longleftrightarrow>
     token_is_good (quality (od_sell_token (o_data ord))) \<and> token_is_good (quality (od_buy_token (o_data ord)))"

lemma tokens_good_Ok: "tokens_good (\<lambda>t. Ok (quality t)) ts = Ok (list_all (\<lambda>t. token_is_good (quality t)) ts)"
  by (induction ts) auto

text \<open>
  What the detector says of the two tokens of an order: the smaller address is asked first, and the other one only if the first is
  good. The tokens of an order that trades a token for itself are not a pair.
\<close>

definition tokens_verdict :: "(h160 \<Rightarrow> ('e, token_quality) outcome) \<Rightarrow> order \<Rightarrow> ('e, bool) outcome" where
  "tokens_verdict detect ord =
     (let a = min (od_sell_token (o_data ord)) (od_buy_token (o_data ord));
          b = max (od_sell_token (o_data ord)) (od_buy_token (o_data ord))
      in if a = b then Panic
         else case detect a of
             Ok TokenGood \<Rightarrow> (case detect b of Ok quality \<Rightarrow> Ok (token_is_good quality) | Err e \<Rightarrow> Err e | Panic \<Rightarrow> Panic)
           | Ok (TokenBad reason) \<Rightarrow> Ok False
           | Err e \<Rightarrow> Err e
           | Panic \<Rightarrow> Panic)"

lemma tokens_verdict_eq:
  "obind (expect (od_token_pair (o_data ord))) (\<lambda>pair. tokens_good detect (token_pair_iter pair)) = tokens_verdict detect ord"
  by (auto simp: od_token_pair_def token_pair_new_def tokens_verdict_def Let_def min_def max_def
      split: outcome.split token_quality.split)

lemma unsupported_loop_verdict:
  "unsupported_loop detect index orders =
     (if index < length orders then
        obind (tokens_verdict detect (orders ! index)) (\<lambda>good.
        if good then unsupported_loop detect (Suc index) orders
        else unsupported_loop detect index (swap_remove index orders))
      else Ok orders)"
  by (subst unsupported_loop.simps) (simp only: tokens_verdict_eq [symmetric] obind_assoc)

text \<open>What the loop does with the orders it has not looked at yet.\<close>

definition verdicts_kept :: "(order \<Rightarrow> ('e, bool) outcome) \<Rightarrow> order multiset \<Rightarrow> order multiset \<Rightarrow> ('e, order list) outcome \<Rightarrow> bool" where
  "verdicts_kept verdict before rest result \<longleftrightarrow>
     (case result of
        Ok orders \<Rightarrow> (\<forall>ord \<in># rest. verdict ord \<in> {Ok True, Ok False})
          \<and> mset orders = before + filter_mset (\<lambda>ord. verdict ord = Ok True) rest
      | Err e \<Rightarrow> (\<exists>ord \<in># rest. verdict ord = Err e)
      | Panic \<Rightarrow> (\<exists>ord \<in># rest. verdict ord = Panic))"

lemma verdicts_kept_good:
  "verdict ord = Ok True \<Longrightarrow> verdicts_kept verdict (add_mset ord before) rest result \<Longrightarrow>
   verdicts_kept verdict before (add_mset ord rest) result"
  by (auto simp: verdicts_kept_def split: outcome.splits)

lemma verdicts_kept_bad:
  "verdict ord = Ok False \<Longrightarrow> verdicts_kept verdict before rest result \<Longrightarrow> verdicts_kept verdict before (add_mset ord rest) result"
  by (auto simp: verdicts_kept_def split: outcome.splits)

lemma unsupported_loop_keeps:
  "verdicts_kept (tokens_verdict detect) (mset (take index orders)) (mset (drop index orders)) (unsupported_loop detect index orders)"
proof (induction "length orders - index" arbitrary: index orders rule: less_induct)
  case less
  show ?case
  proof (cases "index < length orders")
    case False
    then show ?thesis
      by (subst unsupported_loop_verdict) (simp add: verdicts_kept_def)
  next
    case True
    let ?ord = "orders ! index"
    have split: "mset (drop index orders) = add_mset ?ord (mset (drop (Suc index) orders))"
      using True by (metis Cons_nth_drop_Suc mset.simps(2))
    have taken: "mset (take (Suc index) orders) = add_mset ?ord (mset (take index orders))"
      using True by (simp add: take_Suc_conv_app_nth)
    have less_good: "length orders - Suc index < length orders - index"
      and less_bad: "length (swap_remove index orders) - index < length orders - index"
      using True by (simp_all add: length_swap_remove)
    show ?thesis
    proof (cases "tokens_verdict detect ?ord")
      case (Ok good)
      show ?thesis
        unfolding split
        using less.hyps [OF less_good] less.hyps [OF less_bad] Ok True swap_remove_parts [OF True] taken
        by (subst unsupported_loop_verdict) (cases good, auto intro: verdicts_kept_good verdicts_kept_bad)
    qed (use True split in \<open>subst unsupported_loop_verdict, auto simp: verdicts_kept_def\<close>)+
  qed
qed

lemma filter_unsupported_tokens_keeps:
  "verdicts_kept (tokens_verdict detect) {#} (mset orders) (filter_unsupported_tokens detect orders)"
  using unsupported_loop_keeps [of detect 0 orders] by (simp add: filter_unsupported_tokens_def)

text \<open>A detector that always answers: the loop panics for an order of one token, and filters otherwise.\<close>

lemma tokens_verdict_answer:
  "tokens_verdict (\<lambda>t. Ok (quality t)) ord =
     (if od_sell_token (o_data ord) = od_buy_token (o_data ord) then Panic else Ok (tokens_supported quality ord))"
  by (auto simp: tokens_verdict_def Let_def tokens_supported_def min_def max_def split: token_quality.split)

lemma filter_unsupported_tokens_answer:
  fixes quality :: "h160 \<Rightarrow> token_quality" and orders :: "order list"
  defines "result \<equiv> filter_unsupported_tokens (\<lambda>t. Ok (quality t)) orders :: ('e, _) outcome"
  shows "if \<exists>ord \<in> set orders. od_sell_token (o_data ord) = od_buy_token (o_data ord) then result = Panic
    else \<exists>orders'. result = Ok orders' \<and> mset orders' = filter_mset (tokens_supported quality) (mset orders)"
proof -
  have k: "verdicts_kept (tokens_verdict (\<lambda>t. Ok (quality t))) {#} (mset orders) result"
    unfolding result_def by (rule filter_unsupported_tokens_keeps)
  show ?thesis
  proof (cases result)
    case (Ok orders')
    with k have all: "\<forall>ord \<in> set orders. tokens_verdict (\<lambda>t. Ok (quality t)) ord \<in> {Ok True, Ok False :: ('e, _) outcome}"
      and m: "mset orders' = filter_mset (\<lambda>ord. tokens_verdict (\<lambda>t. Ok (quality t)) ord = (Ok True :: ('e, _) outcome)) (mset orders)"
      by (auto simp: verdicts_kept_def)
    have "od_sell_token (o_data ord) \<noteq> od_buy_token (o_data ord)" if "ord \<in> set orders" for ord
      using all that by (auto simp: tokens_verdict_answer)
    then have "filter_mset (\<lambda>ord. tokens_verdict (\<lambda>t. Ok (quality t)) ord = (Ok True :: ('e, _) outcome)) (mset orders)
        = filter_mset (tokens_supported quality) (mset orders)"
      by (intro filter_mset_cong) (auto simp: tokens_verdict_answer)
    with Ok m \<open>\<And>ord. ord \<in> set orders \<Longrightarrow> od_sell_token (o_data ord) \<noteq> od_buy_token (o_data ord)\<close> show ?thesis
      by auto
  qed (use k in \<open>auto simp: verdicts_kept_def tokens_verdict_answer split: if_splits\<close>)
qed

text \<open>Balances: \<open>balance\<close> is the answer for one query.\<close>

definition balances_agree :: "(query \<Rightarrow> string + u256) \<Rightarrow> order list \<Rightarrow> order_balances \<Rightarrow> bool" where
  "balances_agree balance orders balances \<longleftrightarrow>
     (\<forall>ord \<in> set orders. map_of balances (query_from_order ord) =
        (case balance (query_from_order ord) of Inr b \<Rightarrow> Some b | Inl _ \<Rightarrow> None))"

lemma collect_balances_agree: "balances_agree balance orders (collect_balances (map balance) orders)"
proof -
  let ?f = "\<lambda>(query, balance :: string + u256). case balance of Inr b \<Rightarrow> Some (query, b) | Inl _ \<Rightarrow> None"
  have zip: "zip qs (map balance qs) = map (\<lambda>q. (q, balance q)) qs" for qs :: "query list"
    by (induction qs) auto
  have "map_of (rev (List.map_filter ?f (map (\<lambda>q. (q, balance q)) qs))) q =
      (if q \<in> set qs then (case balance q of Inr b \<Rightarrow> Some b | Inl _ \<Rightarrow> None) else None)" for qs q
    by (induction qs) (auto simp: List.map_filter_def map_add_def split: sum.splits option.splits if_splits)
  from this [of "map query_from_order orders"] show ?thesis
    unfolding balances_agree_def collect_balances_def Let_def zip
    by (simp add: hash_map.lookup_extend_map del: map_map)
qed

lemma balances_agree_subset: "balances_agree balance orders m \<Longrightarrow> set orders' \<subseteq> set orders \<Longrightarrow> balances_agree balance orders' m"
  by (auto simp: balances_agree_def)

text \<open>The two checks on the balance of an order, from the answer for its query alone.\<close>

definition single_balance :: "(query \<Rightarrow> string + u256) \<Rightarrow> order \<Rightarrow> order_balances" where
  "single_balance balance ord =
     (case balance (query_from_order ord) of Inr b \<Rightarrow> [(query_from_order ord, b)] | Inl _ \<Rightarrow> [])"

lemma balances_agree_single:
  assumes "balances_agree balance orders m" "ord \<in> set orders"
  shows "has_balance m ord \<longleftrightarrow> has_balance (single_balance balance ord) ord"
    "not_dust m ord \<longleftrightarrow> not_dust (single_balance balance ord) ord"
proof -
  have "map_of m (query_from_order ord) = map_of (single_balance balance ord) (query_from_order ord)"
    using assms by (auto simp: balances_agree_def single_balance_def split: sum.split)
  then show "has_balance m ord \<longleftrightarrow> has_balance (single_balance balance ord) ord"
    "not_dust m ord \<longleftrightarrow> not_dust (single_balance balance ord) ord"
    by (simp_all add: has_balance_def not_dust_def)
qed

text \<open>Prices: what the native price cache holds for a token at an instant.\<close>

definition native_price :: "(rat \<Rightarrow> f64) \<Rightarrow> (f64 \<Rightarrow> u256) \<Rightarrow> instant \<Rightarrow> native_inner \<Rightarrow> h160 \<Rightarrow> u256 option" where
  "native_price rnd lossy now inner token =
     (case fresh now (ni_max_age inner) (ni_cache inner) token of
        Some (Inr price) \<Rightarrow> to_normalized_price rnd lossy price | _ \<Rightarrow> None)"

definition native_priced :: "(h160 \<Rightarrow> u256 option) \<Rightarrow> order \<Rightarrow> bool" where
  "native_priced native ord \<longleftrightarrow> native (od_sell_token (o_data ord)) \<noteq> None \<and> native (od_buy_token (o_data ord)) \<noteq> None"

lemma get_native_prices_native:
  assumes "get_native_prices rnd lossy now tokens inner = (Ok (prices, inner') :: ('e, _) outcome)"
  shows "distinct (map fst prices)"
    "map_of prices token = (if token \<in> set tokens then native_price rnd lossy now inner token else None)"
  using get_native_prices_Ok [OF assms] by (simp_all add: native_price_def)

lemma bt_ok_use_prices: "bt_ok used \<Longrightarrow> bt_ok (use_prices prices used ord)"
  by (simp add: use_prices_def btree_map.ok_ins split: option.split)

lemma map_of_use_prices:
  "bt_ok used \<Longrightarrow> map_of (use_prices prices used ord) t =
     (if has_prices prices ord \<and> t \<in> set (order_tokens ord) then map_of prices t else map_of used t)"
  by (auto simp: use_prices_def has_prices_def order_tokens_def btree_map.ok_ins btree_map.lookup_ins split: option.splits)

lemma used_prices_eq:
  "bt_ok used \<Longrightarrow> bt_ok (foldl (use_prices prices) used orders)
     \<and> map_of (foldl (use_prices prices) used orders) t =
        (if \<exists>ord \<in> set orders. has_prices prices ord \<and> t \<in> set (order_tokens ord) then map_of prices t else map_of used t)"
proof (induction orders arbitrary: used)
  case (Cons ord orders)
  from Cons.IH [OF bt_ok_use_prices [OF Cons.prems], of prices ord] Cons.prems show ?case
    by (auto simp: map_of_use_prices)
qed simp

lemma get_orders_with_native_prices_Ok:
  assumes "get_orders_with_native_prices rnd lossy instant now orders inner =
      (Ok ((usable, used, n), inner') :: ('e, _) outcome)"
  defines "native \<equiv> native_price rnd lossy instant inner"
  shows "usable = filter (native_priced native) orders" "bt_ok used" "map_of used \<subseteq>\<^sub>m native"
    "\<forall>ord \<in> set usable. set (order_tokens ord) \<subseteq> dom (map_of used)"
proof -
  from assms(1) obtain prices inner1 where
    look: "get_native_prices rnd lossy instant (remdups (concat (map order_tokens orders))) inner
            = (Ok (prices, inner1) :: ('e, _) outcome)" and
    usable: "usable = filter (has_prices prices) orders" and
    used: "used = foldl (use_prices prices) [] orders"
    by (auto simp: get_orders_with_native_prices_def outc Let_def)
  have at: "map_of prices t = native t" if "ord \<in> set orders" "t \<in> set (order_tokens ord)" for ord t
    using get_native_prices_native(2) [OF look, of t] that by (auto simp: native_def)
  have priced: "has_prices prices ord \<longleftrightarrow> native_priced native ord" if "ord \<in> set orders" for ord
    using at [OF that] by (simp add: has_prices_def native_priced_def order_tokens_def)
  show "usable = filter (native_priced native) orders"
    using usable priced by (auto intro: filter_cong)
  have bt: "bt_ok ([] :: wei_prices)"
    by (simp add: bt_ok_def)
  note u = used_prices_eq [OF bt, of prices orders]
  show "bt_ok used"
    using u used by simp
  show "map_of used \<subseteq>\<^sub>m native"
    using u used at by (auto simp: map_le_def split: if_splits)
  show "\<forall>ord \<in> set usable. set (order_tokens ord) \<subseteq> dom (map_of used)"
  proof
    fix ord assume ord: "ord \<in> set usable"
    then have "has_prices prices ord" "ord \<in> set orders"
      using usable by auto
    then show "set (order_tokens ord) \<subseteq> dom (map_of used)"
      using u used by (auto simp: has_prices_def order_tokens_def dom_def)
  qed
qed

lemma get_orders_with_native_prices_total:
  assumes "- (2 ^ 63 * 10 ^ 9) \<le> instant - int (ni_max_age inner)"
  shows "\<exists>usable used n inner'. get_orders_with_native_prices rnd lossy instant now orders inner =
      (Ok ((usable, used, n), inner') :: ('e, _) outcome)
     \<and> (\<forall>t. instant \<le> t \<longrightarrow> fresh t (ni_max_age inner') (ni_cache inner') = fresh t (ni_max_age inner) (ni_cache inner))
     \<and> ni_max_age inner' = ni_max_age inner"
proof -
  obtain prices inner1 where look: "get_native_prices rnd lossy instant (remdups (concat (map order_tokens orders))) inner
      = (Ok (prices, inner1) :: ('e, _) outcome)"
    using get_native_prices_total [OF assms] by blast
  show ?thesis
    using get_native_prices_fresh_later(1) [OF look] get_native_prices_fresh_later(2) [OF look order_refl]
    by (simp add: get_orders_with_native_prices_def look Let_def replace_high_priority_def)
qed

text \<open>The check of a limit order, from the native prices of its two tokens alone.\<close>

definition order_prices :: "(h160 \<Rightarrow> u256 option) \<Rightarrow> order \<Rightarrow> wei_prices" where
  "order_prices native ord = List.map_filter (\<lambda>t. map_option (Pair t) (native t)) (order_tokens ord)"

definition in_market :: "(h160 \<Rightarrow> u256 option) \<Rightarrow> big_decimal \<Rightarrow> order \<Rightarrow> bool" where
  "in_market native price_factor ord \<longleftrightarrow> well_priced (order_prices native ord) price_factor ord = (Ok True :: (unit, _) outcome)"

lemma well_priced_Ok:
  assumes "\<forall>t \<in> set (order_tokens ord). map_of prices t = native t" "native_priced native ord"
  shows "well_priced prices price_factor ord = Ok (in_market native price_factor ord)"
proof -
  obtain sell buy where n: "native (od_sell_token (o_data ord)) = Some sell" "native (od_buy_token (o_data ord)) = Some buy"
    using assms(2) by (auto simp: native_priced_def)
  then have p: "map_of prices (od_sell_token (o_data ord)) = Some sell" "map_of prices (od_buy_token (o_data ord)) = Some buy"
    "map_of (order_prices native ord) (od_sell_token (o_data ord)) = Some sell"
    "map_of (order_prices native ord) (od_buy_token (o_data ord)) = Some buy"
    using assms(1) by (auto simp: order_tokens_def order_prices_def List.map_filter_def)
  show ?thesis
    by (auto simp: in_market_def well_priced_def p split: option.split)
qed

lemma oretain_Ok: "\<forall>x \<in> set xs. f x = Ok (g x) \<Longrightarrow> oretain f xs = Ok (filter g xs)"
  by (induction xs) auto

section \<open>Priorities\<close>

definition recent :: "int \<Rightarrow> order \<Rightarrow> bool" where
  "recent now ord \<longleftrightarrow> now - om_creation_date (o_metadata ord) \<le> MARKET_ORDER_AGE_MINUTES * 60"

definition tokens_of :: "order list \<Rightarrow> h160 list" where
  "tokens_of orders = concat (map order_tokens orders)"

lemma count_list_tokens_of:
  assumes "mset xs = mset ys"
  shows "count_list (tokens_of xs) t = count_list (tokens_of ys) t"
proof -
  have "mset (tokens_of zs) = (\<Sum>ord \<in># mset zs. mset (order_tokens ord))" for zs
    by (induction zs) (auto simp: tokens_of_def)
  with assms show ?thesis
    by (metis count_mset)
qed

lemma index_set_extend_append: "index_set_extend xs (ys @ zs) = index_set_extend (index_set_extend xs ys) zs"
  by (simp add: index_set_extend_def)

lemma index_set_extend_distinct: "distinct xs \<Longrightarrow> distinct (index_set_extend xs ys)"
  by (induction ys arbitrary: xs) (auto simp: index_set_extend_def index_set_insert_def)

lemma index_set_extend_prefix:
  assumes "distinct ys"
  shows "index_set_extend xs ys = xs @ filter (\<lambda>y. y \<notin> set xs) ys"
  using assms
proof (induction ys arbitrary: xs)
  case (Cons y ys)
  then have "filter (\<lambda>z. z \<notin> set (xs @ [y])) ys = filter (\<lambda>z. z \<notin> set xs) ys"
    by (auto intro: filter_cong)
  with Cons.IH [of "xs @ [y]"] Cons.IH [of xs] Cons.prems show ?case
    by (simp add: index_set_extend_def index_set_insert_def)
qed (simp add: index_set_extend_def)

lemma set_index_set_extend: "set (index_set_extend xs ys) = set xs \<union> set ys"
  by (induction ys arbitrary: xs) (auto simp: index_set_extend_def index_set_insert_def)

lemma prioritize_step_eq:
  "prioritize_step now (hp, counts) ord =
     (if recent now ord then (index_set_extend hp (order_tokens ord), counts)
      else (hp, foldl (\<lambda>c t. count_token t c) counts (order_tokens ord)))"
  by (simp add: prioritize_step_def recent_def order_tokens_def)

lemma prioritize_fold:
  "foldl (prioritize_step now) (hp, counts) orders =
     (index_set_extend hp (tokens_of (filter (recent now) orders)),
      foldl (\<lambda>c t. count_token t c) counts (tokens_of (filter (\<lambda>ord. \<not> recent now ord) orders)))"
proof (induction orders arbitrary: hp counts)
  case (Cons ord orders)
  show ?case
    by (simp add: Cons.IH prioritize_step_eq tokens_of_def index_set_extend_append)
qed (simp add: tokens_of_def index_set_extend_def)

definition uses :: "(h160 \<times> nat) list \<Rightarrow> h160 \<Rightarrow> nat" where
  "uses counts t = (case map_of counts t of Some n \<Rightarrow> n | None \<Rightarrow> 0)"

lemma count_tokens:
  assumes "distinct (map fst counts)"
  shows "distinct (map fst (foldl (\<lambda>c t. count_token t c) counts ts))
     \<and> fst ` set (foldl (\<lambda>c t. count_token t c) counts ts) = fst ` set counts \<union> set ts
     \<and> uses (foldl (\<lambda>c t. count_token t c) counts ts) t = uses counts t + count_list ts t"
  using assms
proof (induction ts arbitrary: counts)
  case (Cons x ts)
  have "distinct (map fst (count_token x counts))"
    using Cons.prems by (simp add: count_token_def AList.distinct_update)
  from Cons.IH [OF this] show ?case
    by (auto simp: count_token_def AList.dom_update uses_def AList.update_conv')
qed simp

interpretation usage_order: total_preorder more_used
  by unfold_locales (auto simp: more_used_def)

interpretation age_order: total_preorder newer
  by unfold_locales (auto simp: newer_def)

section \<open>The counter\<close>

definition uids :: "order list \<Rightarrow> order_uid set" where
  "uids orders = (\<lambda>ord. om_uid (o_metadata ord)) ` set orders"

text \<open>The counter knows exactly the orders that are left, and has accounted for all the others.\<close>

definition counter_total :: "order_filter_counter \<Rightarrow> nat" where
  "counter_total c = length (fc_orders c) + sum_list (map snd (fc_counts c))"

definition counter_ok :: "nat \<Rightarrow> order list \<Rightarrow> order_filter_counter \<Rightarrow> bool" where
  "counter_ok candidates orders c \<longleftrightarrow>
     distinct (map fst (fc_orders c)) \<and> fst ` set (fc_orders c) = uids orders
     \<and> distinct (map fst (fc_counts c)) \<and> counter_total c = candidates"

lemma delete_filter: "AList.delete k m = filter (\<lambda>kv. fst kv \<noteq> k) m"
  by (induction m) auto

lemma counter_remove_Ok:
  assumes "distinct (map fst m)" "distinct ks" "set ks \<subseteq> fst ` set m"
  shows "counter_remove ks m = (Ok (filter (\<lambda>kv. fst kv \<notin> set ks) m) :: ('e, _) outcome)"
  using assms
proof (induction ks arbitrary: m)
  case (Cons k ks)
  have "map_of m k \<noteq> None"
    using Cons.prems(3) by (simp add: map_of_eq_None_iff)
  moreover have "set ks \<subseteq> fst ` set (AList.delete k m)"
    using Cons.prems(2,3) by (fastforce simp: delete_filter)
  then have "counter_remove ks (AList.delete k m) = (Ok (filter (\<lambda>kv. fst kv \<notin> set ks) (AList.delete k m)) :: ('e, _) outcome)"
    using Cons.IH [OF AList.distinct_delete [OF Cons.prems(1)]] Cons.prems(2) by simp
  ultimately show ?case
    by (simp add: delete_filter conj_commute)
qed simp

lemma remove_keys_eq: "remove_keys AList.delete ks m = filter (\<lambda>kv. fst kv \<notin> set ks) m"
  unfolding remove_keys_def
proof (induction ks arbitrary: m)
  case (Cons k ks)
  then show ?case
    by (simp add: delete_filter)
qed simp

lemma sum_list_update:
  fixes m :: "('k \<times> nat) list"
  assumes "distinct (map fst m)"
  shows "sum_list (map snd (AList.update k ((case map_of m k of Some n \<Rightarrow> n | None \<Rightarrow> 0) + d) m)) = sum_list (map snd m) + d"
  using assms
proof (induction m)
  case (Cons kv m)
  then have "fst kv = k \<Longrightarrow> map_of m k = None"
    by (auto simp: map_of_eq_None_iff)
  with Cons show ?case
    by (cases kv) auto
qed simp

lemma checkpoint_Ok:
  assumes "counter_ok candidates orders c" "set orders' \<subseteq> set orders"
  shows "\<exists>removed c'. checkpoint reason orders' c = (Ok (removed, c') :: ('e, _) outcome) \<and> counter_ok candidates orders' c'
     \<and> distinct removed \<and> set removed = uids orders - uids orders'"
proof -
  let ?keep = "\<lambda>kv :: order_uid \<times> order_class. fst kv \<notin> set (map (\<lambda>ord. om_uid (o_metadata ord)) orders')"
  let ?filtered = "filter ?keep (fc_orders c)"
  let ?counts = "AList.update reason ((case map_of (fc_counts c) reason of Some n \<Rightarrow> n | None \<Rightarrow> 0) + length ?filtered) (fc_counts c)"
  let ?left = "filter (\<lambda>kv. fst kv \<notin> set (map fst ?filtered)) (fc_orders c)"
  have d: "distinct (map fst (fc_orders c))" and keys: "fst ` set (fc_orders c) = uids orders"
    using assms(1) by (simp_all add: counter_ok_def)
  have uids': "set (map (\<lambda>ord. om_uid (o_metadata ord)) orders') = uids orders'" "uids orders' \<subseteq> uids orders"
    using assms(2) by (auto simp: uids_def)
  have removed: "set (map fst ?filtered) = uids orders - uids orders'"
    using keys uids'(1) by (auto simp: image_iff)
  have left: "?left = filter (\<lambda>kv. \<not> ?keep kv) (fc_orders c)"
  proof (rule filter_cong [OF refl])
    fix kv assume "kv \<in> set (fc_orders c)"
    then have "fst kv \<in> uids orders"
      using keys by blast
    then show "fst kv \<notin> set (map fst ?filtered) \<longleftrightarrow> \<not> ?keep kv"
      using removed uids'(1) by simp
  qed
  have "counter_remove (map fst ?filtered) (fc_orders c) = (Ok ?left :: ('e, _) outcome)"
    using d removed keys by (intro counter_remove_Ok) (auto simp: distinct_map_filter)
  then have check: "checkpoint reason orders' c = (Ok (map fst ?filtered, \<lparr>fc_orders = ?left, fc_counts = ?counts\<rparr>) :: ('e, _) outcome)"
    by (simp add: checkpoint_def Let_def remove_keys_eq)
  have "length ?left + length ?filtered = length (fc_orders c)"
    unfolding left using sum_length_filter_compl [of ?keep "fc_orders c"] by simp
  then have candidates: "counter_total \<lparr>fc_orders = ?left, fc_counts = ?counts\<rparr> = candidates"
    using assms(1) by (simp add: counter_total_def counter_ok_def sum_list_update)
  have "fst ` set ?left = uids orders'"
    unfolding left using keys uids' by (auto simp: image_iff)
  then have "counter_ok candidates orders' \<lparr>fc_orders = ?left, fc_counts = ?counts\<rparr>"
    using candidates d assms(1) by (simp add: counter_ok_def distinct_map_filter AList.distinct_update)
  moreover have "distinct (map fst ?filtered)"
    using d by (rule distinct_map_filter)
  ultimately show ?thesis
    using check removed by blast
qed

lemma counter_new_ok:
  assumes "counter_new orders metrics = (c, metrics')"
  shows "counter_ok (card (uids orders)) orders c"
proof -
  let ?kvs = "map (\<lambda>ord. (om_uid (o_metadata ord), om_class (o_metadata ord))) orders"
  have c: "fc_orders c = extend_map AList.update ?kvs []" "fc_counts c = []"
    using assms by (auto simp: counter_new_def)
  have d: "distinct (map fst (fc_orders c))"
    unfolding c by (rule hash_map.ok_extend_map) simp
  have "dom (map_of (fc_orders c)) = fst ` set (rev ?kvs)"
    unfolding c by (simp add: hash_map.lookup_extend_map dom_map_of_conv_image_fst)
  then have keys: "fst ` set (fc_orders c) = uids orders"
    by (simp add: dom_map_of_conv_image_fst uids_def image_image)
  have "length (fc_orders c) = card (uids orders)"
    using distinct_card [OF d] keys by simp
  then show ?thesis
    using d keys c by (simp add: counter_ok_def counter_total_def)
qed

text \<open>\<open>split_off U xs V\<close>: the uids \<open>xs\<close>, each once, have left \<open>U\<close>, and \<open>V\<close> are the rest.\<close>

definition split_off :: "order_uid set \<Rightarrow> order_uid list \<Rightarrow> order_uid set \<Rightarrow> bool" where
  "split_off U xs V \<longleftrightarrow> distinct xs \<and> set xs \<union> V = U \<and> set xs \<inter> V = {}"

lemma split_off_append: "split_off U xs V \<Longrightarrow> split_off V ys W \<Longrightarrow> split_off U (xs @ ys) W"
  by (auto simp: split_off_def)

lemma checkpoint_split:
  assumes "counter_ok candidates orders c" "set orders' \<subseteq> set orders"
  obtains removed c' where "checkpoint reason orders' c = (Ok (removed, c') :: ('e, _) outcome)"
    "counter_ok candidates orders' c'" "split_off (uids orders) removed (uids orders')"
proof -
  have "uids orders' \<subseteq> uids orders"
    using assms(2) by (auto simp: uids_def)
  with checkpoint_Ok [OF assms, of reason] that show thesis
    unfolding split_off_def by blast
qed

section \<open>Properties\<close>

text \<open>
  C34. The loop that removes orders with unsupported tokens, which moves the last order into the hole and looks at the same
  index again, ends, for every detector and all orders, and looks at every order: when it succeeds the detector answered for every order, and
  exactly the orders whose two tokens are good are kept, each as often as it was there. It fails only with an error of the
  detector on the tokens of one of the orders, and panics only if the detector does, or for an order that sells and buys the same token.
\<close>

theorem filter_unsupported_tokens_is_filter:
  "case filter_unsupported_tokens detect orders :: ('e, order list) outcome of
     Ok orders' \<Rightarrow> list_all (\<lambda>ord. tokens_verdict detect ord \<in> {Ok True, Ok False}) orders
       \<and> mset orders' = filter_mset (\<lambda>ord. tokens_verdict detect ord = Ok True) (mset orders)
   | Err e \<Rightarrow> list_ex (\<lambda>ord. tokens_verdict detect ord = Err e) orders
   | Panic \<Rightarrow> list_ex (\<lambda>ord. tokens_verdict detect ord = Panic) orders"
  using filter_unsupported_tokens_keeps [of detect orders]
  by (auto simp: verdicts_kept_def list_all_iff list_ex_iff split: outcome.splits)

text \<open>The example of two orders for a token that takes a fee on transfers.\<close>

lemma filter_unsupported_tokens_example:
  "\<exists>orders'. filter_unsupported_tokens (\<lambda>t. Ok (if t = 2 then TokenBad ''fee on transfer'' else TokenGood))
       [example_order Sell 3 [], example_order Buy 4 []] = (Ok orders' :: (unit, _) outcome)
     \<and> mset orders' = {#}"
  using filter_unsupported_tokens_answer [of "[example_order Sell 3 [], example_order Buy 4 []]"
      "\<lambda>t. if t = 2 then TokenBad ''fee on transfer'' else TokenGood", where 'e = unit]
  by (simp add: example_order_def tokens_supported_def)

text \<open>
  Which missing prices are fetched first: every token of an order without prices, once; the tokens of the orders of the last
  half hour before all others, and of the others, those that more orders need before those that fewer need.
\<close>

theorem prioritize_missing_prices_order:
  shows "\<exists>urgent rest. prioritize_missing_prices now orders = urgent @ rest \<and> distinct (urgent @ rest)
     \<and> set urgent = set (tokens_of (filter (recent now) orders))
     \<and> set (urgent @ rest) = set (tokens_of orders)
     \<and> sorted_wrt (\<lambda>a b. count_list (tokens_of (filter (\<lambda>ord. \<not> recent now ord) orders)) b
                        \<le> count_list (tokens_of (filter (\<lambda>ord. \<not> recent now ord) orders)) a) rest"
proof -
  let ?os = "sort_by newer orders"
  let ?old = "tokens_of (filter (\<lambda>ord. \<not> recent now ord) ?os)"
  let ?counts = "foldl (\<lambda>c t. count_token t c) [] ?old"
  let ?urgent = "index_set_extend [] (tokens_of (filter (recent now) ?os))"
  let ?used = "map fst (sort_by more_used ?counts)"
  let ?rest = "filter (\<lambda>t. t \<notin> set ?urgent) ?used"
  have c: "distinct (map fst ?counts)" "fst ` set ?counts = set ?old" "uses ?counts t = count_list ?old t" for t
    using count_tokens [of "[]" ?old t] by (simp_all add: uses_def)
  have mu: "mset ?used = mset (map fst ?counts)"
    by (simp only: mset_map mset_sort_by)
  have du: "distinct ?used"
    using c(1) mset_eq_imp_distinct_iff [OF mu] by blast
  have su: "set ?used = set ?old"
    using c(2) by simp
  have eq: "prioritize_missing_prices now orders = ?urgent @ ?rest"
    by (simp add: prioritize_missing_prices_def prioritize_fold index_set_extend_prefix [OF du])
  have snd_uses: "snd kv = count_list ?old (fst kv)" if "kv \<in> set ?counts" for kv
  proof -
    have "map_of ?counts (fst kv) = Some (snd kv)"
      using map_of_is_SomeI [OF c(1), of "fst kv" "snd kv"] that by simp
    then show ?thesis
      using c(3) [of "fst kv"] unfolding uses_def by simp
  qed
  have old: "count_list ?old t = count_list (tokens_of (filter (\<lambda>ord. \<not> recent now ord) orders)) t" for t
    by (rule count_list_tokens_of) simp
  have "sorted_wrt (\<lambda>a b. count_list ?old (fst b) \<le> count_list ?old (fst a)) (sort_by more_used ?counts)"
    by (rule sorted_wrt_mono_rel [OF _ usage_order.sorted_sort_by]) (simp add: more_used_def snd_uses)
  then have sorted: "sorted_wrt (\<lambda>a b. count_list ?old b \<le> count_list ?old a) ?rest"
    by (intro sorted_wrt_filter) (simp add: sorted_wrt_map)
  have all: "set ?urgent = set (tokens_of (filter (recent now) orders))"
    "set (?urgent @ ?rest) = set (tokens_of orders)" "distinct (?urgent @ ?rest)"
    using du su index_set_extend_distinct [of "[]"] by (auto simp: set_index_set_extend tokens_of_def)
  show ?thesis
    using eq sorted all unfolding old by blast
qed

end
