(* ===== verification/Auction_Update.thy ===== *)
theory Auction_Update
  imports Solvable_Orders Cow_Amms
begin

text \<open>
  The auction the autopilot builds: \<open>SolvableOrdersCache::update\<close> of \<open>crates/autopilot/src/solvable_orders.rs\<close> and the auction of
  \<open>crates/autopilot/src/domain/auction/mod.rs\<close>.

  \<open>update\<close> is a program over the state of the service (banned users cache, native price cache, metrics, order events handed to
  the database, the current auction). What it asks of the database, of the chain and of the clock is the record \<open>environment\<close>.
\<close>

section \<open>The auction\<close>

record domain_auction =
  da_block :: u64
  da_latest_settlement_block :: u64
  da_orders :: "domain_order list"
  da_prices :: wei_prices
  da_surplus_capturing_jit_order_owners :: "h160 list"

datatype update_error = DbError string | DetectError string | InvalidPrice

text \<open>\<open>Price::new\<close>.\<close>

definition auction_price_new :: "u256 \<Rightarrow> (update_error, u256) outcome" where
  "auction_price_new v = (if v = 0 then Err InvalidPrice else Ok v)"

record solvable_orders_db =
  so_orders :: "order list"
  so_quotes :: "(order_uid \<times> domain_quote) list"
  so_latest_settlement_block :: u64

datatype order_event_label =
    EventCreated | EventReady | EventFiltered | EventInvalid | EventExecuting | EventConsidered | EventTraded | EventCancelled

text \<open>
  What the service asks for while it builds one auction: the times, the database, the sanctions registry, the validation of
  EIP-1271 signatures, the quality of tokens, balances, native prices, the CoW AMMs; and the floating point operations and the
  app data parser.
\<close>

record environment =
  env_epoch_seconds :: u32
  env_solvable_orders :: "u32 \<Rightarrow> (update_error, solvable_orders_db) outcome"
  env_is_sanctioned :: "h160 \<Rightarrow> bool option"
  env_validate_signatures :: "signature_check list \<Rightarrow> validation list"
  env_detect :: "h160 \<Rightarrow> (update_error, token_quality) outcome"
  env_get_balances :: "query list \<Rightarrow> (string + u256) list"
  env_instant :: instant
  env_utc_now :: int
  env_estimate :: "h160 \<Rightarrow> cache_entry"
  env_weth_instant :: instant
  env_weth_clock :: "instant \<times> instant"
  env_amms_instant :: instant
  env_update_instant :: instant
  env_cow_amms :: "cow_amm list"
  env_round :: "rat \<Rightarrow> f64"
  env_from_f64_lossy :: "f64 \<Rightarrow> u256"
  env_partner_bps :: "string \<Rightarrow> u64 option"

record cache_config =
  cc_min_order_validity_period :: u64
  cc_weth :: h160
  cc_limit_order_price_factor :: big_decimal
  cc_protocol_fees :: fees_config

record service_state =
  ss_banned_users :: banned_users
  ss_native_prices :: native_inner
  ss_metrics :: auction_metrics
  ss_order_events :: "(order_uid \<times> order_event_label) list"
  ss_auction :: "domain_auction option"
  ss_update_time :: instant

type_synonym 'a service = "(service_state, update_error, 'a) prog"

text \<open>The price of the wrapped native token, when no order needs it: its estimation may not fail.\<close>

definition add_weth_price :: "environment \<Rightarrow> h160 \<Rightarrow> wei_prices \<Rightarrow> wei_prices service" where
  "add_weth_price env weth prices =
     (case map_of prices weth of
        Some _ \<Rightarrow> pret prices
      | None \<Rightarrow>
          pbind (pfield ss_native_prices (\<lambda>p s. s\<lparr>ss_native_prices := p\<rparr>)
            (estimate_native_price (env_estimate env) (env_weth_instant env) (env_weth_clock env) weth)) (\<lambda>weth_price.
          pbind (plift (expect (case weth_price of Inr p \<Rightarrow> Some p | Inl _ \<Rightarrow> None))) (\<lambda>weth_price.
          pbind (plift (expect (to_normalized_price (env_round env) (env_from_f64_lossy env) weth_price))) (\<lambda>weth_price.
          pret (bt_insert weth weth_price prices)))))"

definition add_cow_amm_prices :: "environment \<Rightarrow> wei_prices \<Rightarrow> wei_prices service" where
  "add_cow_amm_prices env prices =
     (let cow_amm_tokens = filter (\<lambda>token. map_of prices token = None)
            (remdups (concat (map ca_traded_tokens (env_cow_amms env))))
      in pbind (pfield ss_native_prices (\<lambda>p s. s\<lparr>ss_native_prices := p\<rparr>)
           (get_native_prices (env_round env) (env_from_f64_lossy env) (env_amms_instant env) cow_amm_tokens))
           (\<lambda>cow_amm_prices. pret (extend_map bt_insert cow_amm_prices prices)))"

text \<open>The owners of the CoW AMMs all of whose tokens have a price.\<close>

definition surplus_capturing_owners :: "cow_amm list \<Rightarrow> wei_prices \<Rightarrow> h160 list" where
  "surplus_capturing_owners amms prices =
     map ca_address (filter (\<lambda>amm. list_all (\<lambda>token. map_of prices token \<noteq> None) (ca_traded_tokens amm)) amms)"

definition store_order_events :: "order_uid list \<Rightarrow> order_event_label \<Rightarrow> service_state \<Rightarrow> service_state" where
  "store_order_events us label s = s\<lparr>ss_order_events := ss_order_events s @ map (\<lambda>uid. (uid, label)) us\<rparr>"

text \<open>The first part of \<open>update\<close>: the filters up to the balances, with the orders they leave and the uids they removed.\<close>

definition update_filter ::
  "environment \<Rightarrow> order list \<Rightarrow> order_filter_counter
    \<Rightarrow> (order list \<times> order_filter_counter \<times> order_uid list \<times> order_uid list) service" where
  "update_filter env orders counter =
     pbind (pfield ss_banned_users (\<lambda>p s. s\<lparr>ss_banned_users := p\<rparr>)
       (\<lambda>users. Ok (filter_banned_user_orders (env_is_sanctioned env) orders users))) (\<lambda>orders.
     pbind (plift (checkpoint ''banned_user'' orders counter)) (\<lambda>(removed_banned, counter).
     pbind (plift (filter_invalid_signature_orders (env_validate_signatures env) orders)) (\<lambda>orders.
     pbind (plift (checkpoint ''invalid_signature'' orders counter)) (\<lambda>(removed_signature, counter).
     pbind (plift (filter_unsupported_tokens (env_detect env) orders)) (\<lambda>orders.
     pbind (plift (checkpoint ''unsupported_token'' orders counter)) (\<lambda>(removed_token, counter).
     let balances = collect_balances (env_get_balances env) orders;
         orders = orders_with_balance orders balances in
     pbind (plift (checkpoint ''insufficient_balance'' orders counter)) (\<lambda>(removed_balance, counter).
     let orders = filter_dust_orders orders balances in
     pbind (plift (checkpoint ''dust_order'' orders counter)) (\<lambda>(removed_dust, counter).
     pret (orders, counter, removed_banned @ removed_signature @ removed_token @ removed_balance, removed_dust)))))))))"

text \<open>The second part: the prices, and the orders that have them and are in the market.\<close>

definition update_prices ::
  "environment \<Rightarrow> cache_config \<Rightarrow> order list \<Rightarrow> order_filter_counter
    \<Rightarrow> (order list \<times> wei_prices \<times> order_filter_counter \<times> order_uid list) service" where
  "update_prices env cfg orders counter =
     pbind (pfield ss_native_prices (\<lambda>p s. s\<lparr>ss_native_prices := p\<rparr>)
       (get_orders_with_native_prices (env_round env) (env_from_f64_lossy env) (env_instant env) (env_utc_now env) orders))
       (\<lambda>(orders, prices, filtered_market_orders).
     pbind (pmodify (\<lambda>s. s\<lparr>ss_metrics := (ss_metrics s)\<lparr>mt_market_order_missing_price := filtered_market_orders\<rparr>\<rparr>)) (\<lambda>_.
     pbind (add_weth_price env (cc_weth cfg) prices) (\<lambda>prices.
     pbind (add_cow_amm_prices env prices) (\<lambda>prices.
     pbind (plift (checkpoint ''missing_price'' orders counter)) (\<lambda>(removed_price, counter).
     pbind (plift (filter_mispriced_limit_orders orders prices (cc_limit_order_price_factor cfg))) (\<lambda>orders.
     pbind (plift (checkpoint ''out_of_market'' orders counter)) (\<lambda>(removed_market, counter).
     pret (orders, prices, counter, removed_price @ removed_market))))))))"

text \<open>The last part: the auction, from the orders and prices left; the fields of the auction are computed in their order.\<close>

definition update_auction ::
  "environment \<Rightarrow> cache_config \<Rightarrow> u64 \<Rightarrow> solvable_orders_db \<Rightarrow> order list \<Rightarrow> wei_prices \<Rightarrow> unit service" where
  "update_auction env cfg block db orders prices =
     (let owners = surplus_capturing_owners (env_cow_amms env) prices in
      pbind (plift (omap (\<lambda>ord. fees_apply (env_round env) (env_partner_bps env) (cc_protocol_fees cfg) ord
               (map_of (so_quotes db) (om_uid (o_metadata ord))) owners) orders)) (\<lambda>auction_orders.
      pbind (plift (omap (\<lambda>(key, v). obind (auction_price_new v) (\<lambda>price. Ok (key, price))) prices)) (\<lambda>auction_prices.
      pmodify (\<lambda>s. s\<lparr>
        ss_auction := Some \<lparr>da_block = block, da_latest_settlement_block = so_latest_settlement_block db,
          da_orders = auction_orders, da_prices = auction_prices, da_surplus_capturing_jit_order_owners = owners\<rparr>,
        ss_update_time := env_update_instant env\<rparr>))))"

text \<open>\<open>SolvableOrdersCache::update\<close>. The sum of the two times wraps in a release build.\<close>

definition update :: "environment \<Rightarrow> cache_config \<Rightarrow> u64 \<Rightarrow> unit service" where
  "update env cfg block =
     (let min_valid_to = env_epoch_seconds env + ucast (cc_min_order_validity_period cfg) in
      pbind (plift (env_solvable_orders env min_valid_to)) (\<lambda>db.
      pbind (pfield ss_metrics (\<lambda>p s. s\<lparr>ss_metrics := p\<rparr>) (\<lambda>metrics. Ok (counter_new (so_orders db) metrics))) (\<lambda>counter.
      pbind (update_filter env (so_orders db) counter) (\<lambda>(orders, counter, invalid_order_uids, filtered_dust).
      pbind (update_prices env cfg orders counter) (\<lambda>(orders, prices, counter, filtered_prices).
      pbind (pfield ss_metrics (\<lambda>p s. s\<lparr>ss_metrics := p\<rparr>) (counter_record orders counter)) (\<lambda>removed.
      let filtered_order_events = filtered_dust @ filtered_prices @ removed in
      pbind (pmodify (store_order_events invalid_order_uids EventInvalid)) (\<lambda>_.
      pbind (pmodify (store_order_events filtered_order_events EventFiltered)) (\<lambda>_.
      update_auction env cfg block db orders prices))))))))"

section \<open>The filters of an update\<close>

text \<open>The services answer for each question on its own; the detector does not fail.\<close>

definition env_pointwise ::
  "environment \<Rightarrow> (signature_check \<Rightarrow> validation) \<Rightarrow> (h160 \<Rightarrow> token_quality) \<Rightarrow> (query \<Rightarrow> string + u256) \<Rightarrow> bool" where
  "env_pointwise env validate quality balance \<longleftrightarrow>
     env_validate_signatures env = map validate \<and> env_detect env = (\<lambda>t. Ok (quality t)) \<and> env_get_balances env = map balance"

text \<open>The orders of the database have uids of 56 bytes.\<close>

definition orders_wf :: "order list \<Rightarrow> bool" where
  "orders_wf orders \<longleftrightarrow> (\<forall>ord \<in> set orders. length (om_uid (o_metadata ord)) = 56)"

lemma orders_wf_subset: "orders_wf orders \<Longrightarrow> set orders' \<subseteq> set orders \<Longrightarrow> orders_wf orders'"
  by (auto simp: orders_wf_def)

text \<open>A candidate that is not invalid: not banned, validly signed, of supported tokens and with a balance. A settleable one is no dust either.\<close>

definition valid_candidate ::
  "(h160 \<Rightarrow> bool option) \<Rightarrow> banned_users \<Rightarrow> (signature_check \<Rightarrow> validation) \<Rightarrow> (h160 \<Rightarrow> token_quality)
    \<Rightarrow> (query \<Rightarrow> string + u256) \<Rightarrow> order \<Rightarrow> bool" where
  "valid_candidate fetch users validate quality balance ord \<longleftrightarrow>
     not_banned fetch users ord \<and> signature_ok validate ord \<and> tokens_supported quality ord
     \<and> has_balance (single_balance balance ord) ord"

definition settleable ::
  "(h160 \<Rightarrow> bool option) \<Rightarrow> banned_users \<Rightarrow> (signature_check \<Rightarrow> validation) \<Rightarrow> (h160 \<Rightarrow> token_quality)
    \<Rightarrow> (query \<Rightarrow> string + u256) \<Rightarrow> order \<Rightarrow> bool" where
  "settleable fetch users validate quality balance ord \<longleftrightarrow>
     valid_candidate fetch users validate quality balance ord \<and> not_dust (single_balance balance ord) ord"

text \<open>A candidate for which \<open>token_pair().unwrap()\<close> panics: it passes the first two filters and sells the token it buys.\<close>

definition one_token_candidate :: "(h160 \<Rightarrow> bool option) \<Rightarrow> banned_users \<Rightarrow> (signature_check \<Rightarrow> validation) \<Rightarrow> order list \<Rightarrow> bool" where
  "one_token_candidate fetch users validate orders \<longleftrightarrow>
     (\<exists>ord \<in> set orders. not_banned fetch users ord \<and> signature_ok validate ord
        \<and> od_sell_token (o_data ord) = od_buy_token (o_data ord))"

lemma mset_balance_filters:
  "mset (filter_dust_orders (orders_with_balance orders m) m) = filter_mset (\<lambda>ord. has_balance m ord \<and> not_dust m ord) (mset orders)"
  by (simp add: filter_dust_orders_def orders_with_balance_def filter_filter_mset)

text \<open>The first two filters, which always succeed.\<close>

lemma update_filter_start:
  fixes env s validate orders
  defines "o1 \<equiv> filter (not_banned (env_is_sanctioned env) (ss_banned_users s)) orders"
  defines "o2 \<equiv> filter (signature_ok validate) o1"
  assumes "env_pointwise env validate quality balance" "orders_wf orders" "counter_ok n orders c"
  obtains users' r1 c1 r2 c2 where "filter_banned_user_orders (env_is_sanctioned env) orders (ss_banned_users s) = (o1, users')"
    "checkpoint ''banned_user'' o1 c = (Ok (r1, c1) :: (update_error, _) outcome)"
    "filter_invalid_signature_orders (env_validate_signatures env) o1 = (Ok o2 :: (update_error, _) outcome)"
    "checkpoint ''invalid_signature'' o2 c1 = (Ok (r2, c2) :: (update_error, _) outcome)"
    "counter_ok n o2 c2" "split_off (uids orders) (r1 @ r2) (uids o2)"
proof -
  have sub: "set o1 \<subseteq> set orders" "set o2 \<subseteq> set o1"
    by (auto simp: o1_def o2_def)
  obtain users' where u: "filter_banned_user_orders (env_is_sanctioned env) orders (ss_banned_users s) = (o1, users')"
    unfolding o1_def using filter_banned_user_orders_eq [of "env_is_sanctioned env" orders "ss_banned_users s"] by (metis prod.collapse)
  obtain r1 c1 where c1: "checkpoint ''banned_user'' o1 c = (Ok (r1, c1) :: (update_error, _) outcome)" "counter_ok n o1 c1"
    "split_off (uids orders) r1 (uids o1)"
    by (rule checkpoint_split [OF assms(5) sub(1)])
  obtain r2 c2 where c2: "checkpoint ''invalid_signature'' o2 c1 = (Ok (r2, c2) :: (update_error, _) outcome)" "counter_ok n o2 c2"
    "split_off (uids o1) r2 (uids o2)"
    by (rule checkpoint_split [OF c1(2) sub(2)])
  have "orders_wf o1"
    using assms(4) sub(1) by (rule orders_wf_subset)
  then have "filter_invalid_signature_orders (env_validate_signatures env) o1 = (Ok o2 :: (update_error, _) outcome)"
    unfolding o2_def using assms(3) filter_invalid_signature_orders_eq [of o1 validate] by (simp add: env_pointwise_def orders_wf_def)
  with u c1(1) c2(1,2) split_off_append [OF c1(3) c2(3)] that show thesis
    by blast
qed

lemma pbind_plift_Panic: "pbind (plift Panic) f s = (Panic, s)"
  by (simp add: pbind_def plift_def)

lemma update_filter_Panic:
  assumes "env_pointwise env validate quality balance" "orders_wf orders" "counter_ok n orders c"
    and "one_token_candidate (env_is_sanctioned env) (ss_banned_users s) validate orders"
  shows "fst (update_filter env orders c s) = Panic"
proof -
  let ?o1 = "filter (not_banned (env_is_sanctioned env) (ss_banned_users s)) orders"
  let ?o2 = "filter (signature_ok validate) ?o1"
  have "filter_unsupported_tokens (env_detect env) ?o2 = (Panic :: (update_error, _) outcome)"
    using filter_unsupported_tokens_answer [of ?o2 quality, where 'e = update_error] assms(1,4)
    by (auto simp: env_pointwise_def one_token_candidate_def split: if_splits)
  then show ?thesis
    using update_filter_start [OF assms(1-3), of s "fst (update_filter env orders c s) = Panic"]
    by (simp add: update_filter_def prog_run pbind_plift_Panic del: filter_filter)
qed

lemma update_filter_Ok:
  assumes "env_pointwise env validate quality balance" "orders_wf orders" "counter_ok n orders c"
    and "\<not> one_token_candidate (env_is_sanctioned env) (ss_banned_users s) validate orders"
  defines "fetch \<equiv> env_is_sanctioned env" and "users \<equiv> ss_banned_users s"
  shows "\<exists>orders' c' inv dust users'.
     update_filter env orders c s = (Ok (orders', c', inv, dust), s\<lparr>ss_banned_users := users'\<rparr>)
     \<and> mset orders' = filter_mset (settleable fetch users validate quality balance) (mset orders)
     \<and> counter_ok n orders' c'
     \<and> split_off (uids orders) inv (uids (filter (valid_candidate fetch users validate quality balance) orders))
     \<and> split_off (uids (filter (valid_candidate fetch users validate quality balance) orders)) dust (uids orders')"
proof -
  let ?o1 = "filter (not_banned fetch users) orders"
  let ?o2 = "filter (signature_ok validate) ?o1"
  obtain users' r1 c1 r2 c2 where start: "filter_banned_user_orders fetch orders users = (?o1, users')"
    "checkpoint ''banned_user'' ?o1 c = (Ok (r1, c1) :: (update_error, _) outcome)"
    "filter_invalid_signature_orders (env_validate_signatures env) ?o1 = (Ok ?o2 :: (update_error, _) outcome)"
    "checkpoint ''invalid_signature'' ?o2 c1 = (Ok (r2, c2) :: (update_error, _) outcome)"
    "counter_ok n ?o2 c2" "split_off (uids orders) (r1 @ r2) (uids ?o2)"
    unfolding fetch_def users_def by (rule update_filter_start [OF assms(1-3)])
  obtain o3 where tok: "filter_unsupported_tokens (env_detect env) ?o2 = (Ok o3 :: (update_error, _) outcome)"
    and m3: "mset o3 = filter_mset (tokens_supported quality) (mset ?o2)"
    using filter_unsupported_tokens_answer [of ?o2 quality, where 'e = update_error] assms(1,4)
    by (auto simp: env_pointwise_def one_token_candidate_def fetch_def users_def split: if_splits)
  have s3: "set o3 \<subseteq> set ?o2"
    using arg_cong [OF m3, of set_mset] by auto
  obtain r3 c3 where c3: "checkpoint ''unsupported_token'' o3 c2 = (Ok (r3, c3) :: (update_error, _) outcome)" "counter_ok n o3 c3"
    "split_off (uids ?o2) r3 (uids o3)"
    by (rule checkpoint_split [OF start(5) s3])
  let ?m = "collect_balances (env_get_balances env) o3"
  let ?o4 = "orders_with_balance o3 ?m" and ?o5 = "filter_dust_orders (orders_with_balance o3 ?m) ?m"
  have s4: "set ?o4 \<subseteq> set o3" and s5: "set ?o5 \<subseteq> set ?o4"
    by (auto simp: orders_with_balance_def filter_dust_orders_def)
  obtain r4 c4 where c4: "checkpoint ''insufficient_balance'' ?o4 c3 = (Ok (r4, c4) :: (update_error, _) outcome)" "counter_ok n ?o4 c4"
    "split_off (uids o3) r4 (uids ?o4)"
    by (rule checkpoint_split [OF c3(2) s4])
  obtain r5 c5 where c5: "checkpoint ''dust_order'' ?o5 c4 = (Ok (r5, c5) :: (update_error, _) outcome)" "counter_ok n ?o5 c5"
    "split_off (uids ?o4) r5 (uids ?o5)"
    by (rule checkpoint_split [OF c4(2) s5])
  have run: "update_filter env orders c s = (Ok (?o5, c5, r1 @ r2 @ r3 @ r4, r5), s\<lparr>ss_banned_users := users'\<rparr>)"
    using start(1) unfolding fetch_def users_def
    by (simp add: update_filter_def prog_run start(2-4) [unfolded fetch_def users_def] tok [unfolded fetch_def users_def]
        c3(1) c4(1) c5(1) Let_def pret_def del: filter_filter)
  have agree: "balances_agree balance o3 ?m"
    using assms(1) collect_balances_agree [of balance o3] by (simp add: env_pointwise_def)
  have "mset ?o4 = filter_mset (\<lambda>ord. has_balance (single_balance balance ord) ord) (mset o3)"
    unfolding orders_with_balance_def mset_filter using balances_agree_single [OF agree] by (intro filter_mset_cong) auto
  also have "\<dots> = mset (filter (valid_candidate fetch users validate quality balance) orders)"
    unfolding m3 mset_filter filter_filter_mset by (rule filter_mset_cong) (auto simp: valid_candidate_def)
  finally have "uids ?o4 = uids (filter (valid_candidate fetch users validate quality balance) orders)"
    unfolding uids_def by (metis mset_eq_setD)
  moreover have "mset ?o5 = filter_mset (\<lambda>ord. has_balance (single_balance balance ord) ord \<and> not_dust (single_balance balance ord) ord) (mset o3)"
    unfolding mset_balance_filters using balances_agree_single [OF agree] by (intro filter_mset_cong) auto
  moreover have "\<dots> = filter_mset (settleable fetch users validate quality balance) (mset orders)"
    unfolding m3 mset_filter filter_filter_mset by (rule filter_mset_cong) (auto simp: settleable_def valid_candidate_def)
  moreover have "split_off (uids orders) (r1 @ r2 @ r3 @ r4) (uids ?o4)"
    using split_off_append [OF start(6) split_off_append [OF c3(3) c4(3)]] by simp
  ultimately show ?thesis
    using run c5(2,3) by auto
qed

section \<open>The prices of an update\<close>

text \<open>The instants of an update are in order, and late enough for an outdated entry to have an instant.\<close>

definition env_times_ok :: "environment \<Rightarrow> native_inner \<Rightarrow> bool" where
  "env_times_ok env inner \<longleftrightarrow>
     env_instant env \<le> env_weth_instant env \<and> env_instant env \<le> fst (env_weth_clock env)
     \<and> - (2 ^ 63 * 10 ^ 9) \<le> env_instant env - int (ni_max_age inner)
     \<and> - (2 ^ 63 * 10 ^ 9) \<le> env_amms_instant env - int (ni_max_age inner)"

definition price_ok :: "environment \<Rightarrow> cache_entry \<Rightarrow> bool" where
  "price_ok env r =
     (case r of Inr p \<Rightarrow> to_normalized_price (env_round env) (env_from_f64_lossy env) p \<noteq> None | Inl _ \<Rightarrow> False)"

text \<open>The price of the wrapped native token can always be fetched, and what is cached of it is a price.\<close>

definition weth_priced :: "environment \<Rightarrow> h160 \<Rightarrow> native_inner \<Rightarrow> bool" where
  "weth_priced env weth inner \<longleftrightarrow>
     price_ok env (env_estimate env weth)
     \<and> (\<forall>t r. env_instant env \<le> t \<and> fresh t (ni_max_age inner) (ni_cache inner) weth = Some r \<longrightarrow> price_ok env r)"

definition prices_ok :: "wei_prices \<Rightarrow> bool" where
  "prices_ok prices \<longleftrightarrow> bt_ok prices \<and> (\<forall>t p. map_of prices t = Some p \<longrightarrow> p \<noteq> 0)"

definition prices_extend :: "wei_prices \<Rightarrow> wei_prices \<Rightarrow> bool" where
  "prices_extend prices prices' \<longleftrightarrow> prices_ok prices' \<and> map_of prices \<subseteq>\<^sub>m map_of prices'"

lemma native_price_nonzero:
  "lossy_truncates lossy \<Longrightarrow> native_price rnd lossy now inner token = Some p \<Longrightarrow> p \<noteq> 0"
  using to_normalized_price_nonzero by (auto simp: native_price_def split: option.splits sum.splits)

lemma add_weth_price_Ok:
  assumes "prices_ok prices" "lossy_truncates (env_from_f64_lossy env)"
    and "price_ok env (env_estimate env weth)"
    and "\<And>t r. t \<in> {env_weth_instant env, fst (env_weth_clock env)} \<Longrightarrow>
       fresh t (ni_max_age (ss_native_prices s)) (ni_cache (ss_native_prices s)) weth = Some r \<Longrightarrow> price_ok env r"
  shows "\<exists>prices' inner'. add_weth_price env weth prices s = (Ok prices', s\<lparr>ss_native_prices := inner'\<rparr>)
     \<and> prices_extend prices prices' \<and> ni_max_age inner' = ni_max_age (ss_native_prices s)"
proof (cases "map_of prices weth")
  case (Some p)
  then have "add_weth_price env weth prices s = (Ok prices, s\<lparr>ss_native_prices := ss_native_prices s\<rparr>)"
    by (simp add: add_weth_price_def pret_def)
  moreover have "prices_extend prices prices"
    using assms(1) by (simp add: prices_extend_def)
  ultimately show ?thesis
    by blast
next
  case None
  obtain result inner' where
    est: "estimate_native_price (env_estimate env) (env_weth_instant env) (env_weth_clock env) weth (ss_native_prices s)
       = (Ok (result, inner') :: (update_error, _) outcome)" and
    age: "ni_max_age inner' = ni_max_age (ss_native_prices s)" and
    result: "result = env_estimate env weth \<or> (\<exists>t \<in> {env_weth_instant env, fst (env_weth_clock env)}.
       fresh t (ni_max_age (ss_native_prices s)) (ni_cache (ss_native_prices s)) weth = Some result)"
    using estimate_native_price_Ok by blast
  have "price_ok env result"
    using result assms(3,4) by blast
  then obtain f p where f: "result = Inr f" and p: "to_normalized_price (env_round env) (env_from_f64_lossy env) f = Some p"
    by (auto simp: price_ok_def split: sum.splits)
  have run: "add_weth_price env weth prices s = (Ok (bt_insert weth p prices), s\<lparr>ss_native_prices := inner'\<rparr>)"
    by (simp add: add_weth_price_def None prog_run est f p pret_def)
  have "p \<noteq> 0"
    using assms(2) p by (rule to_normalized_price_nonzero)
  then have "prices_extend prices (bt_insert weth p prices)"
    using assms(1) None
    by (auto simp: prices_extend_def prices_ok_def btree_map.ok_ins btree_map.lookup_ins map_le_def split: if_splits)
  then show ?thesis
    using run age by blast
qed

lemma add_cow_amm_prices_Ok:
  assumes "prices_ok prices" "lossy_truncates (env_from_f64_lossy env)"
    and "- (2 ^ 63 * 10 ^ 9) \<le> env_amms_instant env - int (ni_max_age (ss_native_prices s))"
  shows "\<exists>prices' inner'. add_cow_amm_prices env prices s = (Ok prices', s\<lparr>ss_native_prices := inner'\<rparr>)
     \<and> prices_extend prices prices'"
proof -
  let ?tokens = "filter (\<lambda>token. map_of prices token = None) (remdups (concat (map ca_traded_tokens (env_cow_amms env))))"
  obtain new inner' where
    look: "get_native_prices (env_round env) (env_from_f64_lossy env) (env_amms_instant env) ?tokens (ss_native_prices s)
       = (Ok (new, inner') :: (update_error, _) outcome)"
    using get_native_prices_total [OF assms(3)] by blast
  note new = get_native_prices_native [OF look]
  have run: "add_cow_amm_prices env prices s = (Ok (extend_map bt_insert new prices), s\<lparr>ss_native_prices := inner'\<rparr>)"
    by (simp add: add_cow_amm_prices_def Let_def prog_run look pret_def)
  have bt: "bt_ok prices"
    using assms(1) by (simp add: prices_ok_def)
  have "map_of (rev new) = map_of new"
    using new(1) by (subst map_of_inject_set) (auto simp: rev_map [symmetric])
  then have lookup: "map_of (extend_map bt_insert new prices) = map_of prices ++ map_of new"
    by (simp add: btree_map.lookup_extend_map [OF bt])
  have "map_of new t = None" if "map_of prices t \<noteq> None" for t
    using that by (auto simp: new(2))
  moreover have "p \<noteq> 0" if "map_of new t = Some p" for t p
    using that native_price_nonzero [OF assms(2)] by (auto simp: new(2) split: if_splits)
  ultimately have "prices_extend prices (extend_map bt_insert new prices)"
    using assms(1) btree_map.ok_extend_map [OF bt]
    by (auto simp: prices_extend_def prices_ok_def lookup map_le_def map_add_def split: option.splits)
  then show ?thesis
    using run by blast
qed

lemma update_prices_Ok:
  assumes "counter_ok n orders c" "env_times_ok env (ss_native_prices s)"
    and "weth_priced env (cc_weth cfg) (ss_native_prices s)" "lossy_truncates (env_from_f64_lossy env)"
  defines "native \<equiv> native_price (env_round env) (env_from_f64_lossy env) (env_instant env) (ss_native_prices s)"
  shows "\<exists>orders' prices c' removed s'. update_prices env cfg orders c s = (Ok (orders', prices, c', removed), s')
     \<and> orders' = filter (\<lambda>ord. native_priced native ord \<and> in_market native (cc_limit_order_price_factor cfg) ord) orders
     \<and> counter_ok n orders' c' \<and> split_off (uids orders) removed (uids orders') \<and> prices_ok prices
     \<and> ss_order_events s' = ss_order_events s"
proof -
  let ?rnd = "env_round env" and ?lossy = "env_from_f64_lossy env"
  let ?f = "cc_limit_order_price_factor cfg"
  have times: "env_instant env \<le> env_weth_instant env" "env_instant env \<le> fst (env_weth_clock env)"
    "- (2 ^ 63 * 10 ^ 9) \<le> env_instant env - int (ni_max_age (ss_native_prices s))"
    "- (2 ^ 63 * 10 ^ 9) \<le> env_amms_instant env - int (ni_max_age (ss_native_prices s))"
    using assms(2) by (simp_all add: env_times_ok_def)
  obtain o1 p1 market inner1 where
    look: "get_orders_with_native_prices ?rnd ?lossy (env_instant env) (env_utc_now env) orders (ss_native_prices s)
      = (Ok ((o1, p1, market), inner1) :: (update_error, _) outcome)" and
    inner1: "\<And>t. env_instant env \<le> t \<Longrightarrow> fresh t (ni_max_age inner1) (ni_cache inner1)
      = fresh t (ni_max_age (ss_native_prices s)) (ni_cache (ss_native_prices s))"
      "ni_max_age inner1 = ni_max_age (ss_native_prices s)"
    using get_orders_with_native_prices_total [OF times(3)] by blast
  note o1 = get_orders_with_native_prices_Ok [OF look, folded native_def]
  have ok1: "prices_ok p1"
    using o1(2,3) native_price_nonzero [OF assms(4)] by (force simp: prices_ok_def map_le_def native_def)
  define s1 where "s1 = (s\<lparr>ss_native_prices := inner1\<rparr>)\<lparr>ss_metrics := (ss_metrics s)\<lparr>mt_market_order_missing_price := market\<rparr>\<rparr>"
  have s1: "ss_native_prices s1 = inner1" "ss_order_events s1 = ss_order_events s"
    by (simp_all add: s1_def)
  have weth: "price_ok env r" if "t \<in> {env_weth_instant env, fst (env_weth_clock env)}"
    "fresh t (ni_max_age (ss_native_prices s1)) (ni_cache (ss_native_prices s1)) (cc_weth cfg) = Some r" for t r
  proof -
    have "env_instant env \<le> t"
      using that(1) times(1,2) by auto
    with that(2) inner1(1) assms(3) show ?thesis
      unfolding weth_priced_def s1(1) by metis
  qed
  have est: "price_ok env (env_estimate env (cc_weth cfg))"
    using assms(3) by (simp add: weth_priced_def)
  have weth_step: "\<exists>prices' inner'. add_weth_price env (cc_weth cfg) p1 s1 = (Ok prices', s1\<lparr>ss_native_prices := inner'\<rparr>)
      \<and> prices_extend p1 prices' \<and> ni_max_age inner' = ni_max_age (ss_native_prices s1)"
    using ok1 assms(4) est weth by (rule add_weth_price_Ok)
  obtain p2 inner2 where w: "add_weth_price env (cc_weth cfg) p1 s1 = (Ok p2, s1\<lparr>ss_native_prices := inner2\<rparr>)"
    "prices_extend p1 p2" "ni_max_age inner2 = ni_max_age inner1"
    using weth_step unfolding s1(1) by blast
  obtain p3 inner3 where a: "add_cow_amm_prices env p2 (s1\<lparr>ss_native_prices := inner2\<rparr>) = (Ok p3, s1\<lparr>ss_native_prices := inner3\<rparr>)"
    "prices_extend p2 p3"
    using add_cow_amm_prices_Ok [of p2 env "s1\<lparr>ss_native_prices := inner2\<rparr>"] w(2,3) inner1(2) times(4) assms(4)
    by (auto simp: prices_extend_def s1)
  have sub1: "set o1 \<subseteq> set orders"
    using o1(1) by simp
  obtain r1 c1 where c1: "checkpoint ''missing_price'' o1 c = (Ok (r1, c1) :: (update_error, _) outcome)" "counter_ok n o1 c1"
    "split_off (uids orders) r1 (uids o1)"
    by (rule checkpoint_split [OF assms(1) sub1])
  have at: "map_of p3 t = native t" if "ord \<in> set o1" "t \<in> set (order_tokens ord)" for ord t
  proof -
    have "map_of p1 t = native t" "t \<in> dom (map_of p1)"
      using o1(3,4) that unfolding map_le_def by blast+
    moreover have "map_of p1 \<subseteq>\<^sub>m map_of p3"
      using w(2) a(2) map_le_trans unfolding prices_extend_def by blast
    ultimately show ?thesis
      by (auto simp: map_le_def)
  qed
  have "\<forall>ord \<in> set o1. well_priced p3 ?f ord = (Ok (in_market native ?f ord) :: (update_error, _) outcome)"
  proof
    fix ord assume ord: "ord \<in> set o1"
    then have "native_priced native ord"
      using o1(1) by simp
    with at [OF ord] show "well_priced p3 ?f ord = (Ok (in_market native ?f ord) :: (update_error, _) outcome)"
      by (intro well_priced_Ok) auto
  qed
  then have m: "filter_mispriced_limit_orders o1 p3 ?f = (Ok (filter (in_market native ?f) o1) :: (update_error, _) outcome)"
    unfolding filter_mispriced_limit_orders_def by (rule oretain_Ok)
  obtain r2 c2 where c2: "checkpoint ''out_of_market'' (filter (in_market native ?f) o1) c1 = (Ok (r2, c2) :: (update_error, _) outcome)"
    "counter_ok n (filter (in_market native ?f) o1) c2" "split_off (uids o1) r2 (uids (filter (in_market native ?f) o1))"
    by (rule checkpoint_split [OF c1(2) filter_is_subset])
  have "update_prices env cfg orders c s =
      (Ok (filter (in_market native ?f) o1, p3, c2, r1 @ r2), s1\<lparr>ss_native_prices := inner3\<rparr>)"
    using w(1) a(1) by (simp add: update_prices_def prog_run look c1(1) m c2(1) pbind_step pret_def flip: s1_def)
  moreover have "filter (in_market native ?f) o1 = filter (\<lambda>ord. native_priced native ord \<and> in_market native ?f ord) orders"
    using o1(1) by (simp add: conj_commute)
  ultimately show ?thesis
    using c2(2) split_off_append [OF c1(3) c2(3)] a(2) s1(2) by (auto simp: prices_extend_def)
qed

section \<open>The auction of an update\<close>

text \<open>The orders that make it into the auction, each judged on its own.\<close>

definition solvable ::
  "environment \<Rightarrow> cache_config \<Rightarrow> service_state \<Rightarrow> (signature_check \<Rightarrow> validation) \<Rightarrow> (h160 \<Rightarrow> token_quality)
    \<Rightarrow> (query \<Rightarrow> string + u256) \<Rightarrow> order \<Rightarrow> bool" where
  "solvable env cfg s validate quality balance ord \<longleftrightarrow>
     (let native = native_price (env_round env) (env_from_f64_lossy env) (env_instant env) (ss_native_prices s)
      in settleable (env_is_sanctioned env) (ss_banned_users s) validate quality balance ord
         \<and> native_priced native ord \<and> in_market native (cc_limit_order_price_factor cfg) ord)"

text \<open>The sell amount and fee of a buy order's quote add up within 256 bits, so that its fee policies can be selected.\<close>

definition quotes_fit :: "solvable_orders_db \<Rightarrow> bool" where
  "quotes_fit db \<longleftrightarrow> (\<forall>ord \<in> set (so_orders db). od_kind (o_data ord) = Buy \<longrightarrow>
     (let q = effective_quote ord (map_of (so_quotes db) (om_uid (o_metadata ord)))
      in unat (dq_sell_amount q) + unat (dq_fee q) < 2 ^ 256))"

lemma omap_total: "(\<And>x. x \<in> set xs \<Longrightarrow> \<exists>y. f x = Ok y) \<Longrightarrow> \<exists>ys. omap f xs = Ok ys"
  by (induction xs) force+

lemma update_auction_Ok:
  assumes "prices_ok prices" "fees_wf (cc_protocol_fees cfg)" "quotes_fit db" "set orders \<subseteq> set (so_orders db)"
  shows "\<exists>a. update_auction env cfg block db orders prices s =
       (Ok (), s\<lparr>ss_auction := Some a, ss_update_time := env_update_instant env\<rparr>)
     \<and> da_block a = block \<and> da_prices a = prices
     \<and> list_all2 (\<lambda>ord d. \<exists>ps. d = to_domain ord ps) orders (da_orders a)"
proof -
  let ?owners = "surplus_capturing_owners (env_cow_amms env) prices"
  let ?apply = "\<lambda>ord. fees_apply (env_round env) (env_partner_bps env) (cc_protocol_fees cfg) ord
     (map_of (so_quotes db) (om_uid (o_metadata ord))) ?owners :: (update_error, _) outcome"
  have "\<exists>ds. omap ?apply orders = Ok ds"
  proof (rule omap_total)
    fix ord assume "ord \<in> set orders"
    then show "\<exists>d. ?apply ord = Ok d"
      using assms(3,4) by (intro fees_apply_total [OF assms(2)]) (auto simp: quotes_fit_def Let_def)
  qed
  then obtain ds where ds: "omap ?apply orders = Ok ds"
    by blast
  have "list_all2 (\<lambda>ord d. \<exists>ps. d = to_domain ord ps) orders ds"
    using ds unfolding omap_Ok by (rule list_all2_mono) (rule fees_apply_to_domain)
  moreover have "\<forall>kv \<in> set prices. snd kv \<noteq> 0"
    using assms(1) bt_ok_distinct [of prices] by (auto simp: prices_ok_def)
  then have "omap (\<lambda>(key, v). obind (auction_price_new v) (\<lambda>price. Ok (key, price))) prices = (Ok prices :: (update_error, _) outcome)"
    by (induction prices) (auto simp: auction_price_new_def)
  ultimately show ?thesis
    using ds
    by (intro exI [of _ "\<lparr>da_block = block, da_latest_settlement_block = so_latest_settlement_block db, da_orders = ds,
          da_prices = prices, da_surplus_capturing_jit_order_owners = ?owners\<rparr>"])
       (simp add: update_auction_def Let_def prog_run pmodify_def)
qed

text \<open>
  The assumptions on what surrounds the service, and all that an update then does. They are conditions of the theorems
  below, not code: the database answers, the signatures, the quality of tokens and the balances are answered for each question on
  its own and the detector does not fail, the uids have 56 bytes, the clock does not go back within the update and is late enough for the instant
  of an outdated price to exist, the wrapped native token has a price, numbers are truncated to 256 bits, the configured fee factors are
  fee factors, and the quotes of buy orders fit 256 bits.
\<close>

definition update_ready ::
  "environment \<Rightarrow> cache_config \<Rightarrow> service_state \<Rightarrow> solvable_orders_db \<Rightarrow> (signature_check \<Rightarrow> validation)
    \<Rightarrow> (h160 \<Rightarrow> token_quality) \<Rightarrow> (query \<Rightarrow> string + u256) \<Rightarrow> bool" where
  "update_ready env cfg s db validate quality balance \<longleftrightarrow>
     env_solvable_orders env (env_epoch_seconds env + ucast (cc_min_order_validity_period cfg)) = Ok db
     \<and> env_pointwise env validate quality balance \<and> orders_wf (so_orders db)
     \<and> env_times_ok env (ss_native_prices s) \<and> weth_priced env (cc_weth cfg) (ss_native_prices s)
     \<and> lossy_truncates (env_from_f64_lossy env) \<and> fees_wf (cc_protocol_fees cfg) \<and> quotes_fit db"

abbreviation one_token_in :: "environment \<Rightarrow> service_state \<Rightarrow> solvable_orders_db \<Rightarrow> (signature_check \<Rightarrow> validation) \<Rightarrow> bool" where
  "one_token_in env s db validate \<equiv>
     one_token_candidate (env_is_sanctioned env) (ss_banned_users s) validate (so_orders db)"

lemma update_panics:
  assumes "update_ready env cfg s db validate quality balance" "one_token_in env s db validate"
  shows "fst (update env cfg block s) = Panic"
proof -
  obtain c metrics1 where new: "counter_new (so_orders db) (ss_metrics s) = (c, metrics1)"
    by (cases "counter_new (so_orders db) (ss_metrics s)")
  have "fst (update_filter env (so_orders db) c (s\<lparr>ss_metrics := metrics1\<rparr>)) = Panic"
    using assms by (intro update_filter_Panic [OF _ _ counter_new_ok [OF new]]) (auto simp: update_ready_def)
  then obtain s' where "update_filter env (so_orders db) c (s\<lparr>ss_metrics := metrics1\<rparr>) = (Panic, s')"
    by (metis prod.collapse)
  with assms(1) new show ?thesis
    by (simp add: update_def Let_def update_ready_def prog_run pbind_def [of "update_filter env (so_orders db) c"])
qed

lemma update_total:
  assumes "update_ready env cfg s db validate quality balance" "\<not> one_token_in env s db validate"
  defines "valid \<equiv> valid_candidate (env_is_sanctioned env) (ss_banned_users s) validate quality balance"
  obtains s' a orders inv filtered where "update env cfg block s = (Ok (), s')" "ss_auction s' = Some a"
    "list_all2 (\<lambda>ord d. \<exists>ps. d = to_domain ord ps) orders (da_orders a)"
    "mset orders = filter_mset (solvable env cfg s validate quality balance) (mset (so_orders db))"
    "prices_ok (da_prices a)"
    "ss_order_events s' = ss_order_events s @ map (\<lambda>uid. (uid, EventInvalid)) inv @ map (\<lambda>uid. (uid, EventFiltered)) filtered"
    "split_off (uids (so_orders db)) inv (uids (filter valid (so_orders db)))"
    "split_off (uids (filter valid (so_orders db))) filtered (uids orders)"
proof -
  have db: "env_solvable_orders env (env_epoch_seconds env + ucast (cc_min_order_validity_period cfg)) = Ok db"
    and pw: "env_pointwise env validate quality balance" and wf: "orders_wf (so_orders db)"
    and times: "env_times_ok env (ss_native_prices s)" and weth: "weth_priced env (cc_weth cfg) (ss_native_prices s)"
    and lossy: "lossy_truncates (env_from_f64_lossy env)" and fees: "fees_wf (cc_protocol_fees cfg)" and fit: "quotes_fit db"
    using assms(1) by (simp_all add: update_ready_def)
  obtain c metrics1 where new: "counter_new (so_orders db) (ss_metrics s) = (c, metrics1)"
    by (cases "counter_new (so_orders db) (ss_metrics s)")
  note c = counter_new_ok [OF new]
  let ?s1 = "s\<lparr>ss_metrics := metrics1\<rparr>"
  obtain o1 c1 inv dust users where f: "update_filter env (so_orders db) c ?s1
        = (Ok (o1, c1, inv, dust), ?s1\<lparr>ss_banned_users := users\<rparr>)"
    "mset o1 = filter_mset (settleable (env_is_sanctioned env) (ss_banned_users ?s1) validate quality balance) (mset (so_orders db))"
    "counter_ok (card (uids (so_orders db))) o1 c1"
    "split_off (uids (so_orders db)) inv (uids (filter valid (so_orders db)))"
    "split_off (uids (filter valid (so_orders db))) dust (uids o1)"
    using update_filter_Ok [OF pw wf c, of ?s1] assms(2) by (auto simp: valid_def)
  let ?s2 = "?s1\<lparr>ss_banned_users := users\<rparr>"
  let ?native = "native_price (env_round env) (env_from_f64_lossy env) (env_instant env) (ss_native_prices s)"
  have s2: "ss_native_prices ?s2 = ss_native_prices s" "ss_order_events ?s2 = ss_order_events s"
    "ss_banned_users ?s1 = ss_banned_users s"
    by simp_all
  obtain o2 prices c2 missing s3 where p: "update_prices env cfg o1 c1 ?s2 = (Ok (o2, prices, c2, missing), s3)"
    "o2 = filter (\<lambda>ord. native_priced ?native ord \<and> in_market ?native (cc_limit_order_price_factor cfg) ord) o1"
    "counter_ok (card (uids (so_orders db))) o2 c2" "split_off (uids o1) missing (uids o2)" "prices_ok prices"
    "ss_order_events s3 = ss_order_events s"
    using update_prices_Ok [OF f(3), of env ?s2 cfg, unfolded s2] times weth lossy by blast
  obtain other c3 where c3: "checkpoint ''other'' o2 c2 = (Ok (other, c3) :: (update_error, _) outcome)"
    "split_off (uids o2) other (uids o2)"
    by (rule checkpoint_split [OF p(3) subset_refl])
  have m: "mset o2 = filter_mset (solvable env cfg s validate quality balance) (mset (so_orders db))"
    unfolding p(2) mset_filter f(2) s2(3) filter_filter_mset by (rule filter_mset_cong) (auto simp: solvable_def Let_def)
  have sub: "set o2 \<subseteq> set (so_orders db)"
    using arg_cong [OF m, of set_mset] by auto
  let ?filtered = "dust @ missing @ other"
  obtain metrics3 where rec: "counter_record o2 c2 (ss_metrics s3) = (Ok (other, metrics3) :: (update_error, _) outcome)"
    by (simp add: counter_record_def c3(1))
  let ?s4 = "store_order_events ?filtered EventFiltered (store_order_events inv EventInvalid (s3\<lparr>ss_metrics := metrics3\<rparr>))"
  obtain a where a: "update_auction env cfg block db o2 prices ?s4 =
      (Ok (), ?s4\<lparr>ss_auction := Some a, ss_update_time := env_update_instant env\<rparr>)" "da_prices a = prices"
    "list_all2 (\<lambda>ord d. \<exists>ps. d = to_domain ord ps) o2 (da_orders a)"
    using update_auction_Ok [OF p(5) fees fit sub] by blast
  let ?s5 = "?s4\<lparr>ss_auction := Some a, ss_update_time := env_update_instant env\<rparr>"
  have run: "update env cfg block s = (Ok (), ?s5)"
    unfolding update_def Let_def
    using f(1) p(1) a(1) by (simp add: db prog_run new rec pbind_step)
  have events: "ss_order_events ?s5 =
      ss_order_events s @ map (\<lambda>uid. (uid, EventInvalid)) inv @ map (\<lambda>uid. (uid, EventFiltered)) ?filtered"
    by (simp add: store_order_events_def p(6))
  have "split_off (uids (filter valid (so_orders db))) ?filtered (uids o2)"
    by (rule split_off_append [OF f(5) split_off_append [OF p(4) c3(2)]])
  then show thesis
    using that [OF run _ a(3) m _ events f(4)] a(2) p(5) by simp
qed

text \<open>A service with one candidate order, whose tokens have cached prices.\<close>

definition example_lossy :: "f64 \<Rightarrow> u256" where
  "example_lossy v = (case v of Finite x \<Rightarrow> word_of_int \<lfloor>x\<rfloor> | _ \<Rightarrow> 0)"

definition example_db :: solvable_orders_db where
  "example_db = \<lparr>so_orders = [example_order Sell 3 (replicate 56 0)], so_quotes = [], so_latest_settlement_block = 4\<rparr>"

definition example_env :: environment where
  "example_env =
     \<lparr>env_epoch_seconds = 10, env_solvable_orders = (\<lambda>_. Ok example_db), env_is_sanctioned = (\<lambda>_. None),
      env_validate_signatures = map (\<lambda>_. Inr ()), env_detect = (\<lambda>_. Ok TokenGood), env_get_balances = map (\<lambda>_. Inr 1000),
      env_instant = 100, env_utc_now = 100, env_estimate = (\<lambda>_. Inr (Finite 1)), env_weth_instant = 101,
      env_weth_clock = (101, 102), env_amms_instant = 103, env_update_instant = 104, env_cow_amms = [],
      env_round = Finite, env_from_f64_lossy = example_lossy, env_partner_bps = (\<lambda>_. None)\<rparr>"

definition example_config :: cache_config where
  "example_config =
     \<lparr>cc_min_order_validity_period = 60, cc_weth = 9, cc_limit_order_price_factor = BigDecimal 1 0,
      cc_protocol_fees = \<lparr>fs_fee_policies = [], fs_max_partner_fee = Finite 0, fs_enable_protocol_fees = True\<rparr>\<rparr>"

definition example_state :: service_state where
  "example_state =
     \<lparr>ss_banned_users = users_none,
      ss_native_prices =
        \<lparr>ni_cache = [(1, \<lparr>cr_result = Inr (Finite 1), cr_updated_at = 95, cr_requested_at = 95\<rparr>),
                     (2, \<lparr>cr_result = Inr (Finite 2), cr_updated_at = 95, cr_requested_at = 95\<rparr>)],
         ni_high_priority = [], ni_max_age = 10\<rparr>,
      ss_metrics = \<lparr>mt_creations = 0, mt_candidate_orders = [], mt_solvable_orders = [], mt_filtered_orders = [],
                    mt_market_order_missing_price = 0\<rparr>,
      ss_order_events = [], ss_auction = None, ss_update_time = 0\<rparr>"

lemma example_ready:
  "update_ready example_env example_config example_state example_db (\<lambda>_. Inr ()) (\<lambda>_. TokenGood) (\<lambda>_. Inr 1000)"
proof -
  have "lossy_truncates example_lossy"
    by (simp add: lossy_truncates_def example_lossy_def)
  then show ?thesis
    by (simp add: update_ready_def example_env_def example_config_def example_state_def example_db_def env_pointwise_def
        orders_wf_def env_times_ok_def weth_priced_def price_ok_def to_normalized_price_def fresh_def fees_wf_def quotes_fit_def
        example_order_def)
qed

lemma example_two_tokens: "\<not> one_token_in example_env example_state example_db (\<lambda>_. Inr ())"
  by (simp add: one_token_candidate_def example_db_def example_order_def)

lemma example_solvable:
  "solvable example_env example_config example_state (\<lambda>_. Inr ()) (\<lambda>_. TokenGood) (\<lambda>_. Inr 1000)
     (example_order Sell 3 (replicate 56 0))"
proof -
  have "to_normalized_price Finite example_lossy (Finite 1) = Some (10 ^ 18)"
    "to_normalized_price Finite example_lossy (Finite 2) = Some (2 * 10 ^ 18)"
    by (simp_all add: to_normalized_price_def example_lossy_def)
  then show ?thesis
    by (simp add: solvable_def settleable_def valid_candidate_def not_banned_def user_banned_def signature_ok_def tokens_supported_def
        has_balance_def single_balance_def not_dust_def query_from_order_def native_priced_def native_price_def fresh_def
        saturating_duration_since_def in_market_def well_priced_def order_prices_def order_tokens_def List.map_filter_def
        example_env_def example_config_def example_state_def example_order_def users_none_def order_receiver_def is_limit_order_def
        checked_add_def checked_mul_def u256_to_big_decimal_def u256_to_big_uint_def bd_value_def power_int_def)
qed

section \<open>Properties\<close>

text \<open>
  C6. Building an auction. If some candidate that is not banned and validly signed sells and buys the same token, the update panics. Otherwise
  it succeeds: the auction holds exactly the candidate orders that are solvable, each judged on its own (not banned, validly signed, of
  supported tokens, with a balance, not dust, with native prices and not out of the market), however often the filters reorder
  them; and no price of it is zero. The conditions: the database answers and its uids have 56 bytes; the services answer for each
  question on its own, and the token detector without an error; no other thread uses the price cache meanwhile, the clock does not go back
  during the update, and the instant that lies the maximal age of a price before it exists; the wrapped native token can be priced, and a cached price of it is one in wei; numbers are truncated to
  256 bits; the configured fee factors are fee factors; and sell amount and fee of the quote of a buy order add up within 256 bits.
\<close>

theorem update_builds_solvable_auction:
  assumes "update_ready env cfg s db validate quality balance"
  shows "if \<exists>ord \<in> set (so_orders db). not_banned (env_is_sanctioned env) (ss_banned_users s) ord \<and> signature_ok validate ord
            \<and> od_sell_token (o_data ord) = od_buy_token (o_data ord)
    then fst (update env cfg block s) = Panic
    else \<exists>s' a orders. update env cfg block s = (Ok (), s') \<and> ss_auction s' = Some a
     \<and> list_all2 (\<lambda>ord d. \<exists>ps. d = to_domain ord ps) orders (da_orders a)
     \<and> mset orders = filter_mset (solvable env cfg s validate quality balance) (mset (so_orders db))
     \<and> prices_ok (da_prices a)"
  unfolding one_token_candidate_def [symmetric]
proof (simp only: split: if_split, intro conjI impI)
  assume "one_token_in env s db validate"
  with assms show "fst (update env cfg block s) = Panic"
    by (rule update_panics)
next
  assume two: "\<not> one_token_in env s db validate"
  show "\<exists>s' a orders. update env cfg block s = (Ok (), s') \<and> ss_auction s' = Some a
     \<and> list_all2 (\<lambda>ord d. \<exists>ps. d = to_domain ord ps) orders (da_orders a)
     \<and> mset orders = filter_mset (solvable env cfg s validate quality balance) (mset (so_orders db))
     \<and> prices_ok (da_prices a)"
    by (rule update_total [OF assms two]) blast
qed

theorem update_builds_solvable_auction_witness:
  "\<exists>s' a orders. update example_env example_config 5 example_state = (Ok (), s') \<and> ss_auction s' = Some a
     \<and> list_all2 (\<lambda>ord d. \<exists>ps. d = to_domain ord ps) orders (da_orders a)
     \<and> mset orders = {#example_order Sell 3 (replicate 56 0)#} \<and> prices_ok (da_prices a)"
proof -
  have "od_sell_token (o_data (example_order Sell 3 (replicate 56 0))) \<noteq> od_buy_token (o_data (example_order Sell 3 (replicate 56 0)))"
    by (simp add: example_order_def)
  with update_builds_solvable_auction [OF example_ready, of 5] show ?thesis
    by (simp add: example_db_def example_solvable)
qed

text \<open>
  C7. No order is lost silently. When an update succeeds as described above (under the same conditions, and with no validly signed candidate of
  a single token), every candidate of the database ends up in the auction or in exactly one order event of this update, never in
  both and never in two. The event is \<open>Invalid\<close> exactly for the candidates that are banned, not validly signed, of unsupported tokens or without a
  balance, and \<open>Filtered\<close> exactly for the others that are not solvable: dust, without native prices or out of the market.
\<close>

theorem update_accounts_for_every_order:
  assumes "update_ready env cfg s db validate quality balance" and "\<not> one_token_in env s db validate"
  defines "valid \<equiv> valid_candidate (env_is_sanctioned env) (ss_banned_users s) validate quality balance"
    and "good \<equiv> solvable env cfg s validate quality balance"
  shows "\<exists>s' a events. update env cfg block s = (Ok (), s') \<and> ss_auction s' = Some a
     \<and> ss_order_events s' = ss_order_events s @ events \<and> distinct (map fst events)
     \<and> fst ` set events \<union> ao_uid ` set (da_orders a) = uids (so_orders db)
     \<and> fst ` set events \<inter> ao_uid ` set (da_orders a) = {}
     \<and> ao_uid ` set (da_orders a) = uids (filter good (so_orders db))
     \<and> snd ` set events \<subseteq> {EventInvalid, EventFiltered}
     \<and> {uid. (uid, EventInvalid) \<in> set events} = uids (so_orders db) - uids (filter valid (so_orders db))
     \<and> {uid. (uid, EventFiltered) \<in> set events} = uids (filter valid (so_orders db)) - uids (filter good (so_orders db))"
proof -
  obtain s' a orders inv filtered where u: "update env cfg block s = (Ok (), s')" "ss_auction s' = Some a"
    and orders: "list_all2 (\<lambda>ord d. \<exists>ps. d = to_domain ord ps) orders (da_orders a)"
      "mset orders = filter_mset good (mset (so_orders db))"
    and events: "ss_order_events s' =
        ss_order_events s @ map (\<lambda>uid. (uid, EventInvalid)) inv @ map (\<lambda>uid. (uid, EventFiltered)) filtered"
    and inv: "split_off (uids (so_orders db)) inv (uids (filter valid (so_orders db)))"
    and filtered: "split_off (uids (filter valid (so_orders db))) filtered (uids orders)"
    unfolding valid_def good_def by (rule update_total [OF assms(1,2)])
  have left: "uids orders = uids (filter good (so_orders db))"
    unfolding uids_def using orders(2) by (metis mset_eq_setD mset_filter)
  have "map ao_uid (da_orders a) = map (\<lambda>ord. om_uid (o_metadata ord)) orders"
    using orders(1) by (induction rule: list_all2_induct) (auto simp: to_domain_def Let_def)
  then have auction: "ao_uid ` set (da_orders a) = uids (filter good (so_orders db))"
    unfolding left [symmetric] by (metis list.set_map uids_def)
  let ?events = "map (\<lambda>uid. (uid, EventInvalid)) inv @ map (\<lambda>uid. (uid, EventFiltered)) filtered"
  have all: "split_off (uids (so_orders db)) (inv @ filtered) (uids (filter good (so_orders db)))"
    using split_off_append [OF inv filtered] unfolding left .
  have parts: "{uid. (uid, EventInvalid) \<in> set ?events} = set inv" "{uid. (uid, EventFiltered) \<in> set ?events} = set filtered"
    "map fst ?events = inv @ filtered" "snd ` set ?events \<subseteq> {EventInvalid, EventFiltered}"
    "fst ` set ?events = set (inv @ filtered)"
    by (auto simp: comp_def image_Un image_image)
  have "set inv = uids (so_orders db) - uids (filter valid (so_orders db))"
    "set filtered = uids (filter valid (so_orders db)) - uids (filter good (so_orders db))"
    using inv filtered unfolding split_off_def left by blast+
  with u events parts all auction show ?thesis
    by (intro exI [of _ s'] exI [of _ a] exI [of _ ?events]) (simp only: split_off_def simp_thms)
qed

theorem update_accounts_for_every_order_witness:
  "\<exists>s' a events. update example_env example_config 5 example_state = (Ok (), s') \<and> ss_auction s' = Some a
     \<and> ss_order_events s' = events \<and> distinct (map fst events)
     \<and> fst ` set events \<union> ao_uid ` set (da_orders a) = {replicate 56 0}
     \<and> ao_uid ` set (da_orders a) = {replicate 56 0}"
  using update_accounts_for_every_order [OF example_ready example_two_tokens, of 5] example_solvable
  by (auto simp: example_db_def uids_def example_order_def example_state_def)

text \<open>The parts of an update before the auction leave the current auction alone.\<close>

definition current :: "service_state \<Rightarrow> domain_auction option \<times> instant" where
  "current s = (ss_auction s, ss_update_time s)"

lemma update_filter_keeps: "pkeeps current (update_filter env orders c)"
  unfolding update_filter_def by (intro pkeeps_intro) (simp_all add: current_def)

lemma update_prices_keeps: "pkeeps current (update_prices env cfg orders c)"
  unfolding update_prices_def add_weth_price_def add_cow_amm_prices_def by (intro pkeeps_intro) (simp_all add: current_def)

lemma store_order_events_keeps [simp]: "current (store_order_events us label s) = current s"
  by (simp add: current_def store_order_events_def)

text \<open>
  C32. An update that fails, with an error of the database or of the token detector or with a panic at any point, leaves the
  current auction and the time of its update as they were: the solvers never see a half-built auction.
\<close>

theorem failed_update_keeps_auction:
  assumes "update env cfg block s = (r, s')" and "\<not> is_ok r"
  shows "ss_auction s' = ss_auction s \<and> ss_update_time s' = ss_update_time s"
proof -
  have "pkeeps_failed current (update env cfg block)"
    unfolding update_def update_auction_def Let_def
    by (intro pkeeps_failed_intro pkeeps_intro update_filter_keeps update_prices_keeps) (simp_all add: current_def store_order_events_def)
  then show ?thesis
    using assms by (auto simp: pkeeps_failed_def current_def) (metis fst_conv prod.inject snd_conv)+
qed

theorem failed_update_keeps_auction_witness:
  "ss_auction (snd (update (example_env\<lparr>env_solvable_orders := \<lambda>_. Err (DbError ''timeout'')\<rparr>) example_config 5 example_state)) = None"
proof -
  let ?env = "example_env\<lparr>env_solvable_orders := \<lambda>_. Err (DbError ''timeout'')\<rparr>"
  have "update ?env example_config 5 example_state = (Err (DbError ''timeout''), example_state)"
    by (simp add: update_def pbind_def plift_def)
  from failed_update_keeps_auction [OF this] this show ?thesis
    by (simp add: example_state_def)
qed

end
