(* ===== verification/Run_Loop.thy ===== *)
theory Run_Loop
  imports Auction_Update
begin

text \<open>
  The run loop of the autopilot, \<open>crates/autopilot/src/run_loop.rs\<close>: when the solvers are run, the competition between the
  drivers, the choice of the winner, what is stored about it, and the orders in flight; with the answers of the drivers
  (\<open>infra/solvers/dto/solve.rs\<close>, \<open>domain/competition/mod.rs\<close>).

  What the drivers, the chain and the database answer is the record \<open>run_environment\<close>. \<open>shuffle\<close> is the random permutation of the
  participants: as the vector is shuffled before it is sorted, every result of the unstable sort is that of a stable sort after
  some shuffle. The times of the crate \<open>chrono\<close> are the record \<open>chrono\<close>. Waiting for the transaction of a settlement is a loop that may not end, \<open>wait_polls\<close>.
\<close>

section \<open>Solutions of drivers\<close>

record traded_amounts =
  ta_sell :: u256
  ta_buy :: u256

record competition_solution =
  cs_id :: u64
  cs_solver :: h160
  cs_score :: u256
  cs_orders :: "(order_uid \<times> traded_amounts) list"
  cs_prices :: wei_prices

datatype competition_error = ZeroScore | SolutionInvalidPrice | SolverDenyListed

definition score_new :: "u256 \<Rightarrow> (competition_error, u256) outcome" where
  "score_new score = (if score = 0 then Err ZeroScore else Ok score)"

definition order_ids :: "competition_solution \<Rightarrow> order_uid list" where
  "order_ids sol = map fst (cs_orders sol)"

text \<open>The solution of a driver's response, and its conversion; the score is checked before the prices.\<close>

record dto_solution =
  dto_solution_id :: u64
  dto_score :: u256
  dto_submission_address :: h160
  dto_orders :: "(order_uid \<times> traded_amounts) list"
  dto_clearing_prices :: wei_prices

definition solution_into_domain :: "dto_solution \<Rightarrow> (competition_error, competition_solution) outcome" where
  "solution_into_domain d =
     obind (score_new (dto_score d)) (\<lambda>score.
     obind (omap (\<lambda>(token, price). obind (map_err (\<lambda>_. SolutionInvalidPrice) (auction_price_new price)) (\<lambda>price. Ok (token, price)))
              (dto_clearing_prices d)) (\<lambda>prices.
     Ok \<lparr>cs_id = dto_solution_id d, cs_solver = dto_submission_address d, cs_score = score, cs_orders = dto_orders d,
         cs_prices = prices\<rparr>))"

section \<open>Requests to drivers\<close>

record dto_token =
  dt_address :: h160
  dt_price :: "u256 option"
  dt_trusted :: bool

record solve_request =
  sr_id :: u64
  sr_tokens :: "dto_token list"
  sr_orders :: "domain_order list"
  sr_deadline :: int
  sr_surplus_capturing_jit_order_owners :: "h160 list"

text \<open>\<open>unique_by\<close>: the first token of each address.\<close>

fun unique_tokens :: "h160 list \<Rightarrow> dto_token list \<Rightarrow> dto_token list" where
  "unique_tokens seen [] = []"
| "unique_tokens seen (t # ts) =
     (if dt_address t \<in> set seen then unique_tokens seen ts else t # unique_tokens (dt_address t # seen) ts)"

text \<open>
  What is used of \<open>chrono\<close>: the time \<open>Utc::now()\<close>, the conversion \<open>Duration::from_std\<close>, which fails for a duration out of its range, and the
  addition of a duration to a time, which panics (\<open>None\<close>) when the sum is out of range.
\<close>

record chrono =
  ch_utc_now :: int
  ch_from_std :: "duration \<Rightarrow> int option"
  ch_add :: "int \<Rightarrow> int \<Rightarrow> int option"

definition solve_request_new ::
  "chrono \<Rightarrow> u64 \<Rightarrow> domain_auction \<Rightarrow> h160 list \<Rightarrow> duration \<Rightarrow> ('e, solve_request) outcome" where
  "solve_request_new chrono auction_id auction trusted_tokens time_limit =
     obind (expect (ch_from_std chrono time_limit)) (\<lambda>limit.
     obind (expect (ch_add chrono (ch_utc_now chrono) limit)) (\<lambda>deadline.
     Ok \<lparr>sr_id = auction_id,
      sr_tokens = unique_tokens []
        (map (\<lambda>(address, price). \<lparr>dt_address = address, dt_price = Some price, dt_trusted = address \<in> set trusted_tokens\<rparr>)
           (da_prices auction)
         @ map (\<lambda>address. \<lparr>dt_address = address, dt_price = None, dt_trusted = True\<rparr>) trusted_tokens),
      sr_orders = da_orders auction,
      sr_deadline = deadline,
      sr_surplus_capturing_jit_order_owners = da_surplus_capturing_jit_order_owners auction\<rparr>))"

text \<open>The deadline of a request is a time that \<open>chrono\<close> can represent.\<close>

definition deadline_fits :: "chrono \<Rightarrow> duration \<Rightarrow> bool" where
  "deadline_fits chrono time_limit \<longleftrightarrow>
     (case ch_from_std chrono time_limit of None \<Rightarrow> False | Some limit \<Rightarrow> ch_add chrono (ch_utc_now chrono) limit \<noteq> None)"

lemma solve_request_new_cases:
  obtains "\<not> deadline_fits chrono time_limit" "solve_request_new chrono auction_id auction trusted time_limit = (Panic :: ('e, _) outcome)"
  | request where "deadline_fits chrono time_limit"
      "solve_request_new chrono auction_id auction trusted time_limit = (Ok request :: ('e, _) outcome)"
  by (cases "ch_from_std chrono time_limit"; cases "ch_add chrono (ch_utc_now chrono) (the (ch_from_std chrono time_limit))")
    (auto simp: deadline_fits_def solve_request_new_def)

section \<open>State and surroundings\<close>

record in_flight_orders =
  if_tx_hash :: h256
  if_orders :: "order_uid list"

record driver =
  dr_name :: string

record participant =
  pt_driver :: driver
  pt_solution :: competition_solution

record calldata =
  cd_internalized :: bytes
  cd_uninternalized :: bytes

record solver_settlement =
  sv_solver :: string
  sv_solver_address :: h160
  sv_score :: u256
  sv_ranking :: nat
  sv_orders :: "(order_uid \<times> traded_amounts) list"
  sv_clearing_prices :: wei_prices
  sv_call_data :: "bytes option"
  sv_uninternalized_call_data :: "bytes option"

record competition_table =
  ct_auction_start_block :: u64
  ct_competition_simulation_block :: u64
  ct_auction_orders :: "order_uid list"
  ct_auction_prices :: wei_prices
  ct_solutions :: "solver_settlement list"

record saved_competition =
  sc_auction_id :: u64
  sc_winner :: h160
  sc_winning_score :: u256
  sc_reference_score :: u256
  sc_participants :: "h160 list"
  sc_prices :: wei_prices
  sc_block_deadline :: u64
  sc_competition_simulation_block :: u64
  sc_call_data :: bytes
  sc_uninternalized_call_data :: bytes
  sc_competition_table :: competition_table

text \<open>The errors of the requests to a driver.\<close>

datatype solve_error = Timeout | NoSolutions | SolveFailure string

datatype reveal_error = AuctionMismatch | RevealFailure string

datatype settle_error = SettleFailure string

datatype find_result = Found h256 | NotFound | FindFailed

text \<open>
  What the surroundings answer in one run. The answer of a driver to a settlement is \<open>(k, answer)\<close> when it comes just before the
  poll \<open>k\<close> of the search for the transaction, and \<open>None\<close> when it never comes.
\<close>

record run_environment =
  re_transaction_block :: "h256 \<Rightarrow> u64 option"
  re_trusted_tokens :: "h160 list"
  re_chrono :: chrono
  re_solve :: "driver \<Rightarrow> solve_request \<Rightarrow> solve_error + dto_solution list"
  re_is_solver :: "h160 \<Rightarrow> bool option"
  re_shuffle :: "participant list \<Rightarrow> participant list"
  re_block_number :: u64
  re_reveal :: "driver \<Rightarrow> u64 \<Rightarrow> string + calldata"
  re_save_competition :: "saved_competition \<Rightarrow> bool"
  re_save_jit_owners :: bool
  re_store_fee_policies :: bool
  re_settle_block :: u64
  re_poll_block :: "nat \<Rightarrow> u64"
  re_find_tx_hash :: "u64 \<Rightarrow> nat \<Rightarrow> find_result"
  re_driver_settle :: "driver \<Rightarrow> u64 \<Rightarrow> u64 \<Rightarrow> (nat \<times> (string + unit)) option"

record run_config =
  rc_drivers :: "driver list"
  rc_submission_deadline :: u64
  rc_solve_deadline :: duration

record run_state =
  rs_in_flight :: "in_flight_orders option"
  rs_order_events :: "(order_uid \<times> order_event_label) list"
  rs_competitions :: "saved_competition list"
  rs_jit_owners :: "(u64 \<times> h160 list) list"
  rs_fee_policies :: "(u64 \<times> (order_uid \<times> policy list) list) list"

text \<open>A run that waits forever is the error \<open>Waiting\<close>, in the state in which it waits.\<close>

datatype waiting = Waiting

type_synonym 'a run = "(run_state, waiting, 'a) prog"

section \<open>Orders in flight\<close>

text \<open>A settlement whose transaction is not found counts as being in the last block there is.\<close>

definition remove_in_flight_orders :: "run_environment \<Rightarrow> in_flight_orders option \<Rightarrow> domain_auction \<Rightarrow> domain_auction" where
  "remove_in_flight_orders env in_flight auction =
     (case in_flight of
        None \<Rightarrow> auction
      | Some fl \<Rightarrow>
          let prev_settlement_block = (case re_transaction_block env (if_tx_hash fl) of Some block \<Rightarrow> block | None \<Rightarrow> - 1)
          in if da_latest_settlement_block auction < prev_settlement_block
             then auction\<lparr>da_orders := filter (\<lambda>ord. ao_uid ord \<notin> set (if_orders fl)) (da_orders auction)\<rparr>
             else auction)"

section \<open>The competition\<close>

text \<open>\<open>solve\<close>: the solutions of one driver; a solver that is not known to be allowed is discarded.\<close>

definition check_solver :: "run_environment \<Rightarrow> competition_solution \<Rightarrow> (competition_error, competition_solution) outcome" where
  "check_solver env sol = (if re_is_solver env (cs_solver sol) = Some True then Ok sol else Err SolverDenyListed)"

definition solve ::
  "run_environment \<Rightarrow> driver \<Rightarrow> solve_request \<Rightarrow> (solve_error, (competition_error, competition_solution) outcome list) outcome" where
  "solve env drv request =
     (case re_solve env drv request of
        Inl e \<Rightarrow> Err e
      | Inr solutions \<Rightarrow>
          if solutions = [] then Err NoSolutions
          else Ok (map (\<lambda>d. obind (solution_into_domain d) (check_solver env)) solutions))"

definition driver_participants :: "run_environment \<Rightarrow> solve_request \<Rightarrow> driver \<Rightarrow> participant list" where
  "driver_participants env request drv =
     List.map_filter (\<lambda>r. case r of Ok sol \<Rightarrow> Some \<lparr>pt_driver = drv, pt_solution = sol\<rparr> | _ \<Rightarrow> None)
       (case solve env drv request of Ok solutions \<Rightarrow> solutions | _ \<Rightarrow> [])"

definition add_order_events :: "order_uid list \<Rightarrow> order_event_label \<Rightarrow> run_state \<Rightarrow> run_state" where
  "add_order_events us label s = s\<lparr>rs_order_events := rs_order_events s @ map (\<lambda>uid. (uid, label)) us\<rparr>"

definition competition :: "run_environment \<Rightarrow> run_config \<Rightarrow> u64 \<Rightarrow> domain_auction \<Rightarrow> participant list run" where
  "competition env cfg auction_id auction =
     pbind (plift (solve_request_new (re_chrono env) auction_id auction (re_trusted_tokens env) (rc_solve_deadline cfg))) (\<lambda>request.
     pbind (pmodify (add_order_events (map ao_uid (da_orders auction)) EventReady)) (\<lambda>_.
     pret (concat (map (driver_participants env request) (rc_drivers cfg)))))"

section \<open>Waiting for a settlement\<close>

text \<open>The polls of \<open>wait_for_settlement_transaction\<close>: at poll \<open>i\<close> the chain is at \<open>block i\<close> and the database answers \<open>find_tx i\<close>.\<close>

partial_function (option) wait_polls ::
  "(nat \<Rightarrow> u64) \<Rightarrow> (nat \<Rightarrow> find_result) \<Rightarrow> u64 \<Rightarrow> nat \<Rightarrow> (nat \<times> (settle_error + h256)) option" where
  "wait_polls block find_tx deadline i =
     (if block i > deadline then Some (i, Inl (SettleFailure ''settlement transaction await reached deadline''))
      else case find_tx i of
             Found hash \<Rightarrow> Some (i, Inr hash)
           | NotFound \<Rightarrow> wait_polls block find_tx deadline (Suc i)
           | FindFailed \<Rightarrow> wait_polls block find_tx deadline (Suc i))"

definition wait_for_settlement_transaction ::
  "run_environment \<Rightarrow> u64 \<Rightarrow> u64 \<Rightarrow> (nat \<times> (settle_error + h256)) option" where
  "wait_for_settlement_transaction env auction_id max_blocks_wait =
     (let deadline = saturating_add (re_settle_block env) max_blocks_wait
      in wait_polls (re_poll_block env) (re_find_tx_hash env auction_id) deadline 0)"

text \<open>
  \<open>wait_for_settlement\<close>: the search on chain against the answer of the driver. An error of the driver ends the search, and the
  search goes on when the driver reports success. \<open>None\<close>: neither ends.
\<close>

definition wait_for_settlement ::
  "run_environment \<Rightarrow> run_config \<Rightarrow> driver \<Rightarrow> u64 \<Rightarrow> u64 \<Rightarrow> u64 \<Rightarrow> (settle_error + h256) option" where
  "wait_for_settlement env cfg drv auction_id solution_id deadline =
     (let onchain = wait_for_settlement_transaction env auction_id (rc_submission_deadline cfg)
      in case re_driver_settle env drv solution_id deadline of
           None \<Rightarrow> map_option snd onchain
         | Some (k, answer) \<Rightarrow>
             if (case onchain of Some (i, _) \<Rightarrow> i < k | None \<Rightarrow> False) then map_option snd onchain
             else (case answer of Inl e \<Rightarrow> Some (Inl (SettleFailure e)) | Inr _ \<Rightarrow> map_option snd onchain))"

section \<open>A single run\<close>

definition score_le :: "participant \<Rightarrow> participant \<Rightarrow> bool" where
  "score_le a b \<longleftrightarrow> cs_score (pt_solution a) \<le> cs_score (pt_solution b)"

text \<open>The solutions in ascending order of their scores, ties in the random order of the shuffle.\<close>

definition ranked :: "run_environment \<Rightarrow> participant list \<Rightarrow> participant list" where
  "ranked env solutions = sort_by score_le (re_shuffle env solutions)"

definition to_be_bytes_i64 :: "u64 \<Rightarrow> bytes" where
  "to_be_bytes_i64 auction_id = nat_be 8 (unat auction_id)"

definition ends_with :: "'a list \<Rightarrow> 'a list \<Rightarrow> bool" where
  "ends_with xs ys \<longleftrightarrow> length ys \<le> length xs \<and> drop (length xs - length ys) xs = ys"

text \<open>\<open>reveal\<close>: the call data must end in the id of the auction.\<close>

definition reveal :: "run_environment \<Rightarrow> driver \<Rightarrow> u64 \<Rightarrow> u64 \<Rightarrow> (reveal_error, calldata) outcome" where
  "reveal env drv auction_id solution_id =
     (case re_reveal env drv solution_id of
        Inl e \<Rightarrow> Err (RevealFailure e)
      | Inr response \<Rightarrow>
          if \<not> ends_with (cd_internalized response) (to_be_bytes_i64 auction_id) then Err AuctionMismatch else Ok response)"

text \<open>The loop over the orders of the winner: their fee policies, and the prices of their tokens.\<close>

definition collect_order ::
  "domain_auction \<Rightarrow> (order_uid \<times> policy list) list \<times> wei_prices \<Rightarrow> order_uid
    \<Rightarrow> (order_uid \<times> policy list) list \<times> wei_prices" where
  "collect_order auction acc order_id =
     (case find (\<lambda>ord. ao_uid ord = order_id) (da_orders auction) of
        Some ord \<Rightarrow>
          let (fee_policies, prices) = acc;
              prices = (case map_of (da_prices auction) (ao_sell_token ord) of
                          Some price \<Rightarrow> bt_insert (ao_sell_token ord) price prices | None \<Rightarrow> prices);
              prices = (case map_of (da_prices auction) (ao_buy_token ord) of
                          Some price \<Rightarrow> bt_insert (ao_buy_token ord) price prices | None \<Rightarrow> prices)
          in (fee_policies @ [(ao_uid ord, ao_protocol_fees ord)], prices)
      | None \<Rightarrow> acc)"

definition settlement_entry :: "calldata \<Rightarrow> nat \<Rightarrow> nat \<times> participant \<Rightarrow> solver_settlement" where
  "settlement_entry revealed len entry =
     (let (index, p) = entry;
          is_winner = (len - index = 1)
      in \<lparr>sv_solver = dr_name (pt_driver p), sv_solver_address = cs_solver (pt_solution p),
          sv_score = cs_score (pt_solution p), sv_ranking = len - index,
          sv_orders = cs_orders (pt_solution p), sv_clearing_prices = extend_map bt_insert (cs_prices (pt_solution p)) [],
          sv_call_data = (if is_winner then Some (cd_internalized revealed) else None),
          sv_uninternalized_call_data = (if is_winner then Some (cd_uninternalized revealed) else None)\<rparr>)"

text \<open>The record of the competition; \<open>nth_back(1)\<close> is the solution before the last one.\<close>

definition competition_record ::
  "run_environment \<Rightarrow> run_config \<Rightarrow> u64 \<Rightarrow> domain_auction \<Rightarrow> participant list \<Rightarrow> participant \<Rightarrow> calldata \<Rightarrow> wei_prices
    \<Rightarrow> saved_competition" where
  "competition_record env cfg auction_id auction solutions winner revealed prices =
     \<lparr>sc_auction_id = auction_id,
      sc_winner = cs_solver (pt_solution winner),
      sc_winning_score = cs_score (pt_solution winner),
      sc_reference_score =
        (if 2 \<le> length solutions then cs_score (pt_solution (solutions ! (length solutions - 2))) else 0),
      sc_participants = remdups (map (\<lambda>p. cs_solver (pt_solution p)) solutions),
      sc_prices = prices,
      sc_block_deadline = re_block_number env + rc_submission_deadline cfg,
      sc_competition_simulation_block = re_block_number env,
      sc_call_data = cd_internalized revealed,
      sc_uninternalized_call_data = cd_uninternalized revealed,
      sc_competition_table =
        \<lparr>ct_auction_start_block = da_block auction,
         ct_competition_simulation_block = re_block_number env,
         ct_auction_orders = map ao_uid (da_orders auction),
         ct_auction_prices = extend_map bt_insert (da_prices auction) [],
         ct_solutions = map (settlement_entry revealed (length solutions)) (enumerate 0 solutions)\<rparr>\<rparr>"

text \<open>\<open>settle\<close>: the orders of the winner are in flight once its transaction is mined.\<close>

definition settle :: "run_environment \<Rightarrow> run_config \<Rightarrow> participant \<Rightarrow> u64 \<Rightarrow> u64 \<Rightarrow> (settle_error + unit) run" where
  "settle env cfg winner auction_id deadline =
     pbind (pmodify (add_order_events (order_ids (pt_solution winner)) EventExecuting)) (\<lambda>_.
     case wait_for_settlement env cfg (pt_driver winner) auction_id (cs_id (pt_solution winner)) deadline of
       None \<Rightarrow> plift (Err Waiting)
     | Some (Inl e) \<Rightarrow> pret (Inl e)
     | Some (Inr tx_hash) \<Rightarrow>
         pbind (pmodify (\<lambda>s. s\<lparr>rs_in_flight := Some \<lparr>if_tx_hash = tx_hash, if_orders = order_ids (pt_solution winner)\<rparr>\<rparr>)) (\<lambda>_.
         pret (Inr ())))"

text \<open>The part of \<open>single_run\<close> after the winner has revealed its call data.\<close>

definition finish_run ::
  "run_environment \<Rightarrow> run_config \<Rightarrow> u64 \<Rightarrow> domain_auction \<Rightarrow> participant list \<Rightarrow> participant \<Rightarrow> calldata \<Rightarrow> unit run" where
  "finish_run env cfg auction_id auction solutions winner revealed =
     (let (fee_policies, prices) = foldl (collect_order auction) ([], []) (order_ids (pt_solution winner));
          row = competition_record env cfg auction_id auction solutions winner revealed prices in
      if \<not> re_save_competition env row then pret ()
      else
        pbind (pmodify (\<lambda>s. s\<lparr>rs_competitions := rs_competitions s @ [row]\<rparr>)) (\<lambda>_.
        if \<not> re_save_jit_owners env then pret ()
        else
          pbind (pmodify (\<lambda>s. s\<lparr>rs_jit_owners :=
            rs_jit_owners s @ [(auction_id, da_surplus_capturing_jit_order_owners auction)]\<rparr>)) (\<lambda>_.
          pbind (pmodify (\<lambda>s. if re_store_fee_policies env
                              then s\<lparr>rs_fee_policies := rs_fee_policies s @ [(auction_id, fee_policies)]\<rparr> else s)) (\<lambda>_.
          pbind (settle env cfg winner auction_id (sc_block_deadline row)) (\<lambda>_. pret ())))))"

definition single_run :: "run_environment \<Rightarrow> run_config \<Rightarrow> u64 \<Rightarrow> domain_auction \<Rightarrow> unit run" where
  "single_run env cfg auction_id auction =
     pbind (pread (\<lambda>s. remove_in_flight_orders env (rs_in_flight s) auction)) (\<lambda>auction.
     pbind (competition env cfg auction_id auction) (\<lambda>solutions.
     if solutions = [] then pret ()
     else
       let solutions = ranked env solutions in
       pbind (pmodify (add_order_events (remdups (concat (map (\<lambda>p. order_ids (pt_solution p)) solutions))) EventConsidered)) (\<lambda>_.
       if solutions = [] then pret ()
       else
         let winner = last solutions in
         case reveal env (pt_driver winner) auction_id (cs_id (pt_solution winner)) of
           Err _ \<Rightarrow> pret ()
         | Panic \<Rightarrow> plift Panic
         | Ok revealed \<Rightarrow> finish_run env cfg auction_id auction solutions winner revealed)))"

section \<open>The loop\<close>

text \<open>\<open>next_auction\<close>: \<open>None\<close> without an auction, when it cannot be stored, or when it holds liquidity orders only.\<close>

definition next_auction :: "(domain_auction \<Rightarrow> u64 option) \<Rightarrow> domain_auction option \<Rightarrow> (u64 \<times> domain_auction) option" where
  "next_auction replace_current_auction current_auction =
     (case current_auction of
        None \<Rightarrow> None
      | Some auction \<Rightarrow>
          (case replace_current_auction auction of
             None \<Rightarrow> None
           | Some auction_id \<Rightarrow>
               if list_all (\<lambda>ord. case ao_class ord of Market \<Rightarrow> False | Liquidity \<Rightarrow> True | Limit \<Rightarrow> False) (da_orders auction)
               then None else Some (auction_id, auction)))"

record loop_memory =
  lm_last_auction :: "domain_auction option"
  lm_last_block :: "h256 option"

text \<open>Equality of auctions; the prices are a hash map.\<close>

definition same_auction :: "domain_auction \<Rightarrow> domain_auction \<Rightarrow> bool" where
  "same_auction a b \<longleftrightarrow>
     da_block a = da_block b \<and> da_latest_settlement_block a = da_latest_settlement_block b \<and> da_orders a = da_orders b \<and>
     set (da_prices a) = set (da_prices b) \<and>
     da_surplus_capturing_jit_order_owners a = da_surplus_capturing_jit_order_owners b"

text \<open>
  The condition of \<open>run_forever\<close>, with the memory it leaves: the last auction is replaced in any case, the last block only when
  the auction has not changed, as the right side of \<open>||\<close> is not evaluated otherwise.
\<close>

definition loop_condition :: "domain_auction \<Rightarrow> h256 \<Rightarrow> loop_memory \<Rightarrow> bool \<times> loop_memory" where
  "loop_condition auction current_block m =
     (let previous = lm_last_auction m;
          m = m\<lparr>lm_last_auction := Some auction\<rparr>
      in if \<not> (case previous of Some prev \<Rightarrow> same_auction prev auction | None \<Rightarrow> False) then (True, m)
         else (lm_last_block m \<noteq> Some current_block, m\<lparr>lm_last_block := Some current_block\<rparr>))"

text \<open>One turn of the loop, which starts with the auction of the cache and the block of the chain.\<close>

definition loop_step ::
  "run_environment \<Rightarrow> run_config \<Rightarrow> (domain_auction \<Rightarrow> u64 option) \<Rightarrow> domain_auction option \<Rightarrow> h256
    \<Rightarrow> loop_memory \<Rightarrow> loop_memory run" where
  "loop_step env cfg replace_current_auction current_auction current_block m =
     (case next_auction replace_current_auction current_auction of
        None \<Rightarrow> pret m
      | Some (auction_id, auction) \<Rightarrow>
          let (run, m) = loop_condition auction current_block m
          in if run then pbind (single_run env cfg auction_id auction) (\<lambda>_. pret m) else pret m)"

section \<open>The competition is fair\<close>

interpretation score_order: total_preorder score_le
  by unfold_locales (auto simp: score_le_def)

text \<open>The solutions that take part; none when there is no request.\<close>

definition participants_of :: "run_environment \<Rightarrow> run_config \<Rightarrow> u64 \<Rightarrow> domain_auction \<Rightarrow> participant list" where
  "participants_of env cfg auction_id auction =
     (case solve_request_new (re_chrono env) auction_id auction (re_trusted_tokens env) (rc_solve_deadline cfg) :: (unit, _) outcome of
        Ok request \<Rightarrow> concat (map (driver_participants env request) (rc_drivers cfg))
      | _ \<Rightarrow> [])"

lemma driver_participant_admissible:
  assumes "p \<in> set (driver_participants env request drv)"
  shows "cs_score (pt_solution p) \<noteq> 0 \<and> re_is_solver env (cs_solver (pt_solution p)) = Some True \<and> pt_driver p = drv"
  using assms
  by (auto simp: driver_participants_def solve_def solution_into_domain_def score_new_def check_solver_def map_filter_def
      obind_Ok_iff split: outcome.splits sum.splits if_splits)

lemma participant_admissible:
  assumes "p \<in> set (participants_of env cfg auction_id auction)"
  shows "cs_score (pt_solution p) \<noteq> 0" and "re_is_solver env (cs_solver (pt_solution p)) = Some True"
  using assms driver_participant_admissible by (fastforce simp: participants_of_def split: outcome.splits)+

lemma solve_request_new_Ok_any:
  "solve_request_new chrono auction_id auction trusted time_limit = (Ok request :: ('e, _) outcome) \<Longrightarrow>
   solve_request_new chrono auction_id auction trusted time_limit = (Ok request :: ('f, _) outcome)"
  by (auto simp: solve_request_new_def outc)

lemma competition_run:
  "pbind (competition env cfg auction_id auction) f s =
     (if deadline_fits (re_chrono env) (rc_solve_deadline cfg)
      then f (participants_of env cfg auction_id auction) (add_order_events (map ao_uid (da_orders auction)) EventReady s)
      else (Panic, s))"
proof (rule solve_request_new_cases [where 'e = waiting, of "re_chrono env" "rc_solve_deadline cfg" auction_id auction "re_trusted_tokens env"])
  assume "\<not> deadline_fits (re_chrono env) (rc_solve_deadline cfg)"
    and "solve_request_new (re_chrono env) auction_id auction (re_trusted_tokens env) (rc_solve_deadline cfg) = (Panic :: (waiting, _) outcome)"
  then show ?thesis
    by (simp add: competition_def pbind_def plift_def)
next
  fix request
  assume "deadline_fits (re_chrono env) (rc_solve_deadline cfg)"
    and "solve_request_new (re_chrono env) auction_id auction (re_trusted_tokens env) (rc_solve_deadline cfg)
      = (Ok request :: (waiting, _) outcome)"
  then show ?thesis
    using solve_request_new_Ok_any [where 'e = waiting and 'f = unit]
    by (simp add: competition_def participants_of_def pbind_def plift_def pmodify_def pret_def)
qed

text \<open>Whether a solution can be revealed is decided without a panic.\<close>

lemma reveal_not_Panic [simp]: "reveal env drv auction_id solution_id \<noteq> Panic"
  by (simp add: reveal_def split: sum.split)

text \<open>What a single run does, given the participants and their order.\<close>

lemma single_run_eq:
  fixes env cfg auction_id auction s
  defines "auc \<equiv> remove_in_flight_orders env (rs_in_flight s) auction"
  defines "ps \<equiv> participants_of env cfg auction_id auc"
  defines "rk \<equiv> ranked env ps"
  defines "s1 \<equiv> add_order_events (map ao_uid (da_orders auc)) EventReady s"
  defines "s2 \<equiv> add_order_events (remdups (concat (map (\<lambda>p. order_ids (pt_solution p)) rk))) EventConsidered s1"
  shows "single_run env cfg auction_id auction s =
     (if \<not> deadline_fits (re_chrono env) (rc_solve_deadline cfg) then (Panic, s)
      else if ps = [] then (Ok (), s1)
      else if rk = [] then (Ok (), s2)
      else case reveal env (pt_driver (last rk)) auction_id (cs_id (pt_solution (last rk))) of
             Err _ \<Rightarrow> (Ok (), s2) | Panic \<Rightarrow> (Panic, s2)
           | Ok revealed \<Rightarrow> finish_run env cfg auction_id auc rk (last rk) revealed s2)"
  unfolding auc_def ps_def rk_def s1_def s2_def single_run_def
  by (simp add: pbind_pread competition_run pbind_pmodify Let_def pret_def plift_def split: outcome.split)

lemma settle_keeps_competitions [pkeeps_intro]: "pkeeps rs_competitions (settle env cfg winner auction_id deadline)"
  unfolding settle_def by (intro pkeeps_intro) (simp_all add: add_order_events_def)

lemma finish_run_competitions:
  fixes env cfg auction_id auction solutions winner revealed
  defines "row \<equiv> competition_record env cfg auction_id auction solutions winner revealed
    (snd (foldl (collect_order auction) ([], []) (order_ids (pt_solution winner))))"
  shows "rs_competitions (snd (finish_run env cfg auction_id auction solutions winner revealed s))
    = rs_competitions s @ (if re_save_competition env row then [row] else [])"
proof -
  have "pkeeps rs_competitions (pbind (settle env cfg winner auction_id deadline) (\<lambda>_. pret ()))" for deadline
    by (intro pkeeps_intro)
  then have keeps: "rs_competitions (snd (pbind (settle env cfg winner auction_id deadline) (\<lambda>_. pret ()) t)) = rs_competitions t"
    for deadline t
    by (simp add: pkeeps_def)
  show ?thesis
    unfolding row_def finish_run_def
    by (simp add: Let_def pbind_pmodify keeps case_prod_beta) (simp add: pret_def)
qed

section \<open>The winner\<close>

lemma mset_ranked: "(\<And>xs. mset (re_shuffle env xs) = mset xs) \<Longrightarrow> mset (ranked env ps) = mset ps"
  by (simp add: ranked_def)

lemma sorted_ranked: "sorted_wrt score_le (ranked env ps)"
  unfolding ranked_def by (rule score_order.sorted_sort_by)

lemma sorted_last_max: "sorted_wrt score_le (xs @ [x]) \<Longrightarrow> p \<in> set xs \<Longrightarrow> score_le p x"
  by (simp add: sorted_wrt_append)

lemma sorted_second:
  assumes "sorted_wrt score_le (xs @ [x])" "xs \<noteq> []"
  shows "last xs \<in> set xs \<and> (\<forall>p. p \<in> set xs \<longrightarrow> score_le p (last xs))"
proof -
  obtain ys y where xs: "xs = ys @ [y]"
    using assms(2) by (cases xs rule: rev_cases) auto
  then show ?thesis
    using assms(1) by (auto simp: sorted_wrt_append score_le_def)
qed

lemma reveal_Ok: "reveal env drv auction_id solution_id = Ok c \<Longrightarrow> ends_with (cd_internalized c) (to_be_bytes_i64 auction_id)"
  by (auto simp: reveal_def split: sum.splits if_splits)

text \<open>A run that stores a competition.\<close>

lemma stored_competition:
  fixes env cfg auction_id auction s
  defines "auc \<equiv> remove_in_flight_orders env (rs_in_flight s) auction"
  defines "ps \<equiv> participants_of env cfg auction_id auc"
  assumes stored: "rs_competitions (snd (single_run env cfg auction_id auction s)) \<noteq> rs_competitions s"
  obtains others winner revealed prices where
    "ranked env ps = others @ [winner]"
    "rs_competitions (snd (single_run env cfg auction_id auction s)) =
       rs_competitions s @ [competition_record env cfg auction_id auc (others @ [winner]) winner revealed prices]"
    "reveal env (pt_driver winner) auction_id (cs_id (pt_solution winner)) = Ok revealed"
    "prices = snd (foldl (collect_order auc) ([], []) (order_ids (pt_solution winner)))"
proof -
  let ?rk = "ranked env ps"
  obtain revealed where ne: "?rk \<noteq> []"
    and rev: "reveal env (pt_driver (last ?rk)) auction_id (cs_id (pt_solution (last ?rk))) = Ok revealed"
    using stored
    by (auto simp: single_run_eq add_order_events_def auc_def ps_def split: if_splits outcome.splits)
  moreover have "ps \<noteq> []"
    using stored by (auto simp: single_run_eq add_order_events_def auc_def ps_def split: if_splits)
  moreover obtain others winner where rk: "?rk = others @ [winner]"
    using ne by (cases ?rk rule: rev_cases) auto
  ultimately show thesis
    using that [of others winner revealed] stored
    by (auto simp: single_run_eq finish_run_competitions add_order_events_def split: if_splits simp flip: auc_def ps_def)
qed

text \<open>
  C11. When a run stores a competition, it stores one, and its winner is an allowed solver with a solution of a positive score that
  no other solution exceeds; the reference score is the best score of the other solutions, 0 without one; the participants are
  the solvers of all solutions; and the call data ends in the id of the auction.
\<close>

theorem stored_winner_is_best:
  fixes env cfg auction_id auction s
  defines "ps \<equiv> participants_of env cfg auction_id (remove_in_flight_orders env (rs_in_flight s) auction)"
  defines "s' \<equiv> snd (single_run env cfg auction_id auction s)"
  assumes shuffle: "\<And>xs. mset (re_shuffle env xs) = mset xs"
    and stored: "rs_competitions s' \<noteq> rs_competitions s"
  shows "\<exists>c winner others. rs_competitions s' = rs_competitions s @ [c] \<and> mset ps = add_mset winner (mset others) \<and>
    sc_winner c = cs_solver (pt_solution winner) \<and> re_is_solver env (sc_winner c) = Some True \<and>
    sc_winning_score c = cs_score (pt_solution winner) \<and> sc_winning_score c > 0 \<and>
    (\<forall>p\<in>set others. cs_score (pt_solution p) \<le> sc_winning_score c) \<and>
    (if others = [] then sc_reference_score c = 0
     else sc_reference_score c = Max ((\<lambda>p. cs_score (pt_solution p)) ` set others)) \<and>
    set (sc_participants c) = (\<lambda>p. cs_solver (pt_solution p)) ` set ps \<and>
    ends_with (sc_call_data c) (to_be_bytes_i64 auction_id)"
proof -
  obtain others winner revealed prices where rk: "ranked env ps = others @ [winner]"
    and s': "rs_competitions s' = rs_competitions s @
      [competition_record env cfg auction_id (remove_in_flight_orders env (rs_in_flight s) auction) (others @ [winner])
        winner revealed prices]"
    and rev: "reveal env (pt_driver winner) auction_id (cs_id (pt_solution winner)) = Ok revealed"
    using stored unfolding s'_def ps_def by (rule stored_competition) blast
  have m: "mset ps = add_mset winner (mset others)"
    using mset_ranked [OF shuffle, of ps] rk by simp
  then have ps: "set ps = insert winner (set others)"
    by (metis set_mset_add_mset_insert set_mset_mset)
  have sorted: "sorted_wrt score_le (others @ [winner])"
    using sorted_ranked [of env ps] rk by simp
  have admissible: "cs_score (pt_solution winner) \<noteq> 0" "re_is_solver env (cs_solver (pt_solution winner)) = Some True"
    using participant_admissible [of winner env cfg auction_id] ps unfolding ps_def by blast+
  have le: "cs_score (pt_solution p) \<le> cs_score (pt_solution winner)" if "p \<in> set others" for p
    using sorted_last_max [OF sorted that] by (simp add: score_le_def)
  have "cs_score (pt_solution (last others)) = Max ((\<lambda>p. cs_score (pt_solution p)) ` set others)" if "others \<noteq> []"
    using sorted_second [OF sorted that] by (intro Max_eqI [symmetric]) (auto simp: score_le_def)
  moreover have "(others @ [winner]) ! (length others - 1) = last others" if "others \<noteq> []"
    using that by (simp add: nth_append last_conv_nth)
  ultimately show ?thesis
    using s' m admissible le ps reveal_Ok [OF rev]
    by (intro exI [of _ winner] exI [of _ others] exI conjI) (auto simp: competition_record_def word_gt_0 Suc_le_eq)
qed

text \<open>The entries of the solutions in the order of their scores.\<close>

lemma entries_ranking:
  "map sv_ranking (map (settlement_entry revealed (length xs)) (enumerate 0 xs)) = rev [1..<Suc (length xs)]"
  by (rule nth_equalityI) (auto simp: settlement_entry_def Let_def nth_enumerate_eq rev_nth simp del: upt_Suc)

lemma entries_map:
  assumes "\<And>i p. f (settlement_entry revealed (length xs) (i, p)) = g p"
  shows "map f (map (settlement_entry revealed (length xs)) (enumerate 0 xs)) = map g xs"
  by (rule nth_equalityI) (auto simp: assms nth_enumerate_eq)

text \<open>
  The stored competition ranks the solutions by score: the ranks are the numbers from 1 to the number of solutions, a solution
  with a lower rank never has a lower score, every solution of the competition is in the table, and the call data is stored with
  the solution of rank 1 only.
\<close>

theorem stored_ranking:
  fixes env cfg auction_id auction s
  defines "ps \<equiv> participants_of env cfg auction_id (remove_in_flight_orders env (rs_in_flight s) auction)"
  defines "s' \<equiv> snd (single_run env cfg auction_id auction s)"
  assumes shuffle: "\<And>xs. mset (re_shuffle env xs) = mset xs"
    and stored: "rs_competitions s' \<noteq> rs_competitions s"
  shows "\<exists>c table. rs_competitions s' = rs_competitions s @ [c] \<and> table = ct_solutions (sc_competition_table c) \<and>
    map sv_ranking table = rev [1..<Suc (length ps)] \<and> sorted (map sv_score table) \<and>
    mset (map (\<lambda>e. (sv_solver e, sv_solver_address e, sv_score e, sv_orders e)) table) =
      mset (map (\<lambda>p. (dr_name (pt_driver p), cs_solver (pt_solution p), cs_score (pt_solution p), cs_orders (pt_solution p))) ps) \<and>
    list_all (\<lambda>e. sv_call_data e = (if sv_ranking e = 1 then Some (sc_call_data c) else None)) table"
proof -
  obtain others winner revealed prices where rk: "ranked env ps = others @ [winner]"
    and s': "rs_competitions s' = rs_competitions s @
      [competition_record env cfg auction_id (remove_in_flight_orders env (rs_in_flight s) auction) (others @ [winner])
        winner revealed prices]"
    using stored unfolding s'_def ps_def by (rule stored_competition) blast
  let ?sols = "others @ [winner]"
  let ?table = "map (settlement_entry revealed (length ?sols)) (enumerate 0 ?sols)"
  have m: "mset ?sols = mset ps"
    using mset_ranked [OF shuffle, of ps] rk by simp
  then have len: "length ?sols = length ps"
    by (rule mset_eq_length)
  have "map sv_ranking ?table = rev [1..<Suc (length ps)]"
    using entries_ranking [of revealed ?sols] unfolding len .
  moreover have "map sv_score ?table = map (\<lambda>p. cs_score (pt_solution p)) ?sols"
    by (rule entries_map) (simp add: settlement_entry_def Let_def)
  then have "sorted (map sv_score ?table)"
    using sorted_ranked [of env ps] rk by (simp only: sorted_map score_le_def [abs_def])
  moreover have entries: "map (\<lambda>e. (sv_solver e, sv_solver_address e, sv_score e, sv_orders e)) ?table =
    map (\<lambda>p. (dr_name (pt_driver p), cs_solver (pt_solution p), cs_score (pt_solution p), cs_orders (pt_solution p))) ?sols"
    by (rule entries_map) (simp add: settlement_entry_def Let_def)
  moreover have "mset (map (\<lambda>e. (sv_solver e, sv_solver_address e, sv_score e, sv_orders e)) ?table) =
      mset (map (\<lambda>p. (dr_name (pt_driver p), cs_solver (pt_solution p), cs_score (pt_solution p), cs_orders (pt_solution p))) ps)"
    unfolding entries unfolding mset_map m ..
  moreover have "list_all (\<lambda>e. sv_call_data e = (if sv_ranking e = 1 then Some (cd_internalized revealed) else None)) ?table"
    by (auto simp: list_all_iff settlement_entry_def Let_def split: prod.splits)
  moreover let ?c = "competition_record env cfg auction_id (remove_in_flight_orders env (rs_in_flight s) auction) ?sols
    winner revealed prices"
  have "?table = ct_solutions (sc_competition_table ?c)" "cd_internalized revealed = sc_call_data ?c"
    by (simp_all add: competition_record_def)
  ultimately show ?thesis
    using s' by (intro exI [of _ ?c] exI [of _ ?table] conjI) (simp_all only:)
qed

section \<open>Orders in flight\<close>

definition ready_events :: "run_state \<Rightarrow> order_uid list" where
  "ready_events s = map fst (filter (\<lambda>e. snd e = EventReady) (rs_order_events s))"

lemma ready_events_add [simp]:
  "ready_events (add_order_events us label s) = ready_events s @ (if label = EventReady then us else [])"
  by (simp add: ready_events_def add_order_events_def filter_map comp_def)

lemma ready_events_cong: "rs_order_events s = rs_order_events t \<Longrightarrow> ready_events s = ready_events t"
  by (simp add: ready_events_def)

lemma settle_keeps_ready [pkeeps_intro]: "pkeeps ready_events (settle env cfg winner auction_id deadline)"
  unfolding settle_def by (intro pkeeps_intro) (simp_all add: ready_events_def add_order_events_def filter_map comp_def)

lemma finish_run_keeps_ready: "ready_events (snd (finish_run env cfg auction_id auction solutions winner revealed s)) = ready_events s"
proof -
  have "pkeeps ready_events (finish_run env cfg auction_id auction solutions winner revealed)"
    unfolding finish_run_def by (intro pkeeps_intro) (simp_all add: ready_events_def)
  then show ?thesis
    by (simp add: pkeeps_def)
qed

lemma finish_run_not_Panic: "fst (finish_run env cfg auction_id auction solutions winner revealed s) \<noteq> Panic"
proof -
  have "fst (pbind (settle env cfg winner auction_id deadline) (\<lambda>_. pret ()) t) \<noteq> Panic" for deadline t
    by (auto simp: settle_def pbind_def pmodify_def pret_def plift_def split: option.split sum.split)
  then show ?thesis
    by (simp add: finish_run_def Let_def case_prod_beta pbind_pmodify) (simp add: pret_def)
qed

lemma single_run_Panic:
  "fst (single_run env cfg auction_id auction s) = Panic \<longleftrightarrow> \<not> deadline_fits (re_chrono env) (rc_solve_deadline cfg)"
  by (simp add: single_run_eq finish_run_not_Panic split: outcome.split)

lemma single_run_ready:
  "ready_events (snd (single_run env cfg auction_id auction s)) = ready_events s @
     (if fst (single_run env cfg auction_id auction s) = Panic then []
      else map ao_uid (da_orders (remove_in_flight_orders env (rs_in_flight s) auction)))"
  unfolding single_run_Panic by (simp add: single_run_eq finish_run_keeps_ready split: outcome.split)

lemma remove_in_flight_late:
  assumes "da_latest_settlement_block auction < (case re_transaction_block env (if_tx_hash fl) of Some block \<Rightarrow> block | None \<Rightarrow> - 1)"
  shows "map ao_uid (da_orders (remove_in_flight_orders env (Some fl) auction)) =
    filter (\<lambda>uid. uid \<notin> set (if_orders fl)) (map ao_uid (da_orders auction))"
  using assms by (simp add: remove_in_flight_orders_def Let_def filter_map comp_def)

lemma settle_in_flight:
  "rs_in_flight (snd (settle env cfg winner auction_id deadline s)) =
     (case wait_for_settlement env cfg (pt_driver winner) auction_id (cs_id (pt_solution winner)) deadline of
        Some (Inr tx_hash) \<Rightarrow> Some \<lparr>if_tx_hash = tx_hash, if_orders = order_ids (pt_solution winner)\<rparr>
      | _ \<Rightarrow> rs_in_flight s)"
  by (simp add: settle_def pbind_pmodify plift_def pret_def add_order_events_def split: option.split sum.split)

lemma finish_run_in_flight:
  "rs_in_flight (snd (finish_run env cfg auction_id auction solutions winner revealed s)) =
     (if re_save_competition env (competition_record env cfg auction_id auction solutions winner revealed
           (snd (foldl (collect_order auction) ([], []) (order_ids (pt_solution winner))))) \<and> re_save_jit_owners env
      then (case wait_for_settlement env cfg (pt_driver winner) auction_id (cs_id (pt_solution winner))
                   (re_block_number env + rc_submission_deadline cfg) of
              Some (Inr tx_hash) \<Rightarrow> Some \<lparr>if_tx_hash = tx_hash, if_orders = order_ids (pt_solution winner)\<rparr>
            | _ \<Rightarrow> rs_in_flight s)
      else rs_in_flight s)"
proof -
  have bind: "rs_in_flight (snd (pbind m (\<lambda>_. pret ()) t)) = rs_in_flight (snd (m t))" for m :: "'a run" and t
    by (auto simp: pbind_def pret_def split: prod.splits outcome.splits)
  have "sc_block_deadline (competition_record env cfg auction_id auction solutions winner revealed prices) =
      re_block_number env + rc_submission_deadline cfg" for prices
    by (simp add: competition_record_def)
  then show ?thesis
    unfolding finish_run_def
    by (simp add: Let_def case_prod_beta pbind_pmodify bind settle_in_flight split: option.split sum.split) (simp add: pret_def)
qed

text \<open>
  C12. When a run changes the orders in flight, they are the orders of a solution of that competition whose transaction was found;
  and a later run of an auction that was built before the block of that transaction, or whose block is not known, offers the
  drivers every order of the auction except those (nothing at all when the run panics, because \<open>chrono\<close> cannot represent the deadline of the request).
\<close>

theorem settled_orders_not_offered_again:
  fixes env cfg auction_id auction s
  defines "s' \<equiv> snd (single_run env cfg auction_id auction s)"
  assumes shuffle: "\<And>xs. mset (re_shuffle env xs) = mset xs"
    and changed: "rs_in_flight s' \<noteq> rs_in_flight s"
  shows "\<exists>winner tx_hash.
    winner \<in> set (participants_of env cfg auction_id (remove_in_flight_orders env (rs_in_flight s) auction)) \<and>
    wait_for_settlement env cfg (pt_driver winner) auction_id (cs_id (pt_solution winner))
      (re_block_number env + rc_submission_deadline cfg) = Some (Inr tx_hash) \<and>
    (\<forall>env' cfg' auction_id' auction'.
       da_latest_settlement_block auction' < (case re_transaction_block env' tx_hash of Some block \<Rightarrow> block | None \<Rightarrow> - 1) \<longrightarrow>
       ready_events (snd (single_run env' cfg' auction_id' auction' s')) =
         ready_events s' @ (if fst (single_run env' cfg' auction_id' auction' s') = Panic then []
           else filter (\<lambda>uid. uid \<notin> set (order_ids (pt_solution winner))) (map ao_uid (da_orders auction'))))"
proof -
  let ?auc = "remove_in_flight_orders env (rs_in_flight s) auction"
  let ?ps = "participants_of env cfg auction_id ?auc"
  let ?winner = "last (ranked env ?ps)"
  obtain revealed s2 where s': "s' = snd (finish_run env cfg auction_id ?auc (ranked env ?ps) ?winner revealed s2)"
    and ne: "ranked env ?ps \<noteq> []" and s2: "rs_in_flight s2 = rs_in_flight s"
    using changed unfolding s'_def
    by (auto simp: single_run_eq add_order_events_def split: if_splits outcome.splits)
  have winner: "?winner \<in> set ?ps"
    using ne mset_ranked [OF shuffle, of ?ps] by (metis last_in_set set_mset_mset)
  obtain tx_hash where
    wait: "wait_for_settlement env cfg (pt_driver ?winner) auction_id (cs_id (pt_solution ?winner))
      (re_block_number env + rc_submission_deadline cfg) = Some (Inr tx_hash)"
    and fl: "rs_in_flight s' = Some \<lparr>if_tx_hash = tx_hash, if_orders = order_ids (pt_solution ?winner)\<rparr>"
    using changed unfolding s' s2 [symmetric] finish_run_in_flight by (auto split: if_splits option.splits sum.splits)
  show ?thesis
    using winner wait
    by (intro exI [of _ ?winner] exI [of _ tx_hash]) (simp add: single_run_ready fl remove_in_flight_late)
qed

section \<open>Waiting ends\<close>

text \<open>The first poll at which the search ends, and its result there.\<close>

definition poll_ends :: "(nat \<Rightarrow> u64) \<Rightarrow> (nat \<Rightarrow> find_result) \<Rightarrow> u64 \<Rightarrow> nat \<Rightarrow> bool" where
  "poll_ends block find_tx deadline i \<longleftrightarrow> deadline < block i \<or> (case find_tx i of Found _ \<Rightarrow> True | _ \<Rightarrow> False)"

definition poll_result :: "(nat \<Rightarrow> u64) \<Rightarrow> (nat \<Rightarrow> find_result) \<Rightarrow> u64 \<Rightarrow> nat \<Rightarrow> settle_error + h256" where
  "poll_result block find_tx deadline i =
     (case (deadline < block i, find_tx i) of
        (False, Found hash) \<Rightarrow> Inr hash
      | _ \<Rightarrow> Inl (SettleFailure ''settlement transaction await reached deadline''))"

lemma wait_polls_ends:
  assumes "poll_ends block find_tx deadline (i + n)" and "\<And>j. j < n \<Longrightarrow> \<not> poll_ends block find_tx deadline (i + j)"
  shows "wait_polls block find_tx deadline i = Some (i + n, poll_result block find_tx deadline (i + n))"
  using assms
proof (induction n arbitrary: i)
  case 0
  then show ?case
    by (subst wait_polls.simps) (auto simp: poll_ends_def poll_result_def split: find_result.splits)
next
  case (Suc n)
  have "wait_polls block find_tx deadline (Suc i) = Some (Suc i + n, poll_result block find_tx deadline (Suc i + n))"
    using Suc.prems(1) Suc.prems(2) [of "Suc _"] by (intro Suc.IH) simp_all
  moreover have "\<not> poll_ends block find_tx deadline i"
    using Suc.prems(2) [of 0] by simp
  ultimately show ?case
    by (subst wait_polls.simps) (auto simp: poll_ends_def split: find_result.splits)
qed

lemma wait_polls_first:
  assumes "poll_ends block find_tx deadline n"
  obtains i where "i \<le> n" "\<forall>j<i. \<not> poll_ends block find_tx deadline j"
    "wait_polls block find_tx deadline 0 = Some (i, poll_result block find_tx deadline i)"
proof -
  obtain i where i: "poll_ends block find_tx deadline i" "\<forall>j<i. \<not> poll_ends block find_tx deadline j"
    using assms exists_least_iff [of "poll_ends block find_tx deadline"] by blast
  moreover from i have "i \<le> n"
    using assms not_le by blast
  ultimately show thesis
    using wait_polls_ends [of block find_tx deadline 0 i] that by simp
qed

lemma wait_for_settlement_returns:
  assumes "saturating_add (re_settle_block env) (rc_submission_deadline cfg) < re_poll_block env n"
  shows "wait_for_settlement env cfg drv auction_id solution_id deadline \<noteq> None"
proof -
  have "poll_ends (re_poll_block env) (re_find_tx_hash env auction_id)
    (saturating_add (re_settle_block env) (rc_submission_deadline cfg)) n"
    using assms by (simp add: poll_ends_def)
  then have "wait_for_settlement_transaction env auction_id (rc_submission_deadline cfg) \<noteq> None"
    unfolding wait_for_settlement_transaction_def Let_def by (rule wait_polls_first) simp
  then show ?thesis
    by (auto simp: wait_for_settlement_def Let_def split: option.split sum.split)
qed

lemma finish_run_returns:
  assumes "saturating_add (re_settle_block env) (rc_submission_deadline cfg) < re_poll_block env n"
  shows "fst (finish_run env cfg auction_id auction solutions winner revealed s) = Ok ()"
proof -
  have "fst (pbind (settle env cfg winner auction_id deadline) (\<lambda>_. pret ()) t) = Ok ()" for deadline t
    using wait_for_settlement_returns [OF assms, of "pt_driver winner" auction_id "cs_id (pt_solution winner)" deadline]
    by (auto simp add: settle_def pbind_def pmodify_def pret_def split: option.split sum.split)
  then show ?thesis
    by (simp add: finish_run_def Let_def case_prod_beta pbind_pmodify) (simp add: pret_def)
qed

text \<open>
  C33. When the chain passes the deadline of the search for the transaction at some poll, a run ends, whatever the drivers and the
  database answer (solutions, errors, call data of any length): it returns if \<open>chrono\<close> can represent the time limit for the drivers and the deadline
  of the request, and otherwise it panics, before anything is stored. Nothing else in it panics: not the choice of the winner, not the check of
  the revealed call data, not the record of the competition, and not the search for the transaction. The condition is that requests to the drivers
  and to the database are answered at all, with a result or an error.
\<close>

theorem single_run_returns:
  assumes "saturating_add (re_settle_block env) (rc_submission_deadline cfg) < re_poll_block env n"
  shows "if deadline_fits (re_chrono env) (rc_solve_deadline cfg) then fst (single_run env cfg auction_id auction s) = Ok ()
    else single_run env cfg auction_id auction s = (Panic, s)"
  using finish_run_returns [OF assms] by (simp add: single_run_eq split: outcome.split)

text \<open>
  The search for a transaction ends at the first poll at which the chain is past the deadline or the transaction is found, with
  the hash exactly when it is found before the deadline has passed.
\<close>

theorem settlement_search_exact:
  fixes env auction_id max_blocks_wait
  defines "deadline \<equiv> saturating_add (re_settle_block env) max_blocks_wait"
  assumes ends: "poll_ends (re_poll_block env) (re_find_tx_hash env auction_id) deadline n"
  shows "\<exists>i r. i \<le> n \<and> wait_for_settlement_transaction env auction_id max_blocks_wait = Some (i, r) \<and>
    (\<forall>j<i. re_poll_block env j \<le> deadline \<and> (\<forall>hash. re_find_tx_hash env auction_id j \<noteq> Found hash)) \<and>
    (\<forall>hash. r = Inr hash \<longleftrightarrow> re_poll_block env i \<le> deadline \<and> re_find_tx_hash env auction_id i = Found hash)"
proof -
  obtain i where i: "i \<le> n" "\<forall>j<i. \<not> poll_ends (re_poll_block env) (re_find_tx_hash env auction_id) deadline j"
    and "wait_polls (re_poll_block env) (re_find_tx_hash env auction_id) deadline 0 =
      Some (i, poll_result (re_poll_block env) (re_find_tx_hash env auction_id) deadline i)"
    by (rule wait_polls_first [OF ends])
  then have wait: "wait_for_settlement_transaction env auction_id max_blocks_wait =
      Some (i, poll_result (re_poll_block env) (re_find_tx_hash env auction_id) deadline i)"
    by (simp add: wait_for_settlement_transaction_def deadline_def)
  have "re_poll_block env j \<le> deadline \<and> (\<forall>hash. re_find_tx_hash env auction_id j \<noteq> Found hash)" if "j < i" for j
    using i(2) that by (auto simp: poll_ends_def)
  moreover have "poll_result (re_poll_block env) (re_find_tx_hash env auction_id) deadline i = Inr hash \<longleftrightarrow>
      re_poll_block env i \<le> deadline \<and> re_find_tx_hash env auction_id i = Found hash" for hash
    by (auto simp: poll_result_def split: bool.splits find_result.splits)
  ultimately show ?thesis
    using i(1) wait by blast
qed

section \<open>When the solvers run\<close>

text \<open>The decisions of the loop over a sequence of auctions and blocks, and the memory after it.\<close>

fun loop_decisions :: "loop_memory \<Rightarrow> (domain_auction \<times> h256) list \<Rightarrow> bool list" where
  "loop_decisions m [] = []"
| "loop_decisions m ((auction, block) # turns) =
     (let (run, m) = loop_condition auction block m in run # loop_decisions m turns)"

fun loop_memory_after :: "loop_memory \<Rightarrow> (domain_auction \<times> h256) list \<Rightarrow> loop_memory" where
  "loop_memory_after m [] = m"
| "loop_memory_after m ((auction, block) # turns) = loop_memory_after (snd (loop_condition auction block m)) turns"

definition initial_memory :: loop_memory where
  "initial_memory = \<lparr>lm_last_auction = None, lm_last_block = None\<rparr>"

lemma loop_memory_after_append: "loop_memory_after m (xs @ ys) = loop_memory_after (loop_memory_after m xs) ys"
  by (induction m xs rule: loop_memory_after.induct) simp_all

lemma loop_decisions_append:
  "loop_decisions m (xs @ ys) = loop_decisions m xs @ loop_decisions (loop_memory_after m xs) ys"
  by (induction xs arbitrary: m) (auto simp: Let_def case_prod_beta)

lemma loop_condition_auction: "lm_last_auction (snd (loop_condition auction block m)) = Some auction"
  by (simp add: loop_condition_def Let_def)

lemma loop_condition_block: "lm_last_block (snd (loop_condition auction block m)) \<in> {lm_last_block m, Some block}"
  by (simp add: loop_condition_def Let_def)

lemma memory_last_auction:
  "turns \<noteq> [] \<Longrightarrow> lm_last_auction (loop_memory_after m turns) = Some (fst (last turns))"
  by (induction m turns rule: loop_memory_after.induct) (auto simp: loop_condition_auction)

lemma memory_last_block:
  "lm_last_block (loop_memory_after m turns) \<in> insert (lm_last_block m) (Some ` snd ` set turns)"
proof (induction m turns rule: loop_memory_after.induct)
  case (2 m auction block turns)
  then show ?case
    using loop_condition_block [of auction block m] by auto
qed simp

lemma same_auction_refl [simp]: "same_auction a a"
  by (simp add: same_auction_def)

text \<open>
  The solvers run in the first turn, in every turn with another auction than the turn before, and in every turn with a block
  that was in no turn before.
\<close>

theorem solvers_run_on_change:
  assumes "turns = [] \<or> \<not> same_auction (fst (last turns)) auction \<or> block \<notin> snd ` set turns"
  shows "last (loop_decisions initial_memory (turns @ [(auction, block)]))"
proof -
  let ?m = "loop_memory_after initial_memory turns"
  have "lm_last_auction ?m = (if turns = [] then None else Some (fst (last turns)))"
    using memory_last_auction [of turns] by (simp add: initial_memory_def)
  moreover have "lm_last_block ?m \<in> insert None (Some ` snd ` set turns)"
    using memory_last_block [of initial_memory turns] by (simp add: initial_memory_def)
  ultimately have "fst (loop_condition auction block ?m)"
    using assms by (auto simp: loop_condition_def Let_def image_iff)
  then show ?thesis
    by (simp add: loop_decisions_append case_prod_beta)
qed

lemma settled_decisions:
  assumes "lm_last_auction m = Some auction" "lm_last_block m = Some block"
  shows "loop_decisions m (replicate n (auction, block)) = replicate n False"
  using assms by (induction n arbitrary: m) (simp_all add: loop_condition_def)

text \<open>
  An auction that stays the same in a new block has the solvers run twice: as the block is not remembered in the turn in
  which the auction has changed, the next turn takes it for a new one. Later turns do not run them.
\<close>

theorem unchanged_auction_runs_twice:
  assumes "\<And>a. lm_last_auction m = Some a \<Longrightarrow> \<not> same_auction a auction" and "lm_last_block m \<noteq> Some block"
  shows "loop_decisions m (replicate (n + 2) (auction, block)) = [True, True] @ replicate n False"
  using assms settled_decisions [of "m\<lparr>lm_last_auction := Some auction, lm_last_block := Some block\<rparr>" auction block n]
  by (auto simp: loop_condition_def Let_def split: option.splits)

section \<open>An example\<close>

definition example_solution :: "u64 \<Rightarrow> u256 \<Rightarrow> dto_solution" where
  "example_solution sid score =
     \<lparr>dto_solution_id = sid, dto_score = score, dto_submission_address = ucast sid,
      dto_orders = [(replicate 56 0, \<lparr>ta_sell = 100, ta_buy = 90\<rparr>)], dto_clearing_prices = [(1, 1)]\<rparr>"

definition example_run_env :: run_environment where
  "example_run_env =
     \<lparr>re_transaction_block = (\<lambda>_. None), re_trusted_tokens = [],
      re_chrono = \<lparr>ch_utc_now = 1700000000, ch_from_std = (\<lambda>d. Some (int d)), ch_add = (\<lambda>t d. Some (t + d))\<rparr>,
      re_solve = (\<lambda>_ _. Inr [example_solution 1 7, example_solution 2 5]),
      re_is_solver = (\<lambda>_. Some True), re_shuffle = (\<lambda>xs. xs), re_block_number = 10,
      re_reveal = (\<lambda>_ _. Inr \<lparr>cd_internalized = [0, 0, 0, 0, 0, 0, 0, 1], cd_uninternalized = []\<rparr>), re_save_competition = (\<lambda>_. True),
      re_save_jit_owners = True, re_store_fee_policies = True, re_settle_block = 10, re_poll_block = (\<lambda>i. 10 + of_nat i),
      re_find_tx_hash = (\<lambda>_ i. if i = 1 then Found 99 else NotFound), re_driver_settle = (\<lambda>_ _ _. None)\<rparr>"

definition example_run_config :: run_config where
  "example_run_config = \<lparr>rc_drivers = [\<lparr>dr_name = ''solver''\<rparr>], rc_submission_deadline = 5, rc_solve_deadline = 15\<rparr>"

definition example_run_state :: run_state where
  "example_run_state =
     \<lparr>rs_in_flight = None, rs_order_events = [], rs_competitions = [], rs_jit_owners = [], rs_fee_policies = []\<rparr>"

definition example_auction :: domain_auction where
  "example_auction =
     \<lparr>da_block = 9, da_latest_settlement_block = 8, da_orders = [to_domain (example_order Sell 3 (replicate 56 0)) []],
      da_prices = [(1, 1)], da_surplus_capturing_jit_order_owners = []\<rparr>"

lemma example_shuffle: "mset (re_shuffle example_run_env xs) = mset xs"
  by (simp add: example_run_env_def)

lemma example_ranked:
  "ranked example_run_env (participants_of example_run_env example_run_config 1 example_auction) =
     map (\<lambda>(sid, score). \<lparr>pt_driver = \<lparr>dr_name = ''solver''\<rparr>, pt_solution =
       \<lparr>cs_id = sid, cs_solver = ucast sid, cs_score = score, cs_orders = [(replicate 56 0, \<lparr>ta_sell = 100, ta_buy = 90\<rparr>)],
        cs_prices = [(1, 1)]\<rparr>\<rparr>) [(2, 5), (1, 7)]"
  by code_simp

lemma example_none_in_flight: "remove_in_flight_orders example_run_env (rs_in_flight example_run_state) example_auction = example_auction"
  by (simp add: remove_in_flight_orders_def example_run_state_def)

lemma example_reveal:
  "reveal example_run_env drv 1 sid = Ok \<lparr>cd_internalized = [0, 0, 0, 0, 0, 0, 0, 1], cd_uninternalized = []\<rparr>"
proof -
  have "to_be_bytes_i64 1 = [0, 0, 0, 0, 0, 0, 0, 1]"
    by code_simp
  then show ?thesis
    by (simp add: reveal_def example_run_env_def ends_with_def)
qed

lemma example_search: "wait_for_settlement_transaction example_run_env 1 5 = Some (1, Inr 99)"
  using wait_polls_ends [of "re_poll_block example_run_env" "re_find_tx_hash example_run_env 1" 15 0 1]
  by (simp add: wait_for_settlement_transaction_def saturating_add_def example_run_env_def poll_ends_def poll_result_def)

lemma example_participants: "participants_of example_run_env example_run_config 1 example_auction \<noteq> []"
  by code_simp

lemma example_deadline_fits: "deadline_fits (re_chrono example_run_env) (rc_solve_deadline example_run_config)"
  by (simp add: deadline_fits_def example_run_env_def)

lemmas example_run_facts = single_run_eq example_deadline_fits example_none_in_flight example_ranked example_participants example_reveal

lemma example_wait: "wait_for_settlement example_run_env example_run_config drv 1 sid deadline = Some (Inr 99)"
  using example_search by (simp add: wait_for_settlement_def example_run_config_def) (simp add: example_run_env_def)

lemma example_run_stores:
  "rs_competitions (snd (single_run example_run_env example_run_config 1 example_auction example_run_state)) \<noteq> rs_competitions example_run_state"
  by (simp add: example_run_facts finish_run_competitions add_order_events_def) (simp add: example_run_env_def)

lemma example_run_in_flight:
  "rs_in_flight (snd (single_run example_run_env example_run_config 1 example_auction example_run_state)) =
     Some \<lparr>if_tx_hash = 99, if_orders = [replicate 56 0]\<rparr>"
  by (simp add: example_run_facts finish_run_in_flight example_wait order_ids_def) (simp add: example_run_env_def)

theorem stored_winner_is_best_witness:
  "\<exists>c. rs_competitions (snd (single_run example_run_env example_run_config 1 example_auction example_run_state)) = [c] \<and>
     sc_winning_score c > 0 \<and> ends_with (sc_call_data c) (to_be_bytes_i64 1)"
  using stored_winner_is_best [where env = example_run_env and cfg = example_run_config and auction_id = 1
      and auction = example_auction and s = example_run_state, OF example_shuffle example_run_stores]
  by (auto simp: example_run_state_def)

theorem stored_ranking_witness:
  "\<exists>c. rs_competitions (snd (single_run example_run_env example_run_config 1 example_auction example_run_state)) = [c] \<and>
     map sv_ranking (ct_solutions (sc_competition_table c)) = [2, 1]"
proof -
  have "length (participants_of example_run_env example_run_config 1 example_auction) = 2"
    by code_simp
  moreover have "rev [Suc 0..<Suc 2] = [2, 1]"
    by (simp add: eval_nat_numeral)
  ultimately show ?thesis
    using stored_ranking [where env = example_run_env and cfg = example_run_config and auction_id = 1
        and auction = example_auction and s = example_run_state, OF example_shuffle example_run_stores]
    by (auto simp: example_none_in_flight simp del: upt_Suc) (simp add: example_run_state_def)
qed

theorem settled_orders_not_offered_again_witness:
  "ready_events (snd (single_run example_run_env example_run_config 2 example_auction
      (snd (single_run example_run_env example_run_config 1 example_auction example_run_state))))
    = ready_events (snd (single_run example_run_env example_run_config 1 example_auction example_run_state))"
proof -
  let ?s = "snd (single_run example_run_env example_run_config 1 example_auction example_run_state)"
  have "rs_in_flight ?s \<noteq> rs_in_flight example_run_state"
    by (simp add: example_run_in_flight) (simp add: example_run_state_def)
  from settled_orders_not_offered_again [OF example_shuffle this]
  obtain winner tx_hash where winner: "winner \<in> set (participants_of example_run_env example_run_config 1 example_auction)"
    and later: "da_latest_settlement_block example_auction <
        (case re_transaction_block example_run_env tx_hash of Some block \<Rightarrow> block | None \<Rightarrow> - 1) \<longrightarrow>
      ready_events (snd (single_run example_run_env example_run_config 2 example_auction ?s)) =
        ready_events ?s @ (if fst (single_run example_run_env example_run_config 2 example_auction ?s) = Panic then []
          else filter (\<lambda>uid. uid \<notin> set (order_ids (pt_solution winner))) (map ao_uid (da_orders example_auction)))"
    unfolding example_none_in_flight by blast
  have "list_all (\<lambda>p. order_ids (pt_solution p) = [replicate 56 0])
      (participants_of example_run_env example_run_config 1 example_auction)"
    by code_simp
  then have "order_ids (pt_solution winner) = [replicate 56 0]"
    using winner by (simp add: list_all_iff)
  moreover have "map ao_uid (da_orders example_auction) = [replicate 56 0]"
    "da_latest_settlement_block example_auction < - 1" "re_transaction_block example_run_env tx_hash = None"
    by (simp_all add: example_auction_def to_domain_def example_order_def Let_def example_run_env_def)
  ultimately show ?thesis
    using later by simp
qed

theorem single_run_returns_witness:
  "fst (single_run example_run_env example_run_config 1 example_auction example_run_state) = Ok ()"
proof -
  have "saturating_add (re_settle_block example_run_env) (rc_submission_deadline example_run_config) < re_poll_block example_run_env 6"
    by (simp add: example_run_env_def example_run_config_def saturating_add_def)
  from single_run_returns [OF this, of 1 example_auction example_run_state] show ?thesis
    by (simp add: example_deadline_fits)
qed

theorem settlement_search_exact_witness: "\<exists>i r. i \<le> 1 \<and> wait_for_settlement_transaction example_run_env 1 5 = Some (i, r)"
proof -
  have "poll_ends (re_poll_block example_run_env) (re_find_tx_hash example_run_env 1) (saturating_add (re_settle_block example_run_env) 5) 1"
    by (simp add: poll_ends_def example_run_env_def)
  from settlement_search_exact [OF this] show ?thesis
    by blast
qed

theorem solvers_run_on_change_witness:
  "last (loop_decisions initial_memory ([(example_auction, 1)] @ [(example_auction, 2)]))"
  by (rule solvers_run_on_change) simp

theorem unchanged_auction_runs_twice_witness:
  "loop_decisions initial_memory (replicate (1 + 2) (example_auction, 1)) = [True, True] @ replicate 1 False"
  by (rule unchanged_auction_runs_twice) (simp_all add: initial_memory_def)

end
