(* ===== verification/Shadow_Loop.thy ===== *)
theory Shadow_Loop
  imports Run_Loop
begin

text \<open>
  The run loop of the shadow autopilot, \<open>crates/autopilot/src/shadow.rs\<close>: it runs the competition on the auctions of another
  deployment and reports the winner without a settlement. The report (log lines and metrics of one run) is the value of
  \<open>shadow_single_run\<close>; the drivers, the random shuffle and the other deployment are the same parameters as in \<open>Run_Loop\<close>.
\<close>

section \<open>Participants\<close>

datatype shadow_error = ShadowTimeout | ShadowNoSolutions | ShadowZeroScore | ShadowMismatch | ShadowSolve string | ShadowReveal string

definition shadow_label :: "shadow_error \<Rightarrow> string" where
  "shadow_label e =
     (case e of
        ShadowTimeout \<Rightarrow> ''timeout'' | ShadowNoSolutions \<Rightarrow> ''no_solutions'' | ShadowZeroScore \<Rightarrow> ''zero_score''
      | ShadowMismatch \<Rightarrow> ''mismatch'' | ShadowSolve _ \<Rightarrow> ''error'' | ShadowReveal _ \<Rightarrow> ''error'')"

record shadow_solution =
  ss_score :: u256
  ss_account :: h160
  ss_calldata :: calldata

record shadow_participant =
  sp_driver :: driver
  sp_solution :: "shadow_error + shadow_solution"

definition shadow_score :: "shadow_participant \<Rightarrow> u256" where
  "shadow_score p = (case sp_solution p of Inr sol \<Rightarrow> ss_score sol | Inl _ \<Rightarrow> 0)"

datatype shadow_answer = AnswerTimeout | AnswerFailed string | Answer "dto_solution list"

record shadow_environment =
  se_trusted_tokens :: "h160 list"
  se_chrono :: chrono
  se_solve :: "driver \<Rightarrow> solve_request \<Rightarrow> shadow_answer"
  se_reveal :: "driver \<Rightarrow> u64 \<Rightarrow> string + calldata"
  se_shuffle :: "shadow_participant list \<Rightarrow> shadow_participant list"
  se_solve_deadline :: duration

text \<open>\<open>max_by_key\<close>: the last of the solutions with the greatest score.\<close>

fun max_by_score :: "dto_solution list \<Rightarrow> dto_solution option" where
  "max_by_score [] = None"
| "max_by_score (d # ds) =
     (case max_by_score ds of None \<Rightarrow> Some d | Some m \<Rightarrow> if dto_score m \<ge> dto_score d then Some m else Some d)"

definition participate :: "shadow_environment \<Rightarrow> driver \<Rightarrow> solve_request \<Rightarrow> shadow_error + shadow_solution" where
  "participate env drv request =
     (case se_solve env drv request of
        AnswerTimeout \<Rightarrow> Inl ShadowTimeout
      | AnswerFailed e \<Rightarrow> Inl (ShadowSolve e)
      | Answer solutions \<Rightarrow>
          (case max_by_score solutions of
             None \<Rightarrow> Inl ShadowNoSolutions
           | Some best \<Rightarrow>
               if dto_score best = 0 then Inl ShadowZeroScore
               else case se_reveal env drv (dto_solution_id best) of
                      Inl e \<Rightarrow> Inl (ShadowReveal e)
                    | Inr revealed \<Rightarrow>
                        if \<not> ends_with (cd_internalized revealed) (to_be_bytes_i64 (sr_id request)) then Inl ShadowMismatch
                        else Inr \<lparr>ss_score = dto_score best, ss_account = dto_submission_address best, ss_calldata = revealed\<rparr>))"

definition shadow_competition :: "shadow_environment \<Rightarrow> driver list \<Rightarrow> u64 \<Rightarrow> domain_auction \<Rightarrow> (unit, shadow_participant list) outcome" where
  "shadow_competition env drivers auction_id auction =
     obind (solve_request_new (se_chrono env) auction_id auction (se_trusted_tokens env) (se_solve_deadline env)) (\<lambda>request.
     Ok (map (\<lambda>drv. \<lparr>sp_driver = drv, sp_solution = participate env drv request\<rparr>) drivers))"

section \<open>A run\<close>

record shadow_winner =
  sw_driver :: string
  sw_score :: u256
  sw_reward :: u256

record shadow_report =
  sh_winner :: "shadow_winner option"
  sh_results :: "(string \<times> string) list"

definition score_ge :: "shadow_participant \<Rightarrow> shadow_participant \<Rightarrow> bool" where
  "score_ge a b \<longleftrightarrow> shadow_score a \<ge> shadow_score b"

text \<open>The reward is an \<open>expect\<close> on a checked subtraction: it panics if the reference score exceeds the winning one.\<close>

definition shadow_single_run ::
  "shadow_environment \<Rightarrow> driver list \<Rightarrow> u64 \<Rightarrow> domain_auction \<Rightarrow> (unit, shadow_report) outcome" where
  "shadow_single_run env drivers auction_id auction =
     obind (shadow_competition env drivers auction_id auction) (\<lambda>participants.
      let participants = sort_by score_ge (se_shuffle env participants) in
      obind (case participants of
               [] \<Rightarrow> Ok None
             | p # rest \<Rightarrow>
                 (case sp_solution p of
                    Inl _ \<Rightarrow> Ok None
                  | Inr sol \<Rightarrow>
                      let reference_score = (case rest of [] \<Rightarrow> 0 | p' # _ \<Rightarrow> shadow_score p') in
                      (case checked_sub (ss_score sol) reference_score of
                         None \<Rightarrow> Panic
                       | Some reward \<Rightarrow>
                           Ok (Some \<lparr>sw_driver = dr_name (sp_driver p), sw_score = ss_score sol, sw_reward = reward\<rparr>)))) (\<lambda>winner.
      Ok \<lparr>sh_winner = winner,
          sh_results = map (\<lambda>p. (dr_name (sp_driver p),
            case sp_solution p of Inr _ \<Rightarrow> ''ok'' | Inl e \<Rightarrow> shadow_label e)) participants\<rparr>))"

section \<open>The next auction\<close>

record shadow_state =
  sh_auction :: u64
  sh_block :: u64

definition shadow_next_auction :: "(string + u64 \<times> domain_auction) \<Rightarrow> shadow_state \<Rightarrow> (u64 \<times> domain_auction) option \<times> shadow_state" where
  "shadow_next_auction answer s =
     (case answer of
        Inl _ \<Rightarrow> (None, s)
      | Inr (auction_id, auction) \<Rightarrow>
          if sh_auction s = auction_id then (None, s)
          else if sh_block s = da_block auction then (None, s)
          else if list_all (\<lambda>ord. case ao_class ord of Market \<Rightarrow> False | Liquidity \<Rightarrow> True | Limit \<Rightarrow> False) (da_orders auction)
          then (None, s)
          else (Some (auction_id, auction), s\<lparr>sh_auction := auction_id, sh_block := da_block auction\<rparr>))"

text \<open>One turn of \<open>run_forever\<close>, with the report of the run if there is one.\<close>

definition shadow_step ::
  "shadow_environment \<Rightarrow> driver list \<Rightarrow> (string + u64 \<times> domain_auction) \<Rightarrow> shadow_state
    \<Rightarrow> (unit, shadow_report option) outcome \<times> shadow_state" where
  "shadow_step env drivers answer s =
     (case shadow_next_auction answer s of
        (None, s) \<Rightarrow> (Ok None, s)
      | (Some (auction_id, auction), s) \<Rightarrow>
          (obind (shadow_single_run env drivers auction_id auction) (\<lambda>report. Ok (Some report)), s))"

section \<open>The reported winner\<close>

interpretation shadow_order: total_preorder score_ge
  by unfold_locales (auto simp: score_ge_def)

lemma max_by_score_max:
  "max_by_score ds = Some m \<Longrightarrow> m \<in> set ds \<and> (\<forall>d. d \<in> set ds \<longrightarrow> dto_score d \<le> dto_score m)"
proof (induction ds arbitrary: m)
  case (Cons d ds)
  show ?case
  proof (cases "max_by_score ds")
    case None
    then have "ds = []"
      by (cases ds) (auto split: option.splits if_splits)
    then show ?thesis
      using Cons.prems by simp
  next
    case (Some m')
    note best = Cons.IH [OF Some]
    show ?thesis
    proof (cases "dto_score d \<le> dto_score m'")
      case True
      then show ?thesis
        using Cons.prems Some best by auto
    next
      case False
      then have "m = d"
        using Cons.prems Some by simp
      then show ?thesis
        using best False by (auto intro: order_trans [OF _ less_imp_le])
    qed
  qed
qed simp

lemma participate_score: "participate env drv request = Inr sol \<Longrightarrow> ss_score sol \<noteq> 0"
  by (auto simp: participate_def split: shadow_answer.splits option.splits sum.splits if_splits)

lemma reference_is_max:
  assumes "sorted_wrt score_ge rest"
  shows "unat (case rest of [] \<Rightarrow> 0 | q # _ \<Rightarrow> shadow_score q) = Max (insert 0 ((\<lambda>q. unat (shadow_score q)) ` set rest))"
proof (cases rest)
  case (Cons q qs)
  then show ?thesis
    using assms by (intro Max_eqI [symmetric]) (auto simp: score_ge_def word_le_nat_alt)
qed simp

text \<open>
  A run of the shadow autopilot whose request has a deadline does not panic: the reference score is never larger than the score of the winner. A winner is
  reported exactly when a driver has a valid solution; its score is the best of all drivers, and its reward is the difference to
  the best score of the others, where a driver without a valid solution counts as 0.
\<close>

theorem shadow_winner_is_best:
  fixes env drivers auction_id auction
  assumes shuffle: "\<And>xs. mset (se_shuffle env xs) = mset xs"
    and ps_def: "shadow_competition env drivers auction_id auction = Ok ps"
  shows "\<exists>report. shadow_single_run env drivers auction_id auction = Ok report \<and>
    (sh_winner report = None \<longleftrightarrow> (\<forall>p. p \<in> set ps \<longrightarrow> isl (sp_solution p))) \<and>
    (\<forall>w. sh_winner report = Some w \<longrightarrow>
       (\<exists>p others. mset ps = add_mset p (mset others) \<and> sw_driver w = dr_name (sp_driver p) \<and> sw_score w = shadow_score p \<and>
         unat (sw_score w) = unat (sw_reward w) + Max (insert 0 ((\<lambda>q. unat (shadow_score q)) ` set others))))"
proof -
  let ?rk = "sort_by score_ge (se_shuffle env ps)"
  have m: "mset ?rk = mset ps"
    by (simp add: shuffle)
  then have set_rk: "set ?rk = set ps"
    by (metis set_mset_mset)
  have sorted: "sorted_wrt score_ge ?rk"
    by (rule shadow_order.sorted_sort_by)
  have valid: "shadow_score p \<noteq> 0 \<longleftrightarrow> \<not> isl (sp_solution p)" if "p \<in> set ps" for p
    using that participate_score [of env "sp_driver p"]
      ps_def by (auto simp: shadow_competition_def outc shadow_score_def split: sum.splits)
  show ?thesis
  proof (cases ?rk)
    case Nil
    then show ?thesis
      using set_rk by (simp add: shadow_single_run_def ps_def)
  next
    case (Cons p rest)
    have rest: "shadow_score q \<le> shadow_score p" if "q \<in> set rest" for q
      using sorted that unfolding Cons by (simp add: score_ge_def)
    have p: "p \<in> set ps"
      using set_rk Cons by auto
    show ?thesis
    proof (cases "sp_solution p")
      case (Inl e)
      then have "shadow_score p = 0"
        by (simp add: shadow_score_def)
      then have "shadow_score q = 0" if "q \<in> insert p (set rest)" for q
        using that rest [of q] by auto
      then have "isl (sp_solution q)" if "q \<in> set ps" for q
        using that valid [of q] set_rk Cons by auto
      then show ?thesis
        using Cons Inl by (simp add: shadow_single_run_def ps_def)
    next
      case (Inr sol)
      let ?ref = "case rest of [] \<Rightarrow> 0 | q # _ \<Rightarrow> shadow_score q"
      have score: "shadow_score p = ss_score sol"
        using Inr by (simp add: shadow_score_def)
      have ref: "unat ?ref = Max (insert 0 ((\<lambda>q. unat (shadow_score q)) ` set rest))"
        using reference_is_max [of rest] sorted Cons by simp
      have "unat ?ref \<le> unat (ss_score sol)"
        using rest score by (cases rest) (auto simp: word_le_nat_alt)
      then obtain reward where reward: "checked_sub (ss_score sol) ?ref = Some reward"
        by (auto simp: checked_sub_def)
      then have "shadow_single_run env drivers auction_id auction =
        Ok \<lparr>sh_winner = Some \<lparr>sw_driver = dr_name (sp_driver p), sw_score = ss_score sol, sw_reward = reward\<rparr>,
          sh_results = map (\<lambda>p. (dr_name (sp_driver p),
            case sp_solution p of Inr _ \<Rightarrow> ''ok'' | Inl e \<Rightarrow> shadow_label e)) ?rk\<rparr>"
        using Cons Inr by (simp add: shadow_single_run_def ps_def)
      moreover have "unat (ss_score sol) = unat reward + Max (insert 0 ((\<lambda>q. unat (shadow_score q)) ` set rest))"
        using reward ref by (simp add: chk)
      moreover have "mset ps = add_mset p (mset rest)"
        using m Cons by simp
      moreover have "\<not> isl (sp_solution p)"
        using Inr by simp
      ultimately show ?thesis
        using p score by (auto intro!: exI [of _ p] exI [of _ rest])
    qed
  qed
qed

definition example_shadow_env :: shadow_environment where
  "example_shadow_env =
     \<lparr>se_trusted_tokens = [], se_chrono = re_chrono example_run_env,
      se_solve = (\<lambda>_ _. Answer [example_solution 1 7, example_solution 2 5]),
      se_reveal = (\<lambda>_ _. Inl ''gone''), se_shuffle = (\<lambda>xs. xs), se_solve_deadline = 15\<rparr>"

theorem shadow_winner_is_best_witness:
  "\<exists>report. shadow_single_run example_shadow_env [\<lparr>dr_name = ''solver''\<rparr>] 1 example_auction = Ok report"
proof -
  have "\<exists>ps. shadow_competition example_shadow_env [\<lparr>dr_name = ''solver''\<rparr>] 1 example_auction = Ok ps"
    by (simp add: shadow_competition_def solve_request_new_def example_shadow_env_def example_run_env_def)
  then obtain ps where "shadow_competition example_shadow_env [\<lparr>dr_name = ''solver''\<rparr>] 1 example_auction = Ok ps"
    by blast
  from shadow_winner_is_best [OF _ this] show ?thesis
    by (auto simp: example_shadow_env_def)
qed

section \<open>Auctions are new\<close>

text \<open>
  An auction that is returned has another id and another block than the last one, and an order that is not a liquidity order; the
  state remembers exactly the auction that was returned.
\<close>

lemma shadow_next_auction_new:
  "shadow_next_auction answer s = (next_one, s') \<Longrightarrow>
     (case next_one of
        None \<Rightarrow> s' = s
      | Some (auction_id, auction) \<Rightarrow>
          answer = Inr (auction_id, auction) \<and> auction_id \<noteq> sh_auction s \<and> da_block auction \<noteq> sh_block s
          \<and> list_ex (\<lambda>ord. ao_class ord \<noteq> Liquidity) (da_orders auction)
          \<and> sh_auction s' = auction_id \<and> sh_block s' = da_block auction)"
  by (auto simp: shadow_next_auction_def list_all_iff list_ex_iff split: sum.splits if_splits order_class.splits)
     (metis order_class.distinct)+

end
