(* ===== verification/App_Data.thy ===== *)
theory App_Data
  imports Orders
begin

text \<open>
  The app data of an order, \<open>crates/app-data/src\<close>: the validation of a full app data document, the hooks of an order and
  their gas. The parser of the JSON document and the test for UTF-8 are parameters; a string of the model is a list of bytes, so
  a valid document is the string of its bytes.
\<close>

section \<open>Hooks\<close>

record hook =
  hk_target :: h160
  hk_call_data :: bytes
  hk_gas_limit :: u64

record hooks =
  hooks_pre :: "hook list"
  hooks_post :: "hook list"

definition no_hooks :: hooks where
  "no_hooks = \<lparr>hooks_pre = [], hooks_post = []\<rparr>"

definition hooks_is_empty :: "hooks \<Rightarrow> bool" where
  "hooks_is_empty h \<longleftrightarrow> hooks_pre h = [] \<and> hooks_post h = []"

definition hooks_gas_limit :: "hooks \<Rightarrow> u64" where
  "hooks_gas_limit h = foldl (\<lambda>total hk. saturating_add total (hk_gas_limit hk)) 0 (hooks_pre h @ hooks_post h)"

section \<open>Documents\<close>

record partner_fee =
  pf_bps :: u64
  pf_recipient :: h160

record protocol_app_data =
  pa_hooks :: hooks
  pa_signer :: "h160 option"
  pa_replaced_order :: "order_uid option"
  pa_partner_fee :: "partner_fee option"

definition default_protocol_app_data :: protocol_app_data where
  "default_protocol_app_data = \<lparr>pa_hooks = no_hooks, pa_signer = None, pa_replaced_order = None, pa_partner_fee = None\<rparr>"

record validated_app_data =
  va_hash :: app_data_hash
  va_document :: string
  va_protocol :: protocol_app_data

text \<open>The legacy \<open>backend\<close> object has hooks only.\<close>

record backend_app_data =
  ba_hooks :: hooks

definition protocol_of_backend :: "backend_app_data \<Rightarrow> protocol_app_data" where
  "protocol_of_backend b = \<lparr>pa_hooks = ba_hooks b, pa_signer = None, pa_replaced_order = None, pa_partner_fee = None\<rparr>"

record app_data_root =
  root_metadata :: "protocol_app_data option"
  root_backend :: "backend_app_data option"

datatype app_data_error = AppDataTooLarge nat nat | AppDataNotUtf8 | AppDataInvalidJson

record app_data_parser =
  adp_utf8 :: "bytes \<Rightarrow> bool"
  adp_json :: "string \<Rightarrow> app_data_root option"

definition bytes_string :: "bytes \<Rightarrow> string" where
  "bytes_string bs = map (\<lambda>b. char_of (unat b)) bs"

definition app_data_validate ::
  "(bytes \<Rightarrow> h256) \<Rightarrow> app_data_parser \<Rightarrow> nat \<Rightarrow> bytes \<Rightarrow> (app_data_error, validated_app_data) outcome" where
  "app_data_validate keccak parser size_limit full_app_data =
     (if length full_app_data > size_limit then Err (AppDataTooLarge (length full_app_data) size_limit)
      else if \<not> adp_utf8 parser full_app_data then Err AppDataNotUtf8
      else
        let document = bytes_string full_app_data in
        (case adp_json parser document of
           None \<Rightarrow> Err AppDataInvalidJson
         | Some root \<Rightarrow>
             let protocol = (case root_metadata root of
                               Some p \<Rightarrow> p
                             | None \<Rightarrow> (case root_backend root of
                                         Some b \<Rightarrow> protocol_of_backend b
                                       | None \<Rightarrow> default_protocol_app_data))
             in Ok \<lparr>va_hash = hash_full_app_data keccak full_app_data, va_document = document, va_protocol = protocol\<rparr>))"

section \<open>Lemmas\<close>

text \<open>The gas of the hooks is their sum, cut off at the largest \<open>u64\<close>.\<close>

lemma unat_saturating_fold:
  "unat (foldl (\<lambda>total hk. saturating_add total (hk_gas_limit hk)) t hs) =
     min (2 ^ 64 - 1) (unat t + sum_list (map (\<lambda>hk. unat (hk_gas_limit hk)) hs))"
proof (induction hs arbitrary: t)
  case Nil
  then show ?case
    using unat_bound [of t] by simp
next
  case (Cons hk hs)
  then show ?case
    by simp
qed

lemma hooks_gas_limit_sum:
  "unat (hooks_gas_limit h) =
     min (2 ^ 64 - 1) (sum_list (map (\<lambda>hk. unat (hk_gas_limit hk)) (hooks_pre h @ hooks_post h)))"
  by (simp add: hooks_gas_limit_def unat_saturating_fold)

lemma app_data_validate_Ok:
  assumes "app_data_validate keccak parser size_limit full = Ok v"
  shows "length full \<le> size_limit" and "va_hash v = hash_full_app_data keccak full"
    and "va_document v = bytes_string full"
  using assms by (auto simp: app_data_validate_def Let_def split: if_splits option.splits)

lemma app_data_validate_not_Panic [simp]: "app_data_validate keccak parser size_limit full \<noteq> Panic"
  by (simp add: app_data_validate_def Let_def split: option.split)

lemma unat_of_char: "unat (of_char c :: 8 word) = of_char c"
proof -
  have "unat (of_nat (of_char c) :: 8 word) = of_char c mod 2 ^ 8"
    by (simp only: unat_of_nat) simp
  moreover have "of_char c < (256 :: nat)"
    by simp
  ultimately show ?thesis
    by (simp add: of_nat_of_char)
qed

lemma bytes_string_bytes [simp]: "bytes_string (string_bytes s) = s"
  by (simp add: bytes_string_def string_bytes_def comp_def unat_of_char)

end
