(* ===== verification/Order_Quoting.thy ===== *)
theory Order_Quoting
  imports App_Data Quotes Programs Solvable_Orders
begin

text \<open>
  Quotes of orders, \<open>crates/shared/src/order_quoting.rs\<close> and \<open>fee.rs\<close>: calculating, storing and finding a quote; and the storage of
  quotes in the database (\<open>database/src/quotes.rs\<close>, \<open>orderbook/src/database/quotes.rs\<close>, \<open>shared/src/event_storing_helpers.rs\<close>).

  The trait \<open>QuoteStoring\<close> is the locale \<open>quote_storing\<close>, interpreted on the table of quotes, a list of rows: of the rows that satisfy the
  condition of \<open>find\<close>, the first one with the least fee is taken (the query leaves the choice between equal fees open). Numbers
  \<open>f64\<close> are those of \<open>Native_Prices\<close>, where the sign of a zero is not kept. Times are integers; the estimators, the balances and
  the conversion of an \<open>f64\<close> to \<open>U256\<close> are the record \<open>quoter\<close>. Of several failed estimates the one that arrives first is returned:
  \<open>qe_first_error\<close> chooses it.
\<close>

section \<open>Floating point\<close>

fun f64_add :: "(rat \<Rightarrow> f64) \<Rightarrow> f64 \<Rightarrow> f64 \<Rightarrow> f64" where
  "f64_add rnd (Finite x) (Finite y) = rnd (x + y)"
| "f64_add rnd (Infinite neg) (Finite _) = Infinite neg"
| "f64_add rnd (Finite _) (Infinite neg) = Infinite neg"
| "f64_add rnd (Infinite neg) (Infinite neg') = (if neg = neg' then Infinite neg else NaN)"
| "f64_add rnd _ _ = NaN"

fun f64_mul :: "(rat \<Rightarrow> f64) \<Rightarrow> f64 \<Rightarrow> f64 \<Rightarrow> f64" where
  "f64_mul rnd (Finite x) (Finite y) = rnd (x * y)"
| "f64_mul rnd (Infinite neg) (Finite y) = (if y = 0 then NaN else Infinite (neg \<noteq> (y < 0)))"
| "f64_mul rnd (Finite x) (Infinite neg) = (if x = 0 then NaN else Infinite (neg \<noteq> (x < 0)))"
| "f64_mul rnd (Infinite neg) (Infinite neg') = Infinite (neg \<noteq> neg')"
| "f64_mul rnd _ _ = NaN"

fun f64_div :: "(rat \<Rightarrow> f64) \<Rightarrow> f64 \<Rightarrow> f64 \<Rightarrow> f64" where
  "f64_div rnd (Finite x) (Finite y) = (if y \<noteq> 0 then rnd (x / y) else if x = 0 then NaN else Infinite (x < 0))"
| "f64_div rnd (Infinite neg) (Finite y) = Infinite (neg \<noteq> (y < 0))"
| "f64_div rnd (Finite _) (Infinite _) = Finite 0"
| "f64_div rnd _ _ = NaN"

fun f64_ceil :: "f64 \<Rightarrow> f64" where
  "f64_ceil (Finite x) = Finite (of_int \<lceil>x\<rceil>)"
| "f64_ceil v = v"

text \<open>\<open>as u64\<close> of an \<open>f64\<close> truncates and saturates.\<close>

fun f64_as_u64 :: "f64 \<Rightarrow> u64" where
  "f64_as_u64 NaN = 0"
| "f64_as_u64 (Infinite neg) = (if neg then 0 else - 1)"
| "f64_as_u64 (Finite x) = (if x \<le> 0 then 0 else if \<lfloor>x\<rfloor> < 2 ^ 64 then word_of_int \<lfloor>x\<rfloor> else - 1)"

definition u64_as_f64 :: "(rat \<Rightarrow> f64) \<Rightarrow> u64 \<Rightarrow> f64" where
  "u64_as_f64 rnd n = rnd (of_nat (unat n))"

section \<open>Fees\<close>

record fee_parameters =
  fp_gas_amount :: f64
  fp_gas_price :: f64
  fp_sell_token_price :: f64

record float_conversions =
  fl_round :: "rat \<Rightarrow> f64"
  fl_from_f64_lossy :: "f64 \<Rightarrow> u256"

definition fee_with_additional_cost :: "float_conversions \<Rightarrow> fee_parameters \<Rightarrow> u64 \<Rightarrow> u256" where
  "fee_with_additional_cost fl fp additional_cost =
     (let rnd = fl_round fl;
          fee_in_eth = f64_mul rnd (f64_add rnd (fp_gas_amount fp) (u64_as_f64 rnd additional_cost)) (fp_gas_price fp)
      in fl_from_f64_lossy fl (f64_ceil (f64_div rnd fee_in_eth (fp_sell_token_price fp))))"

definition fee_of :: "float_conversions \<Rightarrow> fee_parameters \<Rightarrow> u256" where
  "fee_of fl fp = fee_with_additional_cost fl fp 0"

section \<open>Quotes\<close>

datatype quote_kind = QuoteStandard | QuoteEip1271OnchainOrder | QuotePreSignOnchainOrder

fun quote_kind_from_signing_scheme :: "quote_signing_scheme \<Rightarrow> quote_kind" where
  "quote_kind_from_signing_scheme (QuoteEip1271 True _) = QuoteEip1271OnchainOrder"
| "quote_kind_from_signing_scheme (QuotePreSign True) = QuotePreSignOnchainOrder"
| "quote_kind_from_signing_scheme _ = QuoteStandard"

record quote_data =
  qd_sell_token :: h160
  qd_buy_token :: h160
  qd_quoted_sell_amount :: u256
  qd_quoted_buy_amount :: u256
  qd_fee_parameters :: fee_parameters
  qd_kind :: order_kind
  qd_expiration :: int
  qd_quote_kind :: quote_kind
  qd_solver :: h160
  qd_verified :: bool

type_synonym quote_id = int

record quote =
  qt_id :: "quote_id option"
  qt_data :: quote_data
  qt_sell_amount :: u256
  qt_buy_amount :: u256
  qt_fee_amount :: u256

definition quote_new :: "float_conversions \<Rightarrow> quote_id option \<Rightarrow> quote_data \<Rightarrow> quote" where
  "quote_new fl qid data =
     \<lparr>qt_id = qid, qt_data = data, qt_sell_amount = qd_quoted_sell_amount data, qt_buy_amount = qd_quoted_buy_amount data,
      qt_fee_amount = fee_of fl (qd_fee_parameters data)\<rparr>"

definition with_additional_cost :: "float_conversions \<Rightarrow> u64 \<Rightarrow> quote \<Rightarrow> quote" where
  "with_additional_cost fl cost q = q\<lparr>qt_fee_amount := fee_with_additional_cost fl (qd_fee_parameters (qt_data q)) cost\<rparr>"

text \<open>The product is 512 bits wide; the division panics for a quoted sell amount of zero, and the result saturates.\<close>

definition with_scaled_sell_amount :: "u256 \<Rightarrow> quote \<Rightarrow> ('e, quote) outcome" where
  "with_scaled_sell_amount sell_amount q =
     (let quoted_sell = unat (qd_quoted_sell_amount (qt_data q));
          scaled = unat (qd_quoted_buy_amount (qt_data q)) * unat sell_amount div quoted_sell
      in if quoted_sell = 0 then Panic
         else Ok (q\<lparr>qt_sell_amount := sell_amount, qt_buy_amount := if scaled < 2 ^ 256 then of_nat scaled else u256_max\<rparr>))"

record verification =
  vf_from :: h160
  vf_receiver :: h160
  vf_pre_interactions :: "interaction_data list"
  vf_post_interactions :: "interaction_data list"
  vf_sell_token_source :: sell_token_source
  vf_buy_token_destination :: buy_token_destination

record price_query =
  pq_sell_token :: h160
  pq_buy_token :: h160
  pq_in_amount :: u256
  pq_kind :: order_kind
  pq_verification :: verification
  pq_block_dependent :: bool

record price_estimate =
  es_out_amount :: u256
  es_gas :: u64
  es_solver :: h160
  es_verified :: bool

record quote_parameters =
  qp_sell_token :: h160
  qp_buy_token :: h160
  qp_side :: order_quote_side
  qp_verification :: verification
  qp_signing_scheme :: quote_signing_scheme
  qp_additional_gas :: u64

definition to_price_query :: "quote_parameters \<Rightarrow> price_query" where
  "to_price_query p =
     (let (kind, in_amount) = (case qp_side p of
            QuoteSell (BeforeFee a) \<Rightarrow> (Sell, a) | QuoteSell (AfterFee a) \<Rightarrow> (Sell, a) | QuoteBuy a \<Rightarrow> (Buy, a))
      in \<lparr>pq_sell_token = qp_sell_token p, pq_buy_token = qp_buy_token p, pq_in_amount = in_amount, pq_kind = kind,
          pq_verification = qp_verification p, pq_block_dependent = True\<rparr>)"

definition qp_additional_cost :: "quote_parameters \<Rightarrow> u64" where
  "qp_additional_cost p = saturating_add (additional_gas_amount (qp_signing_scheme p)) (qp_additional_gas p)"

datatype calculate_quote_error =
    SellAmountDoesNotCoverFee u256
  | QuotePrice price_estimation_error
  | QuoteNotVerified
  | CalculateOther string

datatype find_quote_error =
    QuoteNotFoundById "quote_id option"
  | ParameterMismatch quote_data
  | QuoteExpired int
  | FindOther string

record quote_search_parameters =
  qs_sell_token :: h160
  qs_buy_token :: h160
  qs_sell_amount :: u256
  qs_buy_amount :: u256
  qs_fee_amount :: u256
  qs_kind :: order_kind
  qs_signing :: quote_signing_scheme
  qs_additional_gas :: u64
  qs_verification :: verification

text \<open>\<open>matches\<close>: the sum of the amounts of a sell order panics on overflow, and is only computed when the sell amount differs.\<close>

definition quote_matches :: "quote_search_parameters \<Rightarrow> quote_data \<Rightarrow> ('e, bool) outcome" where
  "quote_matches p data =
     obind (case qs_kind p of
              Buy \<Rightarrow> Ok (qs_buy_amount p = qd_quoted_buy_amount data)
            | Sell \<Rightarrow>
                if qs_sell_amount p = qd_quoted_sell_amount data then Ok True
                else obind (add_p (qs_sell_amount p) (qs_fee_amount p)) (\<lambda>total. Ok (total = qd_quoted_sell_amount data))) (\<lambda>amounts_match.
     Ok (amounts_match \<and> (qs_sell_token p, qs_buy_token p, qs_kind p) = (qd_sell_token data, qd_buy_token data, qd_kind data)))"

definition qs_additional_cost :: "quote_search_parameters \<Rightarrow> u64" where
  "qs_additional_cost p = saturating_add (additional_gas_amount (qs_signing p)) (qs_additional_gas p)"

section \<open>The storage of quotes\<close>

text \<open>\<open>big_decimal_to_u256\<close>, with \<open>is_integer\<close> and \<open>to_bigint\<close> of the decimal.\<close>

definition big_decimal_to_u256 :: "big_decimal \<Rightarrow> u256 option" where
  "big_decimal_to_u256 d =
     (if bd_value d \<noteq> of_int \<lfloor>bd_value d\<rfloor> then None
      else case big_int_to_u256 \<lfloor>bd_value d\<rfloor> of Ok v \<Rightarrow> Some v | _ \<Rightarrow> None)"

record quote_row =
  row_id :: quote_id
  row_sell_token :: h160
  row_buy_token :: h160
  row_sell_amount :: big_decimal
  row_buy_amount :: big_decimal
  row_gas_amount :: f64
  row_gas_price :: f64
  row_sell_token_price :: f64
  row_order_kind :: order_kind
  row_expiration_timestamp :: int
  row_quote_kind :: quote_kind
  row_solver :: h160

definition create_quote_row :: "quote_data \<Rightarrow> quote_row" where
  "create_quote_row data =
     \<lparr>row_id = 0, row_sell_token = qd_sell_token data, row_buy_token = qd_buy_token data,
      row_sell_amount = u256_to_big_decimal (qd_quoted_sell_amount data),
      row_buy_amount = u256_to_big_decimal (qd_quoted_buy_amount data),
      row_gas_amount = fp_gas_amount (qd_fee_parameters data), row_gas_price = fp_gas_price (qd_fee_parameters data),
      row_sell_token_price = fp_sell_token_price (qd_fee_parameters data), row_order_kind = qd_kind data,
      row_expiration_timestamp = qd_expiration data, row_quote_kind = qd_quote_kind data, row_solver = qd_solver data\<rparr>"

definition quote_data_try_from :: "quote_row \<Rightarrow> (string, quote_data) outcome" where
  "quote_data_try_from r =
     obind (ok_or (big_decimal_to_u256 (row_sell_amount r)) ''quoted sell amount is not a valid U256'') (\<lambda>sell.
     obind (ok_or (big_decimal_to_u256 (row_buy_amount r)) ''quoted buy amount is not a valid U256'') (\<lambda>buy.
     Ok \<lparr>qd_sell_token = row_sell_token r, qd_buy_token = row_buy_token r, qd_quoted_sell_amount = sell, qd_quoted_buy_amount = buy,
         qd_fee_parameters = \<lparr>fp_gas_amount = row_gas_amount r, fp_gas_price = row_gas_price r,
           fp_sell_token_price = row_sell_token_price r\<rparr>,
         qd_kind = row_order_kind r, qd_expiration = row_expiration_timestamp r, qd_quote_kind = row_quote_kind r,
         qd_solver = row_solver r, qd_verified = False\<rparr>))"

record db_search_parameters =
  ds_sell_token :: h160
  ds_buy_token :: h160
  ds_sell_amount_0 :: big_decimal
  ds_sell_amount_1 :: big_decimal
  ds_buy_amount :: big_decimal
  ds_kind :: order_kind
  ds_expiration :: int
  ds_quote_kind :: quote_kind

definition create_db_search_parameters :: "quote_search_parameters \<Rightarrow> int \<Rightarrow> ('e, db_search_parameters) outcome" where
  "create_db_search_parameters p expiration =
     obind (add_p (qs_sell_amount p) (qs_fee_amount p)) (\<lambda>total.
     Ok \<lparr>ds_sell_token = qs_sell_token p, ds_buy_token = qs_buy_token p,
         ds_sell_amount_0 = u256_to_big_decimal (qs_sell_amount p), ds_sell_amount_1 = u256_to_big_decimal total,
         ds_buy_amount = u256_to_big_decimal (qs_buy_amount p), ds_kind = qs_kind p, ds_expiration = expiration,
         ds_quote_kind = quote_kind_from_signing_scheme (qs_signing p)\<rparr>)"

text \<open>The table, with the number of its sequence of ids.\<close>

record quotes_table =
  tb_rows :: "quote_row list"
  tb_next_id :: quote_id

definition db_quotes_save :: "quote_row \<Rightarrow> quotes_table \<Rightarrow> quote_id \<times> quotes_table" where
  "db_quotes_save r t =
     (tb_next_id t, \<lparr>tb_rows = tb_rows t @ [r\<lparr>row_id := tb_next_id t\<rparr>], tb_next_id = tb_next_id t + 1\<rparr>)"

definition db_quotes_get :: "quote_id \<Rightarrow> quotes_table \<Rightarrow> quote_row option" where
  "db_quotes_get qid t = find (\<lambda>r. row_id r = qid) (tb_rows t)"

definition row_selected :: "db_search_parameters \<Rightarrow> quote_row \<Rightarrow> bool" where
  "row_selected p r \<longleftrightarrow>
     row_sell_token r = ds_sell_token p \<and> row_buy_token r = ds_buy_token p \<and>
     ((row_order_kind r = Sell \<and> bd_value (row_sell_amount r) = bd_value (ds_sell_amount_0 p)) \<or>
      (row_order_kind r = Sell \<and> bd_value (row_sell_amount r) = bd_value (ds_sell_amount_1 p)) \<or>
      (row_order_kind r = Buy \<and> bd_value (row_buy_amount r) = bd_value (ds_buy_amount p))) \<and>
     row_order_kind r = ds_kind p \<and> ds_expiration p \<le> row_expiration_timestamp r \<and> row_quote_kind r = ds_quote_kind p"

text \<open>\<open>ORDER BY\<close>: a value that is not a number comes last.\<close>

definition f64_db_le :: "f64 \<Rightarrow> f64 \<Rightarrow> bool" where
  "f64_db_le a b \<longleftrightarrow> b = NaN \<or> (a \<noteq> NaN \<and> \<not> f64_less b a)"

definition row_fee :: "(rat \<Rightarrow> f64) \<Rightarrow> quote_row \<Rightarrow> f64" where
  "row_fee rnd r = f64_mul rnd (f64_mul rnd (row_gas_amount r) (row_gas_price r)) (row_sell_token_price r)"

fun least_row :: "(rat \<Rightarrow> f64) \<Rightarrow> quote_row list \<Rightarrow> quote_row option" where
  "least_row rnd [] = None"
| "least_row rnd (r # rs) =
     (case least_row rnd rs of None \<Rightarrow> Some r | Some m \<Rightarrow> if f64_db_le (row_fee rnd r) (row_fee rnd m) then Some r else Some m)"

definition db_quotes_find :: "(rat \<Rightarrow> f64) \<Rightarrow> db_search_parameters \<Rightarrow> quotes_table \<Rightarrow> quote_row option" where
  "db_quotes_find rnd p t = least_row rnd (filter (row_selected p) (tb_rows t))"

definition db_remove_expired_quotes :: "int \<Rightarrow> quotes_table \<Rightarrow> quotes_table" where
  "db_remove_expired_quotes max_expiry t = t\<lparr>tb_rows := filter (\<lambda>r. \<not> row_expiration_timestamp r < max_expiry) (tb_rows t)\<rparr>"

text \<open>\<open>QuoteStoring for Postgres\<close>; \<open>fault\<close> is the error of the connection, if there is one.\<close>

definition storage_save :: "string option \<Rightarrow> quote_data \<Rightarrow> (quotes_table, string, quote_id) prog" where
  "storage_save fault data =
     (case fault of
        Some e \<Rightarrow> plift (Err e)
      | None \<Rightarrow> (\<lambda>t. case db_quotes_save (create_quote_row data) t of (qid, t) \<Rightarrow> (Ok qid, t)))"

definition storage_get :: "string option \<Rightarrow> quote_id \<Rightarrow> quotes_table \<Rightarrow> (string, quote_data option) outcome" where
  "storage_get fault qid t =
     (case fault of
        Some e \<Rightarrow> Err e
      | None \<Rightarrow>
          (case db_quotes_get qid t of
             None \<Rightarrow> Ok None
           | Some r \<Rightarrow> obind (quote_data_try_from r) (\<lambda>data. Ok (Some data))))"

definition storage_find ::
  "(rat \<Rightarrow> f64) \<Rightarrow> string option \<Rightarrow> quote_search_parameters \<Rightarrow> int \<Rightarrow> quotes_table \<Rightarrow> (string, (quote_id \<times> quote_data) option) outcome" where
  "storage_find rnd fault p expiration t =
     (case fault of
        Some e \<Rightarrow> Err e
      | None \<Rightarrow>
          obind (create_db_search_parameters p expiration) (\<lambda>dp.
          case db_quotes_find rnd dp t of
            None \<Rightarrow> Ok None
          | Some r \<Rightarrow> obind (quote_data_try_from r) (\<lambda>data. Ok (Some (row_id r, data)))))"

section \<open>The quoter\<close>

datatype quote_verification_mode = Unverified | Prefer | EnforceWhenPossible

record quote_validity =
  qv_eip1271_onchain_quote :: int
  qv_presign_onchain_quote :: int
  qv_standard_quote :: int

record quoter =
  qe_now :: int
  qe_validity :: quote_validity
  qe_gas_price :: "string + f64"
  qe_estimate :: "price_query \<Rightarrow> price_estimation_error + price_estimate"
  qe_native_price :: "h160 \<Rightarrow> price_estimation_error + f64"
  qe_first_error :: "price_estimation_error list \<Rightarrow> price_estimation_error"
  qe_get_balances :: "query list \<Rightarrow> (string + u256) list"
  qe_quote_verification :: quote_verification_mode
  qe_floats :: float_conversions

definition get_balance :: "quoter \<Rightarrow> verification \<Rightarrow> h160 \<Rightarrow> (string, u256) outcome" where
  "get_balance env v token =
     (let balances = qe_get_balances env
            [\<lparr>q_owner = vf_from v, q_token = token, q_source = vf_sell_token_source v, q_interactions = vf_pre_interactions v\<rparr>]
      in if balances = [] then Err ''missing balance result''
         else case last balances of Inl e \<Rightarrow> Err e | Inr balance \<Rightarrow> Ok balance)"

definition verify_quote :: "quoter \<Rightarrow> price_estimate \<Rightarrow> quote_parameters \<Rightarrow> u256 \<Rightarrow> (calculate_quote_error, unit) outcome" where
  "verify_quote env est p sell_amount =
     (if es_verified est \<or> qe_quote_verification env \<noteq> EnforceWhenPossible then Ok ()
      else case get_balance env (qp_verification p) (qp_sell_token p) of
             Ok balance \<Rightarrow> if sell_amount \<le> balance then Err QuoteNotVerified else Ok ()
           | _ \<Rightarrow> Err QuoteNotVerified)"

text \<open>\<open>try_join!\<close> of the gas price, the trade estimate and the two native prices.\<close>

definition join_estimates :: "quoter \<Rightarrow> quote_parameters \<Rightarrow> (calculate_quote_error, f64 \<times> price_estimate \<times> f64) outcome" where
  "join_estimates env p =
     (let gas = (case qe_gas_price env of Inl e \<Rightarrow> Inl (ProtocolInternal e) | Inr g \<Rightarrow> Inr g);
          trade = qe_estimate env (to_price_query p);
          sell_price = qe_native_price env (qp_sell_token p);
          buy_price = qe_native_price env (qp_buy_token p)
      in case (gas, trade, sell_price, buy_price) of
           (Inr g, Inr t, Inr sp, Inr _) \<Rightarrow> Ok (g, t, sp)
         | _ \<Rightarrow> Err (QuotePrice (qe_first_error env
                 ((case gas of Inl e \<Rightarrow> [e] | Inr _ \<Rightarrow> []) @ (case trade of Inl e \<Rightarrow> [e] | Inr _ \<Rightarrow> []) @
                  (case sell_price of Inl e \<Rightarrow> [e] | Inr _ \<Rightarrow> []) @ (case buy_price of Inl e \<Rightarrow> [e] | Inr _ \<Rightarrow> [])))))"

definition quote_expiration :: "quoter \<Rightarrow> quote_signing_scheme \<Rightarrow> int" where
  "quote_expiration env sch =
     qe_now env + (case sch of
        QuoteEip1271 True _ \<Rightarrow> qv_eip1271_onchain_quote (qe_validity env)
      | QuotePreSign True \<Rightarrow> qv_presign_onchain_quote (qe_validity env)
      | _ \<Rightarrow> qv_standard_quote (qe_validity env))"

definition compute_quote_data :: "quoter \<Rightarrow> quote_parameters \<Rightarrow> (calculate_quote_error, quote_data) outcome" where
  "compute_quote_data env p =
     obind (join_estimates env p) (\<lambda>(gas_price, trade, sell_token_price).
     let (quoted_sell, quoted_buy) = (case qp_side p of
           QuoteSell (BeforeFee a) \<Rightarrow> (a, es_out_amount trade) | QuoteSell (AfterFee a) \<Rightarrow> (a, es_out_amount trade)
         | QuoteBuy a \<Rightarrow> (es_out_amount trade, a));
         fee_parameters = \<lparr>fp_gas_amount = u64_as_f64 (fl_round (qe_floats env)) (es_gas trade), fp_gas_price = gas_price,
           fp_sell_token_price = sell_token_price\<rparr>
     in obind (verify_quote env trade p quoted_sell) (\<lambda>_.
        Ok \<lparr>qd_sell_token = qp_sell_token p, qd_buy_token = qp_buy_token p, qd_quoted_sell_amount = quoted_sell,
            qd_quoted_buy_amount = quoted_buy, qd_fee_parameters = fee_parameters, qd_kind = pq_kind (to_price_query p),
            qd_expiration = quote_expiration env (qp_signing_scheme p),
            qd_quote_kind = quote_kind_from_signing_scheme (qp_signing_scheme p), qd_solver = es_solver trade,
            qd_verified = es_verified trade\<rparr>))"

definition calculate_quote :: "quoter \<Rightarrow> quote_parameters \<Rightarrow> (calculate_quote_error, quote) outcome" where
  "calculate_quote env p =
     obind (compute_quote_data env p) (\<lambda>data.
     let q = with_additional_cost (qe_floats env) (qp_additional_cost p) (quote_new (qe_floats env) None data)
     in case qp_side p of
          QuoteSell (BeforeFee before_fee) \<Rightarrow>
            let sell_amount = saturating_sub before_fee (qt_fee_amount q)
            in if sell_amount = 0 then Err (SellAmountDoesNotCoverFee (qt_fee_amount q))
               else with_scaled_sell_amount sell_amount q
        | _ \<Rightarrow> Ok q)"

definition store_quote :: "(quote_data \<Rightarrow> ('s, string, quote_id) prog) \<Rightarrow> quote \<Rightarrow> ('s, string, quote) prog" where
  "store_quote save q = pbind (save (qt_data q)) (\<lambda>qid. pret (q\<lparr>qt_id := Some qid\<rparr>))"

text \<open>The quote a search stands for: by its id, with the checks of the parameters and of the expiration, or by the parameters.\<close>

definition lookup_quote ::
  "(quote_id \<Rightarrow> 's \<Rightarrow> (string, quote_data option) outcome)
    \<Rightarrow> (quote_search_parameters \<Rightarrow> int \<Rightarrow> 's \<Rightarrow> (string, (quote_id \<times> quote_data) option) outcome)
    \<Rightarrow> int \<Rightarrow> quote_id option \<Rightarrow> quote_search_parameters \<Rightarrow> 's \<Rightarrow> (find_quote_error, quote_id \<times> quote_data) outcome" where
  "lookup_quote get find_params now qid p s =
     (case qid of
        Some i \<Rightarrow>
          obind (map_err FindOther (get i s)) (\<lambda>found.
          obind (ok_or found (QuoteNotFoundById (Some i))) (\<lambda>data.
          obind (quote_matches p data) (\<lambda>matches.
          if \<not> matches then Err (ParameterMismatch data)
          else if qd_expiration data < now then Err (QuoteExpired (qd_expiration data))
          else Ok (i, data))))
      | None \<Rightarrow>
          obind (map_err FindOther (find_params p now s)) (\<lambda>found.
          ok_or found (QuoteNotFoundById None)))"

definition find_quote ::
  "quoter \<Rightarrow> (quote_id \<Rightarrow> 's \<Rightarrow> (string, quote_data option) outcome)
    \<Rightarrow> (quote_search_parameters \<Rightarrow> int \<Rightarrow> 's \<Rightarrow> (string, (quote_id \<times> quote_data) option) outcome)
    \<Rightarrow> quote_id option \<Rightarrow> quote_search_parameters \<Rightarrow> 's \<Rightarrow> (find_quote_error, quote) outcome" where
  "find_quote env get find_params qid p s =
     obind (lookup_quote get find_params (qe_now env) qid p s) (\<lambda>(i, data).
     let q = with_additional_cost (qe_floats env) (qs_additional_cost p) (quote_new (qe_floats env) (Some i) data)
     in case qs_kind p of
          Sell \<Rightarrow> with_scaled_sell_amount (qs_sell_amount p) q
        | Buy \<Rightarrow> Ok q)"

section \<open>Contract of the storage\<close>

text \<open>A quote that fits the parameters of a search.\<close>

definition quote_fits :: "quote_search_parameters \<Rightarrow> quote_data \<Rightarrow> bool" where
  "quote_fits p data \<longleftrightarrow>
     qs_sell_token p = qd_sell_token data \<and> qs_buy_token p = qd_buy_token data \<and> qs_kind p = qd_kind data \<and>
     (case qs_kind p of
        Buy \<Rightarrow> qs_buy_amount p = qd_quoted_buy_amount data
      | Sell \<Rightarrow> unat (qd_quoted_sell_amount data) \<in> {unat (qs_sell_amount p), unat (qs_sell_amount p) + unat (qs_fee_amount p)})"

lemma quote_matches_Ok: "quote_matches p data = Ok True \<longrightarrow> quote_fits p data"
  by (auto simp: quote_matches_def quote_fits_def outc add_p_def chk split: order_kind.splits if_splits option.splits)

lemma quote_matches_Panic:
  "quote_matches p data = Panic \<longleftrightarrow>
     qs_kind p = Sell \<and> qs_sell_amount p \<noteq> qd_quoted_sell_amount data \<and> 2 ^ 256 \<le> unat (qs_sell_amount p) + unat (qs_fee_amount p)"
  by (auto simp: quote_matches_def outc add_p_def chk split: order_kind.split)

lemma quote_fits_sell:
  assumes "quote_fits p data" "qs_kind p = Sell"
  shows "unat (qs_sell_amount p) \<le> unat (qd_quoted_sell_amount data)"
  using assms unfolding quote_fits_def by (elim conjE) (auto simp del: of_nat_unat)

text \<open>Scaling to a smaller sell amount: the buy amount is the exact share, rounded down, and does not saturate.\<close>

definition scaled_buy :: "quote_data \<Rightarrow> u256 \<Rightarrow> u256 \<Rightarrow> bool" where
  "scaled_buy data sell_amount buy_amount \<longleftrightarrow>
     qd_quoted_sell_amount data \<noteq> 0 \<and>
     unat buy_amount = min (unat (qd_quoted_buy_amount data) * unat sell_amount div unat (qd_quoted_sell_amount data)) (2 ^ 256 - 1)"

lemma with_scaled_Ok:
  assumes "with_scaled_sell_amount sell_amount q = Ok q'"
  shows "scaled_buy (qt_data q) sell_amount (qt_buy_amount q')" and "qt_sell_amount q' = sell_amount"
    and "qt_data q' = qt_data q" and "qt_id q' = qt_id q" and "qt_fee_amount q' = qt_fee_amount q"
  using assms by (auto simp: with_scaled_sell_amount_def scaled_buy_def Let_def unat_of_nat unat_neg_one split: if_splits)

lemma scaled_buy_down:
  assumes "scaled_buy data sell_amount buy_amount" "unat sell_amount \<le> unat (qd_quoted_sell_amount data)"
  shows "buy_amount \<le> qd_quoted_buy_amount data"
    and "unat buy_amount = unat (qd_quoted_buy_amount data) * unat sell_amount div unat (qd_quoted_sell_amount data)"
proof -
  have "unat (qd_quoted_buy_amount data) * unat sell_amount div unat (qd_quoted_sell_amount data)
      \<le> unat (qd_quoted_buy_amount data) * unat (qd_quoted_sell_amount data) div unat (qd_quoted_sell_amount data)"
    using assms(2) by (intro div_le_mono mult_le_mono) simp_all
  also have "\<dots> \<le> unat (qd_quoted_buy_amount data)"
    by simp
  finally have le: "unat (qd_quoted_buy_amount data) * unat sell_amount div unat (qd_quoted_sell_amount data)
    \<le> unat (qd_quoted_buy_amount data)" .
  then show "unat buy_amount = unat (qd_quoted_buy_amount data) * unat sell_amount div unat (qd_quoted_sell_amount data)"
    using assms(1) unat_bound [of "qd_quoted_buy_amount data"] by (simp add: scaled_buy_def)
  with le show "buy_amount \<le> qd_quoted_buy_amount data"
    by (simp add: word_le_nat_alt)
qed

locale quote_storing =
  fixes save :: "quote_data \<Rightarrow> ('s, string, quote_id) prog"
    and get :: "quote_id \<Rightarrow> 's \<Rightarrow> (string, quote_data option) outcome"
    and find_params :: "quote_search_parameters \<Rightarrow> int \<Rightarrow> 's \<Rightarrow> (string, (quote_id \<times> quote_data) option) outcome"
    and ok :: "'s \<Rightarrow> bool"
  assumes save_ok: "ok s \<Longrightarrow> save data s = (r, s') \<Longrightarrow> ok s'"
    and get_saved: "ok s \<Longrightarrow> save data s = (Ok i, s') \<Longrightarrow> get i s' = Ok (Some (data\<lparr>qd_verified := False\<rparr>))"
    and get_kept: "ok s \<Longrightarrow> save data s = (r, s') \<Longrightarrow> get j s = Ok (Some data') \<Longrightarrow> get j s' = Ok (Some data')"
    and find_fits: "ok s \<Longrightarrow> find_params p now s = Ok (Some (i, data)) \<Longrightarrow> get i s = Ok (Some data) \<and> quote_fits p data
      \<and> now \<le> qd_expiration data \<and> qd_quote_kind data = quote_kind_from_signing_scheme (qs_signing p)"
    and get_not_Panic: "get i s \<noteq> Panic"
    and find_Panic: "find_params p now s = Panic \<Longrightarrow> 2 ^ 256 \<le> unat (qs_sell_amount p) + unat (qs_fee_amount p)"
begin

lemma lookup_fits:
  assumes "ok s" and "lookup_quote get find_params now qid p s = Ok (i, data)"
  shows "get i s = Ok (Some data) \<and> quote_fits p data \<and> now \<le> qd_expiration data \<and> (\<forall>j. qid = Some j \<longrightarrow> i = j)
    \<and> (qid = None \<longrightarrow> qd_quote_kind data = quote_kind_from_signing_scheme (qs_signing p))"
proof (cases qid)
  case None
  then show ?thesis
    using assms find_fits [of s p now i data] by (auto simp: lookup_quote_def outc)
next
  case (Some j)
  then show ?thesis
    using assms quote_matches_Ok [of p data] by (auto simp: lookup_quote_def outc split: if_splits)
qed

lemma find_quote_lookup:
  assumes "find_quote env get find_params qid p s = Ok q"
  obtains i data where "lookup_quote get find_params (qe_now env) qid p s = Ok (i, data)" "qt_data q = data" "qt_id q = Some i"
    "qt_fee_amount q = fee_with_additional_cost (qe_floats env) (qd_fee_parameters data) (qs_additional_cost p)"
    "case qs_kind p of
       Buy \<Rightarrow> qt_sell_amount q = qd_quoted_sell_amount data \<and> qt_buy_amount q = qd_quoted_buy_amount data
     | Sell \<Rightarrow> qt_sell_amount q = qs_sell_amount p \<and> scaled_buy data (qs_sell_amount p) (qt_buy_amount q)"
proof -
  obtain i data where found: "lookup_quote get find_params (qe_now env) qid p s = Ok (i, data)"
    using assms by (auto simp: find_quote_def outc)
  show thesis
  proof (cases "qs_kind p")
    case Buy
    then show thesis
      using assms found that [OF found] by (auto simp: find_quote_def quote_new_def with_additional_cost_def Let_def)
  next
    case Sell
    then have scaled: "with_scaled_sell_amount (qs_sell_amount p)
        (with_additional_cost (qe_floats env) (qs_additional_cost p) (quote_new (qe_floats env) (Some i) data)) = (Ok q :: (find_quote_error, _) outcome)"
      using assms found by (simp add: find_quote_def Let_def)
    show thesis
      using that [OF found] with_scaled_Ok [OF scaled] Sell by (simp add: quote_new_def with_additional_cost_def)
  qed
qed

lemma find_quote_fits:
  assumes "ok s" and found: "find_quote env get find_params qid p s = Ok q"
  shows "quote_fits p (qt_data q) \<and> qe_now env \<le> qd_expiration (qt_data q) \<and>
    (\<exists>i. qt_id q = Some i \<and> get i s = Ok (Some (qt_data q)) \<and> (\<forall>j. qid = Some j \<longrightarrow> i = j)) \<and>
    qt_fee_amount q = fee_with_additional_cost (qe_floats env) (qd_fee_parameters (qt_data q)) (qs_additional_cost p) \<and>
    (case qs_kind p of
       Buy \<Rightarrow> qt_sell_amount q = qd_quoted_sell_amount (qt_data q) \<and> qt_buy_amount q = qd_quoted_buy_amount (qt_data q)
     | Sell \<Rightarrow> qt_sell_amount q = qs_sell_amount p \<and> qt_buy_amount q \<le> qd_quoted_buy_amount (qt_data q) \<and>
         unat (qt_buy_amount q) =
           unat (qd_quoted_buy_amount (qt_data q)) * unat (qs_sell_amount p) div unat (qd_quoted_sell_amount (qt_data q)))"
  using found
proof (rule find_quote_lookup)
  fix i data
  assume l: "lookup_quote get find_params (qe_now env) qid p s = Ok (i, data)" and q: "qt_data q = data" "qt_id q = Some i"
    "qt_fee_amount q = fee_with_additional_cost (qe_floats env) (qd_fee_parameters data) (qs_additional_cost p)"
    and amounts: "case qs_kind p of
       Buy \<Rightarrow> qt_sell_amount q = qd_quoted_sell_amount data \<and> qt_buy_amount q = qd_quoted_buy_amount data
     | Sell \<Rightarrow> qt_sell_amount q = qs_sell_amount p \<and> scaled_buy data (qs_sell_amount p) (qt_buy_amount q)"
  note fits = lookup_fits [OF \<open>ok s\<close> l]
  have "qs_kind p = Sell \<Longrightarrow> unat (qs_sell_amount p) \<le> unat (qd_quoted_sell_amount data)"
    using quote_fits_sell fits by blast
  then have "case qs_kind p of
      Buy \<Rightarrow> qt_sell_amount q = qd_quoted_sell_amount data \<and> qt_buy_amount q = qd_quoted_buy_amount data
    | Sell \<Rightarrow> qt_sell_amount q = qs_sell_amount p \<and> qt_buy_amount q \<le> qd_quoted_buy_amount data \<and>
        unat (qt_buy_amount q) = unat (qd_quoted_buy_amount data) * unat (qs_sell_amount p) div unat (qd_quoted_sell_amount data)"
    using amounts scaled_buy_down [of data "qs_sell_amount p" "qt_buy_amount q"] by (cases "qs_kind p") auto
  then show ?thesis
    unfolding q(1) using fits q(2,3) by blast
qed

lemma lookup_Panic:
  assumes "lookup_quote get find_params now qid p s = Panic"
  shows "2 ^ 256 \<le> unat (qs_sell_amount p) + unat (qs_fee_amount p)"
  using assms find_Panic get_not_Panic
  by (auto simp: lookup_quote_def outc quote_matches_Panic split: option.splits if_splits)

lemma find_quote_Panic:
  assumes "ok s" "find_quote env get find_params qid p s = Panic" "qs_sell_amount p \<noteq> 0"
  shows "2 ^ 256 \<le> unat (qs_sell_amount p) + unat (qs_fee_amount p)"
proof (cases "lookup_quote get find_params (qe_now env) qid p s")
  case (Ok found)
  obtain i data where found: "found = (i, data)"
    by (cases found)
  have sell: "qs_kind p = Sell" "qd_quoted_sell_amount data = 0"
    using assms(2) Ok unfolding found
    by (auto simp: find_quote_def Let_def with_scaled_sell_amount_def with_additional_cost_def quote_new_def unat_eq_zero
        split: order_kind.splits if_splits)
  moreover have "quote_fits p data"
    using lookup_fits [OF assms(1), of "qe_now env" qid p i data] Ok found by blast
  ultimately show ?thesis
    using quote_fits_sell [of p data] assms(3) by (simp add: unat_eq_zero)
next
  case Panic
  then show ?thesis
    by (rule lookup_Panic)
qed (use assms(2) in \<open>simp add: find_quote_def\<close>)

text \<open>A quote that was stored is found by its id, for parameters it fits and as long as it is valid.\<close>

lemma lookup_stored:
  assumes "ok s" "save (qt_data q) s = (Ok i, s')"
    and "quote_matches p ((qt_data q)\<lparr>qd_verified := False\<rparr>) = (Ok True :: (find_quote_error, _) outcome)"
    and "now \<le> qd_expiration (qt_data q)"
  shows "lookup_quote get find_params now (Some i) p s' = Ok (i, (qt_data q)\<lparr>qd_verified := False\<rparr>)"
  using assms get_saved [OF assms(1,2)] by (simp add: lookup_quote_def)

end

text \<open>The table keeps the contract: ids are distinct and smaller than the next one.\<close>

definition table_ok :: "quotes_table \<Rightarrow> bool" where
  "table_ok t \<longleftrightarrow> distinct (map row_id (tb_rows t)) \<and> list_all (\<lambda>r. row_id r < tb_next_id t) (tb_rows t)"

lemma bd_value_u256 [simp]: "bd_value (u256_to_big_decimal v) = of_nat (unat v)"
  by (simp add: bd_value_def u256_to_big_decimal_def)

lemma unsigned_rat_eq: "(unsigned a :: rat) = unsigned b \<longleftrightarrow> a = b" for a b :: u256
  by (metis of_nat_unat of_nat_eq_iff word_unat_eq_iff)

lemma unsigned_rat_add: "(unsigned a :: rat) = unsigned b + unsigned c \<longleftrightarrow> unat a = unat b + unat c" for a b c :: u256
  using of_nat_eq_iff [where 'a = rat, of "unat a" "unat b + unat c"] by simp

lemma big_int_to_u256_Some: "(case big_int_to_u256 i of Ok v \<Rightarrow> Some v | _ \<Rightarrow> None) = Some v \<longleftrightarrow> i = int (unat v)"
proof (cases "big_int_to_u256 i")
  case (Ok x)
  moreover from Ok have "i = int (unat x)"
    by (simp only: big_int_to_u256_Ok)
  ultimately show ?thesis
    by (auto simp: word_uint_eq_iff)
qed (use big_int_to_u256_Ok [of i v] in auto)

lemma big_decimal_to_u256_Some: "big_decimal_to_u256 d = Some v \<longleftrightarrow> bd_value d = of_nat (unat v)"
proof
  assume "big_decimal_to_u256 d = Some v"
  then have "bd_value d = of_int \<lfloor>bd_value d\<rfloor>" "\<lfloor>bd_value d\<rfloor> = int (unat v)"
    unfolding big_decimal_to_u256_def by (simp_all add: big_int_to_u256_Some split: if_splits)
  then show "bd_value d = of_nat (unat v)"
    by (metis of_int_of_nat_eq)
next
  assume v: "bd_value d = of_nat (unat v)"
  then have "\<lfloor>bd_value d\<rfloor> = int (unat v)"
    by (simp only: floor_of_nat)
  then show "big_decimal_to_u256 d = Some v"
    using v big_int_to_u256_Some [of "\<lfloor>bd_value d\<rfloor>" v] by (simp add: big_decimal_to_u256_def)
qed

lemma big_decimal_to_u256_u256 [simp]: "big_decimal_to_u256 (u256_to_big_decimal v) = Some v"
  by (simp add: big_decimal_to_u256_Some)

lemma row_roundtrip: "quote_data_try_from (create_quote_row data\<lparr>row_id := i\<rparr>) = Ok (data\<lparr>qd_verified := False\<rparr>)"
  by (simp add: quote_data_try_from_def create_quote_row_def ok_or_def)

lemma find_distinct: "distinct (map row_id rs) \<Longrightarrow> r \<in> set rs \<Longrightarrow> find (\<lambda>x. row_id x = row_id r) rs = Some r"
  by (induction rs) (auto simp: image_iff)

lemma find_appended: "list_all (\<lambda>r. row_id r < i) rs \<Longrightarrow> row_id r = i \<Longrightarrow> find (\<lambda>x. row_id x = i) (rs @ [r]) = Some r"
  by (induction rs) auto

lemma find_append_old: "find P xs = Some x \<Longrightarrow> find P (xs @ ys) = Some x"
  by (induction xs) auto

lemma least_row_in: "least_row rnd rs = Some r \<Longrightarrow> r \<in> set rs"
  by (induction rs arbitrary: r) (auto split: option.splits if_splits)

lemma selected_fits:
  assumes "create_db_search_parameters p now = (Ok dp :: ('e, _) outcome)" "row_selected dp r" "quote_data_try_from r = Ok data"
  shows "quote_fits p data \<and> now \<le> qd_expiration data \<and> qd_quote_kind data = quote_kind_from_signing_scheme (qs_signing p)"
proof -
  have amounts: "bd_value (row_sell_amount r) = of_nat (unat (qd_quoted_sell_amount data))"
    "bd_value (row_buy_amount r) = of_nat (unat (qd_quoted_buy_amount data))"
    using assms(3) by (auto simp: quote_data_try_from_def outc big_decimal_to_u256_Some)
  moreover have "row_sell_token r = qd_sell_token data" "row_buy_token r = qd_buy_token data" "row_order_kind r = qd_kind data"
    "row_expiration_timestamp r = qd_expiration data" "row_quote_kind r = qd_quote_kind data"
    using assms(3) by (auto simp: quote_data_try_from_def outc)
  ultimately show ?thesis
    using assms(1,2)
    by (auto simp: create_db_search_parameters_def outc add_p_def chk row_selected_def quote_fits_def unsigned_rat_eq unsigned_rat_add
        split: order_kind.splits)
qed

interpretation postgres: quote_storing "storage_save fault" "storage_get fault" "storage_find rnd fault" table_ok for fault rnd
proof
  fix s s' :: quotes_table and data data' r i j p now
  assume ok: "table_ok s"
  {
    assume save: "storage_save fault data s = (r, s')"
    show "table_ok s'"
      using save ok
      by (fastforce simp: storage_save_def db_quotes_save_def plift_def table_ok_def list_all_iff split: option.splits)
    show "storage_get fault j s' = Ok (Some data')" if "storage_get fault j s = Ok (Some data')"
      using that save
      by (auto simp: storage_save_def db_quotes_save_def plift_def storage_get_def db_quotes_get_def find_append_old
          split: option.splits)
  }
  show "storage_get fault i s' = Ok (Some (data\<lparr>qd_verified := False\<rparr>))" if "storage_save fault data s = (Ok i, s')"
    using that ok
    by (auto simp: storage_save_def db_quotes_save_def plift_def storage_get_def db_quotes_get_def table_ok_def find_appended
        row_roundtrip split: option.splits)
  show "storage_get fault i s = Ok (Some data) \<and> quote_fits p data \<and> now \<le> qd_expiration data
      \<and> qd_quote_kind data = quote_kind_from_signing_scheme (qs_signing p)"
    if found: "storage_find rnd fault p now s = Ok (Some (i, data))"
  proof -
    obtain dp r where dp: "create_db_search_parameters p now = (Ok dp :: (string, _) outcome)"
      and r: "db_quotes_find rnd dp s = Some r" "quote_data_try_from r = Ok data" "i = row_id r" "fault = None"
      using found by (auto simp: storage_find_def outc split: option.splits)
    then have "r \<in> set (tb_rows s)" "row_selected dp r"
      using least_row_in [of rnd "filter (row_selected dp) (tb_rows s)" r] by (auto simp: db_quotes_find_def)
    then show ?thesis
      using selected_fits [OF dp _ r(2)] r ok find_distinct [of "tb_rows s" r]
      by (simp add: storage_get_def db_quotes_get_def table_ok_def)
  qed
next
  fix s :: quotes_table and i p now
  show "storage_get fault i s \<noteq> Panic"
    by (auto simp: storage_get_def quote_data_try_from_def outc split: option.split)
  show "2 ^ 256 \<le> unat (qs_sell_amount p) + unat (qs_fee_amount p)" if "storage_find rnd fault p now s = Panic"
    using that
    by (auto simp: storage_find_def create_db_search_parameters_def quote_data_try_from_def outc add_p_def chk split: option.splits)
qed

section \<open>Quotes are found again\<close>

text \<open>
  A quote that is found for an order was stored with its tokens and kind and has not expired; for a buy order it has the
  bought amount, for a sell order the sold amount with or without the fee. The amounts of a sell order are scaled to its sell
  amount, rounded down and never above the quoted ones, and the fee includes the additional gas of the order.
\<close>

theorem found_quote_fits:
  assumes "table_ok t" and "find_quote env (storage_get fault) (storage_find rnd fault) qid p t = Ok q"
  shows "quote_fits p (qt_data q) \<and> qe_now env \<le> qd_expiration (qt_data q) \<and>
    (\<exists>i. qt_id q = Some i \<and> storage_get fault i t = Ok (Some (qt_data q)) \<and> (\<forall>j. qid = Some j \<longrightarrow> i = j)) \<and>
    qt_fee_amount q = fee_with_additional_cost (qe_floats env) (qd_fee_parameters (qt_data q)) (qs_additional_cost p) \<and>
    (case qs_kind p of
       Buy \<Rightarrow> qt_sell_amount q = qd_quoted_sell_amount (qt_data q) \<and> qt_buy_amount q = qd_quoted_buy_amount (qt_data q)
     | Sell \<Rightarrow> qt_sell_amount q = qs_sell_amount p \<and> qt_buy_amount q \<le> qd_quoted_buy_amount (qt_data q) \<and>
         unat (qt_buy_amount q) =
           unat (qd_quoted_buy_amount (qt_data q)) * unat (qs_sell_amount p) div unat (qd_quoted_sell_amount (qt_data q)))"
  using assms by (rule postgres.find_quote_fits)

text \<open>The parameters of an order that follows a quote which was calculated for the parameters \<open>p\<close>.\<close>

definition order_of_quote :: "quote_parameters \<Rightarrow> quote \<Rightarrow> quote_search_parameters" where
  "order_of_quote p q =
     \<lparr>qs_sell_token = qp_sell_token p, qs_buy_token = qp_buy_token p, qs_sell_amount = qt_sell_amount q,
      qs_buy_amount = qt_buy_amount q, qs_fee_amount = qt_fee_amount q, qs_kind = qd_kind (qt_data q),
      qs_signing = qp_signing_scheme p, qs_additional_gas = qp_additional_gas p, qs_verification = qp_verification p\<rparr>"

fun side_amount :: "order_quote_side \<Rightarrow> u256" where
  "side_amount (QuoteSell (BeforeFee a)) = a"
| "side_amount (QuoteSell (AfterFee a)) = a"
| "side_amount (QuoteBuy a) = a"

lemma compute_quote_data_Ok:
  assumes "compute_quote_data env p = Ok data"
  shows "qd_sell_token data = qp_sell_token p \<and> qd_buy_token data = qp_buy_token p \<and>
    (case qp_side p of
       QuoteSell (BeforeFee a) \<Rightarrow> qd_kind data = Sell \<and> qd_quoted_sell_amount data = a
     | QuoteSell (AfterFee a) \<Rightarrow> qd_kind data = Sell \<and> qd_quoted_sell_amount data = a
     | QuoteBuy a \<Rightarrow> qd_kind data = Buy \<and> qd_quoted_buy_amount data = a)"
  using assms
  by (auto simp: compute_quote_data_def to_price_query_def Let_def outc
      split: order_quote_side.splits sell_amount.splits prod.splits)

lemma calculate_quote_Ok:
  assumes "calculate_quote env p = Ok q"
  shows "qd_sell_token (qt_data q) = qp_sell_token p \<and> qd_buy_token (qt_data q) = qp_buy_token p \<and>
    qt_id q = None \<and> qt_fee_amount q = fee_with_additional_cost (qe_floats env) (qd_fee_parameters (qt_data q)) (qp_additional_cost p) \<and>
    (case qp_side p of
       QuoteSell (BeforeFee a) \<Rightarrow> qd_kind (qt_data q) = Sell \<and> qd_quoted_sell_amount (qt_data q) = a \<and>
         unat a = unat (qt_sell_amount q) + unat (qt_fee_amount q) \<and> qt_sell_amount q \<noteq> 0 \<and>
         scaled_buy (qt_data q) (qt_sell_amount q) (qt_buy_amount q)
     | QuoteSell (AfterFee a) \<Rightarrow> qd_kind (qt_data q) = Sell \<and> qd_quoted_sell_amount (qt_data q) = a \<and> qt_sell_amount q = a \<and>
         qt_buy_amount q = qd_quoted_buy_amount (qt_data q)
     | QuoteBuy a \<Rightarrow> qd_kind (qt_data q) = Buy \<and> qd_quoted_buy_amount (qt_data q) = a \<and> qt_buy_amount q = a \<and>
         qt_sell_amount q = qd_quoted_sell_amount (qt_data q))"
proof -
  obtain data where data: "compute_quote_data env p = Ok data"
    using assms by (auto simp: calculate_quote_def outc)
  let ?q = "with_additional_cost (qe_floats env) (qp_additional_cost p) (quote_new (qe_floats env) None data)"
  have q0: "qt_data ?q = data" "qt_id ?q = None" "qt_sell_amount ?q = qd_quoted_sell_amount data"
    "qt_buy_amount ?q = qd_quoted_buy_amount data"
    "qt_fee_amount ?q = fee_with_additional_cost (qe_floats env) (qd_fee_parameters data) (qp_additional_cost p)"
    by (simp_all add: with_additional_cost_def quote_new_def)
  show ?thesis
  proof (cases "\<exists>a. qp_side p = QuoteSell (BeforeFee a)")
    case True
    then obtain a where a: "qp_side p = QuoteSell (BeforeFee a)"
      by blast
    let ?sell = "saturating_sub a (qt_fee_amount ?q)"
    have scaled: "with_scaled_sell_amount ?sell ?q = (Ok q :: (calculate_quote_error, _) outcome)" and "?sell \<noteq> 0"
      using assms data a by (auto simp: calculate_quote_def Let_def split: if_splits)
    moreover from \<open>?sell \<noteq> 0\<close> have "unat a = unat ?sell + unat (qt_fee_amount ?q)"
      by (simp add: word_unat_eq_iff del: unat_eq_zero)
    ultimately show ?thesis
      using compute_quote_data_Ok [OF data] with_scaled_Ok [OF scaled] a q0 by simp
  next
    case False
    then have "q = ?q"
      using assms data by (auto simp: calculate_quote_def Let_def split: order_quote_side.splits sell_amount.splits)
    then show ?thesis
      using compute_quote_data_Ok [OF data] False q0 by (auto split: order_quote_side.splits sell_amount.splits)
  qed
qed

lemma order_of_quote_matches:
  assumes "calculate_quote env p = Ok q"
  shows "quote_matches (order_of_quote p q) ((qt_data q)\<lparr>qd_verified := v\<rparr>) = Ok True"
proof -
  have "checked_add (qt_sell_amount q) (qt_fee_amount q) = Some (qd_quoted_sell_amount (qt_data q))"
    if "qp_side p = QuoteSell (BeforeFee a)" for a
    using calculate_quote_Ok [OF assms] that by (simp add: chk)
  then show ?thesis
    using calculate_quote_Ok [OF assms]
    by (auto simp: quote_matches_def order_of_quote_def add_p_def split: order_quote_side.splits sell_amount.splits)
qed

lemma with_scaled_again:
  assumes "scaled_buy (qt_data q) sell_amount buy_amount"
  shows "with_scaled_sell_amount sell_amount q = Ok (q\<lparr>qt_sell_amount := sell_amount, qt_buy_amount := buy_amount\<rparr>)"
proof -
  let ?n = "unat (qd_quoted_buy_amount (qt_data q)) * unat sell_amount div unat (qd_quoted_sell_amount (qt_data q))"
  have "buy_amount = (if ?n < 2 ^ 256 then of_nat ?n else u256_max)"
    using assms by (auto simp: scaled_buy_def word_unat_eq_iff unat_of_nat unat_neg_one)
  then show ?thesis
    using assms by (simp add: with_scaled_sell_amount_def scaled_buy_def Let_def unat_eq_zero)
qed

lemma order_of_quote_scaled:
  assumes "calculate_quote env p = Ok q" "qd_kind (qt_data q) = Sell" "side_amount (qp_side p) \<noteq> 0"
  shows "scaled_buy (qt_data q) (qt_sell_amount q) (qt_buy_amount q)"
  using calculate_quote_Ok [OF assms(1)] assms(2,3) unat_bound [of "qt_buy_amount q"]
  by (auto simp: scaled_buy_def unat_eq_zero split: order_quote_side.splits sell_amount.splits)

text \<open>
  C24. A quote that was calculated and stored is found again by its id for an order that follows it, until it expires: with the
  same amounts and the same fee, and marked as not verified.
\<close>

theorem stored_quote_found_again:
  assumes ok: "table_ok t" and calc: "calculate_quote env p = Ok q"
    and stored: "store_quote (storage_save fault) q t = (Ok q', t')" and nonzero: "side_amount (qp_side p) \<noteq> 0"
    and later: "qe_now env' \<le> qd_expiration (qt_data q)" and floats: "qe_floats env' = qe_floats env"
  shows "\<exists>i. q' = q\<lparr>qt_id := Some i\<rparr> \<and>
    find_quote env' (storage_get fault) (storage_find rnd fault) (Some i) (order_of_quote p q) t' =
      Ok (q'\<lparr>qt_data := (qt_data q)\<lparr>qd_verified := False\<rparr>\<rparr>)"
proof -
  obtain i where save: "storage_save fault (qt_data q) t = (Ok i, t')" and q': "q' = q\<lparr>qt_id := Some i\<rparr>"
    using stored by (auto simp: store_quote_def prog_Ok)
  let ?data = "(qt_data q)\<lparr>qd_verified := False\<rparr>"
  note calculated = calculate_quote_Ok [OF calc]
  have found: "lookup_quote (storage_get fault) (storage_find rnd fault) (qe_now env') (Some i) (order_of_quote p q) t' = Ok (i, ?data)"
    by (rule postgres.lookup_stored [OF ok save order_of_quote_matches [OF calc] later])
  have cost: "qs_additional_cost (order_of_quote p q) = qp_additional_cost p"
    by (simp add: qs_additional_cost_def qp_additional_cost_def order_of_quote_def)
  let ?q = "with_additional_cost (qe_floats env') (qp_additional_cost p) (quote_new (qe_floats env') (Some i) ?data)"
  have "find_quote env' (storage_get fault) (storage_find rnd fault) (Some i) (order_of_quote p q) t' =
      Ok (?q\<lparr>qt_sell_amount := qt_sell_amount q, qt_buy_amount := qt_buy_amount q\<rparr>)"
  proof (cases "qd_kind (qt_data q)")
    case Buy
    then show ?thesis
      using found cost calculated
      by (auto simp: find_quote_def Let_def order_of_quote_def with_additional_cost_def quote_new_def
          split: order_quote_side.splits sell_amount.splits)
  next
    case Sell
    have "scaled_buy (qt_data ?q) (qt_sell_amount q) (qt_buy_amount q)"
      using order_of_quote_scaled [OF calc Sell nonzero]
      by (simp add: scaled_buy_def with_additional_cost_def quote_new_def)
    then show ?thesis
      using found cost Sell with_scaled_again [of ?q] by (simp add: find_quote_def Let_def order_of_quote_def)
  qed
  moreover have "?q\<lparr>qt_sell_amount := qt_sell_amount q, qt_buy_amount := qt_buy_amount q\<rparr> = q'\<lparr>qt_data := ?data\<rparr>"
    using calculated by (simp add: q' with_additional_cost_def quote_new_def floats)
  ultimately show ?thesis
    using q' by auto
qed

section \<open>An example\<close>

definition example_floats :: float_conversions where
  "example_floats = \<lparr>fl_round = Finite, fl_from_f64_lossy = (\<lambda>v. case v of Finite x \<Rightarrow> word_of_int \<lfloor>x\<rfloor> | _ \<Rightarrow> 0)\<rparr>"

definition example_quoter :: quoter where
  "example_quoter =
     \<lparr>qe_now = 100, qe_validity = \<lparr>qv_eip1271_onchain_quote = 600, qv_presign_onchain_quote = 600, qv_standard_quote = 60\<rparr>,
      qe_gas_price = Inr (Finite 1), qe_estimate = (\<lambda>_. Inr \<lparr>es_out_amount = 50, es_gas = 10, es_solver = 7, es_verified = True\<rparr>),
      qe_native_price = (\<lambda>_. Inr (Finite 1)), qe_first_error = hd, qe_get_balances = (\<lambda>qs. map (\<lambda>_. Inr 1000) qs),
      qe_quote_verification = Prefer, qe_floats = example_floats\<rparr>"

definition example_verification :: verification where
  "example_verification =
     \<lparr>vf_from = 3, vf_receiver = 3, vf_pre_interactions = [], vf_post_interactions = [], vf_sell_token_source = SellErc20,
      vf_buy_token_destination = BuyErc20\<rparr>"

definition example_parameters :: quote_parameters where
  "example_parameters =
     \<lparr>qp_sell_token = 1, qp_buy_token = 2, qp_side = QuoteSell (BeforeFee 100), qp_verification = example_verification,
      qp_signing_scheme = QuoteEip712, qp_additional_gas = 0\<rparr>"

definition example_quote_data :: quote_data where
  "example_quote_data =
     \<lparr>qd_sell_token = 1, qd_buy_token = 2, qd_quoted_sell_amount = 100, qd_quoted_buy_amount = 50,
      qd_fee_parameters = \<lparr>fp_gas_amount = Finite 10, fp_gas_price = Finite 1, fp_sell_token_price = Finite 1\<rparr>,
      qd_kind = Sell, qd_expiration = 160, qd_quote_kind = QuoteStandard, qd_solver = 7, qd_verified = True\<rparr>"

definition example_quote :: quote where
  "example_quote = \<lparr>qt_id = None, qt_data = example_quote_data, qt_sell_amount = 90, qt_buy_amount = 45, qt_fee_amount = 10\<rparr>"

definition example_table :: quotes_table where
  "example_table = \<lparr>tb_rows = [], tb_next_id = 1\<rparr>"

lemma example_calculated: "calculate_quote example_quoter example_parameters = Ok example_quote"
  by (simp add: calculate_quote_def compute_quote_data_def join_estimates_def example_quoter_def example_parameters_def
      example_quote_def example_quote_data_def to_price_query_def verify_quote_def quote_expiration_def u64_as_f64_def example_floats_def
      quote_new_def with_additional_cost_def fee_with_additional_cost_def qp_additional_cost_def saturating_add_def
      with_scaled_sell_amount_def saturating_sub_def Let_def)

lemma example_table_ok: "table_ok example_table"
  by (simp add: table_ok_def example_table_def)

theorem stored_quote_found_again_witness:
  "\<exists>i. find_quote (example_quoter\<lparr>qe_now := 150\<rparr>) (storage_get None) (storage_find Finite None) (Some i)
     (order_of_quote example_parameters example_quote) (snd (storage_save None example_quote_data example_table)) =
     Ok (example_quote\<lparr>qt_id := Some i, qt_data := example_quote_data\<lparr>qd_verified := False\<rparr>\<rparr>)"
proof -
  let ?t = "snd (storage_save None example_quote_data example_table)"
  have "store_quote (storage_save None) example_quote example_table = (Ok (example_quote\<lparr>qt_id := Some 1\<rparr>), ?t)"
    by (simp add: store_quote_def storage_save_def db_quotes_save_def example_table_def example_quote_def pbind_def pret_def)
  moreover have "side_amount (qp_side example_parameters) \<noteq> 0" "qe_now (example_quoter\<lparr>qe_now := 150\<rparr>) \<le> qd_expiration (qt_data example_quote)"
    "qe_floats (example_quoter\<lparr>qe_now := 150\<rparr>) = qe_floats example_quoter" "qt_data example_quote = example_quote_data"
    by (simp_all add: example_parameters_def example_quote_def example_quote_data_def)
  ultimately show ?thesis
    using stored_quote_found_again [OF example_table_ok example_calculated, where fault = None and rnd = Finite and t' = ?t
        and q' = "example_quote\<lparr>qt_id := Some 1\<rparr>" and env' = "example_quoter\<lparr>qe_now := 150\<rparr>"]
    by auto
qed

lemma example_saved: "storage_save None example_quote_data example_table = (Ok 1, snd (storage_save None example_quote_data example_table))"
  by (simp add: storage_save_def db_quotes_save_def example_table_def)

lemma example_found:
  "find_quote example_quoter (storage_get None) (storage_find Finite None) (Some 1)
     (order_of_quote example_parameters example_quote) (snd (storage_save None example_quote_data example_table)) =
     Ok (example_quote\<lparr>qt_id := Some 1, qt_data := example_quote_data\<lparr>qd_verified := False\<rparr>\<rparr>)"
proof -
  have "lookup_quote (storage_get None) (storage_find Finite None) 100 (Some 1) (order_of_quote example_parameters example_quote)
      (snd (storage_save None example_quote_data example_table)) = Ok (1, example_quote_data\<lparr>qd_verified := False\<rparr>)"
    using postgres.lookup_stored [OF example_table_ok _ order_of_quote_matches [OF example_calculated, of False], of None 1
        "snd (storage_save None example_quote_data example_table)" 100 Finite] example_saved
    by (simp add: example_quote_def example_quote_data_def)
  then show ?thesis
    by (simp add: find_quote_def example_quoter_def example_parameters_def order_of_quote_def example_quote_def example_quote_data_def
        qs_additional_cost_def saturating_add_def quote_new_def with_additional_cost_def fee_with_additional_cost_def u64_as_f64_def
        example_floats_def with_scaled_sell_amount_def Let_def)
qed

lemma example_saved_ok: "table_ok (snd (storage_save None example_quote_data example_table))"
  using postgres.save_ok [OF example_table_ok example_saved] .

theorem found_quote_fits_witness:
  "quote_fits (order_of_quote example_parameters example_quote) (example_quote_data\<lparr>qd_verified := False\<rparr>)"
  using found_quote_fits [OF example_saved_ok example_found] by simp

text \<open>
  The query sorts by the product with the price of the sell token, but the fee is the quotient by it: of two quotes that fit, the one
  with the larger fee may be found.
\<close>

definition example_cheap_data :: quote_data where
  "example_cheap_data = example_quote_data\<lparr>qd_fee_parameters :=
     \<lparr>fp_gas_amount = Finite 10, fp_gas_price = Finite 1, fp_sell_token_price = Finite 2\<rparr>\<rparr>"

lemma found_quote_not_cheapest:
  defines "t \<equiv> snd (storage_save None example_quote_data (snd (storage_save None example_cheap_data example_table)))"
  shows "storage_get None 1 t = Ok (Some (example_cheap_data\<lparr>qd_verified := False\<rparr>))"
    and "storage_find Finite None (order_of_quote example_parameters example_quote) 100 t = Ok (Some (2, example_quote_data\<lparr>qd_verified := False\<rparr>))"
    and "fee_of example_floats (qd_fee_parameters example_cheap_data) = 5"
    and "fee_of example_floats (qd_fee_parameters example_quote_data) = 10"
proof -
  have t: "t = \<lparr>tb_rows = [create_quote_row example_cheap_data\<lparr>row_id := 1\<rparr>, create_quote_row example_quote_data\<lparr>row_id := 2\<rparr>], tb_next_id = 3\<rparr>"
    by (simp add: t_def storage_save_def db_quotes_save_def example_table_def create_quote_row_def)
  show "storage_get None 1 t = Ok (Some (example_cheap_data\<lparr>qd_verified := False\<rparr>))"
    by (simp add: storage_get_def db_quotes_get_def t row_roundtrip)
  have total: "create_db_search_parameters (order_of_quote example_parameters example_quote) 100 =
      (Ok \<lparr>ds_sell_token = 1, ds_buy_token = 2, ds_sell_amount_0 = u256_to_big_decimal 90, ds_sell_amount_1 = u256_to_big_decimal 100,
         ds_buy_amount = u256_to_big_decimal 45, ds_kind = Sell, ds_expiration = 100, ds_quote_kind = QuoteStandard\<rparr> :: (string, _) outcome)"
    by (simp add: create_db_search_parameters_def order_of_quote_def example_parameters_def example_quote_def example_quote_data_def
        add_p_def checked_add_def)
  have "db_quotes_find Finite \<lparr>ds_sell_token = 1, ds_buy_token = 2, ds_sell_amount_0 = u256_to_big_decimal 90,
         ds_sell_amount_1 = u256_to_big_decimal 100, ds_buy_amount = u256_to_big_decimal 45, ds_kind = Sell, ds_expiration = 100,
         ds_quote_kind = QuoteStandard\<rparr> t = Some (create_quote_row example_quote_data\<lparr>row_id := 2\<rparr>)"
    by (simp add: db_quotes_find_def t row_selected_def create_quote_row_def example_cheap_data_def example_quote_data_def row_fee_def
        f64_db_le_def)
  then show "storage_find Finite None (order_of_quote example_parameters example_quote) 100 t = Ok (Some (2, example_quote_data\<lparr>qd_verified := False\<rparr>))"
    by (simp add: storage_find_def total row_roundtrip)
qed (simp_all add: fee_of_def fee_with_additional_cost_def example_cheap_data_def example_quote_data_def example_floats_def u64_as_f64_def)

end
