(* ===== verification/Order_Validation.thy ===== *)
theory Order_Validation
  imports Order_Quoting Protocol_Fees
begin

text \<open>
  The validation of orders, \<open>crates/shared/src/order_validation.rs\<close>: what an order is checked for before it is quoted
  (\<open>partial_validate\<close>) and before it is stored (\<open>validate_and_construct_order\<close>), on every path and with every error.

  The services the validator asks are the record \<open>validator\<close>; its state is the cache of banned users and the table of quotes.
  Durations are in seconds. The validator runs without overflow checks, so the sum of the gas amounts wraps.
\<close>

section \<open>Errors\<close>

datatype order_valid_to_error = Insufficient | Excessive

datatype partial_validation_error =
    Forbidden
  | ValidToError order_valid_to_error
  | InvalidNativeSellToken
  | SameBuyAndSellToken
  | UnsupportedBuyTokenDestination buy_token_destination
  | UnsupportedSellTokenSource sell_token_source
  | OrderTypeUnsupported
  | TokenUnsupported h160 string
  | PartialOther string

datatype app_data_validation_error =
    Mismatch app_data_hash app_data_hash
  | AppDataInvalid app_data_error
  | UnknownPreImage app_data_hash

datatype validation_error =
    PartialError partial_validation_error
  | AppDataError app_data_validation_error
  | ValidationQuoteNotFound
  | ValidationInvalidQuote
  | PriceForQuote price_estimation_error
  | ValidationNonZeroFee
  | ValidationInsufficientBalance
  | ValidationInsufficientAllowance
  | InvalidSignature
  | SellAmountOverflow
  | TransferSimulationFailed
  | ValidationMissingFrom
  | ValidationAppdataFromMismatch h160 h160
  | WrongOwner recovered
  | InvalidEip1271Signature h256
  | ZeroAmount
  | IncompatibleSigningScheme
  | TooManyLimitOrders
  | TooMuchGas
  | ValidationQuoteNotVerified
  | ValidationOther string

fun onchain_order_placement_error_from :: "validation_error \<Rightarrow> onchain_order_placement_error" where
  "onchain_order_placement_error_from ValidationQuoteNotFound = QuoteNotFound"
| "onchain_order_placement_error_from (PartialError _) = PreValidationError"
| "onchain_order_placement_error_from ValidationInvalidQuote = InvalidQuote"
| "onchain_order_placement_error_from ValidationNonZeroFee = NonZeroFee"
| "onchain_order_placement_error_from _ = Other"

fun validation_error_of_verification :: "verification_error \<Rightarrow> validation_error" where
  "validation_error_of_verification (UnableToRecoverSigner _) = InvalidSignature"
| "validation_error_of_verification (UnexpectedSigner recovered) = WrongOwner recovered"
| "validation_error_of_verification MissingFrom = ValidationMissingFrom"
| "validation_error_of_verification (AppdataFromMismatch from signer) = ValidationAppdataFromMismatch from signer"

fun validation_error_of_find :: "find_quote_error \<Rightarrow> validation_error" where
  "validation_error_of_find (QuoteNotFoundById _) = ValidationQuoteNotFound"
| "validation_error_of_find (ParameterMismatch _) = ValidationInvalidQuote"
| "validation_error_of_find (QuoteExpired _) = ValidationInvalidQuote"
| "validation_error_of_find (FindOther e) = ValidationOther e"

fun validation_error_of_calculate :: "calculate_quote_error \<Rightarrow> validation_error" where
  "validation_error_of_calculate (QuotePrice (UnsupportedToken token reason)) = PartialError (TokenUnsupported token reason)"
| "validation_error_of_calculate (CalculateOther e) = ValidationOther e"
| "validation_error_of_calculate (QuotePrice (ProtocolInternal e)) = ValidationOther e"
| "validation_error_of_calculate (QuotePrice e) = PriceForQuote e"
| "validation_error_of_calculate QuoteNotVerified = ValidationQuoteNotVerified"
| "validation_error_of_calculate (SellAmountDoesNotCoverFee _) = ValidationOther ''unexpected quote calculation error''"

section \<open>The validator\<close>

datatype transfer_simulation_error = TransferInsufficientAllowance | TransferInsufficientBalance | TransferFailed | TransferOther string

record valid_period_configuration =
  vp_min :: nat
  vp_max_market :: nat
  vp_max_limit :: nat

record validator =
  ov_native_token :: h160
  ov_fetch_banned :: "h160 \<Rightarrow> bool option"
  ov_validity_configuration :: valid_period_configuration
  ov_eip1271_skip_creation_validation :: bool
  ov_detect :: "h160 \<Rightarrow> string + token_quality"
  ov_hooks_address :: h160
  ov_hooks_execute :: "(h160 \<times> bytes \<times> u256) list \<Rightarrow> bytes"
  ov_quoter :: quoter
  ov_storage_fault :: "string option"
  ov_can_transfer :: "query \<Rightarrow> u256 \<Rightarrow> transfer_simulation_error + unit"
  ov_validate_signature :: "signature_check \<Rightarrow> signature_validation_error + u64"
  ov_count_limit_orders :: "h160 \<Rightarrow> string + u64"
  ov_max_limit_orders_per_user :: u64
  ov_app_data_parser :: app_data_parser
  ov_app_data_size_limit :: nat
  ov_max_gas_per_order :: u64
  ov_epoch_seconds :: u32
  ov_utc_now :: int
  ov_keccak :: "bytes \<Rightarrow> h256"
  ov_ec_recover :: ec_recover

record validator_state =
  vs_banned_users :: banned_users
  vs_quotes :: quotes_table

type_synonym 'a validating = "(validator_state, validation_error, 'a) prog"

record pre_order_data =
  po_owner :: h160
  po_sell_token :: h160
  po_buy_token :: h160
  po_receiver :: h160
  po_valid_to :: u32
  po_partially_fillable :: bool
  po_buy_token_balance :: buy_token_destination
  po_sell_token_balance :: sell_token_source
  po_signing_scheme :: signing_scheme
  po_class :: order_class

definition actual_receiver :: "h160 \<Rightarrow> order_data \<Rightarrow> h160" where
  "actual_receiver owner d =
     (let receiver = (case od_receiver d of Some r \<Rightarrow> r | None \<Rightarrow> 0) in if receiver = 0 then owner else receiver)"

definition from_order_creation :: "h160 \<Rightarrow> order_data \<Rightarrow> signing_scheme \<Rightarrow> pre_order_data" where
  "from_order_creation owner d sch =
     \<lparr>po_owner = owner, po_sell_token = od_sell_token d, po_buy_token = od_buy_token d, po_receiver = actual_receiver owner d,
      po_valid_to = od_valid_to d, po_partially_fillable = od_partially_fillable d, po_buy_token_balance = od_buy_token_balance d,
      po_sell_token_balance = od_sell_token_balance d, po_signing_scheme = sch,
      po_class = (if od_fee_amount d = 0 then Limit else Market)\<rparr>"

definition pre_order_of_request :: "u32 \<Rightarrow> order_quote_request \<Rightarrow> pre_order_data" where
  "pre_order_of_request now r =
     \<lparr>po_owner = qr_from r, po_sell_token = qr_sell_token r, po_buy_token = qr_buy_token r,
      po_receiver = (case qr_receiver r of Some a \<Rightarrow> a | None \<Rightarrow> qr_from r), po_valid_to = actual_valid_to now (qr_validity r),
      po_partially_fillable = False, po_buy_token_balance = qr_buy_token_balance r,
      po_sell_token_balance = qr_sell_token_balance r, po_signing_scheme = signing_scheme_of_quote (qr_signing_scheme r),
      po_class = Market\<rparr>"

record order_app_data =
  oa_inner :: validated_app_data
  oa_interactions :: interactions

definition custom_interactions :: "validator \<Rightarrow> hooks \<Rightarrow> interactions" where
  "custom_interactions v h =
     (let to_interactions = (\<lambda>hs. if hs = [] then []
            else [\<lparr>int_target = ov_hooks_address v, int_value = 0,
                   int_call_data = ov_hooks_execute v (map (\<lambda>hk. (hk_target hk, hk_call_data hk, ucast (hk_gas_limit hk))) hs)\<rparr>])
      in \<lparr>ints_pre = to_interactions (hooks_pre h), ints_post = to_interactions (hooks_post h)\<rparr>)"

section \<open>Partial validation\<close>

definition duration_max :: nat where
  "duration_max = 2 ^ 64 - 1"

definition timestamp_after_duration :: "u32 \<Rightarrow> nat \<Rightarrow> u32" where
  "timestamp_after_duration timestamp duration =
     saturating_add timestamp (if duration < 2 ^ 32 then of_nat duration else - 1)"

definition period_max :: "valid_period_configuration \<Rightarrow> pre_order_data \<Rightarrow> nat" where
  "period_max cfg ord =
     (if po_signing_scheme ord = SchemePreSign then duration_max
      else case po_class ord of Market \<Rightarrow> vp_max_market cfg | Limit \<Rightarrow> vp_max_limit cfg | Liquidity \<Rightarrow> duration_max)"

definition validate_period :: "u32 \<Rightarrow> valid_period_configuration \<Rightarrow> pre_order_data \<Rightarrow> (order_valid_to_error, unit) outcome" where
  "validate_period now cfg ord =
     (if po_valid_to ord < timestamp_after_duration now (vp_min cfg) then Err Insufficient
      else if po_valid_to ord > timestamp_after_duration now (period_max cfg ord) then Err Excessive
      else Ok ())"

definition has_same_buy_and_sell_token :: "pre_order_data \<Rightarrow> h160 \<Rightarrow> bool" where
  "has_same_buy_and_sell_token ord native_token \<longleftrightarrow>
     po_sell_token ord = po_buy_token ord \<or> (po_sell_token ord = native_token \<and> po_buy_token ord = BUY_ETH_ADDRESS)"

fun check_tokens :: "(h160 \<Rightarrow> string + token_quality) \<Rightarrow> h160 list \<Rightarrow> (partial_validation_error, unit) outcome" where
  "check_tokens detect [] = Ok ()"
| "check_tokens detect (token # tokens) =
     (case detect token of
        Inl e \<Rightarrow> Err (PartialOther e)
      | Inr (TokenBad reason) \<Rightarrow> Err (TokenUnsupported token reason)
      | Inr TokenGood \<Rightarrow> check_tokens detect tokens)"

definition partial_validate :: "validator \<Rightarrow> pre_order_data \<Rightarrow> (validator_state, partial_validation_error, unit) prog" where
  "partial_validate v ord =
     pbind (\<lambda>s. case users_banned (ov_fetch_banned v) [po_receiver ord, po_owner ord] (vs_banned_users s) of
              (banned, users) \<Rightarrow> (Ok banned, s\<lparr>vs_banned_users := users\<rparr>)) (\<lambda>banned.
     plift (if banned \<noteq> [] then Err Forbidden
            else if po_class ord = Market \<and> po_partially_fillable ord then Err OrderTypeUnsupported
            else if po_buy_token_balance ord \<noteq> BuyErc20 then Err (UnsupportedBuyTokenDestination (po_buy_token_balance ord))
            else if \<not> (case po_sell_token_balance ord of SellErc20 \<Rightarrow> True | SellExternal \<Rightarrow> True | SellInternal \<Rightarrow> False)
            then Err (UnsupportedSellTokenSource (po_sell_token_balance ord))
            else
              obind (map_err ValidToError (validate_period (ov_epoch_seconds v) (ov_validity_configuration v) ord)) (\<lambda>_.
              if has_same_buy_and_sell_token ord (ov_native_token v) then Err SameBuyAndSellToken
              else if po_sell_token ord = BUY_ETH_ADDRESS then Err InvalidNativeSellToken
              else check_tokens (ov_detect v) [po_sell_token ord, po_buy_token ord])))"

section \<open>App data\<close>

definition validate_app_data ::
  "validator \<Rightarrow> order_creation_app_data \<Rightarrow> string option \<Rightarrow> (app_data_validation_error, order_app_data) outcome" where
  "validate_app_data v app_data full_app_data_override =
     (let validate = (\<lambda>full. map_err AppDataInvalid
            (app_data_validate (ov_keccak v) (ov_app_data_parser v) (ov_app_data_size_limit v) (string_bytes full)))
      in obind (case app_data of
                  AppDataBoth full expected \<Rightarrow>
                    obind (validate full) (\<lambda>validated.
                    if va_hash validated \<noteq> expected then Err (Mismatch expected (va_hash validated)) else Ok validated)
                | AppDataHash hash \<Rightarrow>
                    (case full_app_data_override of
                       None \<Rightarrow> Err (UnknownPreImage hash)
                     | Some full \<Rightarrow>
                         obind (validate full) (\<lambda>validated.
                         Ok \<lparr>va_hash = hash, va_document = [], va_protocol = va_protocol validated\<rparr>))
                | AppDataFull full \<Rightarrow> validate full) (\<lambda>app_data.
         Ok \<lparr>oa_inner = app_data, oa_interactions = custom_interactions v (pa_hooks (va_protocol app_data))\<rparr>))"

section \<open>Quotes\<close>

definition convert_signing_scheme ::
  "signing_scheme \<Rightarrow> bool \<Rightarrow> u64 \<Rightarrow> (validation_error, quote_signing_scheme) outcome" where
  "convert_signing_scheme sch order_placement_via_api verification_gas_limit =
     (case (order_placement_via_api, sch) of
        (True, SchemeEip712) \<Rightarrow> Ok QuoteEip712
      | (True, SchemeEthSign) \<Rightarrow> Ok QuoteEthSign
      | (False, SchemeEip712) \<Rightarrow> Err IncompatibleSigningScheme
      | (False, SchemeEthSign) \<Rightarrow> Err IncompatibleSigningScheme
      | (_, SchemePreSign) \<Rightarrow> Ok (QuotePreSign (\<not> order_placement_via_api))
      | (_, SchemeEip1271) \<Rightarrow> Ok (QuoteEip1271 (\<not> order_placement_via_api) verification_gas_limit))"

text \<open>A fresh quote for the parameters of an order; it is stored.\<close>

definition create_quote :: "validator \<Rightarrow> quote_search_parameters \<Rightarrow> quote validating" where
  "create_quote v p =
     pbind (plift (map_err (\<lambda>_. ZeroAmount)
              (case qs_kind p of
                 Buy \<Rightarrow> obind (nonzero_try_from (qs_buy_amount p)) (\<lambda>a. Ok (QuoteBuy a))
               | Sell \<Rightarrow> obind (nonzero_try_from (qs_sell_amount p)) (\<lambda>a. Ok (QuoteSell (AfterFee a)))))) (\<lambda>side.
     let parameters = \<lparr>qp_sell_token = qs_sell_token p, qp_buy_token = qs_buy_token p, qp_side = side,
           qp_verification = qs_verification p, qp_signing_scheme = qs_signing p, qp_additional_gas = qs_additional_gas p\<rparr>
     in pbind (plift (map_err validation_error_of_calculate (calculate_quote (ov_quoter v) parameters))) (\<lambda>q.
        ppart vs_quotes (\<lambda>t s. s\<lparr>vs_quotes := t\<rparr>) (pmap_err ValidationOther (store_quote (storage_save (ov_storage_fault v)) q))))"

definition get_or_create_quote :: "validator \<Rightarrow> quote_search_parameters \<Rightarrow> quote_id option \<Rightarrow> quote validating" where
  "get_or_create_quote v p qid =
     pbind (pread (\<lambda>s. find_quote (ov_quoter v) (storage_get (ov_storage_fault v))
              (storage_find (fl_round (qe_floats (ov_quoter v))) (ov_storage_fault v)) qid p (vs_quotes s))) (\<lambda>found.
     case found of
       Ok q \<Rightarrow> pret q
     | Panic \<Rightarrow> plift Panic
     | Err e \<Rightarrow>
         if (case e of QuoteNotFoundById _ \<Rightarrow> qid = None | _ \<Rightarrow> False) then create_quote v p
         else plift (Err (validation_error_of_find e)))"

definition get_quote_and_check_fee ::
  "validator \<Rightarrow> quote_search_parameters \<Rightarrow> quote_id option \<Rightarrow> u256 option \<Rightarrow> quote validating" where
  "get_quote_and_check_fee v p qid fee_amount =
     pbind (get_or_create_quote v p qid) (\<lambda>q.
     if (case fee_amount of Some fee \<Rightarrow> fee \<noteq> 0 | None \<Rightarrow> False) then plift (Err ValidationNonZeroFee) else pret q)"

section \<open>Full validation\<close>

definition check_max_limit_orders :: "validator \<Rightarrow> h160 \<Rightarrow> (validation_error, unit) outcome" where
  "check_max_limit_orders v owner =
     (case ov_count_limit_orders v owner of
        Inl e \<Rightarrow> Err (ValidationOther e)
      | Inr n \<Rightarrow> if n \<ge> ov_max_limit_orders_per_user v then Err TooManyLimitOrders else Ok ())"

text \<open>The gas of an EIP-1271 signature, which is checked on chain unless the configuration skips it.\<close>

definition verification_gas ::
  "validator \<Rightarrow> h256 \<Rightarrow> order_data \<Rightarrow> h160 \<Rightarrow> signature \<Rightarrow> interactions \<Rightarrow> (validation_error, u64) outcome" where
  "verification_gas v domain data owner sig ints =
     (case sig of
        Eip1271 bytes \<Rightarrow>
          if ov_eip1271_skip_creation_validation v then Ok 0
          else
            obind (hash_struct (ov_keccak v) data) (\<lambda>struct_hash.
            obind (hashed_eip712_message (ov_keccak v) domain struct_hash) (\<lambda>hash.
            case ov_validate_signature v \<lparr>sc_signer = owner, sc_hash = hash, sc_signature = bytes, sc_interactions = ints_pre ints\<rparr> of
              Inr gas \<Rightarrow> Ok gas
            | Inl SignatureInvalid \<Rightarrow> Err (InvalidEip1271Signature hash)
            | Inl SignatureCheckFailed \<Rightarrow> Err (ValidationOther ''signature validation failed'')))
      | _ \<Rightarrow> Ok 0)"

definition MINIMUM_BALANCE :: u256 where
  "MINIMUM_BALANCE = 1"

text \<open>Pre-sign orders need neither balance nor allowance.\<close>

definition check_transfer ::
  "validator \<Rightarrow> order_data \<Rightarrow> h160 \<Rightarrow> signing_scheme \<Rightarrow> interactions \<Rightarrow> (validation_error, unit) outcome" where
  "check_transfer v data owner sch ints =
     (case ov_can_transfer v \<lparr>q_owner = owner, q_token = od_sell_token data, q_source = od_sell_token_balance data,
              q_interactions = ints_pre ints\<rparr> MINIMUM_BALANCE of
        Inr _ \<Rightarrow> Ok ()
      | Inl e \<Rightarrow>
          if sch = SchemePreSign \<and> (case e of TransferOther _ \<Rightarrow> False | _ \<Rightarrow> True) then Ok ()
          else case e of
                 TransferInsufficientAllowance \<Rightarrow> Err ValidationInsufficientAllowance
               | TransferInsufficientBalance \<Rightarrow> Err ValidationInsufficientBalance
               | TransferFailed \<Rightarrow> Err TransferSimulationFailed
               | TransferOther _ \<Rightarrow> Err TransferSimulationFailed)"

definition order_outside_market :: "order_data \<Rightarrow> quote \<Rightarrow> ('e, bool) outcome" where
  "order_outside_market data q =
     is_order_outside_market_price
       \<lparr>am_sell = od_sell_amount data, am_buy = od_buy_amount data, am_fee = od_fee_amount data\<rparr>
       \<lparr>am_sell = qt_sell_amount q, am_buy = qt_buy_amount q, am_fee = qt_fee_amount q\<rparr> (od_kind data)"

text \<open>The class of the order and its quote.\<close>

definition classify_order ::
  "validator \<Rightarrow> order_data \<Rightarrow> h160 \<Rightarrow> quote_search_parameters \<Rightarrow> quote_id option \<Rightarrow> order_class
    \<Rightarrow> (order_class \<times> quote option) validating" where
  "classify_order v data owner p qid class =
     (case class of
        Market \<Rightarrow>
          pbind (get_quote_and_check_fee v p qid (Some (od_fee_amount data))) (\<lambda>q.
          pbind (plift (order_outside_market data q)) (\<lambda>outside.
          pret (if outside then Limit else class, Some q)))
      | Limit \<Rightarrow>
          (\<lambda>s. case get_quote_and_check_fee v p qid None s of
             (Ok q, s) \<Rightarrow>
               pbind (plift (order_outside_market data q)) (\<lambda>outside.
               pbind (plift (if outside then check_max_limit_orders v owner else Ok ())) (\<lambda>_.
               pret (class, Some q))) s
           | (Err e, s) \<Rightarrow> (case e of PriceForQuote _ \<Rightarrow> (Ok (class, None), s) | _ \<Rightarrow> (Err e, s))
           | (Panic, s) \<Rightarrow> (Panic, s))
      | Liquidity \<Rightarrow>
          pbind (get_quote_and_check_fee v p qid None) (\<lambda>q.
          pbind (plift (order_outside_market data q)) (\<lambda>outside.
          pbind (plift (if outside then check_max_limit_orders v owner else Ok ())) (\<lambda>_.
          pret (Limit, None)))))"

definition too_much_gas :: "validator \<Rightarrow> quote_search_parameters \<Rightarrow> quote option \<Rightarrow> bool" where
  "too_much_gas v p q =
     (case q of
        None \<Rightarrow> False
      | Some q \<Rightarrow> f64_as_u64 (fp_gas_amount (qd_fee_parameters (qt_data q))) + qs_additional_cost p > ov_max_gas_per_order v)"

definition search_parameters_of ::
  "order_creation \<Rightarrow> order_data \<Rightarrow> h160 \<Rightarrow> order_app_data \<Rightarrow> quote_signing_scheme \<Rightarrow> quote_search_parameters" where
  "search_parameters_of c data owner app_data sch =
     \<lparr>qs_sell_token = od_sell_token data, qs_buy_token = od_buy_token data, qs_sell_amount = od_sell_amount data,
      qs_buy_amount = od_buy_amount data, qs_fee_amount = od_fee_amount data, qs_kind = od_kind data, qs_signing = sch,
      qs_additional_gas = hooks_gas_limit (pa_hooks (va_protocol (oa_inner app_data))),
      qs_verification =
        \<lparr>vf_from = owner, vf_receiver = (case oc_receiver c of Some r \<Rightarrow> r | None \<Rightarrow> owner),
         vf_pre_interactions = ints_pre (oa_interactions app_data), vf_post_interactions = ints_post (oa_interactions app_data),
         vf_sell_token_source = oc_sell_token_balance c, vf_buy_token_destination = oc_buy_token_balance c\<rparr>\<rparr>"

text \<open>The order that is stored; the fields of the metadata not listed have their defaults.\<close>

definition constructed_order ::
  "validator \<Rightarrow> order_creation \<Rightarrow> order_data \<Rightarrow> h160 \<Rightarrow> order_uid \<Rightarrow> h160 \<Rightarrow> order_class \<Rightarrow> order_app_data \<Rightarrow> string option \<Rightarrow> order" where
  "constructed_order v c data owner uid settlement_contract class app_data full_app_data_override =
     \<lparr>o_metadata =
        \<lparr>om_creation_date = ov_utc_now v, om_owner = owner, om_uid = uid, om_available_balance = None,
         om_executed_buy_amount = 0, om_executed_sell_amount = 0, om_executed_sell_amount_before_fees = 0,
         om_executed_fee_amount = 0, om_executed_surplus_fee = 0, om_invalidated = False, om_status = Open, om_class = class,
         om_settlement_contract = settlement_contract, om_full_fee_amount = od_fee_amount data, om_solver_fee = 0,
         om_ethflow_data = None, om_onchain_order_data = None, om_onchain_user = None, om_is_liquidity_order = False,
         om_full_app_data = (case oc_app_data c of
           AppDataBoth full _ \<Rightarrow> Some full | AppDataFull full \<Rightarrow> Some full | AppDataHash _ \<Rightarrow> full_app_data_override)\<rparr>,
      o_data = data, o_signature = oc_signature c, o_interactions = oa_interactions app_data\<rparr>"

text \<open>The part of the validation after the owner is known.\<close>

definition validate_owned_order ::
  "validator \<Rightarrow> order_creation \<Rightarrow> h256 \<Rightarrow> h160 \<Rightarrow> string option \<Rightarrow> order_app_data \<Rightarrow> h160 \<Rightarrow> (order \<times> quote option) validating" where
  "validate_owned_order v c domain settlement_contract full_app_data_override app_data owner =
     (let sch = scheme (oc_signature c);
          data = (oc_data (ov_keccak v) c)\<lparr>od_app_data := va_hash (oa_inner app_data)\<rparr> in
      pbind (plift (order_data_uid (ov_keccak v) data domain owner)) (\<lambda>uid.
      pbind (plift (verification_gas v domain data owner (oc_signature c) (oa_interactions app_data))) (\<lambda>gas_limit.
      if od_buy_amount data = 0 \<or> od_sell_amount data = 0 then plift (Err ZeroAmount)
      else
        let pre_order = from_order_creation owner data sch in
        pbind (pmap_err PartialError (partial_validate v pre_order)) (\<lambda>_.
        pbind (plift (convert_signing_scheme sch True gas_limit)) (\<lambda>quote_scheme.
        let p = search_parameters_of c data owner app_data quote_scheme in
        pbind (plift (check_transfer v data owner sch (oa_interactions app_data))) (\<lambda>_.
        pbind (classify_order v data owner p (oc_quote_id c) (po_class pre_order)) (\<lambda>(class, q).
        if too_much_gas v p q then plift (Err TooMuchGas)
        else pret (constructed_order v c data owner uid settlement_contract class app_data full_app_data_override, q))))))))"

definition validate_and_construct_order ::
  "validator \<Rightarrow> order_creation \<Rightarrow> h256 \<Rightarrow> h160 \<Rightarrow> string option \<Rightarrow> (order \<times> quote option) validating" where
  "validate_and_construct_order v c domain settlement_contract full_app_data_override =
     pbind (plift (map_err AppDataError (validate_app_data v (oc_app_data c) full_app_data_override))) (\<lambda>app_data.
     pbind (plift (map_err validation_error_of_verification
              (verify_owner (ov_keccak v) (ov_ec_recover v) c domain (pa_signer (va_protocol (oa_inner app_data)))))) (\<lambda>owner.
     validate_owned_order v c domain settlement_contract full_app_data_override app_data owner))"

section \<open>Admissible orders\<close>

text \<open>What an order has to satisfy before it is quoted, on natural numbers.\<close>

definition admissible :: "validator \<Rightarrow> banned_users \<Rightarrow> pre_order_data \<Rightarrow> bool" where
  "admissible v users ord \<longleftrightarrow>
     \<not> user_banned (ov_fetch_banned v) users (po_owner ord) \<and> \<not> user_banned (ov_fetch_banned v) users (po_receiver ord) \<and>
     \<not> (po_class ord = Market \<and> po_partially_fillable ord) \<and>
     po_buy_token_balance ord = BuyErc20 \<and> po_sell_token_balance ord \<noteq> SellInternal \<and>
     min (unat (ov_epoch_seconds v) + vp_min (ov_validity_configuration v)) (2 ^ 32 - 1) \<le> unat (po_valid_to ord) \<and>
     unat (po_valid_to ord) \<le> unat (ov_epoch_seconds v) + period_max (ov_validity_configuration v) ord \<and>
     po_sell_token ord \<noteq> po_buy_token ord \<and> po_sell_token ord \<noteq> BUY_ETH_ADDRESS \<and>
     \<not> (po_sell_token ord = ov_native_token v \<and> po_buy_token ord = BUY_ETH_ADDRESS) \<and>
     ov_detect v (po_sell_token ord) = Inr TokenGood \<and> ov_detect v (po_buy_token ord) = Inr TokenGood"

lemma unat_timestamp_after_duration:
  "unat (timestamp_after_duration now duration) = min (unat now + duration) (2 ^ 32 - 1)"
proof -
  have "unat (if duration < 2 ^ 32 then of_nat duration else - 1 :: u32) = min duration (2 ^ 32 - 1)"
    by (auto simp: unat_of_nat unat_neg_one)
  then show ?thesis
    by (simp add: timestamp_after_duration_def min_def)
qed

lemma validate_period_Ok:
  "validate_period now cfg ord = Ok () \<longleftrightarrow>
     min (unat now + vp_min cfg) (2 ^ 32 - 1) \<le> unat (po_valid_to ord) \<and> unat (po_valid_to ord) \<le> unat now + period_max cfg ord"
  using unat_bound [of "po_valid_to ord"]
  by (auto simp: validate_period_def word_less_nat_alt unat_timestamp_after_duration)

lemma check_tokens_Ok: "check_tokens detect tokens = Ok () \<longleftrightarrow> list_all (\<lambda>t. detect t = Inr TokenGood) tokens"
  by (induction tokens) (auto split: sum.split token_quality.split)

lemma check_tokens_not_Panic [simp]: "check_tokens detect tokens \<noteq> Panic"
  by (induction tokens) (auto split: sum.split token_quality.split)

lemma banned_empty:
  "fst (users_banned fetch [a, b] users) = [] \<longleftrightarrow> \<not> user_banned fetch users a \<and> \<not> user_banned fetch users b"
  using set_users_banned [of fetch "[a, b]" users] by (auto simp flip: set_empty)

lemma partial_validate_fst:
  "fst (partial_validate v ord s) =
     (if user_banned (ov_fetch_banned v) (vs_banned_users s) (po_receiver ord) \<or> user_banned (ov_fetch_banned v) (vs_banned_users s) (po_owner ord)
      then Err Forbidden
      else if po_class ord = Market \<and> po_partially_fillable ord then Err OrderTypeUnsupported
      else if po_buy_token_balance ord \<noteq> BuyErc20 then Err (UnsupportedBuyTokenDestination (po_buy_token_balance ord))
      else if po_sell_token_balance ord = SellInternal then Err (UnsupportedSellTokenSource (po_sell_token_balance ord))
      else
        obind (map_err ValidToError (validate_period (ov_epoch_seconds v) (ov_validity_configuration v) ord)) (\<lambda>_.
        if has_same_buy_and_sell_token ord (ov_native_token v) then Err SameBuyAndSellToken
        else if po_sell_token ord = BUY_ETH_ADDRESS then Err InvalidNativeSellToken
        else check_tokens (ov_detect v) [po_sell_token ord, po_buy_token ord]))"
proof -
  obtain banned users where u: "users_banned (ov_fetch_banned v) [po_receiver ord, po_owner ord] (vs_banned_users s) = (banned, users)"
    by fastforce
  have "(case po_sell_token_balance ord of SellErc20 \<Rightarrow> True | SellExternal \<Rightarrow> True | SellInternal \<Rightarrow> False) \<longleftrightarrow>
      po_sell_token_balance ord \<noteq> SellInternal"
    by (simp split: sell_token_source.split)
  moreover have "banned \<noteq> [] \<longleftrightarrow> user_banned (ov_fetch_banned v) (vs_banned_users s) (po_receiver ord)
      \<or> user_banned (ov_fetch_banned v) (vs_banned_users s) (po_owner ord)"
    using banned_empty [of "ov_fetch_banned v" "po_receiver ord" "po_owner ord" "vs_banned_users s"] u by auto
  ultimately show ?thesis
    unfolding partial_validate_def pbind_def plift_def u prod.case outcome.case fst_conv by simp
qed

lemma partial_validate_Ok:
  "fst (partial_validate v ord s) = Ok () \<longleftrightarrow> admissible v (vs_banned_users s) ord"
  unfolding partial_validate_fst admissible_def
  by (simp add: has_same_buy_and_sell_token_def outc validate_period_Ok check_tokens_Ok del: check_tokens.simps)

lemma partial_validate_not_Panic: "fst (partial_validate v ord s) \<noteq> Panic"
  unfolding partial_validate_fst by (simp add: outc validate_period_def del: check_tokens.simps)

text \<open>
  C25. The validation before an order is quoted accepts an order exactly when it is admissible, and never panics: neither owner nor
  receiver is banned, no partially fillable market order, tokens are taken and paid out in supported ways, the end of its
  validity lies within the configured period (cut off at the largest timestamp), the tokens differ, the native token is not
  sold, the wrapped native token is not sold for it, and both tokens are supported. That is all: contrary to the documentation of
  the trait, it is not checked whether the receiver of the native asset is a smart contract, and an order that pays out the
  native asset to one is accepted.
\<close>

theorem partial_validate_exact:
  "fst (partial_validate v ord s) \<noteq> Panic \<and>
   (fst (partial_validate v ord s) = Ok () \<longleftrightarrow> admissible v (vs_banned_users s) ord)"
  using partial_validate_Ok partial_validate_not_Panic by blast

section \<open>Accepted orders\<close>

text \<open>The data that is stored is the data that was signed: the validated app data has the hash of the order.\<close>

lemma validate_app_data_hash:
  assumes "validate_app_data v app_data override = Ok a"
  shows "va_hash (oa_inner a) = app_data_hash (ov_keccak v) app_data"
  using assms
  by (auto simp: validate_app_data_def outc Let_def dest: app_data_validate_Ok
      split: order_creation_app_data.splits option.splits if_splits)

lemma validated_data:
  assumes "validate_app_data v (oc_app_data c) override = Ok a"
  shows "(oc_data (ov_keccak v) c)\<lparr>od_app_data := va_hash (oa_inner a)\<rparr> = oc_data (ov_keccak v) c"
  using validate_app_data_hash [OF assms] by (simp add: oc_data_def)

lemma get_quote_fee:
  assumes "get_quote_and_check_fee v p qid (Some fee) s = (Ok q, s')"
  shows "fee = 0"
  using assms by (auto simp: get_quote_and_check_fee_def prog_Ok split: if_splits)

text \<open>
  The limit on the open orders of an owner: it applies to an order with a quote that it is outside the market price of. An order within the
  market price, or one no price could be found for, is not subject to it.
\<close>

definition within_order_limit :: "validator \<Rightarrow> order_data \<Rightarrow> h160 \<Rightarrow> quote option \<Rightarrow> bool" where
  "within_order_limit v data owner q \<longleftrightarrow>
     (case q of
        None \<Rightarrow> True
      | Some q \<Rightarrow> order_outside_market data q = (Ok False :: (unit, _) outcome)
          \<or> (\<exists>n. ov_count_limit_orders v owner = Inr n \<and> n < ov_max_limit_orders_per_user v))"

lemma outside_market_any_error:
  "order_outside_market data q = (Ok b :: ('e, _) outcome) \<longleftrightarrow> order_outside_market data q = (Ok b :: ('f, _) outcome)"
  by (auto simp: order_outside_market_def is_order_outside_market_price_def outc add_p_def
      split: order_kind.splits option.splits)

lemma classify_order_Ok:
  assumes "classify_order v data owner p qid class s = (Ok (class', q), s')" and "class = (if od_fee_amount data = 0 then Limit else Market)"
  shows "class' = Limit \<and> od_fee_amount data = 0 \<and> within_order_limit v data owner q"
proof (cases "od_fee_amount data = 0")
  case True
  then have limit: "class = Limit"
    using assms(2) by simp
  consider (found) q0 s1 where "get_quote_and_check_fee v p qid None s = (Ok q0, s1)"
    | (failed) e s1 where "get_quote_and_check_fee v p qid None s = (Err e, s1)"
    | (panicked) s1 where "get_quote_and_check_fee v p qid None s = (Panic, s1)"
    by (metis outcome.exhaust surj_pair)
  then show ?thesis
  proof cases
    case found
    then obtain outside where "order_outside_market data q0 = (Ok outside :: (validation_error, _) outcome)"
      "(if outside then check_max_limit_orders v owner else Ok ()) = Ok ()" "class' = Limit" "q = Some q0"
      using assms(1) limit by (auto simp: classify_order_def prog_Ok)
    then show ?thesis
      using True outside_market_any_error [of data q0 outside, where 'e = validation_error and 'f = unit]
      by (auto simp: within_order_limit_def check_max_limit_orders_def split: if_splits sum.splits)
  next
    case failed
    then show ?thesis
      using assms(1) limit True by (auto simp: classify_order_def within_order_limit_def split: validation_error.splits)
  next
    case panicked
    then show ?thesis
      using assms(1) limit by (simp add: classify_order_def)
  qed
next
  case False
  then show ?thesis
    using assms get_quote_fee by (fastforce simp: classify_order_def prog_Ok)
qed

text \<open>The checks of an accepted order.\<close>

lemma validate_owned_order_Ok:
  assumes "validate_owned_order v c domain contract override app_data owner s = (Ok (ord, q), s')"
    and data: "(oc_data (ov_keccak v) c)\<lparr>od_app_data := va_hash (oa_inner app_data)\<rparr> = data"
  obtains uid gas quote_scheme where
    "order_data_uid (ov_keccak v) data domain owner = (Ok uid :: (validation_error, _) outcome)"
    "ord = constructed_order v c data owner uid contract Limit app_data override"
    "verification_gas v domain data owner (oc_signature c) (oa_interactions app_data) = Ok gas"
    "od_fee_amount data = 0" "od_buy_amount data \<noteq> 0" "od_sell_amount data \<noteq> 0"
    "admissible v (vs_banned_users s) (from_order_creation owner data (scheme (oc_signature c)))"
    "check_transfer v data owner (scheme (oc_signature c)) (oa_interactions app_data) = Ok ()"
    "within_order_limit v data owner q"
    "convert_signing_scheme (scheme (oc_signature c)) True gas = Ok quote_scheme"
    "\<not> too_much_gas v (search_parameters_of c data owner app_data quote_scheme) q"
proof -
  obtain uid gas quote_scheme s1 s2 cl where
    uid: "order_data_uid (ov_keccak v) data domain owner = (Ok uid :: (validation_error, _) outcome)"
    and gas: "verification_gas v domain data owner (oc_signature c) (oa_interactions app_data) = Ok gas"
    and amounts: "od_buy_amount data \<noteq> 0" "od_sell_amount data \<noteq> 0"
    and part: "partial_validate v (from_order_creation owner data (scheme (oc_signature c))) s = (Ok (), s1)"
    and conv: "convert_signing_scheme (scheme (oc_signature c)) True gas = Ok quote_scheme"
    and transfer: "check_transfer v data owner (scheme (oc_signature c)) (oa_interactions app_data) = Ok ()"
    and cls: "classify_order v data owner (search_parameters_of c data owner app_data quote_scheme) (oc_quote_id c)
      (po_class (from_order_creation owner data (scheme (oc_signature c)))) s1 = (Ok (cl, q), s2)"
    and gas_ok: "\<not> too_much_gas v (search_parameters_of c data owner app_data quote_scheme) q"
    and ord: "ord = constructed_order v c data owner uid contract cl app_data override"
    using assms(1) unfolding validate_owned_order_def data
    by (auto simp: Let_def prog_Ok split: if_splits prod.splits)
  have "cl = Limit \<and> od_fee_amount data = 0 \<and> within_order_limit v data owner q"
    using classify_order_Ok [OF cls] by (simp add: from_order_creation_def)
  moreover have "admissible v (vs_banned_users s) (from_order_creation owner data (scheme (oc_signature c)))"
    using partial_validate_Ok [of v "from_order_creation owner data (scheme (oc_signature c))" s] part by simp
  ultimately show thesis
    using that uid gas amounts conv transfer gas_ok ord by blast
qed

lemma accepted_order:
  assumes "validate_and_construct_order v c domain contract override s = (Ok (ord, q), s')"
  obtains app_data owner where
    "validate_app_data v (oc_app_data c) override = Ok app_data"
    "verify_owner (ov_keccak v) (ov_ec_recover v) c domain (pa_signer (va_protocol (oa_inner app_data))) = Ok owner"
    "validate_owned_order v c domain contract override app_data owner s = (Ok (ord, q), s')"
  using assms by (auto simp: validate_and_construct_order_def prog_Ok outc)

lemma verification_gas_Ok:
  assumes "verification_gas v domain data owner (Eip1271 sig) ints = Ok gas"
  shows "ov_eip1271_skip_creation_validation v \<or>
    (\<exists>hash. hashed_eip712_message (ov_keccak v) domain (ov_keccak v (eip712_encode data)) = (Ok hash :: (validation_error, _) outcome) \<and>
       ov_validate_signature v \<lparr>sc_signer = owner, sc_hash = hash, sc_signature = sig, sc_interactions = ints_pre ints\<rparr> = Inr gas)"
  using assms unfolding verification_gas_def hash_struct_eq
  by (simp add: hashed_eip712_message_eq
      split: if_splits sum.split_asm signature_validation_error.split_asm)

lemma check_transfer_Ok:
  assumes "check_transfer v data owner sch ints = Ok ()" "sch \<noteq> SchemePreSign"
  shows "ov_can_transfer v \<lparr>q_owner = owner, q_token = od_sell_token data, q_source = od_sell_token_balance data,
    q_interactions = ints_pre ints\<rparr> MINIMUM_BALANCE = Inr ()"
  using assms by (auto simp: check_transfer_def split: sum.splits transfer_simulation_error.splits)


section \<open>Panics\<close>

lemma validate_app_data_not_Panic: "validate_app_data v app_data override \<noteq> Panic"
  by (simp add: validate_app_data_def outc Let_def split: order_creation_app_data.split option.split)

lemma verify_owner_not_Panic: "verify_owner keccak ec_recover c domain signer \<noteq> Panic"
  by (simp add: verify_owner_def hash_struct_eq outc)

lemma verification_gas_not_Panic: "verification_gas v domain data owner sig ints \<noteq> Panic"
  by (simp add: verification_gas_def hash_struct_eq hashed_eip712_message_eq
      split: signature.split sum.split signature_validation_error.split)

lemma convert_signing_scheme_not_Panic: "convert_signing_scheme sch api gas \<noteq> Panic"
  by (simp add: convert_signing_scheme_def split: signing_scheme.split bool.split)

lemma check_transfer_not_Panic: "check_transfer v data owner sch ints \<noteq> Panic"
  by (simp add: check_transfer_def split: sum.split transfer_simulation_error.split)

lemma check_max_limit_orders_not_Panic: "check_max_limit_orders v owner \<noteq> Panic"
  by (simp add: check_max_limit_orders_def split: sum.split)

lemma order_data_uid_not_Panic: "order_data_uid keccak data domain owner \<noteq> Panic"
  by (simp add: order_data_uid_def hash_struct_eq hashed_eip712_message_eq uid_from_parts_eq)

lemma calculate_quote_after_fee_not_Panic:
  assumes "\<And>a. qp_side p \<noteq> QuoteSell (BeforeFee a)"
  shows "calculate_quote env p \<noteq> Panic"
proof -
  have "compute_quote_data env p \<noteq> Panic"
    by (auto simp: compute_quote_data_def join_estimates_def verify_quote_def Let_def outc
        split: sum.splits prod.splits outcome.splits if_splits)
  then show ?thesis
    using assms by (auto simp: calculate_quote_def outc Let_def split: order_quote_side.splits sell_amount.splits)
qed

lemma create_quote_not_Panic: "fst (create_quote v p s) \<noteq> Panic"
proof -
  have "fst (store_quote (storage_save fault) q t) \<noteq> Panic" for fault q t
    by (auto simp: store_quote_def storage_save_def prog_Panic split: option.split prod.split)
  moreover have "nonzero_try_from a \<noteq> Panic" for a
    by (cases "nonzero_new a") (simp_all add: nonzero_try_from_def)
  ultimately show ?thesis
    by (auto simp: create_quote_def prog_Panic prog_Ok outc Let_def calculate_quote_after_fee_not_Panic split: order_kind.splits)
qed

lemma get_or_create_quote_Panic:
  assumes "table_ok (vs_quotes s)" "qs_sell_amount p \<noteq> 0" "fst (get_or_create_quote v p qid s) = Panic"
  shows "2 ^ 256 \<le> unat (qs_sell_amount p) + unat (qs_fee_amount p)"
proof -
  let ?found = "find_quote (ov_quoter v) (storage_get (ov_storage_fault v))
    (storage_find (fl_round (qe_floats (ov_quoter v))) (ov_storage_fault v)) qid p (vs_quotes s)"
  have "?found = Panic"
    using assms(3) create_quote_not_Panic [of v p s]
    by (cases ?found) (auto simp: get_or_create_quote_def pbind_pread simple_Panic split: if_splits)
  then show ?thesis
    by (rule postgres.find_quote_Panic [OF assms(1) _ assms(2)])
qed

lemma get_quote_and_check_fee_Panic:
  "fst (get_quote_and_check_fee v p qid fee s) = Panic \<longleftrightarrow> fst (get_or_create_quote v p qid s) = Panic"
  by (auto simp: get_quote_and_check_fee_def prog_Panic split: option.splits)

lemma quote_search_overflow:
  assumes "ov_storage_fault v = None" and "2 ^ 256 \<le> unat (qs_sell_amount p) + unat (qs_fee_amount p)"
  shows "fst (get_quote_and_check_fee v p None fee s) = Panic"
proof -
  have "checked_add (qs_sell_amount p) (qs_fee_amount p) = None"
    using assms(2) by (simp add: chk)
  then show ?thesis
    unfolding get_quote_and_check_fee_Panic
    by (simp add: get_or_create_quote_def pbind_pread find_quote_def lookup_quote_def storage_find_def assms(1)
        create_db_search_parameters_def add_p_def simple_Panic)
qed

text \<open>A quote of a buy order whose amounts do not fit together in 256 bits.\<close>

definition quote_overflows :: "validator \<Rightarrow> quote_search_parameters \<Rightarrow> quote_id option \<Rightarrow> validator_state \<Rightarrow> bool" where
  "quote_overflows v p qid s \<longleftrightarrow>
     (\<exists>q s'. get_or_create_quote v p qid s = (Ok q, s') \<and> 2 ^ 256 \<le> unat (qt_sell_amount q) + unat (qt_fee_amount q))"

lemma classify_order_Panic:
  assumes "fst (classify_order v data owner p qid cl s) = Panic"
  shows "fst (get_or_create_quote v p qid s) = Panic \<or> (od_kind data = Buy \<and> quote_overflows v p qid s)"
proof -
  have outside: "order_outside_market data q = (Panic :: (validation_error, _) outcome) \<longleftrightarrow>
      od_kind data = Buy \<and> 2 ^ 256 \<le> unat (qt_sell_amount q) + unat (qt_fee_amount q)" for q
    by (simp add: order_outside_market_def is_order_outside_market_price_Panic)
  have quote: "get_or_create_quote v p qid s = (Ok q, s')" if "get_quote_and_check_fee v p qid fee s = (Ok q, s')" for fee q s'
    using that by (auto simp: get_quote_and_check_fee_def prog_Ok split: if_splits)
  obtain fee where "fst (get_quote_and_check_fee v p qid fee s) = Panic \<or>
    (\<exists>q s'. get_quote_and_check_fee v p qid fee s = (Ok q, s') \<and> order_outside_market data q = (Panic :: (validation_error, _) outcome))"
    using assms
    by (cases cl) (auto simp: classify_order_def prog_Panic prog_Ok check_max_limit_orders_not_Panic
        split: prod.splits outcome.splits validation_error.splits if_splits, metis fst_conv)
  then show ?thesis
    using quote by (auto simp: get_quote_and_check_fee_Panic outside quote_overflows_def)
qed

lemma partial_validate_keeps_quotes: "partial_validate v ord s = (r, s') \<Longrightarrow> vs_quotes s' = vs_quotes s"
  by (auto simp: partial_validate_def pbind_def plift_def split: prod.splits outcome.splits)


text \<open>
  C27. Looking for a quote without an id panics exactly when the sell amount and the fee do not fit together in 256 bits (unless the
  database cannot be reached): the error for this case is never returned.
\<close>

theorem quote_search_panics_iff_overflow:
  assumes "table_ok (vs_quotes s)" and "ov_storage_fault v = None" and "qs_sell_amount p \<noteq> 0"
  shows "fst (get_quote_and_check_fee v p None fee s) = Panic \<longleftrightarrow> 2 ^ 256 \<le> unat (qs_sell_amount p) + unat (qs_fee_amount p)"
proof
  assume "fst (get_quote_and_check_fee v p None fee s) = Panic"
  then show "2 ^ 256 \<le> unat (qs_sell_amount p) + unat (qs_fee_amount p)"
    unfolding get_quote_and_check_fee_Panic by (rule get_or_create_quote_Panic [OF assms(1,3)])
qed (rule quote_search_overflow [OF assms(2)])

text \<open>The gas of an order with hooks: the sum of the hooks saturates, but the sum with the gas of the quote wraps.\<close>

lemma hook_gas_saturates:
  assumes "2 ^ 64 - 1 \<le> sum_list (map (\<lambda>hk. unat (hk_gas_limit hk)) (hooks_pre h @ hooks_post h))"
  shows "hooks_gas_limit h = - 1"
  using assms unfolding word_unat_eq_iff hooks_gas_limit_sum by (simp add: unat_neg_one)

text \<open>
  C28. The limit on the gas of an order does not hold for hooks: when the gas of the hooks adds up to the largest 64-bit number or more, an
  order is only rejected if the gas of its quote alone, less one, exceeds the limit.
\<close>

theorem saturated_hook_gas_wraps:
  assumes "2 ^ 64 - 1 \<le> sum_list (map (\<lambda>hk. unat (hk_gas_limit hk))
      (hooks_pre (pa_hooks (va_protocol (oa_inner app_data))) @ hooks_post (pa_hooks (va_protocol (oa_inner app_data)))))"
    and "0 < unat (f64_as_u64 (fp_gas_amount (qd_fee_parameters (qt_data q))))"
  shows "too_much_gas v (search_parameters_of c data owner app_data sch) (Some q) \<longleftrightarrow>
    unat (ov_max_gas_per_order v) < unat (f64_as_u64 (fp_gas_amount (qd_fee_parameters (qt_data q)))) - 1"
proof -
  let ?g = "f64_as_u64 (fp_gas_amount (qd_fee_parameters (qt_data q)))"
  have "qs_additional_cost (search_parameters_of c data owner app_data sch) = - 1"
    unfolding word_unat_eq_iff
    by (simp add: qs_additional_cost_def search_parameters_of_def hook_gas_saturates [OF assms(1)] unat_neg_one)
  moreover have "unat (?g - 1) = unat ?g - 1"
    using unat_minus_le [of 1 ?g] assms(2) by simp
  ultimately show ?thesis
    by (simp add: too_much_gas_def word_less_nat_alt)
qed

section \<open>An example\<close>

definition example_root :: app_data_root where
  "example_root = \<lparr>root_metadata = None, root_backend = None\<rparr>"

definition example_validator :: validator where
  "example_validator =
     \<lparr>ov_native_token = 8, ov_fetch_banned = (\<lambda>_. None),
      ov_validity_configuration = \<lparr>vp_min = 60, vp_max_market = 3600, vp_max_limit = 86400\<rparr>,
      ov_eip1271_skip_creation_validation = False, ov_detect = (\<lambda>_. Inr TokenGood), ov_hooks_address = 4,
      ov_hooks_execute = (\<lambda>_. []), ov_quoter = example_quoter, ov_storage_fault = None, ov_can_transfer = (\<lambda>_ _. Inr ()),
      ov_validate_signature = (\<lambda>_. Inr 0), ov_count_limit_orders = (\<lambda>_. Inr 0), ov_max_limit_orders_per_user = 10,
      ov_app_data_parser = \<lparr>adp_utf8 = (\<lambda>_. True), adp_json = (\<lambda>_. Some example_root)\<rparr>,
      ov_app_data_size_limit = 1000, ov_max_gas_per_order = 1000, ov_epoch_seconds = 100, ov_utc_now = 100,
      ov_keccak = (\<lambda>_. 0), ov_ec_recover = (\<lambda>_ _ _ _. None)\<rparr>"

definition example_validator_state :: validator_state where
  "example_validator_state = \<lparr>vs_banned_users = users_none, vs_quotes = example_table\<rparr>"

definition example_creation :: order_creation where
  "example_creation =
     \<lparr>oc_sell_token = 1, oc_buy_token = 2, oc_receiver = None, oc_sell_amount = 100, oc_buy_amount = 40, oc_valid_to = 1000,
      oc_fee_amount = 0, oc_kind = Sell, oc_partially_fillable = False, oc_sell_token_balance = SellErc20,
      oc_buy_token_balance = BuyErc20, oc_from = Some 3, oc_signature = PreSign, oc_quote_id = None, oc_app_data = AppDataFull []\<rparr>"

definition example_app_data :: order_app_data where
  "example_app_data =
     \<lparr>oa_inner = \<lparr>va_hash = 0, va_document = [], va_protocol = default_protocol_app_data\<rparr>,
      oa_interactions = \<lparr>ints_pre = [], ints_post = []\<rparr>\<rparr>"

definition example_order_search :: quote_search_parameters where
  "example_order_search = search_parameters_of example_creation (oc_data (\<lambda>_. 0) example_creation) 3 example_app_data (QuotePreSign False)"

lemma example_app_data_valid: "validate_app_data example_validator (AppDataFull []) None = Ok example_app_data"
  by (simp add: validate_app_data_def app_data_validate_def example_validator_def example_app_data_def example_root_def Let_def
      string_bytes_def bytes_string_def hash_full_app_data_def custom_interactions_def default_protocol_app_data_def no_hooks_def)

lemma example_admissible:
  "partial_validate example_validator
     (from_order_creation 3 (oc_data (\<lambda>_. 0) (example_creation\<lparr>oc_sell_amount := sell, oc_fee_amount := fee\<rparr>)) SchemePreSign) example_validator_state =
     (Ok (), example_validator_state)"
  by (simp add: partial_validate_def pbind_def plift_def users_banned_def example_validator_def example_creation_def example_validator_state_def
      from_order_creation_def actual_receiver_def oc_data_def users_none_def validate_period_def timestamp_after_duration_def
      period_max_def duration_max_def saturating_add_def has_same_buy_and_sell_token_def BUY_ETH_ADDRESS_def unat_neg_one)

definition example_created :: quote where
  "example_created =
     \<lparr>qt_id = Some 1, qt_data = example_quote_data, qt_sell_amount = 100, qt_buy_amount = 50, qt_fee_amount = 10\<rparr>"

lemma example_calculated_after_fee:
  "calculate_quote example_quoter
     \<lparr>qp_sell_token = 1, qp_buy_token = 2, qp_side = QuoteSell (AfterFee 100), qp_verification = verification,
      qp_signing_scheme = QuotePreSign False, qp_additional_gas = 0\<rparr> = Ok (example_created\<lparr>qt_id := None\<rparr>)"
  by (simp add: calculate_quote_def compute_quote_data_def join_estimates_def example_quoter_def example_created_def
      example_quote_data_def to_price_query_def verify_quote_def quote_expiration_def u64_as_f64_def example_floats_def
      quote_new_def with_additional_cost_def fee_with_additional_cost_def qp_additional_cost_def saturating_add_def Let_def)

lemma example_order_search_fields:
  "qs_kind example_order_search = Sell" "qs_sell_amount example_order_search = 100" "qs_fee_amount example_order_search = 0" "qs_sell_token example_order_search = 1"
  "qs_buy_token example_order_search = 2" "qs_signing example_order_search = QuotePreSign False" "qs_additional_gas example_order_search = 0"
  by (simp_all add: example_order_search_def search_parameters_of_def oc_data_def example_creation_def example_app_data_def
      default_protocol_app_data_def no_hooks_def hooks_gas_limit_def)

lemma example_quote_created:
  "get_quote_and_check_fee example_validator example_order_search None None example_validator_state =
     (Ok example_created, example_validator_state\<lparr>vs_quotes := snd (storage_save None example_quote_data example_table)\<rparr>)"
proof -
  have "get_or_create_quote example_validator example_order_search None example_validator_state = create_quote example_validator example_order_search example_validator_state"
    by (simp add: get_or_create_quote_def pbind_pread find_quote_def lookup_quote_def storage_find_def db_quotes_find_def
        create_db_search_parameters_def add_p_def checked_add_def example_validator_state_def example_table_def example_validator_def
        example_order_search_fields)
  moreover have "create_quote example_validator example_order_search example_validator_state =
      (Ok example_created, example_validator_state\<lparr>vs_quotes := snd (storage_save None example_quote_data example_table)\<rparr>)"
    by (simp add: create_quote_def example_validator_def example_order_search_fields
        nonzero_try_from_def nonzero_new_def example_calculated_after_fee pbind_def plift_def ppart_def pmap_err_def
        store_quote_def storage_save_def db_quotes_save_def pret_def example_validator_state_def example_created_def example_table_def)
  ultimately show ?thesis
    by (simp add: get_quote_and_check_fee_def pbind_def pret_def)
qed

lemma example_owned:
  "validate_and_construct_order example_validator (example_creation\<lparr>oc_sell_amount := sell, oc_fee_amount := fee\<rparr>) 0 9 None s =
   validate_owned_order example_validator (example_creation\<lparr>oc_sell_amount := sell, oc_fee_amount := fee\<rparr>) 0 9 None example_app_data 3 s"
proof -
  have "verify_owner (ov_keccak example_validator) (ov_ec_recover example_validator)
      (example_creation\<lparr>oc_sell_amount := sell, oc_fee_amount := fee\<rparr>) 0 None = Ok 3"
    by (simp add: verify_owner_def hash_struct_eq example_creation_def)
  moreover have "pa_signer (va_protocol (oa_inner example_app_data)) = None" "oc_app_data example_creation = AppDataFull []"
    by (simp_all add: example_app_data_def default_protocol_app_data_def example_creation_def)
  ultimately show ?thesis
    by (simp add: validate_and_construct_order_def example_app_data_valid prog_run)
qed

text \<open>The steps of the example up to its quote.\<close>

lemma example_steps:
  fixes c :: order_creation
  assumes "oc_signature c = PreSign" "oc_buy_amount c \<noteq> 0" "oc_sell_amount c \<noteq> 0"
    and "app_data_hash (\<lambda>_. 0) (oc_app_data c) = 0"
    and "partial_validate example_validator (from_order_creation 3 (oc_data (\<lambda>_. 0) c) SchemePreSign) s = (Ok (), s)"
  shows "\<exists>uid. validate_owned_order example_validator c 0 9 None example_app_data 3 s =
    pbind (classify_order example_validator (oc_data (\<lambda>_. 0) c) 3
        (search_parameters_of c (oc_data (\<lambda>_. 0) c) 3 example_app_data (QuotePreSign False)) (oc_quote_id c)
        (po_class (from_order_creation 3 (oc_data (\<lambda>_. 0) c) SchemePreSign)))
      (\<lambda>(cl, q). if too_much_gas example_validator (search_parameters_of c (oc_data (\<lambda>_. 0) c) 3 example_app_data (QuotePreSign False)) q
        then plift (Err TooMuchGas)
        else pret (constructed_order example_validator c (oc_data (\<lambda>_. 0) c) 3 uid 9 cl example_app_data None, q)) s"
proof -
  have data: "(oc_data (\<lambda>_. 0) c)\<lparr>od_app_data := va_hash (oa_inner example_app_data)\<rparr> = oc_data (\<lambda>_. 0) c"
    using assms(4) by (simp add: oc_data_def example_app_data_def)
  have validated: "pbind (pmap_err PartialError (partial_validate example_validator (from_order_creation 3 (oc_data (\<lambda>_. 0) c) SchemePreSign))) f s = f () s"
    for f :: "unit \<Rightarrow> (order \<times> quote option) validating"
    using assms(5) by (simp add: pmap_err_def pbind_def)
  have amounts: "od_buy_amount (oc_data (\<lambda>_. 0) c) \<noteq> 0" "od_sell_amount (oc_data (\<lambda>_. 0) c) \<noteq> 0"
    using assms(2,3) by (simp_all add: oc_data_def)
  have services: "ov_keccak example_validator = (\<lambda>_. 0)" "ov_can_transfer example_validator = (\<lambda>_ _. Inr ())"
    by (simp_all add: example_validator_def)
  obtain uid where "order_data_uid (\<lambda>_. 0) (oc_data (\<lambda>_. 0) c) 0 3 = (Ok uid :: (validation_error, _) outcome)"
    by (simp add: order_data_uid_def hash_struct_eq hashed_eip712_message_eq uid_from_parts_eq)
  then show ?thesis
    by (intro exI [of _ uid]) (simp add: validate_owned_order_def services data assms(1) amounts validated verification_gas_def
        convert_signing_scheme_def check_transfer_def prog_run Let_def)
qed

lemma example_accepted:
  "\<exists>r. validate_and_construct_order example_validator example_creation 0 9 None example_validator_state =
     (Ok (r, Some example_created), example_validator_state\<lparr>vs_quotes := snd (storage_save None example_quote_data example_table)\<rparr>)"
proof -
  have same: "example_creation\<lparr>oc_sell_amount := 100, oc_fee_amount := 0\<rparr> = example_creation"
    by (simp add: example_creation_def)
  have fields: "oc_signature example_creation = PreSign" "oc_buy_amount example_creation \<noteq> 0" "oc_sell_amount example_creation \<noteq> 0"
    "app_data_hash (\<lambda>_. 0) (oc_app_data example_creation) = 0"
    by (simp_all add: example_creation_def hash_full_app_data_def)
  have cls: "classify_order example_validator (oc_data (\<lambda>_. 0) example_creation) 3 example_order_search (oc_quote_id example_creation)
      (po_class (from_order_creation 3 (oc_data (\<lambda>_. 0) example_creation) SchemePreSign)) example_validator_state =
    (Ok (Limit, Some example_created), example_validator_state\<lparr>vs_quotes := snd (storage_save None example_quote_data example_table)\<rparr>)"
    using example_quote_created
    by (simp add: classify_order_def from_order_creation_def example_creation_def oc_data_def prog_run order_outside_market_def
       is_order_outside_market_price_def sell_quote_buy_def checked_mul_def checked_div_def checked_sub_def
       example_created_def pret_def)
  have gas: "\<not> too_much_gas example_validator example_order_search (Some example_created)"
    by (simp add: too_much_gas_def example_created_def example_quote_data_def qs_additional_cost_def saturating_add_def
        example_order_search_fields example_validator_def)
  show ?thesis
    using example_steps [OF fields example_admissible [of 0 100, unfolded same]] cls gas
    unfolding example_owned [of 0 100 example_validator_state, unfolded same] example_order_search_def [symmetric]
    by (auto simp: pret_def pbind_def)
qed


lemma example_overflow_panics:
  "fst (validate_and_construct_order example_validator (example_creation\<lparr>oc_sell_amount := u256_max, oc_fee_amount := 1\<rparr>) 0 9 None
     example_validator_state) = Panic"
proof -
  let ?c = "example_creation\<lparr>oc_sell_amount := u256_max, oc_fee_amount := 1\<rparr>"
  have fields: "oc_signature ?c = PreSign" "oc_buy_amount ?c \<noteq> 0" "oc_sell_amount ?c \<noteq> 0" "app_data_hash (\<lambda>_. 0) (oc_app_data ?c) = 0"
    by (simp_all add: example_creation_def hash_full_app_data_def)
  let ?p = "search_parameters_of ?c (oc_data (\<lambda>_. 0) ?c) 3 example_app_data (QuotePreSign False)"
  have "fst (get_quote_and_check_fee example_validator ?p None (Some 1) example_validator_state) = Panic"
    by (rule quote_search_overflow) (simp_all add: example_validator_def search_parameters_of_def oc_data_def unat_neg_one)
  then have "fst (classify_order example_validator (oc_data (\<lambda>_. 0) ?c) 3 ?p (oc_quote_id ?c)
      (po_class (from_order_creation 3 (oc_data (\<lambda>_. 0) ?c) SchemePreSign)) example_validator_state) = Panic"
    by (simp add: classify_order_def from_order_creation_def example_creation_def oc_data_def prog_Panic)
  then show ?thesis
    using example_steps [OF fields example_admissible] by (auto simp: example_owned prog_Panic)
qed


theorem quote_search_panics_iff_overflow_witness:
  "fst (get_quote_and_check_fee example_validator (example_order_search\<lparr>qs_sell_amount := u256_max, qs_fee_amount := 1\<rparr>) None None example_validator_state) = Panic"
  using quote_search_panics_iff_overflow [of example_validator_state example_validator "example_order_search\<lparr>qs_sell_amount := u256_max, qs_fee_amount := 1\<rparr>" None]
    example_table_ok
  by (simp add: example_validator_state_def example_validator_def unat_neg_one)

definition example_hooks :: hooks where
  "example_hooks = \<lparr>hooks_pre = [\<lparr>hk_target = 5, hk_call_data = [], hk_gas_limit = - 1\<rparr>], hooks_post = []\<rparr>"

theorem saturated_hook_gas_wraps_witness:
  "\<not> too_much_gas example_validator (search_parameters_of example_creation (oc_data (\<lambda>_. 0) example_creation) 3
     (example_app_data\<lparr>oa_inner := (oa_inner example_app_data)\<lparr>va_protocol := default_protocol_app_data\<lparr>pa_hooks := example_hooks\<rparr>\<rparr>\<rparr>)
     QuoteEip712) (Some example_created)"
proof -
  let ?app = "example_app_data\<lparr>oa_inner := (oa_inner example_app_data)\<lparr>va_protocol := default_protocol_app_data\<lparr>pa_hooks := example_hooks\<rparr>\<rparr>\<rparr>"
  show ?thesis
    using saturated_hook_gas_wraps [of ?app example_created example_validator example_creation "oc_data (\<lambda>_. 0) example_creation" 3 QuoteEip712]
    by (simp add: example_hooks_def example_created_def example_quote_data_def example_validator_def unat_neg_one)
qed

end
