(* ===== verification/Order_Storage.thy ===== *)
theory Order_Storage
  imports Order_Validation Auction_Update
begin

text \<open>
  Orders in the database: the queries of \<open>database/src/orders.rs\<close>, \<open>order_events.rs\<close> and \<open>app_data.rs\<close>, and the trait
  \<open>OrderStoring\<close> as \<open>orderbook/src/database/orders.rs\<close> implements it, with the conversion of a row to an order.

  The tables are the record \<open>orders_db\<close>: lists of rows where the order of a query matters, maps where the primary key decides.
  Enumerations of the database are those of the model, as the conversions between them only rename the constructors. An error of
  the connection is \<open>fault\<close>: the operations run in a transaction, so that a failure anywhere leaves the tables as they were. Of
  several rows with the same timestamp the one inserted last is the latest (the queries leave that open). Times are integers.
\<close>

section \<open>Rows\<close>

record order_row =
  orow_uid :: order_uid
  orow_owner :: h160
  orow_creation_timestamp :: int
  orow_sell_token :: h160
  orow_buy_token :: h160
  orow_receiver :: "h160 option"
  orow_sell_amount :: big_decimal
  orow_buy_amount :: big_decimal
  orow_valid_to :: int
  orow_app_data :: app_data_hash
  orow_fee_amount :: big_decimal
  orow_kind :: order_kind
  orow_partially_fillable :: bool
  orow_signature :: bytes
  orow_signing_scheme :: signing_scheme
  orow_settlement_contract :: h160
  orow_sell_token_balance :: sell_token_source
  orow_buy_token_balance :: buy_token_destination
  orow_full_fee_amount :: big_decimal
  orow_cancellation_timestamp :: "int option"
  orow_class :: order_class

datatype execution_time = ExecutePre | ExecutePost

record interaction_row =
  ir_order_uid :: order_uid
  ir_target :: h160
  ir_value :: big_decimal
  ir_data :: bytes
  ir_index :: int
  ir_execution :: execution_time

record order_quote_row =
  oqr_order_uid :: order_uid
  oqr_gas_amount :: f64
  oqr_gas_price :: f64
  oqr_sell_token_price :: f64
  oqr_sell_amount :: big_decimal
  oqr_buy_amount :: big_decimal
  oqr_solver :: h160

record order_event =
  oe_order_uid :: order_uid
  oe_timestamp :: int
  oe_label :: order_event_label

text \<open>Rows of events of the settlement contract; amounts are \<open>numeric(78,0)\<close>.\<close>

record trade_row =
  tr_order_uid :: order_uid
  tr_sell_amount :: int
  tr_buy_amount :: int
  tr_fee_amount :: int

record presignature_row =
  ps_block_number :: int
  ps_log_index :: int
  ps_order_uid :: order_uid
  ps_signed :: bool

record orders_db =
  db_orders :: "order_row list"
  db_interactions :: "interaction_row list"
  db_order_quotes :: "order_quote_row list"
  db_order_events :: "order_event list"
  db_app_data :: "app_data_hash \<rightharpoonup> bytes"
  db_trades :: "trade_row list"
  db_invalidations :: "order_uid list"
  db_onchain_invalidations :: "order_uid list"
  db_presignatures :: "presignature_row list"
  db_ethflow_orders :: "order_uid \<rightharpoonup> int"
  db_ethflow_refunds :: "order_uid \<rightharpoonup> h256"
  db_onchain_placed :: "order_uid \<rightharpoonup> h160 \<times> onchain_order_placement_error option"
  db_order_executions :: "(order_uid \<times> int) list"

text \<open>\<open>FullOrder\<close>: a row of the orders with what other tables know of it.\<close>

type_synonym raw_interaction = "h160 \<times> big_decimal \<times> bytes"

record full_order =
  fo_uid :: order_uid
  fo_owner :: h160
  fo_creation_timestamp :: int
  fo_sell_token :: h160
  fo_buy_token :: h160
  fo_sell_amount :: big_decimal
  fo_buy_amount :: big_decimal
  fo_valid_to_row :: int
  fo_app_data :: app_data_hash
  fo_fee_amount :: big_decimal
  fo_full_fee_amount :: big_decimal
  fo_kind :: order_kind
  fo_class :: order_class
  fo_partially_fillable :: bool
  fo_signature :: bytes
  fo_sum_sell :: big_decimal
  fo_sum_buy :: big_decimal
  fo_sum_fee :: big_decimal
  fo_invalidated :: bool
  fo_receiver :: "h160 option"
  fo_signing_scheme :: signing_scheme
  fo_settlement_contract :: h160
  fo_sell_token_balance :: sell_token_source
  fo_buy_token_balance :: buy_token_destination
  fo_presignature_pending :: bool
  fo_pre_interactions :: "raw_interaction list"
  fo_post_interactions :: "raw_interaction list"
  fo_ethflow_data :: "(h256 option \<times> int) option"
  fo_onchain_user :: "h160 option"
  fo_onchain_placement_error :: "onchain_order_placement_error option"
  fo_executed_surplus_fee :: big_decimal
  fo_full_app_data :: "bytes option"

section \<open>Queries\<close>

datatype db_error = DuplicateKey | DbFault string

definition is_duplicate_record_error :: "db_error \<Rightarrow> bool" where
  "is_duplicate_record_error e \<longleftrightarrow> e = DuplicateKey"

text \<open>\<open>ORDER BY ... DESC LIMIT 1\<close>.\<close>

fun latest_by :: "('a \<Rightarrow> 'a \<Rightarrow> bool) \<Rightarrow> 'a list \<Rightarrow> 'a option" where
  "latest_by le [] = None"
| "latest_by le (x # xs) = (case latest_by le xs of None \<Rightarrow> Some x | Some y \<Rightarrow> Some (if le x y then y else x))"

definition get_latest_event :: "order_uid \<Rightarrow> orders_db \<Rightarrow> order_event option" where
  "get_latest_event uid db =
     latest_by (\<lambda>a b. oe_timestamp a \<le> oe_timestamp b) (filter (\<lambda>e. oe_order_uid e = uid) (db_order_events db))"

text \<open>The event is only inserted if the latest event of the order has another label.\<close>

definition insert_order_event :: "order_event \<Rightarrow> orders_db \<Rightarrow> orders_db" where
  "insert_order_event e db =
     (if map_option oe_label (get_latest_event (oe_order_uid e) db) = Some (oe_label e) then db
      else db\<lparr>db_order_events := db_order_events db @ [e]\<rparr>)"

definition db_insert_order :: "order_row \<Rightarrow> (orders_db, db_error, unit) prog" where
  "db_insert_order r = (\<lambda>db.
     if orow_uid r \<in> set (map orow_uid (db_orders db)) then (Err DuplicateKey, db)
     else (Ok (), db\<lparr>db_orders := db_orders db @ [r]\<rparr>))"

definition insert_interaction :: "interaction_row \<Rightarrow> (orders_db, db_error, unit) prog" where
  "insert_interaction r = (\<lambda>db.
     if (ir_order_uid r, ir_index r) \<in> set (map (\<lambda>i. (ir_order_uid i, ir_index i)) (db_interactions db)) then (Err DuplicateKey, db)
     else (Ok (), db\<lparr>db_interactions := db_interactions db @ [r]\<rparr>))"

fun insert_interactions :: "interaction_row list \<Rightarrow> (orders_db, db_error, unit) prog" where
  "insert_interactions [] = pret ()"
| "insert_interactions (r # rs) = pbind (insert_interaction r) (\<lambda>_. insert_interactions rs)"

definition db_insert_quote :: "order_quote_row \<Rightarrow> (orders_db, db_error, unit) prog" where
  "db_insert_quote r = (\<lambda>db.
     if oqr_order_uid r \<in> set (map oqr_order_uid (db_order_quotes db)) then (Err DuplicateKey, db)
     else (Ok (), db\<lparr>db_order_quotes := db_order_quotes db @ [r]\<rparr>))"

text \<open>An order that is cancelled already keeps its timestamp.\<close>

definition db_cancel_order :: "order_uid \<Rightarrow> int \<Rightarrow> orders_db \<Rightarrow> orders_db" where
  "db_cancel_order uid timestamp db =
     db\<lparr>db_orders := map (\<lambda>r. if orow_uid r = uid \<and> orow_cancellation_timestamp r = None
                               then r\<lparr>orow_cancellation_timestamp := Some timestamp\<rparr> else r) (db_orders db)\<rparr>"

text \<open>The existing document is returned; the new one is inserted if there is none.\<close>

definition app_data_insert :: "app_data_hash \<Rightarrow> bytes \<Rightarrow> orders_db \<Rightarrow> bytes option \<times> orders_db" where
  "app_data_insert hash full_app_data db =
     (case db_app_data db hash of
        Some existing \<Rightarrow> (Some existing, db)
      | None \<Rightarrow> (None, db\<lparr>db_app_data := (db_app_data db)(hash \<mapsto> full_app_data)\<rparr>))"

definition app_data_fetch :: "app_data_hash \<Rightarrow> orders_db \<Rightarrow> bytes option" where
  "app_data_fetch hash db = db_app_data db hash"

text \<open>\<open>ORDERS_SELECT\<close>.\<close>

definition trade_sum :: "(trade_row \<Rightarrow> int) \<Rightarrow> order_uid \<Rightarrow> orders_db \<Rightarrow> big_decimal" where
  "trade_sum amount uid db = BigDecimal (sum_list (map amount (filter (\<lambda>t. tr_order_uid t = uid) (db_trades db)))) 0"

definition presignature_pending :: "order_row \<Rightarrow> orders_db \<Rightarrow> bool" where
  "presignature_pending r db \<longleftrightarrow>
     orow_signing_scheme r = SchemePreSign \<and>
     (case latest_by (\<lambda>a b. ps_block_number a < ps_block_number b \<or>
              (ps_block_number a = ps_block_number b \<and> ps_log_index a \<le> ps_log_index b))
            (filter (\<lambda>p. ps_order_uid p = orow_uid r) (db_presignatures db)) of
        None \<Rightarrow> True | Some p \<Rightarrow> \<not> ps_signed p)"

definition select_interactions :: "execution_time \<Rightarrow> order_uid \<Rightarrow> orders_db \<Rightarrow> raw_interaction list" where
  "select_interactions execution uid db =
     map (\<lambda>i. (ir_target i, ir_value i, ir_data i))
       (sort_key ir_index (filter (\<lambda>i. ir_order_uid i = uid \<and> ir_execution i = execution) (db_interactions db)))"

definition full_order_of :: "orders_db \<Rightarrow> order_row \<Rightarrow> full_order" where
  "full_order_of db r =
     (let uid = orow_uid r in
      \<lparr>fo_uid = uid, fo_owner = orow_owner r, fo_creation_timestamp = orow_creation_timestamp r,
       fo_sell_token = orow_sell_token r, fo_buy_token = orow_buy_token r, fo_sell_amount = orow_sell_amount r,
       fo_buy_amount = orow_buy_amount r, fo_valid_to_row = orow_valid_to r, fo_app_data = orow_app_data r,
       fo_fee_amount = orow_fee_amount r, fo_full_fee_amount = orow_full_fee_amount r, fo_kind = orow_kind r,
       fo_class = orow_class r, fo_partially_fillable = orow_partially_fillable r, fo_signature = orow_signature r,
       fo_sum_sell = trade_sum tr_sell_amount uid db, fo_sum_buy = trade_sum tr_buy_amount uid db,
       fo_sum_fee = trade_sum tr_fee_amount uid db,
       fo_invalidated = (orow_cancellation_timestamp r \<noteq> None \<or> uid \<in> set (db_invalidations db)
         \<or> uid \<in> set (db_onchain_invalidations db)),
       fo_receiver = orow_receiver r, fo_signing_scheme = orow_signing_scheme r,
       fo_settlement_contract = orow_settlement_contract r, fo_sell_token_balance = orow_sell_token_balance r,
       fo_buy_token_balance = orow_buy_token_balance r, fo_presignature_pending = presignature_pending r db,
       fo_pre_interactions = select_interactions ExecutePre uid db,
       fo_post_interactions = select_interactions ExecutePost uid db,
       fo_ethflow_data = map_option (\<lambda>valid_to. (db_ethflow_refunds db uid, valid_to)) (db_ethflow_orders db uid),
       fo_onchain_user = map_option fst (db_onchain_placed db uid),
       fo_onchain_placement_error = Option.bind (db_onchain_placed db uid) snd,
       fo_executed_surplus_fee = BigDecimal (sum_list (map snd (filter (\<lambda>x. fst x = uid) (db_order_executions db)))) 0,
       fo_full_app_data = db_app_data db (orow_app_data r)\<rparr>)"

definition single_full_order :: "order_uid \<Rightarrow> orders_db \<Rightarrow> full_order option" where
  "single_full_order uid db = map_option (full_order_of db) (find (\<lambda>r. orow_uid r = uid) (db_orders db))"

section \<open>From rows to orders\<close>

definition fo_valid_to :: "full_order \<Rightarrow> int" where
  "fo_valid_to fo = (case fo_ethflow_data fo of Some (_, valid_to) \<Rightarrow> valid_to | None \<Rightarrow> fo_valid_to_row fo)"

text \<open>\<open>BigDecimal\<close>: the difference has the larger scale, and \<open>==\<close> compares the values.\<close>

fun bd_sub :: "big_decimal \<Rightarrow> big_decimal \<Rightarrow> big_decimal" where
  "bd_sub (BigDecimal n s) (BigDecimal m t) =
     (let k = max s t in BigDecimal (n * 10 ^ nat (k - s) - m * 10 ^ nat (k - t)) k)"

definition big_decimal_to_big_uint :: "big_decimal \<Rightarrow> nat option" where
  "big_decimal_to_big_uint d =
     (let n = (if bd_value d < 0 then \<lceil>bd_value d\<rceil> else \<lfloor>bd_value d\<rfloor>) in if n < 0 then None else Some (nat n))"

definition is_sell_order_filled :: "big_decimal \<Rightarrow> big_decimal \<Rightarrow> big_decimal \<Rightarrow> bool" where
  "is_sell_order_filled amount executed_amount executed_fee \<longleftrightarrow>
     (if bd_numer executed_amount = 0 then False else bd_value (bd_sub executed_amount executed_fee) = bd_value amount)"

definition is_buy_order_filled :: "big_decimal \<Rightarrow> big_decimal \<Rightarrow> bool" where
  "is_buy_order_filled amount executed_amount \<longleftrightarrow>
     bd_numer executed_amount \<noteq> 0 \<and> bd_value amount = bd_value executed_amount"

definition calculate_status :: "int \<Rightarrow> full_order \<Rightarrow> order_status" where
  "calculate_status now fo =
     (if (case fo_kind fo of
            Buy \<Rightarrow> is_buy_order_filled (fo_buy_amount fo) (fo_sum_buy fo)
          | Sell \<Rightarrow> is_sell_order_filled (fo_sell_amount fo) (fo_sum_sell fo) (fo_sum_fee fo)) then Fulfilled
      else if fo_invalidated fo then Cancelled
      else if fo_valid_to fo < now then Expired
      else if fo_presignature_pending fo then PresignaturePending
      else Open)"

fun raw_interactions :: "raw_interaction list \<Rightarrow> (string, interaction_data list) outcome" where
  "raw_interactions [] = Ok []"
| "raw_interactions ((target, value, data) # is) =
     obind (ok_or (big_decimal_to_u256 value) ''interaction value is not U256'') (\<lambda>value.
     obind (raw_interactions is) (\<lambda>rest.
     Ok (\<lparr>int_target = target, int_value = value, int_call_data = data\<rparr> # rest)))"

definition extract_interactions :: "full_order \<Rightarrow> execution_time \<Rightarrow> (string, interaction_data list) outcome" where
  "extract_interactions fo execution =
     raw_interactions (case execution of ExecutePre \<Rightarrow> fo_pre_interactions fo | ExecutePost \<Rightarrow> fo_post_interactions fo)"

definition to_u256 :: "string \<Rightarrow> big_decimal \<Rightarrow> (string, u256) outcome" where
  "to_u256 context d = ok_or (big_decimal_to_u256 d) context"

definition full_order_metadata :: "(bytes \<Rightarrow> bool) \<Rightarrow> int \<Rightarrow> full_order \<Rightarrow> (string, order_metadata) outcome" where
  "full_order_metadata utf8 now fo =
     obind (ok_or (big_decimal_to_big_uint (fo_sum_buy fo)) ''executed buy amount is not an unsigned integer'') (\<lambda>executed_buy.
     obind (ok_or (big_decimal_to_big_uint (fo_sum_sell fo)) ''executed sell amount is not an unsigned integer'') (\<lambda>executed_sell.
     obind (to_u256 ''executed sell amount before fees does not fit in a u256'' (bd_sub (fo_sum_sell fo) (fo_sum_fee fo))) (\<lambda>before_fees.
     obind (to_u256 ''executed fee amount is not a valid u256'' (fo_sum_fee fo)) (\<lambda>executed_fee.
     obind (to_u256 ''executed surplus fee is not a valid u256'' (fo_executed_surplus_fee fo)) (\<lambda>surplus_fee.
     obind (to_u256 ''full_fee_amount is not U256'' (fo_full_fee_amount fo)) (\<lambda>full_fee.
     obind (to_u256 ''solver_fee is not U256'' (fo_full_fee_amount fo)) (\<lambda>solver_fee.
     obind (case fo_full_app_data fo of
              None \<Rightarrow> Ok None
            | Some bs \<Rightarrow> if utf8 bs then Ok (Some (bytes_string bs)) else Err ''full app data isn't utf-8'') (\<lambda>full_app_data.
     Ok \<lparr>om_creation_date = fo_creation_timestamp fo, om_owner = fo_owner fo, om_uid = fo_uid fo, om_available_balance = None,
         om_executed_buy_amount = executed_buy, om_executed_sell_amount = executed_sell,
         om_executed_sell_amount_before_fees = before_fees, om_executed_fee_amount = executed_fee,
         om_executed_surplus_fee = surplus_fee, om_invalidated = fo_invalidated fo, om_status = calculate_status now fo,
         om_class = fo_class fo, om_settlement_contract = fo_settlement_contract fo, om_full_fee_amount = full_fee,
         om_solver_fee = solver_fee,
         om_ethflow_data = map_option (\<lambda>(refund_tx, user_valid_to).
           \<lparr>ef_user_valid_to = user_valid_to, ef_refund_tx_hash = refund_tx\<rparr>) (fo_ethflow_data fo),
         om_onchain_order_data = map_option (\<lambda>user.
           \<lparr>oo_sender = user, oo_placement_error = fo_onchain_placement_error fo\<rparr>) (fo_onchain_user fo),
         om_onchain_user = fo_onchain_user fo, om_is_liquidity_order = (fo_class fo = Liquidity),
         om_full_app_data = full_app_data\<rparr>))))))))"

definition full_order_data :: "full_order \<Rightarrow> (string, order_data) outcome" where
  "full_order_data fo =
     obind (to_u256 ''sell_amount is not U256'' (fo_sell_amount fo)) (\<lambda>sell_amount.
     obind (to_u256 ''buy_amount is not U256'' (fo_buy_amount fo)) (\<lambda>buy_amount.
     obind (if 0 \<le> fo_valid_to_row fo \<and> fo_valid_to_row fo < 2 ^ 32 then Ok (word_of_int (fo_valid_to_row fo))
            else Err ''valid_to is not u32'') (\<lambda>valid_to.
     obind (to_u256 ''fee_amount is not U256'' (fo_fee_amount fo)) (\<lambda>fee_amount.
     Ok \<lparr>od_sell_token = fo_sell_token fo, od_buy_token = fo_buy_token fo, od_receiver = fo_receiver fo,
         od_sell_amount = sell_amount, od_buy_amount = buy_amount, od_valid_to = valid_to, od_app_data = fo_app_data fo,
         od_fee_amount = fee_amount, od_kind = fo_kind fo, od_partially_fillable = fo_partially_fillable fo,
         od_sell_token_balance = fo_sell_token_balance fo, od_buy_token_balance = fo_buy_token_balance fo\<rparr>))))"

definition full_order_into_model_order :: "(bytes \<Rightarrow> bool) \<Rightarrow> int \<Rightarrow> full_order \<Rightarrow> (string, order) outcome" where
  "full_order_into_model_order utf8 now fo =
     obind (extract_interactions fo ExecutePre) (\<lambda>pre_interactions.
     obind (extract_interactions fo ExecutePost) (\<lambda>post_interactions.
     obind (full_order_metadata utf8 now fo) (\<lambda>metadata.
     obind (full_order_data fo) (\<lambda>data.
     obind (map_err (\<lambda>_. ''invalid signature'') (sig_from_bytes (fo_signing_scheme fo) (fo_signature fo))) (\<lambda>sig.
     Ok \<lparr>o_metadata = metadata, o_data = data, o_signature = sig,
         o_interactions = \<lparr>ints_pre = pre_interactions, ints_post = post_interactions\<rparr>\<rparr>)))))"

section \<open>Order storage\<close>

datatype insertion_error = DuplicatedRecord | DbError db_error | InsertionAppDataMismatch bytes

text \<open>A transaction is rolled back unless it is committed.\<close>

definition transaction :: "('s, 'e, 'a) prog \<Rightarrow> ('s, 'e, 'a) prog" where
  "transaction m = (\<lambda>s. case m s of (Ok x, s') \<Rightarrow> (Ok x, s') | (r, _) \<Rightarrow> (r, s))"

definition interaction_rows :: "order \<Rightarrow> ('e, interaction_row list) outcome" where
  "interaction_rows ord =
     (let chained = map (\<lambda>i. (i, ExecutePre)) (ints_pre (o_interactions ord)) @ map (\<lambda>i. (i, ExecutePost)) (ints_post (o_interactions ord))
      in if length chained > 2 ^ 31 then Panic
         else Ok (map (\<lambda>(index, i, execution).
                    \<lparr>ir_order_uid = om_uid (o_metadata ord), ir_target = int_target i, ir_value = u256_to_big_decimal (int_value i),
                     ir_data = int_call_data i, ir_index = int index, ir_execution = execution\<rparr>)
                  (enumerate 0 chained)))"

definition order_row_of :: "order \<Rightarrow> ('e, order_row) outcome" where
  "order_row_of ord =
     obind (sig_to_bytes (o_signature ord)) (\<lambda>signature.
     Ok \<lparr>orow_uid = om_uid (o_metadata ord), orow_owner = om_owner (o_metadata ord),
         orow_creation_timestamp = om_creation_date (o_metadata ord), orow_sell_token = od_sell_token (o_data ord),
         orow_buy_token = od_buy_token (o_data ord), orow_receiver = od_receiver (o_data ord),
         orow_sell_amount = u256_to_big_decimal (od_sell_amount (o_data ord)),
         orow_buy_amount = u256_to_big_decimal (od_buy_amount (o_data ord)), orow_valid_to = uint (od_valid_to (o_data ord)),
         orow_app_data = od_app_data (o_data ord), orow_fee_amount = u256_to_big_decimal (od_fee_amount (o_data ord)),
         orow_kind = od_kind (o_data ord), orow_partially_fillable = od_partially_fillable (o_data ord),
         orow_signature = signature, orow_signing_scheme = scheme (o_signature ord),
         orow_settlement_contract = om_settlement_contract (o_metadata ord),
         orow_sell_token_balance = od_sell_token_balance (o_data ord), orow_buy_token_balance = od_buy_token_balance (o_data ord),
         orow_full_fee_amount = u256_to_big_decimal (om_full_fee_amount (o_metadata ord)), orow_cancellation_timestamp = None,
         orow_class = om_class (o_metadata ord)\<rparr>)"

definition insert_order :: "int \<Rightarrow> order \<Rightarrow> (orders_db, insertion_error, unit) prog" where
  "insert_order now ord =
     pbind (pmodify (insert_order_event \<lparr>oe_order_uid = om_uid (o_metadata ord), oe_timestamp = now, oe_label = EventCreated\<rparr>)) (\<lambda>_.
     pbind (plift (interaction_rows ord)) (\<lambda>rows.
     pbind (plift (order_row_of ord)) (\<lambda>row.
     pbind (pmap_err (\<lambda>e. if is_duplicate_record_error e then DuplicatedRecord else DbError e) (db_insert_order row)) (\<lambda>_.
     pmap_err DbError (insert_interactions rows)))))"

definition insert_quote :: "order_uid \<Rightarrow> quote \<Rightarrow> (orders_db, insertion_error, unit) prog" where
  "insert_quote uid q =
     (let fp = qd_fee_parameters (qt_data q) in
      pmap_err DbError (db_insert_quote
        \<lparr>oqr_order_uid = uid, oqr_gas_amount = fp_gas_amount fp, oqr_gas_price = fp_gas_price fp,
         oqr_sell_token_price = fp_sell_token_price fp, oqr_sell_amount = u256_to_big_decimal (qt_sell_amount q),
         oqr_buy_amount = u256_to_big_decimal (qt_buy_amount q), oqr_solver = qd_solver (qt_data q)\<rparr>))"

definition insert_order_app_data :: "order \<Rightarrow> (orders_db, insertion_error, unit) prog" where
  "insert_order_app_data ord = (\<lambda>db.
     case om_full_app_data (o_metadata ord) of
       None \<Rightarrow> (Ok (), db)
     | Some full_app_data \<Rightarrow>
         (case app_data_insert (od_app_data (o_data ord)) (string_bytes full_app_data) db of
            (Some existing, db) \<Rightarrow>
              if string_bytes full_app_data \<noteq> existing then (Err (InsertionAppDataMismatch existing), db) else (Ok (), db)
          | (None, db) \<Rightarrow> (Ok (), db)))"

text \<open>The part of \<open>insert_order\<close> and \<open>replace_order\<close> that stores the new order.\<close>

definition store_order :: "int \<Rightarrow> order \<Rightarrow> quote option \<Rightarrow> (orders_db, insertion_error, unit) prog" where
  "store_order now ord q =
     pbind (insert_order now ord) (\<lambda>_.
     pbind (case q of None \<Rightarrow> pret () | Some q \<Rightarrow> insert_quote (om_uid (o_metadata ord)) q) (\<lambda>_.
     insert_order_app_data ord))"

definition storing_insert_order :: "string option \<Rightarrow> int \<Rightarrow> order \<Rightarrow> quote option \<Rightarrow> (orders_db, insertion_error, unit) prog" where
  "storing_insert_order fault now ord q =
     (case fault of Some e \<Rightarrow> plift (Err (DbError (DbFault e))) | None \<Rightarrow> transaction (store_order now ord q))"

definition cancel_order_events :: "int \<Rightarrow> order_uid \<Rightarrow> orders_db \<Rightarrow> orders_db" where
  "cancel_order_events now uid db =
     db_cancel_order uid now (insert_order_event \<lparr>oe_order_uid = uid, oe_timestamp = now, oe_label = EventCancelled\<rparr> db)"

definition storing_cancel_orders :: "string option \<Rightarrow> order_uid list \<Rightarrow> int \<Rightarrow> (orders_db, string, unit) prog" where
  "storing_cancel_orders fault order_uids now =
     (case fault of Some e \<Rightarrow> plift (Err e) | None \<Rightarrow> pmodify (fold (cancel_order_events now) order_uids))"

definition storing_cancel_order :: "string option \<Rightarrow> order_uid \<Rightarrow> int \<Rightarrow> (orders_db, string, unit) prog" where
  "storing_cancel_order fault uid now =
     (case fault of Some e \<Rightarrow> plift (Err e) | None \<Rightarrow> pmodify (cancel_order_events now uid))"

definition storing_replace_order ::
  "string option \<Rightarrow> int \<Rightarrow> order_uid \<Rightarrow> order \<Rightarrow> quote option \<Rightarrow> (orders_db, insertion_error, unit) prog" where
  "storing_replace_order fault now old_order new_order new_quote =
     (case fault of
        Some e \<Rightarrow> plift (Err (DbError (DbFault e)))
      | None \<Rightarrow> transaction
          (pbind (pmodify (db_cancel_order old_order (om_creation_date (o_metadata new_order)))) (\<lambda>_.
           store_order now new_order new_quote)))"

definition storing_single_order ::
  "(bytes \<Rightarrow> bool) \<Rightarrow> string option \<Rightarrow> int \<Rightarrow> order_uid \<Rightarrow> orders_db \<Rightarrow> (string, order option) outcome" where
  "storing_single_order utf8 fault now uid db =
     (case fault of
        Some e \<Rightarrow> Err e
      | None \<Rightarrow>
          (case single_full_order uid db of
             None \<Rightarrow> Ok None
           | Some fo \<Rightarrow> obind (full_order_into_model_order utf8 now fo) (\<lambda>ord. Ok (Some ord))))"

definition storing_latest_order_event :: "string option \<Rightarrow> order_uid \<Rightarrow> orders_db \<Rightarrow> (string, order_event option) outcome" where
  "storing_latest_order_event fault uid db =
     (case fault of Some e \<Rightarrow> Err e | None \<Rightarrow> Ok (get_latest_event uid db))"

section \<open>Lemmas\<close>

lemma transaction_Ok: "transaction m s = (Ok x, s') \<longleftrightarrow> m s = (Ok x, s')"
  by (auto simp: transaction_def split: prod.splits outcome.splits)

text \<open>A transaction that does not return leaves the state as it was.\<close>

lemma transaction_failed: "transaction m s = (r, s') \<Longrightarrow> (\<forall>x. r \<noteq> Ok x) \<Longrightarrow> s' = s"
  by (auto simp: transaction_def split: prod.splits outcome.splits)

lemma insert_order_event_tables [simp]:
  "db_orders (insert_order_event e db) = db_orders db" "db_interactions (insert_order_event e db) = db_interactions db"
  "db_order_quotes (insert_order_event e db) = db_order_quotes db" "db_app_data (insert_order_event e db) = db_app_data db"
  "db_trades (insert_order_event e db) = db_trades db" "db_invalidations (insert_order_event e db) = db_invalidations db"
  "db_onchain_invalidations (insert_order_event e db) = db_onchain_invalidations db"
  "db_presignatures (insert_order_event e db) = db_presignatures db" "db_ethflow_orders (insert_order_event e db) = db_ethflow_orders db"
  "db_ethflow_refunds (insert_order_event e db) = db_ethflow_refunds db" "db_onchain_placed (insert_order_event e db) = db_onchain_placed db"
  "db_order_executions (insert_order_event e db) = db_order_executions db"
  by (simp_all add: insert_order_event_def)

lemma insert_interactions_Ok:
  "insert_interactions rows db = (Ok (), db') \<Longrightarrow> db' = db\<lparr>db_interactions := db_interactions db @ rows\<rparr>"
proof (induction rows arbitrary: db)
  case Nil
  then show ?case
    by (simp add: pret_def)
next
  case (Cons r rows)
  then have "insert_interactions rows (db\<lparr>db_interactions := db_interactions db @ [r]\<rparr>) = (Ok (), db')"
    by (auto simp: prog_Ok insert_interaction_def split: if_splits)
  from Cons.IH [OF this] show ?case
    by simp
qed

text \<open>What a stored order leaves in the tables.\<close>

lemma store_order_Ok:
  assumes "store_order now ord q db = (Ok (), db')"
  obtains row rows quotes app_data where
    "order_row_of ord = (Ok row :: (insertion_error, _) outcome)"
    "interaction_rows ord = (Ok rows :: (insertion_error, _) outcome)"
    "orow_uid row \<notin> orow_uid ` set (db_orders db)"
    "db' = (insert_order_event \<lparr>oe_order_uid = om_uid (o_metadata ord), oe_timestamp = now, oe_label = EventCreated\<rparr> db)
       \<lparr>db_orders := db_orders db @ [row], db_interactions := db_interactions db @ rows, db_order_quotes := quotes, db_app_data := app_data\<rparr>"
    "app_data = (case om_full_app_data (o_metadata ord) of
       None \<Rightarrow> db_app_data db | Some full \<Rightarrow> (db_app_data db)(od_app_data (o_data ord) \<mapsto> string_bytes full))"
proof -
  let ?e = "insert_order_event \<lparr>oe_order_uid = om_uid (o_metadata ord), oe_timestamp = now, oe_label = EventCreated\<rparr> db"
  obtain rows row db1 db2 where rows: "interaction_rows ord = (Ok rows :: (insertion_error, _) outcome)"
    and row: "order_row_of ord = (Ok row :: (insertion_error, _) outcome)"
    and new: "orow_uid row \<notin> orow_uid ` set (db_orders db)"
    and db1: "db1 = ?e\<lparr>db_orders := db_orders db @ [row], db_interactions := db_interactions db @ rows\<rparr>"
    and quote: "(case q of None \<Rightarrow> pret () | Some q \<Rightarrow> insert_quote (om_uid (o_metadata ord)) q) db1 = (Ok (), db2)"
    and app: "insert_order_app_data ord db2 = (Ok (), db')"
    using assms
    by (auto simp: store_order_def insert_order_def prog_Ok db_insert_order_def dest!: insert_interactions_Ok split: if_splits)
  obtain quotes where db2: "db2 = db1\<lparr>db_order_quotes := quotes\<rparr>"
  proof (cases q)
    case None
    then show thesis
      using quote by (intro that [of "db_order_quotes db1"]) (simp add: pret_def)
  next
    case (Some a)
    then show thesis
      using quote by (auto simp: insert_quote_def Let_def prog_Ok db_insert_quote_def split: if_splits intro: that)
  qed
  have "db' = db2\<lparr>db_app_data := (case om_full_app_data (o_metadata ord) of
       None \<Rightarrow> db_app_data db2 | Some full \<Rightarrow> (db_app_data db2)(od_app_data (o_data ord) \<mapsto> string_bytes full))\<rparr>"
    using app by (auto simp: insert_order_app_data_def app_data_insert_def fun_upd_idem split: option.splits if_splits)
  then show thesis
    using that [OF row rows new, where quotes = quotes and app_data = "case om_full_app_data (o_metadata ord) of
        None \<Rightarrow> db_app_data db | Some full \<Rightarrow> (db_app_data db)(od_app_data (o_data ord) \<mapsto> string_bytes full)"] db1 db2
    by (simp cong: option.case_cong)
qed

lemma order_row_uid:
  assumes "order_row_of ord = (Ok row :: ('e, _) outcome)"
  shows "orow_uid row = om_uid (o_metadata ord)" and "orow_cancellation_timestamp row = None"
  using assms by (auto simp: order_row_of_def outc)

section \<open>Reading an order back\<close>

text \<open>No other table knows the order.\<close>

definition fresh_order :: "order_uid \<Rightarrow> orders_db \<Rightarrow> bool" where
  "fresh_order uid db \<longleftrightarrow>
     uid \<notin> tr_order_uid ` set (db_trades db) \<and> uid \<notin> set (db_invalidations db) \<and> uid \<notin> set (db_onchain_invalidations db) \<and>
     uid \<notin> ps_order_uid ` set (db_presignatures db) \<and> db_ethflow_orders db uid = None \<and> db_onchain_placed db uid = None \<and>
     uid \<notin> fst ` set (db_order_executions db) \<and> uid \<notin> ir_order_uid ` set (db_interactions db)"

lemma enumerate_map: "enumerate n (map f xs) = map (\<lambda>(i, x). (i, f x)) (enumerate n xs)"
  by (induction xs arbitrary: n) simp_all

lemma raw_interactions_back:
  "raw_interactions (map (\<lambda>i. (int_target i, u256_to_big_decimal (int_value i), int_call_data i)) is) = Ok is"
  by (induction "is") simp_all

lemma select_interactions_append:
  assumes "uid \<notin> ir_order_uid ` set (db_interactions db)" "db_interactions db' = db_interactions db @ rows"
    and "interaction_rows ord = (Ok rows :: ('e, _) outcome)" "om_uid (o_metadata ord) = uid"
  shows "select_interactions ExecutePre uid db' =
      map (\<lambda>i. (int_target i, u256_to_big_decimal (int_value i), int_call_data i)) (ints_pre (o_interactions ord))"
    and "select_interactions ExecutePost uid db' =
      map (\<lambda>i. (int_target i, u256_to_big_decimal (int_value i), int_call_data i)) (ints_post (o_interactions ord))"
proof -
  let ?row = "\<lambda>execution (index, i). \<lparr>ir_order_uid = uid, ir_target = int_target i, ir_value = u256_to_big_decimal (int_value i),
       ir_data = int_call_data i, ir_index = int index, ir_execution = execution\<rparr>"
  let ?pre = "map (?row ExecutePre) (enumerate 0 (ints_pre (o_interactions ord)))"
  let ?post = "map (?row ExecutePost) (enumerate (length (ints_pre (o_interactions ord))) (ints_post (o_interactions ord)))"
  have rows: "rows = ?pre @ ?post"
    using assms(3,4) unfolding interaction_rows_def Let_def
    by (auto simp: enumerate_append_eq enumerate_map comp_def case_prod_unfold split: if_splits)
  have none: "filter (\<lambda>i. ir_order_uid i = uid \<and> P i) (db_interactions db) = []" for P
    using assms(1) by (auto simp: filter_empty_conv)
  have sorted: "sort_key ir_index (map (?row execution) (enumerate n is)) = map (?row execution) (enumerate n is)" for execution n "is"
  proof -
    have "map ir_index (map (?row execution) (enumerate n is)) = map int (map fst (enumerate n is))"
      by (simp del: map_fst_enumerate add: comp_def case_prod_unfold)
    moreover have "sorted (map int (map fst (enumerate n is)))"
      by (simp add: sorted_iff_nth_mono)
    ultimately show ?thesis
      by (intro sort_key_id_if_sorted) (simp only:)
  qed
  have raw: "map (\<lambda>i. (ir_target i, ir_value i, ir_data i)) (map (?row execution) (enumerate n is)) =
      map (\<lambda>i. (int_target i, u256_to_big_decimal (int_value i), int_call_data i)) is" for execution n "is"
    by (induction "is" arbitrary: n) simp_all
  have pre: "filter (\<lambda>i. ir_order_uid i = uid \<and> ir_execution i = ExecutePre) rows = ?pre"
    unfolding rows filter_append by (simp add: filter_map comp_def case_prod_unfold)
  have post: "filter (\<lambda>i. ir_order_uid i = uid \<and> ir_execution i = ExecutePost) rows = ?post"
    unfolding rows filter_append by (simp add: filter_map comp_def case_prod_unfold)
  show "select_interactions ExecutePre uid db' =
      map (\<lambda>i. (int_target i, u256_to_big_decimal (int_value i), int_call_data i)) (ints_pre (o_interactions ord))"
    unfolding select_interactions_def assms(2) filter_append none pre append_Nil sorted raw ..
  show "select_interactions ExecutePost uid db' =
      map (\<lambda>i. (int_target i, u256_to_big_decimal (int_value i), int_call_data i)) (ints_post (o_interactions ord))"
    unfolding select_interactions_def assms(2) filter_append none post append_Nil sorted raw ..
qed

lemma zero_decimal [simp]:
  "big_decimal_to_big_uint (BigDecimal 0 0) = Some 0" "big_decimal_to_u256 (BigDecimal 0 0) = Some 0"
  by (simp_all add: big_decimal_to_big_uint_def bd_value_def big_decimal_to_u256_Some)

lemma trade_sum_fresh: "uid \<notin> tr_order_uid ` set (db_trades db) \<Longrightarrow> trade_sum amount uid db = BigDecimal 0 0"
proof -
  assume "uid \<notin> tr_order_uid ` set (db_trades db)"
  then have "filter (\<lambda>t. tr_order_uid t = uid) (db_trades db) = []"
    by (auto simp: filter_empty_conv)
  then show ?thesis
    by (simp add: trade_sum_def)
qed

lemma sig_bytes_back:
  assumes "sig_to_bytes sig = (Ok bs :: ('e, _) outcome)"
  shows "sig_from_bytes (scheme sig) bs = Ok sig"
  using assms
  by (cases sig) (auto simp: sig_from_bytes_def ecdsa_to_bytes_eq ecdsa_from_to_bytes [OF ecdsa_to_bytes_eq])

lemma find_last_row: "(\<And>x. x \<in> set xs \<Longrightarrow> \<not> P x) \<Longrightarrow> P y \<Longrightarrow> find P (xs @ [y]) = Some y"
  by (induction xs) auto

lemma full_order_fields:
  "fo_uid (full_order_of db r) = orow_uid r"
  "fo_owner (full_order_of db r) = orow_owner r"
  "fo_creation_timestamp (full_order_of db r) = orow_creation_timestamp r"
  "fo_sell_token (full_order_of db r) = orow_sell_token r"
  "fo_buy_token (full_order_of db r) = orow_buy_token r"
  "fo_sell_amount (full_order_of db r) = orow_sell_amount r"
  "fo_buy_amount (full_order_of db r) = orow_buy_amount r"
  "fo_valid_to_row (full_order_of db r) = orow_valid_to r"
  "fo_app_data (full_order_of db r) = orow_app_data r"
  "fo_fee_amount (full_order_of db r) = orow_fee_amount r"
  "fo_full_fee_amount (full_order_of db r) = orow_full_fee_amount r"
  "fo_kind (full_order_of db r) = orow_kind r"
  "fo_class (full_order_of db r) = orow_class r"
  "fo_partially_fillable (full_order_of db r) = orow_partially_fillable r"
  "fo_signature (full_order_of db r) = orow_signature r"
  "fo_receiver (full_order_of db r) = orow_receiver r"
  "fo_signing_scheme (full_order_of db r) = orow_signing_scheme r"
  "fo_settlement_contract (full_order_of db r) = orow_settlement_contract r"
  "fo_sell_token_balance (full_order_of db r) = orow_sell_token_balance r"
  "fo_buy_token_balance (full_order_of db r) = orow_buy_token_balance r"
  "fo_full_app_data (full_order_of db r) = db_app_data db (orow_app_data r)"
  by (simp_all add: full_order_of_def Let_def)

text \<open>The metadata of an order nothing has happened to yet.\<close>

definition stored_metadata :: "int \<Rightarrow> order \<Rightarrow> order_metadata" where
  "stored_metadata now ord = (o_metadata ord)\<lparr>om_available_balance := None, om_executed_buy_amount := 0,
     om_executed_sell_amount := 0, om_executed_sell_amount_before_fees := 0, om_executed_fee_amount := 0,
     om_executed_surplus_fee := 0, om_invalidated := False,
     om_status := (if uint (od_valid_to (o_data ord)) < now then Expired
       else if scheme (o_signature ord) = SchemePreSign then PresignaturePending else Open),
     om_solver_fee := om_full_fee_amount (o_metadata ord), om_ethflow_data := None, om_onchain_order_data := None,
     om_onchain_user := None, om_is_liquidity_order := (om_class (o_metadata ord) = Liquidity)\<rparr>"

lemma stored_order_back:
  assumes store: "store_order now ord q db = (Ok (), db')" and fresh: "fresh_order (om_uid (o_metadata ord)) db"
    and full: "om_full_app_data (o_metadata ord) = Some full" "utf8 (string_bytes full)"
  shows "storing_single_order utf8 None now' (om_uid (o_metadata ord)) db' = Ok (Some (ord\<lparr>o_metadata := stored_metadata now' ord\<rparr>))"
  using store
proof (rule store_order_Ok)
  fix row rows quotes app_data
  assume row: "order_row_of ord = (Ok row :: (insertion_error, _) outcome)"
    and rows: "interaction_rows ord = (Ok rows :: (insertion_error, _) outcome)"
    and new: "orow_uid row \<notin> orow_uid ` set (db_orders db)"
    and db': "db' = (insert_order_event \<lparr>oe_order_uid = om_uid (o_metadata ord), oe_timestamp = now, oe_label = EventCreated\<rparr> db)
       \<lparr>db_orders := db_orders db @ [row], db_interactions := db_interactions db @ rows, db_order_quotes := quotes, db_app_data := app_data\<rparr>"
    and app: "app_data = (case om_full_app_data (o_metadata ord) of
       None \<Rightarrow> db_app_data db | Some full \<Rightarrow> (db_app_data db)(od_app_data (o_data ord) \<mapsto> string_bytes full))"
  let ?uid = "om_uid (o_metadata ord)"
  let ?fo = "full_order_of db' row"
  obtain bs where bs: "sig_to_bytes (o_signature ord) = (Ok bs :: (insertion_error, _) outcome)"
    using row by (auto simp: order_row_of_def outc)
  note row_eq = row [unfolded order_row_of_def bs obind.simps outcome.inject, symmetric]
  have uid: "orow_uid row = ?uid"
    using order_row_uid [OF row] by simp
  have "find (\<lambda>r. orow_uid r = ?uid) (db_orders db @ [row]) = Some row"
    by (rule find_last_row) (use new uid in \<open>auto simp: image_iff\<close>)
  then have found: "single_full_order ?uid db' = Some ?fo"
    by (simp add: single_full_order_def db')
  have ints: "fo_pre_interactions ?fo = map (\<lambda>i. (int_target i, u256_to_big_decimal (int_value i), int_call_data i)) (ints_pre (o_interactions ord))"
    "fo_post_interactions ?fo = map (\<lambda>i. (int_target i, u256_to_big_decimal (int_value i), int_call_data i)) (ints_post (o_interactions ord))"
    using select_interactions_append [of ?uid db db' rows ord, OF _ _ rows] fresh
    by (simp_all add: full_order_of_def uid Let_def fresh_order_def db')
  have tables: "db_trades db' = db_trades db" "db_invalidations db' = db_invalidations db" "db_onchain_invalidations db' = db_onchain_invalidations db"
    "db_presignatures db' = db_presignatures db" "db_ethflow_orders db' = db_ethflow_orders db" "db_onchain_placed db' = db_onchain_placed db"
    "db_order_executions db' = db_order_executions db"
    by (simp_all add: db')
  have scheme: "orow_signing_scheme row = scheme (o_signature ord)"
    by (simp add: row_eq)
  have other: "fo_sum_sell ?fo = BigDecimal 0 0" "fo_sum_buy ?fo = BigDecimal 0 0" "fo_sum_fee ?fo = BigDecimal 0 0"
    "\<not> fo_invalidated ?fo" "fo_ethflow_data ?fo = None" "fo_onchain_user ?fo = None"
    "fo_executed_surplus_fee ?fo = BigDecimal 0 0" "fo_presignature_pending ?fo \<longleftrightarrow> scheme (o_signature ord) = SchemePreSign"
  proof -
    have "filter (\<lambda>p. ps_order_uid p = ?uid) (db_presignatures db) = []" "filter (\<lambda>x. fst x = ?uid) (db_order_executions db) = []"
      using fresh by (force simp: fresh_order_def filter_empty_conv)+
    then show "fo_sum_sell ?fo = BigDecimal 0 0" "fo_sum_buy ?fo = BigDecimal 0 0" "fo_sum_fee ?fo = BigDecimal 0 0"
      "\<not> fo_invalidated ?fo" "fo_ethflow_data ?fo = None" "fo_onchain_user ?fo = None"
      "fo_executed_surplus_fee ?fo = BigDecimal 0 0" "fo_presignature_pending ?fo \<longleftrightarrow> scheme (o_signature ord) = SchemePreSign"
      using fresh trade_sum_fresh [of ?uid db'] tables order_row_uid [OF row] scheme
      by (simp_all add: full_order_of_def fresh_order_def presignature_pending_def Let_def)
  qed
  note fields = full_order_fields [of db' row]
  have row_fields: "orow_owner row = om_owner (o_metadata ord)" "orow_creation_timestamp row = om_creation_date (o_metadata ord)"
    "orow_full_fee_amount row = u256_to_big_decimal (om_full_fee_amount (o_metadata ord))" "orow_class row = om_class (o_metadata ord)"
    "orow_settlement_contract row = om_settlement_contract (o_metadata ord)" "orow_valid_to row = uint (od_valid_to (o_data ord))"
    "orow_app_data row = od_app_data (o_data ord)" "orow_signature row = bs"
    by (simp_all add: row_eq)
  have app: "fo_full_app_data ?fo = Some (string_bytes full)"
    unfolding fields row_fields by (simp add: db' app full)
  have data: "full_order_data ?fo = Ok (o_data ord)"
    using uint_lt2p [of "od_valid_to (o_data ord)"]
    by (simp add: full_order_data_def to_u256_def fields ok_or_def) (simp add: row_eq)
  have "calculate_status now' ?fo = om_status (stored_metadata now' ord)"
    using other(1-6,8)
    by (simp add: calculate_status_def is_buy_order_filled_def is_sell_order_filled_def fo_valid_to_def stored_metadata_def
        fields row_fields split: order_kind.split)
  then have metadata: "full_order_metadata utf8 now' ?fo = Ok (stored_metadata now' ord)"
    using other app full uid
    by (simp add: full_order_metadata_def to_u256_def ok_or_def stored_metadata_def fields row_fields)
  show ?thesis
    using found ints data metadata sig_bytes_back [OF bs] scheme
    by (simp add: storing_single_order_def full_order_into_model_order_def extract_interactions_def raw_interactions_back fields row_fields)
qed

end
