(* ===== verification/Order_Book.thy ===== *)
theory Order_Book
  imports Order_Storage
begin

text \<open>
  The order book service: the registry of app data (\<open>orderbook/src/app_data.rs\<close>, \<open>orderbook/src/database/app_data.rs\<close>), the quotes
  of the API (\<open>orderbook/src/quoter.rs\<close>), and creating, replacing and cancelling orders and their status
  (\<open>orderbook/src/orderbook.rs\<close>).

  The service is the record \<open>orderbook\<close>: its configuration, its validator with the second quoter for fast quotes, IPFS, the
  current time and an error of the database, if there is one; its state is that of the validator (with the quotes) and the tables
  of the orders. Metrics are left out.
\<close>

section \<open>The service\<close>

text \<open>The part of a stored competition that the status of an order shows.\<close>

datatype competition_order = Colocated order_uid u256 u256 | Legacy order_uid u256

record shown_solution =
  cs_solver :: string
  cs_orders :: "competition_order list"

record orderbook =
  bk_domain_separator :: h256
  bk_settlement_contract :: h160
  bk_order_validator :: validator
  bk_fast_quoter :: quoter
  bk_ipfs :: "(app_data_hash \<Rightarrow> string + string option) option"
  bk_from_utf8_lossy :: "bytes \<Rightarrow> string"
  bk_fault :: "string option"
  bk_now :: int
  bk_latest_competition :: "shown_solution list option"

record orderbook_state =
  bs_validation :: validator_state
  bs_db :: orders_db

type_synonym ('e, 'a) serving = "(orderbook_state, 'e, 'a) prog"

abbreviation in_db :: "(orders_db, 'e, 'a) prog \<Rightarrow> ('e, 'a) serving" where
  "in_db \<equiv> ppart bs_db (\<lambda>db s. s\<lparr>bs_db := db\<rparr>)"

abbreviation in_validation :: "(validator_state, 'e, 'a) prog \<Rightarrow> ('e, 'a) serving" where
  "in_validation \<equiv> ppart bs_validation (\<lambda>v s. s\<lparr>bs_validation := v\<rparr>)"

section \<open>App data registry\<close>

definition EMPTY_APP_DATA :: string where
  "EMPTY_APP_DATA = ''{}''"

definition get_full_app_data :: "orderbook \<Rightarrow> app_data_hash \<Rightarrow> orders_db \<Rightarrow> (string, string option) outcome" where
  "get_full_app_data b hash db =
     (case bk_fault b of
        Some e \<Rightarrow> Err e
      | None \<Rightarrow>
          (case app_data_fetch hash db of
             None \<Rightarrow> Ok None
           | Some bs \<Rightarrow> if adp_utf8 (ov_app_data_parser (bk_order_validator b)) bs then Ok (Some (bytes_string bs))
                        else Err ''app data is not utf-8''))"

datatype insert_error = InsertDuplicate | InsertMismatch string | InsertOther string

definition insert_full_app_data :: "orderbook \<Rightarrow> app_data_hash \<Rightarrow> string \<Rightarrow> (orders_db, insert_error, unit) prog" where
  "insert_full_app_data b hash full_app_data = (\<lambda>db.
     case bk_fault b of
       Some e \<Rightarrow> (Err (InsertOther e), db)
     | None \<Rightarrow>
         (case app_data_insert hash (string_bytes full_app_data) db of
            (None, db) \<Rightarrow> (Ok (), db)
          | (Some existing, db) \<Rightarrow>
              if existing \<noteq> string_bytes full_app_data
              then if adp_utf8 (ov_app_data_parser (bk_order_validator b)) existing
                   then (Err (InsertMismatch (bytes_string existing)), db) else (Err (InsertOther ''invalid utf-8''), db)
              else (Err InsertDuplicate, db)))"

datatype registered = New | AlreadyExisted

datatype register_error =
    RegisterInvalid app_data_error
  | RegisterHashMismatch app_data_hash app_data_hash
  | RegisterDataMismatch string
  | RegisterOther string

text \<open>The end of \<open>register\<close>, once the hash is known to be the expected one.\<close>

definition register_validated :: "orderbook \<Rightarrow> validated_app_data \<Rightarrow> (orders_db, register_error, registered \<times> app_data_hash) prog" where
  "register_validated b validated = (\<lambda>db.
     case insert_full_app_data b (va_hash validated) (va_document validated) db of
       (Ok _, db) \<Rightarrow> (Ok (New, va_hash validated), db)
     | (Err InsertDuplicate, db) \<Rightarrow> (Ok (AlreadyExisted, va_hash validated), db)
     | (Err (InsertMismatch existing), db) \<Rightarrow> (Err (RegisterDataMismatch existing), db)
     | (Err (InsertOther e), db) \<Rightarrow> (Err (RegisterOther e), db)
     | (Panic, db) \<Rightarrow> (Panic, db))"

definition register :: "orderbook \<Rightarrow> app_data_hash option \<Rightarrow> bytes \<Rightarrow> (orders_db, register_error, registered \<times> app_data_hash) prog" where
  "register b hash document =
     (let v = bk_order_validator b in
      pbind (plift (map_err RegisterInvalid
               (app_data_validate (ov_keccak v) (ov_app_data_parser v) (ov_app_data_size_limit v) document))) (\<lambda>validated.
      case hash of
        Some expected \<Rightarrow> if expected \<noteq> va_hash validated then plift (Err (RegisterHashMismatch expected (va_hash validated)))
                         else register_validated b validated
      | None \<Rightarrow> register_validated b validated))"

definition registry_find :: "orderbook \<Rightarrow> app_data_hash \<Rightarrow> orders_db \<Rightarrow> (string, string option) outcome" where
  "registry_find b hash db =
     (if hash = 0 then Ok (Some EMPTY_APP_DATA)
      else
        obind (get_full_app_data b hash db) (\<lambda>found.
        case found of
          Some app_data \<Rightarrow> Ok (Some app_data)
        | None \<Rightarrow>
            (case bk_ipfs b of
               None \<Rightarrow> Ok None
             | Some fetch \<Rightarrow> (case fetch hash of Inl e \<Rightarrow> Err e | Inr r \<Rightarrow> Ok r))))"

section \<open>Quotes\<close>

record order_quote_response =
  qre_quote :: order_quote
  qre_from :: h160
  qre_expiration :: int
  qre_id :: "quote_id option"
  qre_verified :: bool

datatype order_quote_error =
    QuoteAppData app_data_validation_error
  | QuoteOrder partial_validation_error
  | CalculateQuote calculate_quote_error

definition request_parameters :: "order_quote_request \<Rightarrow> order_app_data \<Rightarrow> quote_parameters" where
  "request_parameters r app_data =
     \<lparr>qp_sell_token = qr_sell_token r, qp_buy_token = qr_buy_token r, qp_side = qr_side r,
      qp_verification =
        \<lparr>vf_from = qr_from r, vf_receiver = (case qr_receiver r of Some a \<Rightarrow> a | None \<Rightarrow> qr_from r),
         vf_pre_interactions = ints_pre (oa_interactions app_data), vf_post_interactions = ints_post (oa_interactions app_data),
         vf_sell_token_source = qr_sell_token_balance r, vf_buy_token_destination = qr_buy_token_balance r\<rparr>,
      qp_signing_scheme = qr_signing_scheme r,
      qp_additional_gas = hooks_gas_limit (pa_hooks (va_protocol (oa_inner app_data)))\<rparr>"

definition quote_response :: "(bytes \<Rightarrow> h256) \<Rightarrow> order_quote_request \<Rightarrow> u32 \<Rightarrow> quote \<Rightarrow> order_quote_response" where
  "quote_response keccak r valid_to q =
     \<lparr>qre_quote =
        \<lparr>oq_sell_token = qr_sell_token r, oq_buy_token = qr_buy_token r, oq_receiver = qr_receiver r,
         oq_sell_amount = qt_sell_amount q, oq_buy_amount = qt_buy_amount q, oq_valid_to = valid_to,
         oq_app_data = (case qr_app_data r of
           AppDataFull full \<Rightarrow> AppDataBoth full (app_data_hash keccak (qr_app_data r)) | app_data \<Rightarrow> app_data),
         oq_fee_amount = qt_fee_amount q, oq_kind = qd_kind (qt_data q), oq_partially_fillable = False,
         oq_sell_token_balance = qr_sell_token_balance r, oq_buy_token_balance = qr_buy_token_balance r,
         oq_signing_scheme = signing_scheme_of_quote (qr_signing_scheme r)\<rparr>,
      qre_from = qr_from r, qre_expiration = qd_expiration (qt_data q), qre_id = qt_id q, qre_verified = qd_verified (qt_data q)\<rparr>"

text \<open>A fast quote is not stored and expires at once.\<close>

definition quote_of_quality :: "orderbook \<Rightarrow> price_quality \<Rightarrow> quote_parameters \<Rightarrow> (validator_state, calculate_quote_error, quote) prog" where
  "quote_of_quality b quality p =
     (case quality of
        Fast \<Rightarrow>
          pbind (plift (calculate_quote (bk_fast_quoter b) p)) (\<lambda>q.
          pret (q\<lparr>qt_data := (qt_data q)\<lparr>qd_expiration := 0\<rparr>\<rparr>))
      | _ \<Rightarrow>
          pbind (plift (calculate_quote (ov_quoter (bk_order_validator b)) p)) (\<lambda>q.
          ppart vs_quotes (\<lambda>t s. s\<lparr>vs_quotes := t\<rparr>)
            (pmap_err CalculateOther (store_quote (storage_save (ov_storage_fault (bk_order_validator b))) q))))"

definition handler_calculate_quote :: "orderbook \<Rightarrow> order_quote_request \<Rightarrow> (order_quote_error, order_quote_response) serving" where
  "handler_calculate_quote b r =
     (let v = bk_order_validator b in
      pbind (pread (\<lambda>s. case qr_app_data r of
               AppDataHash hash \<Rightarrow> (case registry_find b hash (bs_db s) of Ok found \<Rightarrow> found | _ \<Rightarrow> None)
             | _ \<Rightarrow> None)) (\<lambda>full_app_data_override.
      pbind (plift (map_err QuoteAppData (validate_app_data v (qr_app_data r) full_app_data_override))) (\<lambda>app_data.
      let pre_order = pre_order_of_request (ov_epoch_seconds v) r in
      pbind (in_validation (pmap_err QuoteOrder (partial_validate v pre_order))) (\<lambda>_.
      pbind (in_validation (pmap_err CalculateQuote (quote_of_quality b (qr_price_quality r) (request_parameters r app_data)))) (\<lambda>q.
      pret (quote_response (ov_keccak v) r (po_valid_to pre_order) q))))))"

section \<open>Orders\<close>

datatype order_cancellation_error =
    CancelInvalidSignature
  | CancelWrongOwner
  | CancelOrderNotFound
  | AlreadyCancelled
  | OrderFullyExecuted
  | OrderExpired
  | OnChainOrder
  | CancelOther string

datatype add_order_error =
    ReplacedOrderNotFound order_cancellation_error
  | DuplicatedOrder
  | OrderValidationFailed validation_error
  | DatabaseError string
  | InvalidAppDataFormat app_data_error
  | InvalidReplacement
  | AppDataMismatch app_data_hash string string

fun db_error_message :: "db_error \<Rightarrow> string" where
  "db_error_message DuplicateKey = ''duplicate key''"
| "db_error_message (DbFault e) = e"

definition from_insertion :: "orderbook \<Rightarrow> insertion_error \<Rightarrow> order \<Rightarrow> ('e, add_order_error) outcome" where
  "from_insertion b err ord =
     (case err of
        DuplicatedRecord \<Rightarrow> Ok DuplicatedOrder
      | DbError e \<Rightarrow> Ok (DatabaseError (db_error_message e))
      | InsertionAppDataMismatch existing \<Rightarrow>
          (case om_full_app_data (o_metadata ord) of
             None \<Rightarrow> Panic
           | Some provided \<Rightarrow> Ok (AppDataMismatch (od_app_data (o_data ord)) provided (bk_from_utf8_lossy b existing))))"

definition storing :: "orderbook \<Rightarrow> order \<Rightarrow> (orders_db, insertion_error, unit) prog \<Rightarrow> (add_order_error, unit) serving" where
  "storing b ord m = in_db (\<lambda>db. case m db of
     (Ok _, db) \<Rightarrow> (Ok (), db)
   | (Err e, db) \<Rightarrow> (obind (from_insertion b e ord) Err, db)
   | (Panic, db) \<Rightarrow> (Panic, db))"

definition find_order_for_cancellation :: "orderbook \<Rightarrow> order_uid \<Rightarrow> orders_db \<Rightarrow> (order_cancellation_error, order) outcome" where
  "find_order_for_cancellation b uid db =
     obind (map_err CancelOther
       (storing_single_order (adp_utf8 (ov_app_data_parser (bk_order_validator b))) (bk_fault b) (bk_now b) uid db)) (\<lambda>found.
     obind (ok_or found CancelOrderNotFound) (\<lambda>ord.
     case om_status (o_metadata ord) of
       PresignaturePending \<Rightarrow> Err OnChainOrder
     | Open \<Rightarrow> if \<not> is_ecdsa_scheme (scheme (o_signature ord)) then Err OnChainOrder else Ok ord
     | Fulfilled \<Rightarrow> Err OrderFullyExecuted
     | Cancelled \<Rightarrow> Err AlreadyCancelled
     | Expired \<Rightarrow> Err OrderExpired))"

fun find_orders_for_cancellation ::
  "orderbook \<Rightarrow> order_uid list \<Rightarrow> orders_db \<Rightarrow> (order_cancellation_error, order list) outcome" where
  "find_orders_for_cancellation b [] db = Ok []"
| "find_orders_for_cancellation b (uid # order_uids) db =
     obind (find_order_for_cancellation b uid db) (\<lambda>ord.
     obind (find_orders_for_cancellation b order_uids db) (\<lambda>orders.
     Ok (ord # orders)))"

definition cancel_orders :: "orderbook \<Rightarrow> signed_order_cancellations \<Rightarrow> (order_cancellation_error, unit) serving" where
  "cancel_orders b c =
     (let v = bk_order_validator b in
      pbind (pread (\<lambda>s. find_orders_for_cancellation b (cans_order_uids c) (bs_db s))) (\<lambda>found.
      pbind (plift found) (\<lambda>orders.
      pbind (plift (map_err (\<lambda>_. CancelInvalidSignature)
               (cancellations_validate (ov_keccak v) (ov_ec_recover v) c (bk_domain_separator b)))) (\<lambda>signer.
      if \<exists>ord \<in> set orders. signer \<noteq> om_owner (o_metadata ord) then plift (Err CancelWrongOwner)
      else in_db (pmap_err CancelOther (storing_cancel_orders (bk_fault b) (cans_order_uids c) (bk_now b)))))))"

definition cancel_order :: "orderbook \<Rightarrow> order_cancellation \<Rightarrow> (order_cancellation_error, unit) serving" where
  "cancel_order b c =
     (let v = bk_order_validator b in
      pbind (pread (\<lambda>s. find_order_for_cancellation b (can_order_uid c) (bs_db s))) (\<lambda>found.
      pbind (plift found) (\<lambda>ord.
      pbind (plift (map_err (\<lambda>_. CancelInvalidSignature)
               (cancellation_validate (ov_keccak v) (ov_ec_recover v) c (bk_domain_separator b)))) (\<lambda>signer.
      if signer \<noteq> om_owner (o_metadata ord) then plift (Err CancelWrongOwner)
      else in_db (pmap_err CancelOther (storing_cancel_order (bk_fault b) (om_uid (o_metadata ord)) (bk_now b)))))))"

definition get_replaced_order ::
  "orderbook \<Rightarrow> order_creation \<Rightarrow> string option \<Rightarrow> orders_db \<Rightarrow> (add_order_error, order option) outcome" where
  "get_replaced_order b c app_data_override db =
     (let v = bk_order_validator b;
          full_app_data = (case oc_app_data c of
            AppDataHash _ \<Rightarrow> app_data_override | AppDataBoth full _ \<Rightarrow> Some full | AppDataFull full \<Rightarrow> Some full)
      in case full_app_data of
           None \<Rightarrow> Ok None
         | Some full \<Rightarrow>
             obind (map_err InvalidAppDataFormat
               (app_data_validate (ov_keccak v) (ov_app_data_parser v) (2 ^ 64 - 1) (string_bytes full))) (\<lambda>validated.
             case pa_replaced_order (va_protocol validated) of
               None \<Rightarrow> Ok None
             | Some uid \<Rightarrow>
                 obind (map_err ReplacedOrderNotFound (find_order_for_cancellation b uid db)) (\<lambda>ord. Ok (Some ord))))"

definition replace_order :: "orderbook \<Rightarrow> order \<Rightarrow> order \<Rightarrow> quote option \<Rightarrow> (add_order_error, order_uid \<times> quote_id option) serving" where
  "replace_order b new_order old_order q =
     (if try_to_ecdsa_scheme (scheme (o_signature new_order)) = None then plift (Err InvalidReplacement)
      else if om_owner (o_metadata new_order) \<noteq> om_owner (o_metadata old_order) then plift (Err InvalidReplacement)
      else
        pbind (storing b new_order
          (storing_replace_order (bk_fault b) (bk_now b) (om_uid (o_metadata old_order)) new_order q)) (\<lambda>_.
        pret (om_uid (o_metadata new_order), Option.bind q qt_id)))"

definition add_order :: "orderbook \<Rightarrow> order_creation \<Rightarrow> (add_order_error, order_uid \<times> quote_id option) serving" where
  "add_order b c =
     pbind (pread (\<lambda>s. case oc_app_data c of AppDataHash hash \<Rightarrow> registry_find b hash (bs_db s) | _ \<Rightarrow> Ok None)) (\<lambda>found.
     pbind (plift (map_err DatabaseError found)) (\<lambda>full_app_data_override.
     pbind (pread (\<lambda>s. get_replaced_order b c full_app_data_override (bs_db s))) (\<lambda>replaced.
     pbind (plift replaced) (\<lambda>replaced_order.
     pbind (in_validation (pmap_err OrderValidationFailed
              (validate_and_construct_order (bk_order_validator b) c (bk_domain_separator b) (bk_settlement_contract b)
                 full_app_data_override))) (\<lambda>(ord, q).
     case replaced_order of
       Some old_order \<Rightarrow> replace_order b ord old_order q
     | None \<Rightarrow>
         pbind (storing b ord (storing_insert_order (bk_fault b) (bk_now b) ord q)) (\<lambda>_.
         pret (om_uid (o_metadata ord), Option.bind q qt_id)))))))"

definition get_order :: "orderbook \<Rightarrow> order_uid \<Rightarrow> orders_db \<Rightarrow> (string, order option) outcome" where
  "get_order b uid db = storing_single_order (adp_utf8 (ov_app_data_parser (bk_order_validator b))) (bk_fault b) (bk_now b) uid db"

section \<open>The status of an order\<close>

record solution_inclusion =
  si_solver :: string
  si_executed_amounts :: "(u256 \<times> u256) option"

datatype api_status =
    StatusOpen
  | StatusScheduled
  | StatusActive
  | StatusSolved "solution_inclusion list"
  | StatusExecuting "solution_inclusion list"
  | StatusTraded "solution_inclusion list"
  | StatusCancelled

fun find_executed :: "order_uid \<Rightarrow> competition_order list \<Rightarrow> (u256 \<times> u256) option" where
  "find_executed uid [] = None"
| "find_executed uid (Legacy _ _ # os) = find_executed uid os"
| "find_executed uid (Colocated i sell buy # os) = (if i = uid then Some (sell, buy) else find_executed uid os)"

definition fetch_solutions :: "orderbook \<Rightarrow> order_uid \<Rightarrow> solution_inclusion list" where
  "fetch_solutions b uid =
     (case bk_latest_competition b of
        None \<Rightarrow> []
      | Some solutions \<Rightarrow> map (\<lambda>s. \<lparr>si_solver = cs_solver s, si_executed_amounts = find_executed uid (cs_orders s)\<rparr>) solutions)"

definition get_order_status :: "orderbook \<Rightarrow> order_uid \<Rightarrow> orders_db \<Rightarrow> (string, api_status option) outcome" where
  "get_order_status b uid db =
     obind (storing_latest_order_event (bk_fault b) uid db) (\<lambda>event.
     case event of
       None \<Rightarrow> Ok None
     | Some event \<Rightarrow>
         Ok (Some (case oe_label event of
           EventReady \<Rightarrow> StatusActive
         | EventCreated \<Rightarrow> StatusScheduled
         | EventConsidered \<Rightarrow> StatusSolved (fetch_solutions b uid)
         | EventExecuting \<Rightarrow> StatusExecuting (fetch_solutions b uid)
         | EventTraded \<Rightarrow> StatusTraded (fetch_solutions b uid)
         | EventCancelled \<Rightarrow> StatusCancelled
         | EventFiltered \<Rightarrow> StatusOpen
         | EventInvalid \<Rightarrow> StatusOpen)))"

section \<open>Requests\<close>

datatype request =
    AddOrder order_creation
  | CancelOrder order_cancellation
  | CancelOrders signed_order_cancellations
  | RequestQuote order_quote_request
  | RegisterAppData "app_data_hash option" bytes

fun serve :: "orderbook \<Rightarrow> request \<Rightarrow> orderbook_state \<Rightarrow> orderbook_state" where
  "serve b (AddOrder c) s = snd (add_order b c s)"
| "serve b (CancelOrder c) s = snd (cancel_order b c s)"
| "serve b (CancelOrders c) s = snd (cancel_orders b c s)"
| "serve b (RequestQuote r) s = snd (handler_calculate_quote b r s)"
| "serve b (RegisterAppData hash document) s = snd (in_db (register b hash document) s)"

text \<open>A key of the owner has signed the request.\<close>

fun signed_by :: "orderbook \<Rightarrow> request \<Rightarrow> h160 \<Rightarrow> bool" where
  "signed_by b (AddOrder c) owner \<longleftrightarrow>
     (case hash_struct (ov_keccak (bk_order_validator b)) (oc_data (ov_keccak (bk_order_validator b)) c) of
        Ok h \<Rightarrow> (case sig_recover (ov_keccak (bk_order_validator b)) (ov_ec_recover (bk_order_validator b)) (oc_signature c) (bk_domain_separator b) h of
                  Ok (Some r) \<Rightarrow> rec_signer r = owner | _ \<Rightarrow> False)
      | (_ :: (verification_error, _) outcome) \<Rightarrow> False)"
| "signed_by b (CancelOrder c) owner \<longleftrightarrow>
     cancellation_validate (ov_keccak (bk_order_validator b)) (ov_ec_recover (bk_order_validator b)) c (bk_domain_separator b) = Ok owner"
| "signed_by b (CancelOrders c) owner \<longleftrightarrow>
     cancellations_validate (ov_keccak (bk_order_validator b)) (ov_ec_recover (bk_order_validator b)) c (bk_domain_separator b) = Ok owner"
| "signed_by b _ owner \<longleftrightarrow> False"

section \<open>Failed requests\<close>

lemma pkeeps_failed_pret: "pkeeps_failed g m \<Longrightarrow> pkeeps_failed g (pbind m (\<lambda>x. pret (h x)))"
  by (auto simp: pkeeps_failed_def pbind_def pret_def is_ok_def split: prod.split outcome.split) (metis fst_conv outcome.distinct snd_conv)+

lemma pkeeps_failed_plift: "pkeeps_failed g (plift r)"
  by (simp add: pkeeps_failed_def plift_def)

lemma pkeeps_failed_transaction: "pkeeps_failed id (transaction m)"
  by (auto simp: pkeeps_failed_def transaction_def is_ok_def split: prod.split outcome.split)

lemma storing_keeps_failed: "pkeeps_failed id m \<Longrightarrow> pkeeps_failed bs_db (storing b ord m)"
  by (auto simp: pkeeps_failed_def storing_def ppart_def is_ok_def split: prod.splits outcome.splits) (metis fst_conv outcome.distinct snd_conv)+

lemma storing_insert_keeps_failed: "pkeeps_failed id (storing_insert_order fault now ord q)"
  by (simp add: storing_insert_order_def pkeeps_failed_transaction pkeeps_failed_plift split: option.split)

lemma storing_replace_keeps_failed: "pkeeps_failed id (storing_replace_order fault now old ord q)"
  by (simp add: storing_replace_order_def pkeeps_failed_transaction pkeeps_failed_plift split: option.split)

lemma pkeeps_validation [pkeeps_intro]: "pkeeps bs_db (in_validation m)"
  by (intro pkeeps_intro) simp

lemma replace_order_keeps_failed: "pkeeps_failed bs_db (replace_order b ord old q)"
  unfolding replace_order_def
  by (simp add: pkeeps_failed_plift pkeeps_failed_pret storing_keeps_failed storing_replace_keeps_failed)

lemma add_order_keeps_failed: "pkeeps_failed bs_db (add_order b c)"
  unfolding add_order_def
  by (intro pkeeps_failed_pbind pkeeps_intro pkeeps_failed_prod)
    (simp add: replace_order_keeps_failed pkeeps_failed_pret storing_keeps_failed storing_insert_keeps_failed split: option.split)

lemma in_db_keeps_failed: "pkeeps_failed id m \<Longrightarrow> pkeeps_failed bs_db (in_db m)"
  by (auto simp: pkeeps_failed_def ppart_def is_ok_def split: prod.splits outcome.splits) (metis fst_conv snd_conv)+

lemma cancel_order_keeps_failed: "pkeeps_failed bs_db (cancel_order b c)" "pkeeps_failed bs_db (cancel_orders b d)"
proof -
  have "pkeeps_failed bs_db (in_db (pmap_err CancelOther (storing_cancel_order fault uid now)))"
    "pkeeps_failed bs_db (in_db (pmap_err CancelOther (storing_cancel_orders fault uids now)))" for fault uid uids now
    by (rule in_db_keeps_failed, simp add: pkeeps_failed_def storing_cancel_order_def storing_cancel_orders_def pmap_err_def
        pmodify_def plift_def is_ok_def split: option.split)+
  then show "pkeeps_failed bs_db (cancel_order b c)" "pkeeps_failed bs_db (cancel_orders b d)"
    unfolding cancel_order_def cancel_orders_def Let_def
    by (auto intro!: pkeeps_failed_pbind pkeeps_intro simp: pkeeps_failed_plift)
qed

section \<open>Orders are only cancelled\<close>

text \<open>The rows of the orders are kept, but those of which \<open>P\<close> holds may get a cancellation timestamp once.\<close>

definition rows_kept :: "(order_row \<Rightarrow> bool) \<Rightarrow> order_row list \<Rightarrow> order_row list \<Rightarrow> bool" where
  "rows_kept P rs rs' \<longleftrightarrow>
     length rs \<le> length rs' \<and>
     (\<forall>i < length rs. rs' ! i = rs ! i \<or>
        (P (rs ! i) \<and> orow_cancellation_timestamp (rs ! i) = None \<and> (\<exists>t. rs' ! i = (rs ! i)\<lparr>orow_cancellation_timestamp := Some t\<rparr>)))"

lemma rows_kept_refl: "rows_kept P rs rs"
  by (simp add: rows_kept_def)

lemma rows_kept_append: "rows_kept P rs (rs @ xs)"
  by (simp add: rows_kept_def nth_append)

lemma rows_kept_mono: "rows_kept P rs rs' \<Longrightarrow> (\<And>r. r \<in> set rs \<Longrightarrow> P r \<Longrightarrow> Q r) \<Longrightarrow> rows_kept Q rs rs'"
  unfolding rows_kept_def by (meson nth_mem)

lemma rows_kept_trans: "rows_kept P rs rs' \<Longrightarrow> rows_kept P rs' rs'' \<Longrightarrow> rows_kept P rs rs''"
  unfolding rows_kept_def
proof (intro conjI allI impI)
  fix i
  assume a: "length rs \<le> length rs' \<and> (\<forall>i < length rs. rs' ! i = rs ! i \<or>
        (P (rs ! i) \<and> orow_cancellation_timestamp (rs ! i) = None \<and> (\<exists>t. rs' ! i = (rs ! i)\<lparr>orow_cancellation_timestamp := Some t\<rparr>)))"
    and b: "length rs' \<le> length rs'' \<and> (\<forall>i < length rs'. rs'' ! i = rs' ! i \<or>
        (P (rs' ! i) \<and> orow_cancellation_timestamp (rs' ! i) = None \<and> (\<exists>t. rs'' ! i = (rs' ! i)\<lparr>orow_cancellation_timestamp := Some t\<rparr>)))"
    and i: "i < length rs"
  then have "i < length rs'"
    by simp
  with a b i show "rs'' ! i = rs ! i \<or>
        (P (rs ! i) \<and> orow_cancellation_timestamp (rs ! i) = None \<and> (\<exists>t. rs'' ! i = (rs ! i)\<lparr>orow_cancellation_timestamp := Some t\<rparr>))"
    by (metis order_row.select_convs(20) order_row.surjective order_row.update_convs(20) option.distinct(1))
qed simp

lemma cancel_rows: "rows_kept (\<lambda>r. orow_uid r = uid) (db_orders db) (db_orders (db_cancel_order uid t db))"
  by (auto simp: rows_kept_def db_cancel_order_def)

lemma cancel_uids: "map orow_uid (db_orders (db_cancel_order uid t db)) = map orow_uid (db_orders db)"
  by (simp add: db_cancel_order_def)

lemma cancel_events_orders [simp]: "db_orders (cancel_order_events now uid db) = db_orders (db_cancel_order uid now db)"
  by (simp add: cancel_order_events_def db_cancel_order_def)

lemma cancel_many_rows:
  "rows_kept (\<lambda>r. orow_uid r \<in> set order_uids) (db_orders db) (db_orders (fold (cancel_order_events now) order_uids db)) \<and>
   map orow_uid (db_orders (fold (cancel_order_events now) order_uids db)) = map orow_uid (db_orders db)"
proof (induction order_uids arbitrary: db)
  case Nil
  then show ?case
    by (simp add: rows_kept_refl)
next
  case (Cons uid order_uids)
  let ?db = "cancel_order_events now uid db"
  have "rows_kept (\<lambda>r. orow_uid r \<in> set (uid # order_uids)) (db_orders db) (db_orders ?db)"
    using cancel_rows [of uid db now] by (auto intro: rows_kept_mono)
  moreover have "rows_kept (\<lambda>r. orow_uid r \<in> set (uid # order_uids)) (db_orders ?db)
      (db_orders (fold (cancel_order_events now) order_uids ?db))"
    using Cons.IH [of ?db] by (auto intro: rows_kept_mono)
  ultimately show ?case
    using Cons.IH [of ?db] by (auto simp: cancel_uids intro: rows_kept_trans)
qed

lemma store_order_rows:
  assumes "store_order now ord q db = (Ok (), db')"
  shows "\<exists>row. db_orders db' = db_orders db @ [row] \<and> orow_uid row = om_uid (o_metadata ord) \<and>
    orow_owner row = om_owner (o_metadata ord) \<and> orow_uid row \<notin> orow_uid ` set (db_orders db)"
  using assms by (rule store_order_Ok) (auto simp: order_row_of_def outc)

text \<open>An order that is found for its cancellation is a row of the table.\<close>

lemma find_order_for_cancellation_Ok:
  assumes "find_order_for_cancellation b uid db = Ok ord"
  obtains row where "row \<in> set (db_orders db)" "orow_uid row = uid" "om_uid (o_metadata ord) = uid"
    "om_owner (o_metadata ord) = orow_owner row"
proof -
  obtain fo where fo: "single_full_order uid db = Some fo"
    and ord: "full_order_into_model_order (adp_utf8 (ov_app_data_parser (bk_order_validator b))) (bk_now b) fo = Ok ord"
    using assms
    by (auto simp: find_order_for_cancellation_def storing_single_order_def outc
        split: option.split_asm order_status.split_asm if_split_asm) (use order_status.exhaust in blast)+
  then obtain row where row: "find (\<lambda>r. orow_uid r = uid) (db_orders db) = Some row" "fo = full_order_of db row"
    by (auto simp: single_full_order_def)
  then have "row \<in> set (db_orders db)" "orow_uid row = uid"
    by (auto simp: find_Some_iff)
  moreover have "om_uid (o_metadata ord) = fo_uid fo" "om_owner (o_metadata ord) = fo_owner fo"
    using ord by (auto simp: full_order_into_model_order_def full_order_metadata_def outc)
  ultimately show thesis
    using that row(2) by (simp add: full_order_fields)
qed

text \<open>An order that was accepted, and who signed it.\<close>

lemma accepted_order_constructed:
  assumes "validate_and_construct_order v c domain contract override s = (Ok (ord, q), s')"
  obtains app_data owner uid where
    "validate_app_data v (oc_app_data c) override = Ok app_data"
    "verify_owner (ov_keccak v) (ov_ec_recover v) c domain (pa_signer (va_protocol (oa_inner app_data))) = Ok owner"
    "order_data_uid (ov_keccak v) (oc_data (ov_keccak v) c) domain owner = (Ok uid :: (validation_error, _) outcome)"
    "od_fee_amount (oc_data (ov_keccak v) c) = 0"
    "ord = constructed_order v c (oc_data (ov_keccak v) c) owner uid contract Limit app_data override"
  using assms
proof (rule accepted_order)
  fix app_data owner
  assume app: "validate_app_data v (oc_app_data c) override = Ok app_data"
    and own: "verify_owner (ov_keccak v) (ov_ec_recover v) c domain (pa_signer (va_protocol (oa_inner app_data))) = Ok owner"
    and rest: "validate_owned_order v c domain contract override app_data owner s = (Ok (ord, q), s')"
  show thesis
    by (rule validate_owned_order_Ok [OF rest validated_data [OF app]]) (rule that [OF app own])
qed

lemma ecdsa_owner_signed:
  assumes "verify_owner (ov_keccak (bk_order_validator b)) (ov_ec_recover (bk_order_validator b)) c (bk_domain_separator b) signer = Ok owner"
    and "try_to_ecdsa_scheme (scheme (oc_signature c)) \<noteq> None"
  shows "signed_by b (AddOrder c) owner"
proof -
  obtain h sender recovered where h: "hash_struct (ov_keccak (bk_order_validator b)) (oc_data (ov_keccak (bk_order_validator b)) c) = (Ok h :: (verification_error, _) outcome)"
    and r: "sig_recover (ov_keccak (bk_order_validator b)) (ov_ec_recover (bk_order_validator b)) (oc_signature c) (bk_domain_separator b) h = Ok recovered"
    and m: "match_recovered sender recovered = Ok owner"
    using assms(1) by (auto simp: verify_owner_def outc)
  moreover obtain sig where "recovered = Some sig"
    using assms(2) r by (cases "oc_signature c") (auto simp: outc)
  ultimately show ?thesis
    by (cases sender) (auto split: if_splits)
qed

lemma add_order_Ok:
  assumes "add_order b c s = (Ok r, s')"
  obtains override replaced ord q v where
    "get_replaced_order b c override (bs_db s) = Ok replaced"
    "validate_and_construct_order (bk_order_validator b) c (bk_domain_separator b) (bk_settlement_contract b) override (bs_validation s) =
       (Ok (ord, q), v)"
    "(case replaced of
       Some old_order \<Rightarrow> replace_order b ord old_order q
     | None \<Rightarrow> pbind (storing b ord (storing_insert_order (bk_fault b) (bk_now b) ord q)) (\<lambda>_.
         pret (om_uid (o_metadata ord), Option.bind q qt_id))) (s\<lparr>bs_validation := v\<rparr>) = (Ok r, s')"
proof -
  obtain override replaced p s1 where replaced: "get_replaced_order b c override (bs_db s) = Ok replaced"
    and valid: "in_validation (pmap_err OrderValidationFailed (validate_and_construct_order (bk_order_validator b) c
        (bk_domain_separator b) (bk_settlement_contract b) override)) s = (Ok p, s1)"
    and stored: "(case p of (ord, q) \<Rightarrow> case replaced of
       Some old_order \<Rightarrow> replace_order b ord old_order q
     | None \<Rightarrow> pbind (storing b ord (storing_insert_order (bk_fault b) (bk_now b) ord q)) (\<lambda>_.
         pret (om_uid (o_metadata ord), Option.bind q qt_id))) s1 = (Ok r, s')"
    using assms unfolding add_order_def pbind_Ok pread_Ok plift_Ok by blast
  then show thesis
    using that by (cases p) (auto simp: ppart_Ok pmap_err_Ok)
qed

lemma storing_Ok: "storing b ord m t = (Ok (), t') \<Longrightarrow> m (bs_db t) = (Ok (), bs_db t')"
  by (auto simp: storing_def prog_Ok outc split: prod.splits outcome.splits)

text \<open>The two ways to store an accepted order.\<close>

lemma add_order_stored:
  assumes "add_order b c s = (Ok r, s')"
  obtains override ord q v db where
    "validate_and_construct_order (bk_order_validator b) c (bk_domain_separator b) (bk_settlement_contract b) override (bs_validation s) =
       (Ok (ord, q), v)"
    "store_order (bk_now b) ord q db = (Ok (), bs_db s')" "r = (om_uid (o_metadata ord), Option.bind q qt_id)"
    "db = bs_db s \<or> (\<exists>uid old. find_order_for_cancellation b uid (bs_db s) = Ok old \<and>
       db = db_cancel_order (om_uid (o_metadata old)) (om_creation_date (o_metadata ord)) (bs_db s) \<and>
       try_to_ecdsa_scheme (scheme (o_signature ord)) \<noteq> None \<and> om_owner (o_metadata ord) = om_owner (o_metadata old))"
  using assms
proof (rule add_order_Ok)
  fix override replaced ord q v
  assume replaced: "get_replaced_order b c override (bs_db s) = Ok replaced"
    and valid: "validate_and_construct_order (bk_order_validator b) c (bk_domain_separator b) (bk_settlement_contract b) override
       (bs_validation s) = (Ok (ord, q), v)"
    and stored: "(case replaced of
       Some old_order \<Rightarrow> replace_order b ord old_order q
     | None \<Rightarrow> pbind (storing b ord (storing_insert_order (bk_fault b) (bk_now b) ord q)) (\<lambda>_.
         pret (om_uid (o_metadata ord), Option.bind q qt_id))) (s\<lparr>bs_validation := v\<rparr>) = (Ok r, s')"
  show thesis
  proof (cases replaced)
    case None
    then have "storing_insert_order (bk_fault b) (bk_now b) ord q (bs_db s) = (Ok (), bs_db s')"
      and r: "r = (om_uid (o_metadata ord), Option.bind q qt_id)"
      using stored by (auto simp: prog_Ok dest!: storing_Ok)
    then have "store_order (bk_now b) ord q (bs_db s) = (Ok (), bs_db s')"
      by (auto simp: storing_insert_order_def transaction_Ok plift_def split: option.splits)
    then show thesis
      using that [OF valid _ r] by blast
  next
    case (Some old)
    obtain uid where uid: "find_order_for_cancellation b uid (bs_db s) = Ok old"
      using replaced Some by (auto simp: get_replaced_order_def Let_def outc split: option.splits order_creation_app_data.splits)
    have "storing_replace_order (bk_fault b) (bk_now b) (om_uid (o_metadata old)) ord q (bs_db s) = (Ok (), bs_db s')"
      and r: "r = (om_uid (o_metadata ord), Option.bind q qt_id)"
      and scheme: "try_to_ecdsa_scheme (scheme (o_signature ord)) \<noteq> None" "om_owner (o_metadata ord) = om_owner (o_metadata old)"
      using stored Some by (auto simp: replace_order_def prog_Ok split: if_splits dest!: storing_Ok)
    then have "store_order (bk_now b) ord q (db_cancel_order (om_uid (o_metadata old)) (om_creation_date (o_metadata ord)) (bs_db s)) =
        (Ok (), bs_db s')"
      by (auto simp: storing_replace_order_def transaction_Ok prog_Ok split: option.splits)
    then show thesis
      using that [OF valid _ r] uid scheme by blast
  qed
qed

lemma cancel_found_rows:
  assumes "distinct (map orow_uid rs)" "row \<in> set rs" "orow_uid row = uid" "P row"
    and "rows_kept (\<lambda>r. orow_uid r = uid) rs rs'"
  shows "rows_kept P rs rs'"
proof (rule rows_kept_mono [OF assms(5)])
  fix r
  assume "r \<in> set rs" "orow_uid r = uid"
  then have "r = row"
    using assms(1-3) by (metis distinct_map inj_onD)
  then show "P r"
    using assms(4) by simp
qed

lemma add_order_rows:
  assumes distinct: "distinct (map orow_uid (db_orders (bs_db s)))" and "add_order b c s = (Ok r, s')"
  shows "rows_kept (\<lambda>r. signed_by b (AddOrder c) (orow_owner r)) (db_orders (bs_db s)) (db_orders (bs_db s')) \<and>
    distinct (map orow_uid (db_orders (bs_db s')))"
  using assms(2)
proof (rule add_order_stored)
  fix override ord q v db
  assume valid: "validate_and_construct_order (bk_order_validator b) c (bk_domain_separator b) (bk_settlement_contract b) override
      (bs_validation s) = (Ok (ord, q), v)"
    and stored: "store_order (bk_now b) ord q db = (Ok (), bs_db s')"
    and db: "db = bs_db s \<or> (\<exists>uid old. find_order_for_cancellation b uid (bs_db s) = Ok old \<and>
       db = db_cancel_order (om_uid (o_metadata old)) (om_creation_date (o_metadata ord)) (bs_db s) \<and>
       try_to_ecdsa_scheme (scheme (o_signature ord)) \<noteq> None \<and> om_owner (o_metadata ord) = om_owner (o_metadata old))"
  have "rows_kept (\<lambda>r. signed_by b (AddOrder c) (orow_owner r)) (db_orders (bs_db s)) (db_orders db) \<and> distinct (map orow_uid (db_orders db))"
    using db
  proof (elim disjE exE conjE)
    fix uid old
    assume found: "find_order_for_cancellation b uid (bs_db s) = Ok old"
      and db: "db = db_cancel_order (om_uid (o_metadata old)) (om_creation_date (o_metadata ord)) (bs_db s)"
      and scheme: "try_to_ecdsa_scheme (scheme (o_signature ord)) \<noteq> None"
      and same: "om_owner (o_metadata ord) = om_owner (o_metadata old)"
    obtain row where row: "row \<in> set (db_orders (bs_db s))" "orow_uid row = om_uid (o_metadata old)"
      "om_owner (o_metadata old) = orow_owner row"
      by (rule find_order_for_cancellation_Ok [OF found]) auto
    have "signed_by b (AddOrder c) (om_owner (o_metadata ord))"
      by (rule accepted_order_constructed [OF valid], rule ecdsa_owner_signed) (use scheme in \<open>auto simp: constructed_order_def\<close>)
    then show ?thesis
      using cancel_found_rows [OF distinct row(1,2), of "\<lambda>r. signed_by b (AddOrder c) (orow_owner r)"] cancel_rows same row(3)
        distinct by (simp add: db cancel_uids)
  qed (simp add: rows_kept_refl distinct)
  moreover obtain row where "db_orders (bs_db s') = db_orders db @ [row]" "orow_uid row \<notin> orow_uid ` set (db_orders db)"
    using store_order_rows [OF stored] by blast
  ultimately show ?thesis
    by (auto intro: rows_kept_trans rows_kept_append)
qed

lemma find_orders_Ok:
  assumes "find_orders_for_cancellation b order_uids db = Ok orders" "uid \<in> set order_uids"
  obtains ord where "ord \<in> set orders" "find_order_for_cancellation b uid db = Ok ord"
proof -
  have "\<exists>ord \<in> set orders. find_order_for_cancellation b uid db = Ok ord"
    using assms by (induction order_uids arbitrary: orders) (auto simp: outc)
  then show thesis
    using that by blast
qed

lemma cancel_order_rows:
  assumes distinct: "distinct (map orow_uid (db_orders (bs_db s)))" and "cancel_order b c s = (Ok (), s')"
  shows "rows_kept (\<lambda>r. signed_by b (CancelOrder c) (orow_owner r)) (db_orders (bs_db s)) (db_orders (bs_db s')) \<and>
    distinct (map orow_uid (db_orders (bs_db s')))"
proof -
  obtain ord where found: "find_order_for_cancellation b (can_order_uid c) (bs_db s) = Ok ord"
    and signed: "signed_by b (CancelOrder c) (om_owner (o_metadata ord))"
    and db: "bs_db s' = cancel_order_events (bk_now b) (om_uid (o_metadata ord)) (bs_db s)"
    using assms(2) by (auto simp: cancel_order_def Let_def prog_Ok outc storing_cancel_order_def split: if_splits option.splits)
  obtain row where row: "row \<in> set (db_orders (bs_db s))" "orow_uid row = om_uid (o_metadata ord)"
    "om_owner (o_metadata ord) = orow_owner row"
    by (rule find_order_for_cancellation_Ok [OF found]) auto
  then show ?thesis
    using cancel_found_rows [OF distinct row(1,2), of "\<lambda>r. signed_by b (CancelOrder c) (orow_owner r)"] signed cancel_rows distinct
    by (simp add: db cancel_uids)
qed

lemma cancel_orders_rows:
  assumes distinct: "distinct (map orow_uid (db_orders (bs_db s)))" and "cancel_orders b c s = (Ok (), s')"
  shows "rows_kept (\<lambda>r. signed_by b (CancelOrders c) (orow_owner r)) (db_orders (bs_db s)) (db_orders (bs_db s')) \<and>
    distinct (map orow_uid (db_orders (bs_db s')))"
proof -
  obtain orders where found: "find_orders_for_cancellation b (cans_order_uids c) (bs_db s) = Ok orders"
    and signed: "\<forall>ord \<in> set orders. signed_by b (CancelOrders c) (om_owner (o_metadata ord))"
    and db: "bs_db s' = fold (cancel_order_events (bk_now b)) (cans_order_uids c) (bs_db s)"
    using assms(2) by (auto simp: cancel_orders_def Let_def prog_Ok outc storing_cancel_orders_def split: if_splits option.splits)
  have "signed_by b (CancelOrders c) (orow_owner r)" if r: "r \<in> set (db_orders (bs_db s))" "orow_uid r \<in> set (cans_order_uids c)" for r
  proof -
    obtain ord where ord: "ord \<in> set orders" "find_order_for_cancellation b (orow_uid r) (bs_db s) = Ok ord"
      by (rule find_orders_Ok [OF found r(2)])
    obtain row where "row \<in> set (db_orders (bs_db s))" "orow_uid row = orow_uid r" "om_owner (o_metadata ord) = orow_owner row"
      by (rule find_order_for_cancellation_Ok [OF ord(2)]) auto
    then show ?thesis
      using signed ord(1) r(1) distinct by (metis distinct_map inj_onD)
  qed
  then show ?thesis
    using cancel_many_rows [of "cans_order_uids c" "bs_db s" "bk_now b"] distinct rows_kept_mono unfolding db by (metis (lifting))
qed

text \<open>
  The states of the service: it starts with no orders and serves requests at any time and with any configuration; other
  services change the other tables and add orders placed on chain under new uids.
\<close>

inductive book_reachable :: "orderbook_state \<Rightarrow> bool" where
  book_empty: "db_orders (bs_db s) = [] \<Longrightarrow> book_reachable s"
| book_request: "book_reachable s \<Longrightarrow> book_reachable (serve b r s)"
| book_elsewhere: "book_reachable s \<Longrightarrow> db_orders (bs_db s') = db_orders (bs_db s) @ rows \<Longrightarrow>
    distinct (map orow_uid (db_orders (bs_db s'))) \<Longrightarrow> book_reachable s'"

lemma failed_rows:
  assumes "pkeeps_failed bs_db m" "\<And>x s'. m s = (Ok x, s') \<Longrightarrow> P (bs_db s')" "P (bs_db s)"
  shows "P (bs_db (snd (m s)))"
proof (cases "is_ok (fst (m s))")
  case True
  then obtain x where "m s = (Ok x, snd (m s))"
    by (metis is_ok_def prod.collapse)
  then show ?thesis
    by (rule assms(2))
next
  case False
  then show ?thesis
    using assms(1,3) by (metis pkeeps_failed_def)
qed

lemma serve_rows:
  assumes "distinct (map orow_uid (db_orders (bs_db s)))"
  shows "rows_kept (\<lambda>row. signed_by b r (orow_owner row)) (db_orders (bs_db s)) (db_orders (bs_db (serve b r s))) \<and>
    distinct (map orow_uid (db_orders (bs_db (serve b r s))))"
proof -
  let ?P = "\<lambda>db. rows_kept (\<lambda>row. signed_by b r (orow_owner row)) (db_orders (bs_db s)) (db_orders db) \<and> distinct (map orow_uid (db_orders db))"
  have same: "?P (bs_db s)"
    using assms by (simp add: rows_kept_refl)
  show ?thesis
  proof (cases r)
    case (AddOrder c)
    then show ?thesis
      using failed_rows [OF add_order_keeps_failed, of b c s ?P] add_order_rows [OF assms] same by simp
  next
    case (CancelOrder c)
    then show ?thesis
      using failed_rows [OF cancel_order_keeps_failed(1), of b c s ?P] cancel_order_rows [OF assms] same by simp
  next
    case (CancelOrders c)
    then show ?thesis
      using failed_rows [OF cancel_order_keeps_failed(2), of b c s ?P] cancel_orders_rows [OF assms] same by simp
  next
    case (RequestQuote q)
    have "pkeeps bs_db (handler_calculate_quote b q)"
      unfolding handler_calculate_quote_def Let_def by (intro pkeeps_intro)
    then show ?thesis
      using same RequestQuote by (simp add: pkeeps_def)
  next
    case (RegisterAppData h doc)
    have "pkeeps db_orders (register_validated b v)" for v
      by (auto simp: pkeeps_def register_validated_def insert_full_app_data_def app_data_insert_def split: option.split)
    then have "pkeeps db_orders (register b h doc)"
      unfolding register_def Let_def by (intro pkeeps_intro)
    then have "db_orders (bs_db (serve b r s)) = db_orders (bs_db s)"
      using RegisterAppData by (simp add: pkeeps_def ppart_def split_def)
    then show ?thesis
      using same by simp
  qed
qed

lemma reachable_distinct: "book_reachable s \<Longrightarrow> distinct (map orow_uid (db_orders (bs_db s)))"
  by (induction rule: book_reachable.induct) (use serve_rows in auto)

text \<open>
  C3. No order is lost or changed once it is stored, whatever is requested: a request at most cancels orders, once each and only
  orders whose owner signed the request. In particular nobody can cancel an order by replacing it with an order that is not
  signed by its owner.
\<close>

theorem only_owner_cancels:
  assumes "book_reachable s"
  shows "rows_kept (\<lambda>row. signed_by b r (orow_owner row)) (db_orders (bs_db s)) (db_orders (bs_db (serve b r s)))"
  using serve_rows [OF reachable_distinct [OF assms]] by blast

section \<open>Reading an order back\<close>

lemma validated_document:
  assumes "validate_app_data v app_data override = Ok a"
  shows "\<exists>full. (case app_data of AppDataBoth full _ \<Rightarrow> Some full | AppDataFull full \<Rightarrow> Some full | AppDataHash _ \<Rightarrow> override) = Some full
    \<and> adp_utf8 (ov_app_data_parser v) (string_bytes full)"
  using assms
  by (auto simp: validate_app_data_def app_data_validate_def Let_def outc
      split: order_creation_app_data.splits option.splits if_splits)

lemma fresh_order_cancel [simp]: "fresh_order uid (db_cancel_order i t db) = fresh_order uid db"
  by (simp add: fresh_order_def db_cancel_order_def)

lemma accepted_order_back:
  assumes valid: "validate_and_construct_order v c domain contract override vs = (Ok (ord, q), vs')"
    and stored: "store_order now ord q db = (Ok (), db')" and fresh: "fresh_order (om_uid (o_metadata ord)) db"
  shows "storing_single_order (adp_utf8 (ov_app_data_parser v)) None now' (om_uid (o_metadata ord)) db' =
    Ok (Some (ord\<lparr>o_metadata := (o_metadata ord)\<lparr>om_status :=
      (if uint (oc_valid_to c) < now' then Expired else if oc_signature c = PreSign then PresignaturePending else Open)\<rparr>\<rparr>))"
  using valid
proof (rule accepted_order_constructed)
  fix app_data owner uid
  assume app: "validate_app_data v (oc_app_data c) override = Ok app_data"
    and fee: "od_fee_amount (oc_data (ov_keccak v) c) = 0"
    and ord: "ord = constructed_order v c (oc_data (ov_keccak v) c) owner uid contract Limit app_data override"
  obtain full where full: "om_full_app_data (o_metadata ord) = Some full" "adp_utf8 (ov_app_data_parser v) (string_bytes full)"
    using validated_document [OF app] by (auto simp: ord constructed_order_def)
  have "scheme (oc_signature c) = SchemePreSign \<longleftrightarrow> oc_signature c = PreSign"
    by (cases "oc_signature c") simp_all
  then have "stored_metadata now' ord = (o_metadata ord)\<lparr>om_status :=
      (if uint (oc_valid_to c) < now' then Expired else if oc_signature c = PreSign then PresignaturePending else Open)\<rparr>"
    using fee by (simp add: stored_metadata_def ord constructed_order_def oc_data_def)
  then show ?thesis
    using stored_order_back [of now ord q db db' full "adp_utf8 (ov_app_data_parser v)" now', OF stored fresh full] by simp
qed

text \<open>
  C8. An order that is added can be read again under the returned uid until something happens to it: with the data and the
  signature of its creation and the owner its signature was verified for; as expired after its validity, as pending while its
  signature is to be given on chain, and as open otherwise.
\<close>

theorem added_order_reads_back:
  fixes b b' :: orderbook
  assumes added: "add_order b c s = (Ok (uid, qid), s')" and fresh: "fresh_order uid (bs_db s)"
    and same: "ov_app_data_parser (bk_order_validator b') = ov_app_data_parser (bk_order_validator b)" and up: "bk_fault b' = None"
  shows "\<exists>ord signer. get_order b' uid (bs_db s') = Ok (Some ord) \<and>
    o_data ord = oc_data (ov_keccak (bk_order_validator b)) c \<and> o_signature ord = oc_signature c \<and> om_uid (o_metadata ord) = uid \<and>
    verify_owner (ov_keccak (bk_order_validator b)) (ov_ec_recover (bk_order_validator b)) c (bk_domain_separator b) signer =
      Ok (om_owner (o_metadata ord)) \<and>
    om_status (o_metadata ord) = (if uint (oc_valid_to c) < bk_now b' then Expired
      else if oc_signature c = PreSign then PresignaturePending else Open)"
  using added
proof (rule add_order_stored)
  fix override ord q v db
  assume valid: "validate_and_construct_order (bk_order_validator b) c (bk_domain_separator b) (bk_settlement_contract b) override
      (bs_validation s) = (Ok (ord, q), v)"
    and stored: "store_order (bk_now b) ord q db = (Ok (), bs_db s')" and r: "(uid, qid) = (om_uid (o_metadata ord), Option.bind q qt_id)"
    and db: "db = bs_db s \<or> (\<exists>uid old. find_order_for_cancellation b uid (bs_db s) = Ok old \<and>
       db = db_cancel_order (om_uid (o_metadata old)) (om_creation_date (o_metadata ord)) (bs_db s) \<and>
       try_to_ecdsa_scheme (scheme (o_signature ord)) \<noteq> None \<and> om_owner (o_metadata ord) = om_owner (o_metadata old))"
  have "fresh_order (om_uid (o_metadata ord)) db"
    using fresh r db by auto
  note read = accepted_order_back [OF valid stored this, of "bk_now b'"]
  obtain signer where "verify_owner (ov_keccak (bk_order_validator b)) (ov_ec_recover (bk_order_validator b)) c (bk_domain_separator b) signer =
      Ok (om_owner (o_metadata ord))" "o_data ord = oc_data (ov_keccak (bk_order_validator b)) c" "o_signature ord = oc_signature c"
    by (rule accepted_order_constructed [OF valid]) (auto simp: constructed_order_def)
  then show ?thesis
    using read r by (auto simp: get_order_def same up intro!: exI [of _ signer])
qed

section \<open>The status of a replaced order\<close>

lemma latest_event_other:
  "oe_order_uid e \<noteq> uid \<Longrightarrow> get_latest_event uid (insert_order_event e db) = get_latest_event uid db"
  by (simp add: get_latest_event_def insert_order_event_def)

lemma get_latest_event_cong: "db_order_events db = db_order_events db' \<Longrightarrow> get_latest_event uid db = get_latest_event uid db'"
  by (simp add: get_latest_event_def)

lemma store_order_latest_event:
  assumes "store_order now ord q db = (Ok (), db')" "uid \<noteq> om_uid (o_metadata ord)"
  shows "get_latest_event uid db' = get_latest_event uid db"
  using assms(1)
proof (rule store_order_Ok)
  fix row rows quotes app_data
  assume "db' = (insert_order_event \<lparr>oe_order_uid = om_uid (o_metadata ord), oe_timestamp = now, oe_label = EventCreated\<rparr> db)
       \<lparr>db_orders := db_orders db @ [row], db_interactions := db_interactions db @ rows, db_order_quotes := quotes, db_app_data := app_data\<rparr>"
  then have "db_order_events db' =
      db_order_events (insert_order_event \<lparr>oe_order_uid = om_uid (o_metadata ord), oe_timestamp = now, oe_label = EventCreated\<rparr> db)"
    by simp
  then show ?thesis
    using latest_event_other [of "\<lparr>oe_order_uid = om_uid (o_metadata ord), oe_timestamp = now, oe_label = EventCreated\<rparr>" uid db]
      assms(2) get_latest_event_cong by (metis order_event.select_convs(1))
qed

text \<open>
  C29. Replacing an order cancels it, but the status the API reports for it stays what it was, as no event is stored for the
  cancellation.
\<close>

theorem replaced_order_keeps_status:
  assumes replaced: "replace_order b new_order old_order q s = (Ok r, s')" and other: "om_uid (o_metadata new_order) \<noteq> om_uid (o_metadata old_order)"
  shows "get_order_status b' (om_uid (o_metadata old_order)) (bs_db s') = get_order_status b' (om_uid (o_metadata old_order)) (bs_db s) \<and>
    (\<forall>row \<in> set (db_orders (bs_db s')). orow_uid row = om_uid (o_metadata old_order) \<longrightarrow> orow_cancellation_timestamp row \<noteq> None)"
proof -
  let ?db = "db_cancel_order (om_uid (o_metadata old_order)) (om_creation_date (o_metadata new_order)) (bs_db s)"
  have "storing_replace_order (bk_fault b) (bk_now b) (om_uid (o_metadata old_order)) new_order q (bs_db s) = (Ok (), bs_db s')"
    using replaced by (auto simp: replace_order_def prog_Ok split: if_splits dest!: storing_Ok)
  then have stored: "store_order (bk_now b) new_order q ?db = (Ok (), bs_db s')"
    by (auto simp: storing_replace_order_def transaction_Ok prog_Ok split: option.splits)
  have "get_latest_event (om_uid (o_metadata old_order)) (bs_db s') = get_latest_event (om_uid (o_metadata old_order)) (bs_db s)"
    using store_order_latest_event [OF stored] other get_latest_event_cong [of ?db "bs_db s"] by (auto simp: db_cancel_order_def)
  then have "get_order_status b' (om_uid (o_metadata old_order)) (bs_db s') = get_order_status b' (om_uid (o_metadata old_order)) (bs_db s)"
    unfolding get_order_status_def storing_latest_order_event_def by (simp cong: option.case_cong)
  moreover obtain row where "db_orders (bs_db s') = db_orders ?db @ [row]" "orow_uid row = om_uid (o_metadata new_order)"
    using store_order_rows [OF stored] by blast
  moreover have "orow_cancellation_timestamp row \<noteq> None" if "row \<in> set (db_orders ?db)" "orow_uid row = om_uid (o_metadata old_order)" for row
    using that by (auto simp: db_cancel_order_def)
  ultimately show ?thesis
    using other by auto
qed

section \<open>The registry\<close>

lemma string_bytes_string [simp]: "string_bytes (bytes_string bs) = bs"
proof -
  have "(of_char (char_of (unat x) :: char) :: 8 word) = x" for x :: "8 word"
  proof -
    have "unat (of_char (char_of (unat x) :: char) :: 8 word) = unat x mod 256"
      by (simp only: unat_of_char of_char_of)
    then show ?thesis
      using unat_bound [of x] by (simp add: word_unat_eq_iff)
  qed
  then show ?thesis
    by (induction bs) (simp_all add: string_bytes_def bytes_string_def)
qed

text \<open>
  A document that was registered is found again under its hash, whether it is new or was known before; only the hash zero
  always stands for the empty document.
\<close>

theorem registered_app_data_found:
  assumes "register b expected document db = (Ok (registered, hash), db')"
  shows "hash = ov_keccak (bk_order_validator b) document \<and>
    registry_find b hash db' = Ok (Some (if hash = 0 then ''{}'' else bytes_string document))"
proof -
  let ?v = "bk_order_validator b"
  obtain validated where valid: "app_data_validate (ov_keccak ?v) (ov_app_data_parser ?v) (ov_app_data_size_limit ?v) document = Ok validated"
    and stored: "register_validated b validated db = (Ok (registered, hash), db')"
    using assms by (auto simp: register_def Let_def prog_Ok outc split: option.splits if_splits)
  have validated: "va_hash validated = ov_keccak ?v document" "va_document validated = bytes_string document" "adp_utf8 (ov_app_data_parser ?v) document"
    using app_data_validate_Ok [OF valid] valid by (auto simp: hash_full_app_data_def app_data_validate_def split: if_splits)
  have "hash = va_hash validated" "bk_fault b = None" "db_app_data db' hash = Some document"
    using stored
    by (auto simp: register_validated_def insert_full_app_data_def app_data_insert_def validated
        split: option.splits if_splits insert_error.splits)
  then show ?thesis
    using validated by (simp add: registry_find_def get_full_app_data_def app_data_fetch_def EMPTY_APP_DATA_def)
qed

section \<open>Quotes\<close>

text \<open>The table of quotes with the row of a quote, under the next id of the sequence.\<close>

definition quote_added :: "quote_data \<Rightarrow> quotes_table \<Rightarrow> quotes_table" where
  "quote_added data t =
     \<lparr>tb_rows = tb_rows t @ [(create_quote_row data)\<lparr>row_id := tb_next_id t\<rparr>], tb_next_id = tb_next_id t + 1\<rparr>"

lemma storage_save_Ok:
  "storage_save fault data t = (Ok i, t') \<Longrightarrow> i = tb_next_id t \<and> t' = quote_added data t"
  by (auto simp: storage_save_def db_quotes_save_def quote_added_def plift_def split: option.splits)

lemma quote_of_quality_Ok:
  assumes "quote_of_quality b quality p s = (Ok q, s')"
  obtains q0 where
    "calculate_quote (if quality = Fast then bk_fast_quoter b else ov_quoter (bk_order_validator b)) p = Ok q0"
    "if quality = Fast then q = q0\<lparr>qt_data := (qt_data q0)\<lparr>qd_expiration := 0\<rparr>\<rparr> \<and> qt_id q0 = None \<and> s' = s
     else q = q0\<lparr>qt_id := Some (tb_next_id (vs_quotes s))\<rparr> \<and> s' = s\<lparr>vs_quotes := quote_added (qt_data q0) (vs_quotes s)\<rparr>"
proof (cases "quality = Fast")
  case True
  then obtain q0 where "calculate_quote (bk_fast_quoter b) p = Ok q0" "q = q0\<lparr>qt_data := (qt_data q0)\<lparr>qd_expiration := 0\<rparr>\<rparr>" "s' = s"
    using assms by (auto simp: quote_of_quality_def prog_Ok)
  moreover from this have "qt_id q0 = None"
    using calculate_quote_Ok by blast
  ultimately show thesis
    using True that by auto
next
  case False
  then obtain q0 t where calc: "calculate_quote (ov_quoter (bk_order_validator b)) p = Ok q0" and s': "s' = s\<lparr>vs_quotes := t\<rparr>"
    and store: "store_quote (storage_save (ov_storage_fault (bk_order_validator b))) q0 (vs_quotes s) = (Ok q, t)"
    using assms by (cases quality) (auto simp: quote_of_quality_def prog_Ok)
  obtain i where q: "q = q0\<lparr>qt_id := Some i\<rparr>" and save: "storage_save (ov_storage_fault (bk_order_validator b)) (qt_data q0) (vs_quotes s) = (Ok i, t)"
    using store by (auto simp: store_quote_def prog_Ok)
  show thesis
    using False calc q s' storage_save_Ok [OF save] that by auto
qed

text \<open>
  C23. A quote is only returned for an admissible request. It has the amount that was asked for (before fees, the sell amount and
  the fee add up to it) and app data with the hash of the request, and its amounts, fee and verification are those of the quote that
  was calculated for the tokens, side and validated app data of the request. A fast quote is not stored and has expired. Any other quote is stored: the table of
  quotes gets exactly one row, after all those it had, with the tokens, quoted amounts, fee parameters, kind, solver and expiration of this quote
  under the next id of the sequence, and that id is returned. Nothing else changes but the cache of banned users.
\<close>

theorem quote_response_exact:
  assumes "handler_calculate_quote b r s = (Ok resp, s')"
  defines "v \<equiv> bk_order_validator b" and "old \<equiv> vs_quotes (bs_validation s)"
  defines "full \<equiv> case qr_app_data r of
    AppDataHash hash \<Rightarrow> (case registry_find b hash (bs_db s) of Ok found \<Rightarrow> found | _ \<Rightarrow> None) | _ \<Rightarrow> None"
  shows "admissible v (vs_banned_users (bs_validation s)) (pre_order_of_request (ov_epoch_seconds v) r) \<and> bs_db s' = bs_db s \<and>
    (case qr_side r of
       QuoteSell (BeforeFee a) \<Rightarrow> oq_kind (qre_quote resp) = Sell \<and>
         unat (oq_sell_amount (qre_quote resp)) + unat (oq_fee_amount (qre_quote resp)) = unat a
     | QuoteSell (AfterFee a) \<Rightarrow> oq_kind (qre_quote resp) = Sell \<and> oq_sell_amount (qre_quote resp) = a
     | QuoteBuy a \<Rightarrow> oq_kind (qre_quote resp) = Buy \<and> oq_buy_amount (qre_quote resp) = a) \<and>
    app_data_hash (ov_keccak v) (oq_app_data (qre_quote resp)) = app_data_hash (ov_keccak v) (qr_app_data r) \<and>
    (\<exists>app_data q. validate_app_data v (qr_app_data r) full = Ok app_data \<and>
       calculate_quote (if qr_price_quality r = Fast then bk_fast_quoter b else ov_quoter v) (request_parameters r app_data) = Ok q \<and>
       qd_sell_token (qt_data q) = qr_sell_token r \<and> qd_buy_token (qt_data q) = qr_buy_token r \<and>
       oq_sell_amount (qre_quote resp) = qt_sell_amount q \<and> oq_buy_amount (qre_quote resp) = qt_buy_amount q \<and>
       oq_fee_amount (qre_quote resp) = qt_fee_amount q \<and> qre_verified resp = qd_verified (qt_data q) \<and>
       (if qr_price_quality r = Fast
        then qre_id resp = None \<and> qre_expiration resp = 0 \<and> vs_quotes (bs_validation s') = old
        else qre_id resp = Some (tb_next_id old) \<and> qre_expiration resp = qd_expiration (qt_data q) \<and>
          vs_quotes (bs_validation s') = \<lparr>tb_rows = tb_rows old @ [(create_quote_row (qt_data q))\<lparr>row_id := tb_next_id old\<rparr>],
            tb_next_id = tb_next_id old + 1\<rparr>))"
proof -
  let ?pre = "pre_order_of_request (ov_epoch_seconds v) r"
  obtain app_data s1 q s2 where app: "validate_app_data v (qr_app_data r) full = Ok app_data"
    and part: "partial_validate v ?pre (bs_validation s) = (Ok (), s1)"
    and quality: "quote_of_quality b (qr_price_quality r) (request_parameters r app_data) s1 = (Ok q, s2)"
    and resp: "resp = quote_response (ov_keccak v) r (po_valid_to ?pre) q" and s': "bs_validation s' = s2" "bs_db s' = bs_db s"
    using assms(1) by (auto simp: handler_calculate_quote_def Let_def prog_Ok outc v_def full_def)
  have adm: "admissible v (vs_banned_users (bs_validation s)) ?pre"
    using partial_validate_Ok [of v ?pre "bs_validation s"] part by simp
  have quotes: "vs_quotes s1 = old"
    unfolding old_def by (rule partial_validate_keeps_quotes [OF part])
  obtain q0 where calc: "calculate_quote (if qr_price_quality r = Fast then bk_fast_quoter b else ov_quoter v) (request_parameters r app_data) = Ok q0"
    and q: "if qr_price_quality r = Fast then q = q0\<lparr>qt_data := (qt_data q0)\<lparr>qd_expiration := 0\<rparr>\<rparr> \<and> qt_id q0 = None \<and> s2 = s1
      else q = q0\<lparr>qt_id := Some (tb_next_id old)\<rparr> \<and> s2 = s1\<lparr>vs_quotes := quote_added (qt_data q0) old\<rparr>"
    using quote_of_quality_Ok [OF quality] unfolding v_def quotes by blast
  have fields: "qp_side (request_parameters r app_data) = qr_side r" "qp_sell_token (request_parameters r app_data) = qr_sell_token r"
    "qp_buy_token (request_parameters r app_data) = qr_buy_token r"
    by (simp_all add: request_parameters_def)
  note q0 = calculate_quote_Ok [OF calc, unfolded fields]
  have same: "qt_sell_amount q = qt_sell_amount q0" "qt_buy_amount q = qt_buy_amount q0" "qt_fee_amount q = qt_fee_amount q0"
    "qd_kind (qt_data q) = qd_kind (qt_data q0)" "qd_verified (qt_data q) = qd_verified (qt_data q0)"
    using q by (simp_all split: if_splits)
  have amounts: "case qr_side r of
       QuoteSell (BeforeFee a) \<Rightarrow> oq_kind (qre_quote resp) = Sell \<and>
         unat (oq_sell_amount (qre_quote resp)) + unat (oq_fee_amount (qre_quote resp)) = unat a
     | QuoteSell (AfterFee a) \<Rightarrow> oq_kind (qre_quote resp) = Sell \<and> oq_sell_amount (qre_quote resp) = a
     | QuoteBuy a \<Rightarrow> oq_kind (qre_quote resp) = Buy \<and> oq_buy_amount (qre_quote resp) = a"
    using q0 same resp by (simp add: quote_response_def split: order_quote_side.splits sell_amount.splits)
  have "app_data_hash (ov_keccak v) (oq_app_data (qre_quote resp)) = app_data_hash (ov_keccak v) (qr_app_data r)"
    by (simp add: resp quote_response_def split: order_creation_app_data.split)
  moreover have "if qr_price_quality r = Fast
      then qre_id resp = None \<and> qre_expiration resp = 0 \<and> vs_quotes (bs_validation s') = old
      else qre_id resp = Some (tb_next_id old) \<and> qre_expiration resp = qd_expiration (qt_data q0) \<and>
        vs_quotes (bs_validation s') = quote_added (qt_data q0) old"
    using q s' quotes resp by (simp add: quote_response_def split: if_splits)
  moreover have "oq_sell_amount (qre_quote resp) = qt_sell_amount q0" "oq_buy_amount (qre_quote resp) = qt_buy_amount q0"
    "oq_fee_amount (qre_quote resp) = qt_fee_amount q0" "qre_verified resp = qd_verified (qt_data q0)"
    using same by (simp_all add: resp quote_response_def)
  ultimately show ?thesis
    using adm s'(2) amounts app calc q0 unfolding quote_added_def
    by (intro conjI exI [of _ app_data] exI [of _ q0]) (simp_all only:)
qed

section \<open>An example\<close>

definition example_book :: orderbook where
  "example_book =
     \<lparr>bk_domain_separator = 0, bk_settlement_contract = 9, bk_order_validator = example_validator, bk_fast_quoter = example_quoter,
      bk_ipfs = None, bk_from_utf8_lossy = bytes_string, bk_fault = None, bk_now = 100, bk_latest_competition = None\<rparr>"

definition empty_db :: orders_db where
  "empty_db =
     \<lparr>db_orders = [], db_interactions = [], db_order_quotes = [], db_order_events = [], db_app_data = Map.empty, db_trades = [],
      db_invalidations = [], db_onchain_invalidations = [], db_presignatures = [], db_ethflow_orders = Map.empty,
      db_ethflow_refunds = Map.empty, db_onchain_placed = Map.empty, db_order_executions = []\<rparr>"

definition example_book_state :: orderbook_state where
  "example_book_state = \<lparr>bs_validation = example_validator_state, bs_db = empty_db\<rparr>"

text \<open>An order without interactions is stored in empty tables.\<close>

lemma example_store:
  assumes "o_signature ord = PreSign \<or> (\<exists>sig. o_signature ord = Eip712 sig)" "o_interactions ord = \<lparr>ints_pre = [], ints_post = []\<rparr>"
    and "om_uid (o_metadata ord) \<notin> orow_uid ` set (db_orders db)" "om_uid (o_metadata ord) \<notin> oqr_order_uid ` set (db_order_quotes db)"
    and "om_full_app_data (o_metadata ord) = Some full" "db_app_data db (od_app_data (o_data ord)) \<in> {None, Some (string_bytes full)}"
  shows "\<exists>db'. store_order now ord q db = (Ok (), db')"
proof -
  obtain row where row: "order_row_of ord = (Ok row :: (insertion_error, _) outcome)" "orow_uid row = om_uid (o_metadata ord)"
    using assms(1) by (auto simp: order_row_of_def ecdsa_to_bytes_eq)
  have rows: "interaction_rows ord = (Ok [] :: (insertion_error, _) outcome)"
    by (simp add: interaction_rows_def assms(2))
  have "\<exists>db1. insert_order now ord db = (Ok (), db1) \<and> db_order_quotes db1 = db_order_quotes db \<and> db_app_data db1 = db_app_data db"
    using assms(3) row(2)
    by (simp add: insert_order_def rows row(1) pbind_def pmodify_def plift_def pmap_err_def db_insert_order_def pret_def)
  then obtain db1 where db1: "insert_order now ord db = (Ok (), db1)" "db_order_quotes db1 = db_order_quotes db" "db_app_data db1 = db_app_data db"
    by blast
  have "\<exists>db2. (case q of None \<Rightarrow> pret () | Some q \<Rightarrow> insert_quote (om_uid (o_metadata ord)) q) db1 = (Ok (), db2) \<and> db_app_data db2 = db_app_data db"
    using assms(4) db1 by (auto simp: insert_quote_def Let_def pmap_err_def db_insert_quote_def pret_def split: option.split)
  then show ?thesis
    using assms(5,6) db1 by (auto simp: store_order_def pbind_def insert_order_app_data_def app_data_insert_def split: option.split)
qed

lemma example_not_replaced: "get_replaced_order example_book example_creation None db = Ok None"
  by (simp add: get_replaced_order_def example_book_def example_creation_def Let_def app_data_validate_def example_validator_def
      example_root_def default_protocol_app_data_def string_bytes_def)

lemma example_added: "\<exists>uid s'. add_order example_book example_creation example_book_state = (Ok (uid, Some 1), s')"
proof -
  obtain ord v where valid: "validate_and_construct_order example_validator example_creation 0 9 None example_validator_state = (Ok (ord, Some example_created), v)"
    using example_accepted by blast
  have fields: "o_signature ord = PreSign" "o_interactions ord = \<lparr>ints_pre = [], ints_post = []\<rparr>" "om_full_app_data (o_metadata ord) = Some []"
  proof (atomize (full), rule accepted_order_constructed [OF valid])
    fix app_data owner uid
    assume "validate_app_data example_validator (oc_app_data example_creation) None = Ok app_data"
      and ord: "ord = constructed_order example_validator example_creation (oc_data (ov_keccak example_validator) example_creation)
        owner uid 9 Limit app_data None"
    moreover have "oc_app_data example_creation = AppDataFull []"
      by (simp add: example_creation_def)
    ultimately have "app_data = example_app_data"
      using example_app_data_valid by simp
    then show "o_signature ord = PreSign \<and> o_interactions ord = \<lparr>ints_pre = [], ints_post = []\<rparr> \<and> om_full_app_data (o_metadata ord) = Some []"
      by (simp add: ord constructed_order_def example_creation_def example_app_data_def)
  qed
  obtain db' where "store_order 100 ord (Some example_created) empty_db = (Ok (), db')"
    using example_store [of ord empty_db "[]" 100 "Some example_created"] fields by (auto simp: empty_db_def)
  then have "storing example_book ord (storing_insert_order None 100 ord (Some example_created)) (example_book_state\<lparr>bs_validation := v\<rparr>) =
      (Ok (), \<lparr>bs_validation = v, bs_db = db'\<rparr>)"
    by (simp add: storing_def ppart_def storing_insert_order_def transaction_def example_book_state_def)
  moreover have "oc_app_data example_creation = AppDataFull []"
    by (simp add: example_creation_def)
  moreover have "in_validation (pmap_err OrderValidationFailed (validate_and_construct_order example_validator example_creation 0 9 None))
      example_book_state = (Ok (ord, Some example_created), example_book_state\<lparr>bs_validation := v\<rparr>)"
    by (simp add: ppart_def pmap_err_def example_book_state_def valid)
  ultimately show ?thesis
    using example_not_replaced
    by (simp add: add_order_def example_book_def pbind_def pread_def plift_def pret_def example_created_def)
qed

theorem added_order_reads_back_witness:
  "\<exists>uid s' ord. add_order example_book example_creation example_book_state = (Ok (uid, Some 1), s') \<and>
     get_order example_book uid (bs_db s') = Ok (Some ord) \<and> om_status (o_metadata ord) = PresignaturePending"
proof -
  obtain uid s' where added: "add_order example_book example_creation example_book_state = (Ok (uid, Some 1), s')"
    using example_added by blast
  have "fresh_order uid (bs_db example_book_state)" "bk_fault example_book = None"
    by (simp_all add: fresh_order_def example_book_state_def empty_db_def example_book_def)
  from added_order_reads_back [OF added this(1) refl this(2)] show ?thesis
    using added by (auto simp: example_creation_def example_book_def)
qed

theorem only_owner_cancels_witness:
  "db_orders (bs_db (serve example_book (AddOrder example_creation) example_book_state)) \<noteq> [] \<and>
   rows_kept (\<lambda>row. signed_by example_book (AddOrder example_creation) (orow_owner row))
     (db_orders (bs_db (serve example_book (AddOrder example_creation) example_book_state)))
     (db_orders (bs_db (serve example_book (AddOrder example_creation) (serve example_book (AddOrder example_creation) example_book_state))))"
proof
  obtain uid s' where added: "add_order example_book example_creation example_book_state = (Ok (uid, Some 1), s')"
    using example_added by blast
  then have "db_orders (bs_db s') \<noteq> []"
    by (rule add_order_stored) (auto dest: store_order_rows)
  then show "db_orders (bs_db (serve example_book (AddOrder example_creation) example_book_state)) \<noteq> []"
    by (simp add: added)
  have "book_reachable example_book_state"
    by (rule book_empty) (simp add: example_book_state_def empty_db_def)
  then show "rows_kept (\<lambda>row. signed_by example_book (AddOrder example_creation) (orow_owner row))
     (db_orders (bs_db (serve example_book (AddOrder example_creation) example_book_state)))
     (db_orders (bs_db (serve example_book (AddOrder example_creation) (serve example_book (AddOrder example_creation) example_book_state))))"
    by (rule only_owner_cancels [OF book_request])
qed

definition example_book_order :: "order_uid \<Rightarrow> order" where
  "example_book_order uid = constructed_order example_validator
     (example_creation\<lparr>oc_signature := Eip712 \<lparr>sig_r = 0, sig_s = 0, sig_v = 0\<rparr>\<rparr>) (oc_data (\<lambda>_. 0) example_creation) 3 uid 9 Limit
     example_app_data None"

lemma example_book_order_fields:
  "o_signature (example_book_order uid) = Eip712 \<lparr>sig_r = 0, sig_s = 0, sig_v = 0\<rparr>"
  "o_interactions (example_book_order uid) = \<lparr>ints_pre = [], ints_post = []\<rparr>" "om_uid (o_metadata (example_book_order uid)) = uid"
  "om_owner (o_metadata (example_book_order uid)) = 3" "om_full_app_data (o_metadata (example_book_order uid)) = Some []"
  by (simp_all add: example_book_order_def constructed_order_def example_app_data_def example_creation_def)

text \<open>The order \<open>[1]\<close> is stored, then it is replaced by the order \<open>[2]\<close>.\<close>

lemma example_first_stored:
  "\<exists>db. store_order 100 (example_book_order [1]) None empty_db = (Ok (), db) \<and> map orow_uid (db_orders db) = [[1]] \<and>
     db_order_quotes db = [] \<and> db_app_data db (od_app_data (o_data (example_book_order [2]))) = Some [] \<and>
     get_order_status example_book [1] db = Ok (Some StatusScheduled)"
proof -
  let ?ord = "example_book_order [1]"
  have data: "od_app_data (o_data (example_book_order [2])) = od_app_data (o_data ?ord)"
    by (simp add: example_book_order_def constructed_order_def)
  obtain row where row: "order_row_of ?ord = (Ok row :: (insertion_error, _) outcome)" "orow_uid row = [1]"
    by (simp add: order_row_of_def ecdsa_to_bytes_eq example_book_order_fields)
  have "interaction_rows ?ord = (Ok [] :: (insertion_error, _) outcome)"
    by (simp add: interaction_rows_def example_book_order_fields)
  then show ?thesis
    using row unfolding data
    by (simp add: store_order_def insert_order_def pbind_def pmodify_def plift_def pmap_err_def db_insert_order_def pret_def
        insert_order_app_data_def app_data_insert_def example_book_order_fields empty_db_def string_bytes_def insert_order_event_def
        get_latest_event_def get_order_status_def storing_latest_order_event_def example_book_def)
qed

theorem replaced_order_keeps_status_witness:
  "\<exists>(db :: orders_db) s'. map orow_uid (db_orders db) = [[1]] \<and>
     replace_order example_book (example_book_order [2]) (example_book_order [1]) None \<lparr>bs_validation = example_validator_state, bs_db = db\<rparr> =
       (Ok ([2], None), s') \<and>
     get_order_status example_book [1] (bs_db s') = Ok (Some StatusScheduled)"
proof -
  obtain db :: orders_db where db: "map orow_uid (db_orders db) = [[1]]" "db_order_quotes db = []"
    "db_app_data db (od_app_data (o_data (example_book_order [2]))) = Some []" "get_order_status example_book [1] db = Ok (Some StatusScheduled)"
    using example_first_stored by (elim exE conjE) (rule that)
  let ?s = "\<lparr>bs_validation = example_validator_state, bs_db = db\<rparr>"
  let ?db = "db_cancel_order [1] (om_creation_date (o_metadata (example_book_order [2]))) db"
  have "orow_uid ` set (db_orders db) = {[1]}"
    using db(1) by (metis list.set(1) list.set(2) set_map)
  then have "\<exists>db'. store_order 100 (example_book_order [2]) None ?db = (Ok (), db')"
    using db by (intro example_store [where full = "[]"])
      (auto simp: example_book_order_fields db_cancel_order_def string_bytes_def image_image if_distrib cong: image_cong_simp)
  then obtain db' where "store_order 100 (example_book_order [2]) None ?db = (Ok (), db')"
    by blast
  then have replaced: "replace_order example_book (example_book_order [2]) (example_book_order [1]) None ?s = (Ok ([2], None), ?s\<lparr>bs_db := db'\<rparr>)"
    by (simp add: replace_order_def example_book_order_fields storing_def ppart_def storing_replace_order_def transaction_def
        pbind_def pmodify_def pret_def example_book_def)
  have "get_order_status example_book [1] (bs_db (?s\<lparr>bs_db := db'\<rparr>)) = Ok (Some StatusScheduled)"
    using replaced_order_keeps_status [OF replaced, of example_book] db(4) by (simp add: example_book_order_fields)
  then show ?thesis
    using db(1) replaced by (intro exI conjI)
qed

theorem registered_app_data_found_witness:
  "registry_find (example_book\<lparr>bk_order_validator := example_validator\<lparr>ov_keccak := (\<lambda>_. 1)\<rparr>\<rparr>) 1 (empty_db\<lparr>db_app_data := [1 \<mapsto> []]\<rparr>) =
     Ok (Some [])"
proof -
  let ?b = "example_book\<lparr>bk_order_validator := example_validator\<lparr>ov_keccak := (\<lambda>_. 1)\<rparr>\<rparr>"
  have "register ?b None [] empty_db = (Ok (New, 1), empty_db\<lparr>db_app_data := [1 \<mapsto> []]\<rparr>)"
    by (simp add: register_def Let_def pbind_def plift_def app_data_validate_def example_validator_def example_root_def bytes_string_def
        hash_full_app_data_def register_validated_def insert_full_app_data_def app_data_insert_def example_book_def empty_db_def string_bytes_def)
  from registered_app_data_found [OF this] show ?thesis
    by (simp add: bytes_string_def)
qed

definition example_request :: order_quote_request where
  "example_request =
     \<lparr>qr_from = 3, qr_sell_token = 1, qr_buy_token = 2, qr_receiver = None, qr_side = QuoteSell (BeforeFee 100), qr_validity = ValidTo 1000,
      qr_app_data = AppDataFull [], qr_sell_token_balance = SellErc20, qr_buy_token_balance = BuyErc20, qr_signing_scheme = QuoteEip712,
      qr_price_quality = Fast\<rparr>"

theorem quote_response_exact_witness:
  "\<exists>resp. fst (handler_calculate_quote example_book example_request example_book_state) = Ok resp \<and> qre_id resp = None \<and>
     unat (oq_sell_amount (qre_quote resp)) + unat (oq_fee_amount (qre_quote resp)) = 100"
proof -
  let ?q = "example_quote\<lparr>qt_data := (qt_data example_quote)\<lparr>qd_expiration := 0\<rparr>\<rparr>"
  have parameters: "request_parameters example_request example_app_data = example_parameters"
    by (simp add: request_parameters_def example_request_def example_app_data_def example_parameters_def example_verification_def
        default_protocol_app_data_def no_hooks_def hooks_gas_limit_def)
  have quality: "quote_of_quality example_book Fast example_parameters v = (Ok ?q, v)" for v
    using example_calculated by (simp add: quote_of_quality_def example_book_def pbind_def plift_def pret_def)
  have valid: "partial_validate example_validator (pre_order_of_request 100 example_request) example_validator_state = (Ok (), example_validator_state)"
    by (simp add: partial_validate_def pbind_def plift_def users_banned_def example_validator_def example_request_def example_validator_state_def
        pre_order_of_request_def users_none_def validate_period_def timestamp_after_duration_def period_max_def saturating_add_def
        has_same_buy_and_sell_token_def BUY_ETH_ADDRESS_def)
  have fields: "qr_app_data example_request = AppDataFull []" "qr_price_quality example_request = Fast" "ov_epoch_seconds example_validator = 100"
    "bk_order_validator example_book = example_validator" "bs_validation example_book_state = example_validator_state"
    "qr_side example_request = QuoteSell (BeforeFee 100)"
    by (simp_all add: example_request_def example_validator_def example_book_def example_book_state_def)
  have "handler_calculate_quote example_book example_request example_book_state =
      (Ok (quote_response (ov_keccak example_validator) example_request (po_valid_to (pre_order_of_request 100 example_request)) ?q), example_book_state)"
    by (simp add: handler_calculate_quote_def Let_def fields pbind_def pread_def plift_def ppart_def pmap_err_def pret_def
        example_app_data_valid valid parameters quality)
  from quote_response_exact [OF this] this show ?thesis
    by (auto simp: fields)
qed

end
