(* ===== verification/Settlement_Encoding.thy ===== *)
theory Settlement_Encoding
  imports Orders
begin

text \<open>
  Trades as the settlement contract sees them: their encoding in \<open>shared/src/encoded_settlement.rs\<close>, and the two decoders the
  autopilot has for the call data of a settlement, \<open>autopilot/src/decoded_settlement.rs\<close> and
  \<open>autopilot/src/domain/settlement/solution/tokenized.rs\<close>.

  The tuples \<open>EncodedTrade\<close>, \<open>TradeTuple\<close>, \<open>RawTrade\<close> and \<open>tokenized::Trade\<close> have the same eleven members and are one record. The two
  files define \<open>TradeFlags\<close> with the same bits, and the definitions here serve both. The selector of \<open>settle\<close> and the ABI decoder of its arguments
  belong to other packages: they are the parameters \<open>selector\<close> and \<open>decode_input\<close>. The number of an auction, an \<open>i64\<close>, is the
  64-bit word of its bytes.
\<close>

unbundle bit_operations_syntax

section \<open>Encoding a trade\<close>

record raw_trade =
  rt_sell_token_index :: u256
  rt_buy_token_index :: u256
  rt_receiver :: h160
  rt_sell_amount :: u256
  rt_buy_amount :: u256
  rt_valid_to :: u32
  rt_app_data :: h256
  rt_fee_amount :: u256
  rt_flags :: u256
  rt_executed_amount :: u256
  rt_signature :: bytes

definition order_flags :: "order_data \<Rightarrow> signature \<Rightarrow> u256" where
  "order_flags d sig =
     (let result = 0 :: byte;
          result = result OR (case od_kind d of Sell \<Rightarrow> 0 | Buy \<Rightarrow> 1);
          result = result OR push_bit 1 (of_bool (od_partially_fillable d));
          result = result OR push_bit 2 (case od_sell_token_balance d of SellErc20 \<Rightarrow> 0 | SellExternal \<Rightarrow> 2 | SellInternal \<Rightarrow> 3);
          result = result OR push_bit 4 (case od_buy_token_balance d of BuyErc20 \<Rightarrow> 0 | BuyInternal \<Rightarrow> 1);
          result = result OR push_bit 5 (case scheme sig of SchemeEip712 \<Rightarrow> 0 | SchemeEthSign \<Rightarrow> 1 | SchemeEip1271 \<Rightarrow> 2 | SchemePreSign \<Rightarrow> 3)
      in ucast result)"

definition encode_trade ::
  "order_data \<Rightarrow> signature \<Rightarrow> h160 \<Rightarrow> u64 \<Rightarrow> u64 \<Rightarrow> u256 \<Rightarrow> ('e, raw_trade) outcome" where
  "encode_trade d sig owner sell_token_index buy_token_index executed_amount =
     obind (encode_for_settlement sig owner) (\<lambda>signature.
     Ok \<lparr>rt_sell_token_index = ucast sell_token_index, rt_buy_token_index = ucast buy_token_index,
         rt_receiver = (case od_receiver d of None \<Rightarrow> 0 | Some r \<Rightarrow> r),
         rt_sell_amount = od_sell_amount d, rt_buy_amount = od_buy_amount d, rt_valid_to = od_valid_to d,
         rt_app_data = od_app_data d, rt_fee_amount = od_fee_amount d, rt_flags = order_flags d sig,
         rt_executed_amount = executed_amount, rt_signature = signature\<rparr>)"

section \<open>Flags of a trade\<close>

definition flags_as_u8 :: "u256 \<Rightarrow> byte" where
  "flags_as_u8 flags = ucast flags"

definition flags_order_kind :: "u256 \<Rightarrow> order_kind" where
  "flags_order_kind flags = (if flags_as_u8 flags AND 1 = 0 then Sell else Buy)"

definition flags_partially_fillable :: "u256 \<Rightarrow> bool" where
  "flags_partially_fillable flags \<longleftrightarrow> flags_as_u8 flags AND 2 \<noteq> 0"

definition flags_sell_token_balance :: "u256 \<Rightarrow> sell_token_source" where
  "flags_sell_token_balance flags =
     (if flags_as_u8 flags AND 8 = 0 then SellErc20
      else if flags_as_u8 flags AND 4 = 0 then SellExternal
      else SellInternal)"

definition flags_buy_token_balance :: "u256 \<Rightarrow> buy_token_destination" where
  "flags_buy_token_balance flags = (if flags_as_u8 flags AND 0x10 = 0 then BuyErc20 else BuyInternal)"

definition flags_signing_scheme :: "u256 \<Rightarrow> ('e, signing_scheme) outcome" where
  "flags_signing_scheme flags =
     (let s = drop_bit 5 (flags_as_u8 flags) AND 3
      in if s = 0 then Ok SchemeEip712
         else if s = 1 then Ok SchemeEthSign
         else if s = 2 then Ok SchemeEip1271
         else if s = 3 then Ok SchemePreSign
         else Panic)"

section \<open>Decoding a trade\<close>

text \<open>\<open>U256::as_u64\<close> panics on a larger number, indexing a vector panics out of its range.\<close>

definition as_u64 :: "u256 \<Rightarrow> ('e, nat) outcome" where
  "as_u64 x = (if unat x < 2 ^ 64 then Ok (unat x) else Panic)"

definition index_p :: "'a list \<Rightarrow> nat \<Rightarrow> ('e, 'a) outcome" where
  "index_p xs i = (if i < length xs then Ok (xs ! i) else Panic)"

definition token_at :: "h160 list \<Rightarrow> u256 \<Rightarrow> ('e, h160) outcome" where
  "token_at tokens i = obind (as_u64 i) (index_p tokens)"

record decoded_trade =
  dt_order_uid :: order_uid
  dt_sell_token_index :: u256
  dt_buy_token_index :: u256
  dt_receiver :: h160
  dt_sell_amount :: u256
  dt_buy_amount :: u256
  dt_valid_to :: u32
  dt_app_data :: h256
  dt_fee_amount :: u256
  dt_flags :: u256
  dt_executed_amount :: u256
  dt_signature :: signature

text \<open>The order that the trade and the tokens of the settlement describe.\<close>

definition trade_order :: "h160 list \<Rightarrow> raw_trade \<Rightarrow> ('e, order_data) outcome" where
  "trade_order tokens t =
     obind (token_at tokens (rt_sell_token_index t)) (\<lambda>sell_token.
     obind (token_at tokens (rt_buy_token_index t)) (\<lambda>buy_token.
     Ok \<lparr>od_sell_token = sell_token, od_buy_token = buy_token, od_receiver = Some (rt_receiver t),
         od_sell_amount = rt_sell_amount t, od_buy_amount = rt_buy_amount t, od_valid_to = rt_valid_to t,
         od_app_data = rt_app_data t, od_fee_amount = rt_fee_amount t, od_kind = flags_order_kind (rt_flags t),
         od_partially_fillable = flags_partially_fillable (rt_flags t),
         od_sell_token_balance = flags_sell_token_balance (rt_flags t),
         od_buy_token_balance = flags_buy_token_balance (rt_flags t)\<rparr>))"

datatype uid_error = UidSignature signature_error | UidRecoverOwner signature_error

definition decoded_trade_new ::
  "(bytes \<Rightarrow> h256) \<Rightarrow> ec_recover \<Rightarrow> h256 \<Rightarrow> h160 list \<Rightarrow> raw_trade \<Rightarrow> (uid_error, decoded_trade) outcome" where
  "decoded_trade_new keccak ec_recover domain_separator tokens t =
     obind (trade_order tokens t) (\<lambda>d.
     obind (flags_signing_scheme (rt_flags t)) (\<lambda>sch.
     obind (map_err UidSignature (sig_from_bytes sch (rt_signature t))) (\<lambda>signature.
     obind (hash_struct keccak d) (\<lambda>struct_hash.
     obind (map_err UidRecoverOwner (recover_owner keccak ec_recover signature (rt_signature t) domain_separator struct_hash)) (\<lambda>owner.
     obind (order_data_uid keccak d domain_separator owner) (\<lambda>order_uid.
     Ok \<lparr>dt_order_uid = order_uid, dt_sell_token_index = rt_sell_token_index t, dt_buy_token_index = rt_buy_token_index t,
         dt_receiver = rt_receiver t, dt_sell_amount = rt_sell_amount t, dt_buy_amount = rt_buy_amount t,
         dt_valid_to = rt_valid_to t, dt_app_data = rt_app_data t, dt_fee_amount = rt_fee_amount t, dt_flags = rt_flags t,
         dt_executed_amount = rt_executed_amount t, dt_signature = signature\<rparr>))))))"

text \<open>\<open>tokenized::order_uid\<close>: here the signature is read before the tokens.\<close>

definition tokenized_order_uid ::
  "(bytes \<Rightarrow> h256) \<Rightarrow> ec_recover \<Rightarrow> h256 \<Rightarrow> h160 list \<Rightarrow> raw_trade \<Rightarrow> (uid_error, order_uid) outcome" where
  "tokenized_order_uid keccak ec_recover domain_separator tokens t =
     obind (flags_signing_scheme (rt_flags t)) (\<lambda>sch.
     obind (map_err UidSignature (sig_from_bytes sch (rt_signature t))) (\<lambda>signature.
     obind (trade_order tokens t) (\<lambda>d.
     obind (hash_struct keccak d) (\<lambda>struct_hash.
     obind (map_err UidRecoverOwner (recover_owner keccak ec_recover signature (rt_signature t) domain_separator struct_hash)) (\<lambda>owner.
     order_data_uid keccak d domain_separator owner)))))"

section \<open>Decoding a settlement\<close>

text \<open>The arguments of \<open>settle\<close>, and the two ways in which the ABI decoder can fail.\<close>

record settle_call =
  sc_tokens :: "h160 list"
  sc_clearing_prices :: "u256 list"
  sc_trades :: "raw_trade list"
  sc_interactions :: "interaction_data list list"

datatype abi_error = EthabiError | TokenizingError

type_synonym abi_decoder = "bytes \<Rightarrow> abi_error + settle_call"

definition strip_selector :: "bytes \<Rightarrow> bytes \<Rightarrow> bytes option" where
  "strip_selector selector input =
     (if take (length selector) input = selector then Some (drop (length selector) input) else None)"

definition META_DATA_LEN :: nat where
  "META_DATA_LEN = 8"

record decoded_settlement =
  dst_tokens :: "h160 list"
  dst_clearing_prices :: "u256 list"
  dst_trades :: "decoded_trade list"
  dst_interactions :: "interaction_data list list"
  dst_metadata :: "bytes option"

datatype decode_error = MetadataLength | DecodingFailed abi_error

datatype decoding_error = DecodingInvalidSelector | DecodingOther decode_error

text \<open>Trades that cannot be decoded are left out.\<close>

fun decode_trades :: "(raw_trade \<Rightarrow> (uid_error, decoded_trade) outcome) \<Rightarrow> raw_trade list \<Rightarrow> ('e, decoded_trade list) outcome" where
  "decode_trades decode [] = Ok []"
| "decode_trades decode (t # ts) =
     (case decode t of
        Ok d \<Rightarrow> obind (decode_trades decode ts) (\<lambda>ds. Ok (d # ds))
      | Err e \<Rightarrow> decode_trades decode ts
      | Panic \<Rightarrow> Panic)"

definition settlement_try_new ::
  "(bytes \<Rightarrow> h256) \<Rightarrow> ec_recover \<Rightarrow> h256 \<Rightarrow> abi_decoder \<Rightarrow> bytes \<Rightarrow> bool \<Rightarrow> (decode_error, decoded_settlement) outcome" where
  "settlement_try_new keccak ec_recover domain_separator decode_input data with_metadata =
     obind (if with_metadata
            then if length data mod 32 = META_DATA_LEN then Ok META_DATA_LEN else Err MetadataLength
            else Ok 0) (\<lambda>metadata_len.
     let calldata = take (length data - metadata_len) data;
         metadata = drop (length data - metadata_len) data
     in case decode_input calldata of
          Inl e \<Rightarrow> Err (DecodingFailed e)
        | Inr call \<Rightarrow>
            obind (decode_trades (decoded_trade_new keccak ec_recover domain_separator (sc_tokens call)) (sc_trades call)) (\<lambda>trades.
            Ok \<lparr>dst_tokens = sc_tokens call, dst_clearing_prices = sc_clearing_prices call, dst_trades = trades,
                dst_interactions = sc_interactions call,
                dst_metadata = (if length metadata = META_DATA_LEN then Some metadata else None)\<rparr>))"

definition decoded_settlement_new ::
  "(bytes \<Rightarrow> h256) \<Rightarrow> ec_recover \<Rightarrow> h256 \<Rightarrow> bytes \<Rightarrow> abi_decoder \<Rightarrow> bytes \<Rightarrow> (decoding_error, decoded_settlement) outcome" where
  "decoded_settlement_new keccak ec_recover domain_separator selector decode_input input =
     obind (ok_or (strip_selector selector input) DecodingInvalidSelector) (\<lambda>without_selector.
     case settlement_try_new keccak ec_recover domain_separator decode_input without_selector True of
       Ok decoded \<Rightarrow> Ok decoded
     | Err _ \<Rightarrow> map_err DecodingOther (settlement_try_new keccak ec_recover domain_separator decode_input without_selector False)
     | Panic \<Rightarrow> Panic)"

text \<open>\<open>Tokenized::new\<close>: the last eight bytes are the number of the auction; fewer bytes panic in \<open>split_at\<close>.\<close>

definition auction_id_from_be_bytes :: "bytes \<Rightarrow> u64" where
  "auction_id_from_be_bytes bs = of_nat (be_nat bs)"

datatype tokenized_error = TokInvalidSelector | TokMissingAuctionId | TokEthabi u64 | TokTokenizing u64

fun tokenized_error_auction_id :: "tokenized_error \<Rightarrow> u64 option" where
  "tokenized_error_auction_id TokInvalidSelector = None"
| "tokenized_error_auction_id TokMissingAuctionId = None"
| "tokenized_error_auction_id (TokEthabi auction_id) = Some auction_id"
| "tokenized_error_auction_id (TokTokenizing auction_id) = Some auction_id"

definition tokenized_new :: "bytes \<Rightarrow> abi_decoder \<Rightarrow> bytes \<Rightarrow> (tokenized_error, settle_call \<times> u64) outcome" where
  "tokenized_new selector decode_input input =
     obind (ok_or (strip_selector selector input) TokInvalidSelector) (\<lambda>data.
     if length data < META_DATA_LEN then Panic
     else let calldata = take (length data - META_DATA_LEN) data;
              metadata = drop (length data - META_DATA_LEN) data
          in obind (ok_or (if length metadata = META_DATA_LEN then Some (auction_id_from_be_bytes metadata) else None)
                      TokMissingAuctionId) (\<lambda>auction_id.
             case decode_input calldata of
               Inl EthabiError \<Rightarrow> Err (TokEthabi auction_id)
             | Inl TokenizingError \<Rightarrow> Err (TokTokenizing auction_id)
             | Inr call \<Rightarrow> Ok (call, auction_id)))"

section \<open>Lemmas\<close>

text \<open>The flags are a byte, and every field is read back from its bits.\<close>

lemmas flags_defs = flags_as_u8_def flags_order_kind_def flags_partially_fillable_def flags_sell_token_balance_def
  flags_buy_token_balance_def flags_signing_scheme_def

lemma order_flags_read [simp]:
  "flags_order_kind (order_flags d sig) = od_kind d"
  "flags_partially_fillable (order_flags d sig) \<longleftrightarrow> od_partially_fillable d"
  "flags_sell_token_balance (order_flags d sig) = od_sell_token_balance d"
  "flags_buy_token_balance (order_flags d sig) = od_buy_token_balance d"
  "flags_signing_scheme (order_flags d sig) = Ok (scheme sig)"
  by (cases "od_kind d"; cases "od_partially_fillable d"; cases "od_sell_token_balance d"; cases "od_buy_token_balance d";
      cases "scheme sig"; simp add: order_flags_def flags_defs)+

lemma flags_signing_scheme_not_Panic [simp]: "flags_signing_scheme flags \<noteq> Panic"
proof -
  have "(b AND 3) \<in> {0, 1, 2, 3}" for b :: byte
  proof -
    have "b AND 3 = take_bit 2 b"
      by (simp add: take_bit_eq_mask mask_eq_exp_minus_1)
    moreover have "unat (take_bit 2 b) < 4"
      by (simp add: take_bit_eq_mod unat_mod)
    ultimately have "unat (b AND 3) \<in> {0, 1, 2, 3}"
      by auto
    then show ?thesis
      by (auto simp: word_unat_eq_iff)
  qed
  then show ?thesis
    by (auto simp: flags_signing_scheme_def Let_def)
qed

lemma token_at_Ok: "token_at tokens i = Ok t \<longleftrightarrow> unat i < 2 ^ 64 \<and> unat i < length tokens \<and> t = tokens ! unat i"
  by (auto simp: token_at_def as_u64_def index_p_def)

lemma token_at_ucast:
  "unat i < length tokens \<Longrightarrow> token_at tokens (ucast (i :: u64)) = Ok (tokens ! unat i)"
proof -
  have "unat (ucast i :: u256) = unat i"
    using unat_bound [of i] by (simp add: unsigned_ucast_eq take_bit_nat_eq_self)
  moreover assume "unat i < length tokens"
  ultimately show ?thesis
    using unat_bound [of i] by (simp add: token_at_Ok)
qed

text \<open>The order is the signer's: its signature recovers to the owner, or names the owner on chain.\<close>

definition signs :: "(bytes \<Rightarrow> h256) \<Rightarrow> ec_recover \<Rightarrow> h256 \<Rightarrow> order_data \<Rightarrow> h160 \<Rightarrow> signature \<Rightarrow> bool" where
  "signs keccak ec_recover domain_separator d owner sig \<longleftrightarrow>
     scheme sig \<in> {SchemeEip1271, SchemePreSign} \<or>
     (\<exists>m. sig_recover keccak ec_recover sig domain_separator (keccak (eip712_encode d)) =
            Ok (Some \<lparr>rec_message = m, rec_signer = owner\<rparr>))"

lemma settlement_signature_read:
  assumes "signs keccak ec_recover domain_separator d owner sig"
  obtains bs sig' where "\<And>e. encode_for_settlement sig owner = (Ok bs :: ('e, bytes) outcome)"
    and "sig_from_bytes (scheme sig) bs = Ok sig'" and "scheme sig' = scheme sig"
    and "recover_owner keccak ec_recover sig' bs domain_separator (keccak (eip712_encode d)) = Ok owner"
proof (cases sig)
  case (Eip712 e)
  with assms show ?thesis
    by (intro that [of "h256_bytes (sig_r e) @ h256_bytes (sig_s e) @ [sig_v e]" sig])
      (auto simp: ecdsa_to_bytes_eq sig_from_bytes_def ecdsa_from_bytes_def nth_append signs_def)
next
  case (EthSign e)
  with assms show ?thesis
    by (intro that [of "h256_bytes (sig_r e) @ h256_bytes (sig_s e) @ [sig_v e]" sig])
      (auto simp: ecdsa_to_bytes_eq sig_from_bytes_def ecdsa_from_bytes_def nth_append signs_def)
next
  case (Eip1271 b)
  then show ?thesis
    by (intro that [of "h160_bytes owner @ b" "Eip1271 (h160_bytes owner @ b)"])
      (simp_all add: sig_from_bytes_def h160_from_slice_p_def)
next
  case PreSign
  then show ?thesis
    by (intro that [of "h160_bytes owner" PreSign]) (simp_all add: sig_from_bytes_def h160_from_slice_p_def)
qed

lemma eip712_normal_receiver [simp]: "eip712_encode (normal_receiver d) = eip712_encode d"
  by (simp add: eip712_encode_inject normal_receiver_def)

lemma od_valid_to_normal_receiver [simp]: "od_valid_to (normal_receiver d) = od_valid_to d"
  by (simp add: normal_receiver_def)

lemma order_data_uid_eq:
  "order_data_uid keccak d domain_separator owner =
     Ok (h256_bytes (keccak (0x19 # 0x01 # h256_bytes domain_separator @ h256_bytes (keccak (eip712_encode d)))) @
         h160_bytes owner @ u32_to_be_bytes (od_valid_to d))"
  by (simp add: order_data_uid_def hash_struct_eq hashed_eip712_message_eq uid_from_parts_eq)

text \<open>The uid of a signed order, a value where \<open>order_data_uid\<close> is a computation.\<close>

definition settled_uid :: "(bytes \<Rightarrow> h256) \<Rightarrow> h256 \<Rightarrow> order_data \<times> h160 \<Rightarrow> order_uid" where
  "settled_uid keccak domain_separator = (\<lambda>(d, owner). ok_value (order_data_uid keccak d domain_separator owner :: (uid_error, order_uid) outcome))"

text \<open>A trade settles an order if it encodes it over the tokens of the settlement.\<close>

definition settles ::
  "(bytes \<Rightarrow> h256) \<Rightarrow> ec_recover \<Rightarrow> h256 \<Rightarrow> h160 list \<Rightarrow> raw_trade \<Rightarrow> order_data \<times> h160 \<Rightarrow> bool" where
  "settles keccak ec_recover domain_separator tokens t = (\<lambda>(d, owner).
     \<exists>sig i j executed.
       encode_trade d sig owner i j executed = (Ok t :: (uid_error, raw_trade) outcome) \<and>
       unat i < length tokens \<and> tokens ! unat i = od_sell_token d \<and>
       unat j < length tokens \<and> tokens ! unat j = od_buy_token d \<and>
       signs keccak ec_recover domain_separator d owner sig)"

lemma settles_decoded:
  assumes "settles keccak ec_recover domain_separator tokens t (d, owner)"
  obtains dt where "decoded_trade_new keccak ec_recover domain_separator tokens t = Ok dt"
    and "dt_order_uid dt = settled_uid keccak domain_separator (d, owner)"
    and "trade_order tokens t = (Ok (normal_receiver d) :: (uid_error, order_data) outcome)"
proof -
  obtain sig i j executed where enc: "encode_trade d sig owner i j executed = (Ok t :: (uid_error, raw_trade) outcome)"
    and i: "unat i < length tokens" "tokens ! unat i = od_sell_token d"
    and j: "unat j < length tokens" "tokens ! unat j = od_buy_token d"
    and signs: "signs keccak ec_recover domain_separator d owner sig"
    using assms by (auto simp: settles_def)
  obtain bs sig' where sig: "encode_for_settlement sig owner = (Ok bs :: (uid_error, bytes) outcome)"
    "sig_from_bytes (scheme sig) bs = Ok sig'"
    "recover_owner keccak ec_recover sig' bs domain_separator (keccak (eip712_encode d)) = Ok owner"
    using settlement_signature_read [OF signs] by metis
  have t: "rt_sell_token_index t = ucast i" "rt_buy_token_index t = ucast j" "rt_signature t = bs" "rt_flags t = order_flags d sig"
    "trade_order tokens t = (Ok (normal_receiver d) :: (uid_error, order_data) outcome)"
    using enc sig(1) i j
    by (auto simp: encode_trade_def trade_order_def token_at_ucast normal_receiver_def split: option.splits)
  have "\<exists>dt. decoded_trade_new keccak ec_recover domain_separator tokens t = Ok dt \<and>
    dt_order_uid dt = settled_uid keccak domain_separator (d, owner)"
    using sig by (simp add: decoded_trade_new_def t hash_struct_eq order_data_uid_eq settled_uid_def)
  with t(5) show ?thesis
    using that by blast
qed

text \<open>Both decoders of a trade find the same uid.\<close>

lemma decoders_agree:
  "tokenized_order_uid keccak ec_recover domain_separator tokens t = Ok uid \<longleftrightarrow>
     (\<exists>dt. decoded_trade_new keccak ec_recover domain_separator tokens t = Ok dt \<and> dt_order_uid dt = uid)"
  by (auto simp: tokenized_order_uid_def decoded_trade_new_def outc)

lemma decode_trades_settles:
  assumes "list_all2 (settles keccak ec_recover domain_separator tokens) ts orders"
  shows "\<exists>dts. decode_trades (decoded_trade_new keccak ec_recover domain_separator tokens) ts = Ok dts \<and>
               map dt_order_uid dts = map (settled_uid keccak domain_separator) orders"
  using assms
proof (induction rule: list_all2_induct)
  case (Cons t ts ord orders)
  obtain d owner where ord: "ord = (d, owner)"
    by (cases ord)
  with Cons.hyps(1) obtain dt where "decoded_trade_new keccak ec_recover domain_separator tokens t = Ok dt"
    and "dt_order_uid dt = settled_uid keccak domain_separator ord"
    using settles_decoded by metis
  with Cons.IH show ?case
    by auto
qed simp

lemma strip_selector_append [simp]: "strip_selector selector (selector @ data) = Some data"
  by (simp add: strip_selector_def)

lemma auction_id_from_be_bytes_nat_be [simp]: "auction_id_from_be_bytes (nat_be 8 (unat (auction_id :: u64))) = auction_id"
  using unat_bound [of auction_id] by (simp add: auction_id_from_be_bytes_def be_nat_nat_be)

end
