(* ===== verification/Settled_Trades.thy ===== *)
theory Settled_Trades
  imports Settlement_Encoding Driver_Scoring Run_Loop
begin

text \<open>
  Trades of a mined settlement, \<open>autopilot/src/domain/settlement/solution/trade.rs\<close>, the solution they make up, \<open>solution/mod.rs\<close>, and the
  auction they are judged by, \<open>settlement/auction.rs\<close>. Surplus, fees and score are computed again from the call data; the
  properties relate them to the score the driver promised (\<open>Driver_Scoring\<close>) and to the fees it charged (\<open>Driver_Trade\<close>).

  Assets, sides, clearing prices, price limits and mathematical errors of the domain copy those of the driver and are not repeated;
  \<open>mul_div\<close> and \<open>mul_ceil_div\<close> are the chains of checked operations both programs use. The conversions of \<open>f64\<close> factors are
  the parameters of \<open>Driver_Scoring\<close>.
\<close>

section \<open>Auctions\<close>

record settlement_auction =
  sa_id :: u64
  sa_orders :: "order_uid \<rightharpoonup> policy list"
  sa_prices :: prices
  sa_surplus_capturing_jit_order_owners :: "h160 set"

text \<open>\<open>OrderUid::owner\<close>, of the 56 bytes of a uid.\<close>

definition uid_owner :: "order_uid \<Rightarrow> h160" where
  "uid_owner uid = h160_from_slice (drop 32 (take 52 uid))"

definition is_surplus_capturing :: "settlement_auction \<Rightarrow> order_uid \<Rightarrow> bool" where
  "is_surplus_capturing auction uid \<longleftrightarrow>
     sa_orders auction uid \<noteq> None \<or> uid_owner uid \<in> sa_surplus_capturing_jit_order_owners auction"

section \<open>Trades\<close>

record settled_trade =
  sd_order_uid :: order_uid
  sd_sell :: asset
  sd_buy :: asset
  sd_side :: side
  sd_executed :: u256
  sd_uniform :: clearing_prices
  sd_custom :: clearing_prices

datatype settled_error = SettledMissingPrice h160 | SettledMath math_error

definition sd_surplus_token :: "settled_trade \<Rightarrow> h160" where
  "sd_surplus_token t = (case sd_side t of SideBuy \<Rightarrow> as_token (sd_sell t) | SideSell \<Rightarrow> as_token (sd_buy t))"

definition sd_surplus_over :: "settled_trade \<Rightarrow> clearing_prices \<Rightarrow> price_limits \<Rightarrow> (math_error, asset) outcome" where
  "sd_surplus_over t prices limits =
     obind (case sd_side t of
        SideBuy \<Rightarrow>
          obind (mul_div (pl_sell limits) (sd_executed t) (pl_buy limits)) (\<lambda>limit_sell.
          obind (mul_div (sd_executed t) (cp_buy prices) (cp_sell prices)) (\<lambda>sold.
          ok_or (checked_sub limit_sell sold) MathNegative))
      | SideSell \<Rightarrow>
          obind (mul_ceil_div (sd_executed t) (pl_buy limits) (pl_sell limits)) (\<lambda>limit_buy.
          obind (mul_ceil_div (sd_executed t) (cp_sell prices) (cp_buy prices)) (\<lambda>bought.
          ok_or (checked_sub bought limit_buy) MathNegative))) (\<lambda>surplus.
     Ok \<lparr>as_amount = surplus, as_token = sd_surplus_token t\<rparr>)"

definition sd_limits :: "settled_trade \<Rightarrow> price_limits" where
  "sd_limits t = \<lparr>pl_sell = as_amount (sd_sell t), pl_buy = as_amount (sd_buy t)\<rparr>"

definition sd_surplus_over_limit_price :: "settled_trade \<Rightarrow> (math_error, asset) outcome" where
  "sd_surplus_over_limit_price t = sd_surplus_over t (sd_custom t) (sd_limits t)"

definition sd_surplus_over_limit_price_before_fee :: "settled_trade \<Rightarrow> (math_error, asset) outcome" where
  "sd_surplus_over_limit_price_before_fee t = sd_surplus_over t (sd_uniform t) (sd_limits t)"

text \<open>The price of a token, applied to an amount of it.\<close>

definition sd_native_value :: "prices \<Rightarrow> asset \<Rightarrow> (settled_error, u256) outcome" where
  "sd_native_value prices a =
     obind (ok_or (prices (as_token a)) (SettledMissingPrice (as_token a))) (\<lambda>price. in_eth price (as_amount a))"

definition sd_native_surplus :: "settlement_auction \<Rightarrow> settled_trade \<Rightarrow> (settled_error, u256) outcome" where
  "sd_native_surplus auction t =
     (if \<not> is_surplus_capturing auction (sd_order_uid t) then Ok 0
      else obind (map_err SettledMath (sd_surplus_over_limit_price t)) (sd_native_value (sa_prices auction)))"

definition sd_fee :: "settled_trade \<Rightarrow> (settled_error, asset) outcome" where
  "sd_fee t =
     obind (map_err SettledMath (sd_surplus_over_limit_price_before_fee t)) (\<lambda>before.
     obind (map_err SettledMath (sd_surplus_over_limit_price t)) (\<lambda>after.
     obind (ok_or (checked_sub (as_amount before) (as_amount after)) (SettledMath MathNegative)) (\<lambda>fee.
     Ok \<lparr>as_amount = fee, as_token = sd_surplus_token t\<rparr>)))"

definition sd_native_fee :: "prices \<Rightarrow> settled_trade \<Rightarrow> (settled_error, u256) outcome" where
  "sd_native_fee prices t = obind (sd_fee t) (sd_native_value prices)"

definition sd_fee_in_sell_token :: "prices \<Rightarrow> settled_trade \<Rightarrow> (settled_error, u256) outcome" where
  "sd_fee_in_sell_token prices t =
     obind (sd_fee t) (\<lambda>fee.
     case sd_side t of
       SideBuy \<Rightarrow> Ok (as_amount fee)
     | SideSell \<Rightarrow>
         obind (ok_or (prices (as_token (sd_buy t))) (SettledMissingPrice (as_token (sd_buy t)))) (\<lambda>buy_price.
         obind (ok_or (prices (as_token (sd_sell t))) (SettledMissingPrice (as_token (sd_sell t)))) (\<lambda>sell_price.
         map_err SettledMath (mul_div (as_amount fee) buy_price sell_price))))"

text \<open>The traded amounts, and prices without a fee.\<close>

definition sd_sell_amount :: "settled_trade \<Rightarrow> (math_error, u256) outcome" where
  "sd_sell_amount t =
     (case sd_side t of
        SideSell \<Rightarrow> Ok (sd_executed t)
      | SideBuy \<Rightarrow> mul_div (sd_executed t) (cp_buy (sd_custom t)) (cp_sell (sd_custom t)))"

definition sd_buy_amount :: "settled_trade \<Rightarrow> (math_error, u256) outcome" where
  "sd_buy_amount t =
     (case sd_side t of
        SideSell \<Rightarrow> mul_ceil_div (sd_executed t) (cp_sell (sd_custom t)) (cp_buy (sd_custom t))
      | SideBuy \<Rightarrow> Ok (sd_executed t))"

definition sd_calculate_custom_prices :: "settled_trade \<Rightarrow> u256 \<Rightarrow> (math_error, clearing_prices) outcome" where
  "sd_calculate_custom_prices t pfee =
     obind (case sd_side t of
              SideSell \<Rightarrow> obind (sd_buy_amount t) (\<lambda>b. ok_or (checked_add b pfee) MathOverflow)
            | SideBuy \<Rightarrow> sd_buy_amount t) (\<lambda>sell.
     obind (case sd_side t of
              SideSell \<Rightarrow> sd_sell_amount t
            | SideBuy \<Rightarrow> obind (sd_sell_amount t) (\<lambda>s. ok_or (checked_sub s pfee) MathNegative)) (\<lambda>buy.
     Ok \<lparr>cp_sell = sell, cp_buy = buy\<rparr>))"

definition sd_adjust_quote_to_order_limits :: "limit_order \<Rightarrow> limit_quote \<Rightarrow> (math_error, price_limits) outcome" where
  "sd_adjust_quote_to_order_limits ord quote =
     (case lo_side ord of
        SideSell \<Rightarrow>
          obind (mul_div (lq_fee_amount quote) (lq_buy_amount quote) (lq_sell_amount quote)) (\<lambda>fee_in_buy.
          obind (ok_or (checked_sub (lq_buy_amount quote) fee_in_buy) MathNegative) (\<lambda>quote_buy_amount.
          obind (mul_div quote_buy_amount (lo_sell_amount ord) (lq_sell_amount quote)) (\<lambda>scaled_buy_amount.
          Ok \<lparr>pl_sell = lo_sell_amount ord, pl_buy = max (lo_buy_amount ord) scaled_buy_amount\<rparr>)))
      | SideBuy \<Rightarrow>
          obind (ok_or (checked_add (lq_sell_amount quote) (lq_fee_amount quote)) MathOverflow) (\<lambda>quote_sell_amount.
          obind (mul_div quote_sell_amount (lo_buy_amount ord) (lq_buy_amount quote)) (\<lambda>scaled_sell_amount.
          Ok \<lparr>pl_sell = min (lo_sell_amount ord) scaled_sell_amount, pl_buy = lo_buy_amount ord\<rparr>)))"

definition sd_quote_limits :: "settled_trade \<Rightarrow> fee_policy_quote \<Rightarrow> (math_error, price_limits) outcome" where
  "sd_quote_limits t quote =
     sd_adjust_quote_to_order_limits
       \<lparr>lo_sell_amount = as_amount (sd_sell t), lo_buy_amount = as_amount (sd_buy t), lo_side = sd_side t\<rparr>
       \<lparr>lq_sell_amount = fpq_sell_amount quote, lq_buy_amount = fpq_buy_amount quote, lq_fee_amount = fpq_fee quote\<rparr>"

definition sd_surplus_over_quote :: "settled_trade \<Rightarrow> fee_policy_quote \<Rightarrow> (math_error, asset) outcome" where
  "sd_surplus_over_quote t quote = obind (sd_quote_limits t quote) (sd_surplus_over t (sd_custom t))"

text \<open>No improvement over the quote is no error.\<close>

definition sd_price_improvement :: "settled_trade \<Rightarrow> fee_policy_quote \<Rightarrow> (settled_error, asset) outcome" where
  "sd_price_improvement t quote =
     (let surplus = sd_surplus_over_quote t quote
      in if surplus = Err MathNegative then Ok \<lparr>as_amount = 0, as_token = sd_surplus_token t\<rparr>
         else map_err SettledMath surplus)"

definition sd_surplus_fee :: "f64 factor_ops \<Rightarrow> asset \<Rightarrow> f64 \<Rightarrow> (settled_error, asset) outcome" where
  "sd_surplus_fee ops surplus factor =
     obind (ok_or (apply_factor (fo_scaled ops) (as_amount surplus) (fo_over_one_minus ops factor)) (SettledMath MathOverflow)) (\<lambda>fee.
     Ok \<lparr>as_amount = fee, as_token = as_token surplus\<rparr>)"

definition sd_volume_fee :: "f64 factor_ops \<Rightarrow> settled_trade \<Rightarrow> f64 \<Rightarrow> (settled_error, asset) outcome" where
  "sd_volume_fee ops t factor =
     obind (map_err SettledMath (case sd_side t of
        SideSell \<Rightarrow> mul_div (sd_executed t) (cp_sell (sd_custom t)) (cp_buy (sd_custom t))
      | SideBuy \<Rightarrow> mul_div (sd_executed t) (cp_buy (sd_custom t)) (cp_sell (sd_custom t)))) (\<lambda>executed_in_surplus_token.
     let factor' = (case sd_side t of SideSell \<Rightarrow> fo_over_one_minus ops factor | SideBuy \<Rightarrow> fo_over_one_plus ops factor)
     in obind (ok_or (apply_factor (fo_scaled ops) executed_in_surplus_token factor') (SettledMath MathOverflow)) (\<lambda>fee.
        Ok \<lparr>as_amount = fee, as_token = sd_surplus_token t\<rparr>))"

definition sd_protocol_fee :: "f64 factor_ops \<Rightarrow> settled_trade \<Rightarrow> policy \<Rightarrow> (settled_error, u256) outcome" where
  "sd_protocol_fee ops t p =
     (case p of
        Surplus factor max_volume_factor \<Rightarrow>
          obind (map_err SettledMath (sd_surplus_over_limit_price t)) (\<lambda>surplus.
          obind (sd_surplus_fee ops surplus factor) (\<lambda>fee.
          obind (sd_volume_fee ops t max_volume_factor) (\<lambda>cap.
          Ok (min (as_amount fee) (as_amount cap)))))
      | PriceImprovement factor max_volume_factor quote \<Rightarrow>
          obind (sd_price_improvement t quote) (\<lambda>improvement.
          obind (sd_surplus_fee ops improvement factor) (\<lambda>fee.
          obind (sd_volume_fee ops t max_volume_factor) (\<lambda>cap.
          Ok (min (as_amount fee) (as_amount cap)))))
      | Volume factor \<Rightarrow> obind (sd_volume_fee ops t factor) (\<lambda>fee. Ok (as_amount fee)))"

text \<open>One round of the loop over the policies, which starts with the last one.\<close>

definition sd_fee_step ::
  "f64 factor_ops \<Rightarrow> settled_trade \<Rightarrow> nat \<times> policy \<Rightarrow> clearing_prices \<times> u256 \<Rightarrow> (settled_error, clearing_prices \<times> u256) outcome" where
  "sd_fee_step ops t = (\<lambda>(i, p) (custom, amount).
     obind (sd_protocol_fee ops (t\<lparr>sd_custom := custom\<rparr>) p) (\<lambda>fee.
     obind (add_p amount fee) (\<lambda>amount.
     if i \<noteq> 0
     then obind (map_err SettledMath (sd_calculate_custom_prices t amount)) (\<lambda>custom. Ok (custom, amount))
     else Ok (custom, amount))))"

definition sd_protocol_fees :: "f64 factor_ops \<Rightarrow> settled_trade \<Rightarrow> policy list \<Rightarrow> (settled_error, asset) outcome" where
  "sd_protocol_fees ops t policies =
     obind (ofold (sd_fee_step ops t) (rev (List.enumerate 0 policies)) (sd_custom t, 0)) (\<lambda>(custom, amount).
     Ok \<lparr>as_amount = amount, as_token = sd_surplus_token t\<rparr>)"

definition sd_policies :: "settlement_auction \<Rightarrow> settled_trade \<Rightarrow> policy list" where
  "sd_policies auction t = (case sa_orders auction (sd_order_uid t) of None \<Rightarrow> [] | Some policies \<Rightarrow> policies)"

definition sd_native_protocol_fee :: "f64 factor_ops \<Rightarrow> settlement_auction \<Rightarrow> settled_trade \<Rightarrow> (settled_error, u256) outcome" where
  "sd_native_protocol_fee ops auction t =
     obind (sd_protocol_fees ops t (sd_policies auction t)) (sd_native_value (sa_prices auction))"

definition sd_score :: "f64 factor_ops \<Rightarrow> settlement_auction \<Rightarrow> settled_trade \<Rightarrow> (settled_error, u256) outcome" where
  "sd_score ops auction t =
     obind (sd_native_surplus auction t) (\<lambda>surplus.
     obind (sd_native_protocol_fee ops auction t) (\<lambda>fee.
     add_p surplus fee))"

section \<open>Solutions\<close>

record settled_solution =
  ss_trades :: "settled_trade list"
  ss_auction_id :: u64

datatype score_error = ScoreZero | ScoreMissingPrice h160 | ScoreMath math_error

fun score_error_of :: "settled_error \<Rightarrow> score_error" where
  "score_error_of (SettledMissingPrice token) = ScoreMissingPrice token"
| "score_error_of (SettledMath e) = ScoreMath e"

definition ss_score :: "f64 factor_ops \<Rightarrow> settlement_auction \<Rightarrow> settled_solution \<Rightarrow> (score_error, u256) outcome" where
  "ss_score ops auction sol =
     obind (map_err score_error_of
        (ofold (\<lambda>t total. obind (sd_score ops auction t) (\<lambda>x. add_p total x)) (ss_trades sol) 0)) (\<lambda>total.
     map_err (\<lambda>_. ScoreZero) (score_new total))"

text \<open>\<open>unwrap_or_else\<close> over an error; a panic remains one.\<close>

primrec or_zero :: "('e, u256) outcome \<Rightarrow> ('f, u256) outcome" where
  "or_zero (Ok x) = Ok x"
| "or_zero (Err e) = Ok 0"
| "or_zero Panic = Panic"

definition ss_native_surplus :: "settlement_auction \<Rightarrow> settled_solution \<Rightarrow> ('e, u256) outcome" where
  "ss_native_surplus auction sol =
     ofold (\<lambda>t total. obind (or_zero (sd_native_surplus auction t)) (\<lambda>x. add_p total x)) (ss_trades sol) 0"

definition ss_native_fee :: "prices \<Rightarrow> settled_solution \<Rightarrow> ('e, u256) outcome" where
  "ss_native_fee prices sol =
     ofold (\<lambda>t total. obind (or_zero (sd_native_fee prices t)) (\<lambda>x. add_p total x)) (ss_trades sol) 0"

text \<open>The fee of every order, a map in which a later trade of an order replaces an earlier one.\<close>

primrec ok_option :: "('e, 'a) outcome \<Rightarrow> ('f, 'a option) outcome" where
  "ok_option (Ok x) = Ok (Some x)"
| "ok_option (Err e) = Ok None"
| "ok_option Panic = Panic"

definition ss_fees :: "prices \<Rightarrow> settled_solution \<Rightarrow> ('e, order_uid \<rightharpoonup> u256 option) outcome" where
  "ss_fees prices sol =
     ofold (\<lambda>t fees. obind (ok_option (sd_fee_in_sell_token prices t)) (\<lambda>fee. Ok (fees(sd_order_uid t \<mapsto> fee)))) (ss_trades sol) Map.empty"

datatype settled_solution_error = SolutionDecoding tokenized_error | OrderUidRecover uid_error u64

fun settled_solution_error_auction_id :: "settled_solution_error \<Rightarrow> u64 option" where
  "settled_solution_error_auction_id (SolutionDecoding e) = tokenized_error_auction_id e"
| "settled_solution_error_auction_id (OrderUidRecover _ auction_id) = Some auction_id"

text \<open>\<open>tokens.iter().position(..).unwrap()\<close>.\<close>

fun position :: "'a \<Rightarrow> 'a list \<Rightarrow> nat option" where
  "position x [] = None"
| "position x (y # ys) = (if y = x then Some 0 else map_option Suc (position x ys))"

definition settled_trade_new ::
  "(bytes \<Rightarrow> h256) \<Rightarrow> ec_recover \<Rightarrow> h256 \<Rightarrow> settle_call \<Rightarrow> u64 \<Rightarrow> raw_trade \<Rightarrow> (settled_solution_error, settled_trade) outcome" where
  "settled_trade_new keccak ec_recover domain_separator call auction_id t =
     obind (as_u64 (rt_sell_token_index t)) (\<lambda>sell_token_index.
     obind (as_u64 (rt_buy_token_index t)) (\<lambda>buy_token_index.
     obind (index_p (sc_tokens call) sell_token_index) (\<lambda>sell_token.
     obind (index_p (sc_tokens call) buy_token_index) (\<lambda>buy_token.
     obind (expect (position sell_token (sc_tokens call))) (\<lambda>uniform_sell_token_index.
     obind (expect (position buy_token (sc_tokens call))) (\<lambda>uniform_buy_token_index.
     obind (map_err (\<lambda>e. OrderUidRecover e auction_id)
        (tokenized_order_uid keccak ec_recover domain_separator (sc_tokens call) t)) (\<lambda>order_uid.
     obind (index_p (sc_clearing_prices call) uniform_sell_token_index) (\<lambda>uniform_sell.
     obind (index_p (sc_clearing_prices call) uniform_buy_token_index) (\<lambda>uniform_buy.
     obind (index_p (sc_clearing_prices call) sell_token_index) (\<lambda>custom_sell.
     obind (index_p (sc_clearing_prices call) buy_token_index) (\<lambda>custom_buy.
     Ok \<lparr>sd_order_uid = order_uid,
         sd_sell = \<lparr>as_amount = rt_sell_amount t, as_token = sell_token\<rparr>,
         sd_buy = \<lparr>as_amount = rt_buy_amount t, as_token = buy_token\<rparr>,
         sd_side = side_of_order_kind (flags_order_kind (rt_flags t)), sd_executed = rt_executed_amount t,
         sd_uniform = \<lparr>cp_sell = uniform_sell, cp_buy = uniform_buy\<rparr>,
         sd_custom = \<lparr>cp_sell = custom_sell, cp_buy = custom_buy\<rparr>\<rparr>)))))))))))"

definition settled_solution_new ::
  "(bytes \<Rightarrow> h256) \<Rightarrow> ec_recover \<Rightarrow> h256 \<Rightarrow> bytes \<Rightarrow> abi_decoder \<Rightarrow> bytes \<Rightarrow> (settled_solution_error, settled_solution) outcome" where
  "settled_solution_new keccak ec_recover domain_separator selector decode_input calldata =
     obind (map_err SolutionDecoding (tokenized_new selector decode_input calldata)) (\<lambda>(call, auction_id).
     obind (omap (settled_trade_new keccak ec_recover domain_separator call auction_id) (sc_trades call)) (\<lambda>trades.
     Ok \<lparr>ss_trades = trades, ss_auction_id = auction_id\<rparr>))"

section \<open>The same mathematics in the driver\<close>

text \<open>A mined trade as the driver scored it, with the policies of its order.\<close>

primrec driver_policy :: "settled_trade \<Rightarrow> policy \<Rightarrow> f64 fee_policy" where
  "driver_policy t (Surplus factor max_volume_factor) = FeeSurplus factor max_volume_factor"
| "driver_policy t (PriceImprovement factor max_volume_factor quote) =
     FeePriceImprovement factor max_volume_factor
       \<lparr>fq_sell = \<lparr>as_amount = fpq_sell_amount quote, as_token = as_token (sd_sell t)\<rparr>,
        fq_buy = \<lparr>as_amount = fpq_buy_amount quote, as_token = as_token (sd_buy t)\<rparr>,
        fq_fee = \<lparr>as_amount = fpq_fee quote, as_token = as_token (sd_sell t)\<rparr>\<rparr>"
| "driver_policy t (Volume factor) = FeeVolume factor"

definition custom_of :: "clearing_prices \<Rightarrow> custom_clearing_prices" where
  "custom_of p = \<lparr>cc_sell = cp_sell p, cc_buy = cp_buy p\<rparr>"

definition scored_of :: "policy list \<Rightarrow> settled_trade \<Rightarrow> f64 scored_trade" where
  "scored_of policies t =
     \<lparr>st_sell = sd_sell t, st_buy = sd_buy t, st_side = sd_side t, st_executed = sd_executed t,
      st_custom_price = custom_of (sd_custom t), st_policies = map (driver_policy t) policies\<rparr>"

fun settled_of_scoring :: "scoring_error \<Rightarrow> settled_error" where
  "settled_of_scoring (ScoringMissingPrice token) = SettledMissingPrice token"
| "settled_of_scoring (ScoringMath e) = SettledMath e"

text \<open>The quote of a price improvement policy can be compared with the order: its fee does not eat up what it buys.\<close>

fun quote_comparable :: "settled_trade \<Rightarrow> policy \<Rightarrow> bool" where
  "quote_comparable t (PriceImprovement _ _ quote) \<longleftrightarrow> sd_quote_limits t quote \<noteq> Err MathNegative"
| "quote_comparable t _ \<longleftrightarrow> True"

lemma map_err_obind: "map_err g (obind r f) = obind (map_err g r) (\<lambda>x. map_err g (f x))"
  by (cases r) simp_all

lemma map_err_map_err: "map_err g (map_err h r) = map_err (\<lambda>e. g (h e)) r"
  by (cases r) simp_all

lemma map_err_ok_or: "map_err g (ok_or m e) = ok_or m (g e)"
  by (cases m) simp_all

lemma map_err_expect: "map_err g (expect m) = expect m"
  by (cases m) simp_all

lemma map_err_in_eth: "map_err g (in_eth price amount) = in_eth price amount"
  by (simp add: in_eth_def op_panic_defs map_err_obind map_err_expect)

lemma map_err_add_p: "map_err g (add_p a b) = add_p a b"
  by (simp add: add_p_def map_err_expect)

lemmas map_err_steps = map_err_obind map_err_map_err map_err_ok_or map_err_in_eth map_err_add_p

text \<open>Two loops whose rounds agree.\<close>

lemma ofold_simulation:
  assumes "\<And>i s. i \<in> set is \<Longrightarrow> map_err g (F (h i) (k s)) = obind (F' i s) (\<lambda>s. Ok (k s))"
  shows "map_err g (ofold F (map h is) (k s)) = obind (ofold F' is s) (\<lambda>s. Ok (k s))"
  using assms
proof (induction "is" arbitrary: s)
  case (Cons i "is")
  have "map_err g (ofold F (map h (i # is)) (k s)) = obind (map_err g (F (h i) (k s))) (\<lambda>x. map_err g (ofold F (map h is) x))"
    by (simp add: map_err_obind)
  also have "\<dots> = obind (F' i s) (\<lambda>s. map_err g (ofold F (map h is) (k s)))"
    using Cons.prems [of i s] by (simp add: obind_assoc)
  also have "\<dots> = obind (F' i s) (\<lambda>s. obind (ofold F' is s) (\<lambda>s. Ok (k s)))"
    using Cons.IH Cons.prems by (intro obind_cong) simp_all
  finally show ?case
    by (simp add: obind_assoc)
qed simp

lemma driver_policy_custom [simp]: "driver_policy (t\<lparr>sd_custom := p\<rparr>) x = driver_policy t x"
  by (cases x) simp_all

lemma scored_of_simps [simp]:
  "st_sell (scored_of ps t) = sd_sell t" "st_buy (scored_of ps t) = sd_buy t" "st_side (scored_of ps t) = sd_side t"
  "st_executed (scored_of ps t) = sd_executed t" "st_custom_price (scored_of ps t) = custom_of (sd_custom t)"
  "st_policies (scored_of ps t) = map (driver_policy t) ps"
  "cc_sell (custom_of p) = cp_sell p" "cc_buy (custom_of p) = cp_buy p"
  "surplus_token (scored_of ps t) = sd_surplus_token t"
  "(scored_of ps t)\<lparr>st_custom_price := custom_of p\<rparr> = scored_of ps (t\<lparr>sd_custom := p\<rparr>)"
  by (simp_all add: scored_of_def custom_of_def surplus_token_def sd_surplus_token_def split: side.splits)

lemma surplus_over_scored_of: "surplus_over (scored_of ps t) limits = sd_surplus_over t (sd_custom t) limits"
  by (simp add: surplus_over_def sd_surplus_over_def cong: side.case_cong)

lemma surplus_over_limit_price_scored_of:
  "map_err settled_of_scoring (surplus_over_limit_price (scored_of ps t)) = map_err SettledMath (sd_surplus_over_limit_price t)"
  by (simp add: surplus_over_limit_price_def sd_surplus_over_limit_price_def sd_limits_def surplus_over_scored_of map_err_map_err)

lemma native_value_settled: "map_err settled_of_scoring (native_value prices a) = sd_native_value prices a"
  by (simp add: native_value_def sd_native_value_def map_err_steps)

lemma price_improvement_scored_of:
  assumes "sd_quote_limits t quote \<noteq> Err MathNegative"
  shows "map_err settled_of_scoring (price_improvement (scored_of ps t)
           \<lparr>fq_sell = \<lparr>as_amount = fpq_sell_amount quote, as_token = a\<rparr>, fq_buy = \<lparr>as_amount = fpq_buy_amount quote, as_token = b\<rparr>,
            fq_fee = \<lparr>as_amount = fpq_fee quote, as_token = c\<rparr>\<rparr>) = sd_price_improvement t quote"
proof -
  have limits: "adjust_quote_to_order_limits \<lparr>lo_sell_amount = as_amount (sd_sell t), lo_buy_amount = as_amount (sd_buy t), lo_side = sd_side t\<rparr>
      \<lparr>lq_sell_amount = fpq_sell_amount quote, lq_buy_amount = fpq_buy_amount quote, lq_fee_amount = fpq_fee quote\<rparr> =
      sd_quote_limits t quote"
    by (simp add: sd_quote_limits_def sd_adjust_quote_to_order_limits_def adjust_quote_to_order_limits_def)
  show ?thesis
    using assms by (cases "sd_quote_limits t quote")
      (auto simp: limits price_improvement_def sd_price_improvement_def sd_surplus_over_quote_def surplus_over_scored_of
        Let_def map_err_map_err)
qed

lemma surplus_fee_settled: "map_err settled_of_scoring (st_surplus_fee ops a factor) = sd_surplus_fee ops a factor"
  by (simp add: st_surplus_fee_def sd_surplus_fee_def map_err_steps)

lemma volume_fee_scored_of: "map_err settled_of_scoring (volume_fee ops (scored_of ps t) factor) = sd_volume_fee ops t factor"
  by (cases "sd_side t") (simp_all add: volume_fee_def sd_volume_fee_def Let_def map_err_steps)

lemma protocol_fee_scored_of:
  assumes "quote_comparable t p"
  shows "map_err settled_of_scoring (st_protocol_fee ops (scored_of ps t) (driver_policy t p)) = sd_protocol_fee ops t p"
  using assms
  by (cases p) (simp_all add: st_protocol_fee_def sd_protocol_fee_def map_err_steps surplus_over_limit_price_scored_of
      price_improvement_scored_of surplus_fee_settled volume_fee_scored_of)

lemma calculate_custom_prices_scored_of:
  "calculate_custom_prices (scored_of ps t) pfee = obind (sd_calculate_custom_prices t pfee) (\<lambda>p. Ok (custom_of p))"
  by (cases "sd_side t")
    (simp_all add: calculate_custom_prices_def sd_calculate_custom_prices_def st_sell_amount_def st_buy_amount_def
      sd_sell_amount_def sd_buy_amount_def custom_of_def obind_assoc)

lemma sd_quote_limits_custom [simp]: "quote_comparable (t\<lparr>sd_custom := p\<rparr>) x \<longleftrightarrow> quote_comparable t x"
  by (cases x) (simp_all add: sd_quote_limits_def)

lemma fee_step_scored_of:
  assumes "quote_comparable t p"
  shows "map_err settled_of_scoring (fee_step ops (scored_of ps t) (i, driver_policy t p) (custom_of c, amount)) =
    obind (sd_fee_step ops t (i, p) (c, amount)) (\<lambda>(c, amount). Ok (custom_of c, amount))"
proof -
  have "map_err settled_of_scoring (st_protocol_fee ops (scored_of ps (t\<lparr>sd_custom := c\<rparr>)) (driver_policy t p)) =
    sd_protocol_fee ops (t\<lparr>sd_custom := c\<rparr>) p"
    using protocol_fee_scored_of [of "t\<lparr>sd_custom := c\<rparr>" p ops ps] assms by simp
  then show ?thesis
    by (cases "i = 0") (simp_all add: fee_step_def sd_fee_step_def map_err_steps calculate_custom_prices_scored_of obind_assoc)
qed

lemma protocol_fees_scored_of:
  assumes "list_all (quote_comparable t) ps"
  shows "map_err settled_of_scoring (st_protocol_fees ops (scored_of ps t)) = sd_protocol_fees ops t ps"
proof -
  let ?h = "\<lambda>(i, p). (i, driver_policy t p)" and ?k = "\<lambda>(c, amount). (custom_of c, amount)"
  have enum: "rev (List.enumerate 0 (map (driver_policy t) ps)) = map ?h (rev (List.enumerate 0 ps))"
    by (simp add: enumerate_eq_zip zip_map2 rev_map case_prod_unfold)
  have "map_err settled_of_scoring (ofold (fee_step ops (scored_of ps t)) (map ?h (rev (List.enumerate 0 ps))) (?k (sd_custom t, 0))) =
    obind (ofold (sd_fee_step ops t) (rev (List.enumerate 0 ps)) (sd_custom t, 0)) (\<lambda>s. Ok (?k s))"
  proof (rule ofold_simulation)
    fix ip s
    assume "ip \<in> set (rev (List.enumerate 0 ps))"
    then have "ip \<in> set (zip [0..<length ps] ps)"
      by (simp add: enumerate_eq_zip)
    then obtain i p where ip: "ip = (i, p)" "p \<in> set ps"
      by (metis prod.collapse set_zip_rightD)
    then show "map_err settled_of_scoring (fee_step ops (scored_of ps t) (?h ip) (?k s)) =
      obind (sd_fee_step ops t ip s) (\<lambda>s. Ok (?k s))"
      using fee_step_scored_of [of t p ops ps i "fst s" "snd s"] assms
      by (simp add: list_all_iff case_prod_unfold)
  qed
  then show ?thesis
    by (simp add: st_protocol_fees_def sd_protocol_fees_def enum map_err_obind case_prod_unfold obind_assoc)
qed

lemma score_scored_of:
  assumes "is_surplus_capturing auction (sd_order_uid t)" and "list_all (quote_comparable t) (sd_policies auction t)"
  shows "map_err settled_of_scoring (st_score ops (sa_prices auction) (scored_of (sd_policies auction t) t)) = sd_score ops auction t"
  using assms
  by (simp add: st_score_def sd_score_def native_surplus_def sd_native_surplus_def
      native_protocol_fee_def sd_native_protocol_fee_def map_err_steps surplus_over_limit_price_scored_of
      protocol_fees_scored_of native_value_settled)

text \<open>An order that may not contribute to the score adds nothing to it, but its surplus token needs a price.\<close>

lemma in_eth_0 [simp]: "in_eth price 0 = Ok 0"
  by (simp add: in_eth_def op_panic_defs checked_mul_def checked_div_def PRICE_BASE_def)

lemma add_p_0 [simp]: "add_p a 0 = Ok a"
  by (simp add: add_p_Ok)

lemma score_not_capturing:
  assumes "\<not> is_surplus_capturing auction (sd_order_uid t)"
  shows "sd_score ops auction t =
    (if sa_prices auction (sd_surplus_token t) = None then Err (SettledMissingPrice (sd_surplus_token t)) else Ok 0)"
proof -
  have "sd_policies auction t = []"
    using assms by (auto simp: is_surplus_capturing_def sd_policies_def)
  then show ?thesis
    using assms by (auto simp: sd_score_def sd_native_surplus_def sd_native_protocol_fee_def sd_protocol_fees_def sd_native_value_def)
qed

lemma score_sum_matches:
  assumes "list_all (\<lambda>t. if is_surplus_capturing auction (sd_order_uid t) then list_all (quote_comparable t) (sd_policies auction t)
                           else sa_prices auction (sd_surplus_token t) \<noteq> None) ts"
  shows "ofold (\<lambda>t total. obind (sd_score ops auction t) (\<lambda>x. add_p total x)) ts acc =
    map_err settled_of_scoring (ofold (\<lambda>t total. obind (st_score ops (sa_prices auction) t) (\<lambda>x. add_p total x))
      (map (\<lambda>t. scored_of (sd_policies auction t) t) (filter (\<lambda>t. is_surplus_capturing auction (sd_order_uid t)) ts)) acc)"
  using assms
proof (induction ts arbitrary: acc)
  case (Cons t ts)
  then have IH: "ofold (\<lambda>t total. obind (sd_score ops auction t) (\<lambda>x. add_p total x)) ts = (\<lambda>acc.
      map_err settled_of_scoring (ofold (\<lambda>t total. obind (st_score ops (sa_prices auction) t) (\<lambda>x. add_p total x))
        (map (\<lambda>t. scored_of (sd_policies auction t) t) (filter (\<lambda>t. is_surplus_capturing auction (sd_order_uid t)) ts)) acc))"
    by auto
  show ?case
  proof (cases "is_surplus_capturing auction (sd_order_uid t)")
    case True
    then have "sd_score ops auction t =
      map_err settled_of_scoring (st_score ops (sa_prices auction) (scored_of (sd_policies auction t) t))"
      using Cons.prems by (simp add: score_scored_of)
    with True IH show ?thesis
      by (simp add: map_err_obind obind_assoc map_err_add_p)
  next
    case False
    with IH Cons.prems show ?thesis
      by (auto simp: score_not_capturing)
  qed
qed simp

section \<open>Reading a settlement\<close>

lemma position_Some: "position x xs = Some i \<Longrightarrow> i < length xs \<and> xs ! i = x"
  by (induction xs arbitrary: i) (auto split: if_splits)

lemma position_set: "x \<in> set xs \<Longrightarrow> \<exists>i. position x xs = Some i"
  by (induction xs) auto

lemma index_p_Ok: "i < length xs \<Longrightarrow> index_p xs i = Ok (xs ! i)"
  by (simp add: index_p_def)

lemma settles_settled_trade:
  assumes "settles keccak ec_recover domain_separator (sc_tokens call) t ord"
    and "length (sc_clearing_prices call) = length (sc_tokens call)"
  shows "\<exists>st. settled_trade_new keccak ec_recover domain_separator call auction_id t = Ok st \<and>
              sd_order_uid st = settled_uid keccak domain_separator ord"
proof -
  obtain d owner where ord: "ord = (d, owner)"
    by (cases ord)
  with assms(1) obtain dt where dt: "decoded_trade_new keccak ec_recover domain_separator (sc_tokens call) t = Ok dt"
    and uid: "dt_order_uid dt = settled_uid keccak domain_separator ord"
    using settles_decoded by metis
  then have tok: "tokenized_order_uid keccak ec_recover domain_separator (sc_tokens call) t = Ok (settled_uid keccak domain_separator ord)"
    by (auto simp: decoders_agree)
  have "trade_order (sc_tokens call) t \<noteq> (Panic :: (uid_error, order_data) outcome)"
    using dt by (auto simp: decoded_trade_new_def)
  then have i: "unat (rt_sell_token_index t) < 2 ^ 64" "unat (rt_sell_token_index t) < length (sc_tokens call)"
    and j: "unat (rt_buy_token_index t) < 2 ^ 64" "unat (rt_buy_token_index t) < length (sc_tokens call)"
    by (auto simp: trade_order_def token_at_def as_u64_def index_p_def split: if_splits)
  obtain k l where kl: "position (sc_tokens call ! unat (rt_sell_token_index t)) (sc_tokens call) = Some k"
    "position (sc_tokens call ! unat (rt_buy_token_index t)) (sc_tokens call) = Some l"
    using position_set [OF nth_mem [OF i(2)]] position_set [OF nth_mem [OF j(2)]] by blast
  then have "k < length (sc_tokens call)" "l < length (sc_tokens call)"
    using position_Some [OF kl(1)] position_Some [OF kl(2)] by simp_all
  with i j kl tok assms(2) show ?thesis
    by (simp add: settled_trade_new_def as_u64_def index_p_Ok)
qed

lemma omap_settled_trades:
  assumes "list_all2 (settles keccak ec_recover domain_separator (sc_tokens call)) ts orders"
    and "length (sc_clearing_prices call) = length (sc_tokens call)"
  shows "\<exists>sts. omap (settled_trade_new keccak ec_recover domain_separator call auction_id) ts = Ok sts \<and>
               map sd_order_uid sts = map (settled_uid keccak domain_separator) orders"
  using assms(1)
proof (induction rule: list_all2_induct)
  case (Cons t ts ord orders)
  then show ?case
    using settles_settled_trade [OF Cons.hyps(1) assms(2), of auction_id] by auto
qed simp

section \<open>Properties\<close>

text \<open>
  C10. A settlement reads back as what was settled. Call data that the ABI decoder understands, whose trades encode signed orders over
  the tokens of the settlement, and that ends in the number of the auction as the driver appends it, is decoded by both decoders of the autopilot, to
  trades with exactly the uids of these orders, in their order, and to this number. The conditions: the settlement has as many clearing
  prices as tokens (the second decoder looks up the prices of the tokens of a trade by index), and the encoded arguments are whole words of 32
  bytes, as ABI encodings are (the first decoder takes what exceeds a whole number of words for the metadata).
\<close>

theorem settlement_reads_back:
  assumes "decode_input calldata = Inr call" and "length calldata mod 32 = 0"
    and "list_all2 (settles keccak ec_recover domain_separator (sc_tokens call)) (sc_trades call) orders"
    and "length (sc_clearing_prices call) = length (sc_tokens call)"
  shows "\<exists>ds sol.
    decoded_settlement_new keccak ec_recover domain_separator selector decode_input
      (selector @ calldata @ to_be_bytes_i64 auction_id) = Ok ds \<and>
    map dt_order_uid (dst_trades ds) = map (settled_uid keccak domain_separator) orders \<and>
    dst_metadata ds = Some (to_be_bytes_i64 auction_id) \<and>
    settled_solution_new keccak ec_recover domain_separator selector decode_input
      (selector @ calldata @ to_be_bytes_i64 auction_id) = Ok sol \<and>
    map sd_order_uid (ss_trades sol) = map (settled_uid keccak domain_separator) orders \<and>
    ss_auction_id sol = auction_id"
proof -
  obtain dts where dts: "decode_trades (decoded_trade_new keccak ec_recover domain_separator (sc_tokens call)) (sc_trades call) =
      (Ok dts :: (decode_error, decoded_trade list) outcome)"
    "map dt_order_uid dts = map (settled_uid keccak domain_separator) orders"
    using decode_trades_settles [OF assms(3)] by blast
  obtain sts where sts: "omap (settled_trade_new keccak ec_recover domain_separator call auction_id) (sc_trades call) = Ok sts"
    "map sd_order_uid sts = map (settled_uid keccak domain_separator) orders"
    using omap_settled_trades [OF assms(3, 4)] by blast
  have "(length calldata + 8) mod 32 = 8"
    using assms(2) by (simp add: mod_add_left_eq [symmetric])
  then show ?thesis
    using assms(1) dts sts
    by (simp add: decoded_settlement_new_def settlement_try_new_def settled_solution_new_def tokenized_new_def META_DATA_LEN_def
        to_be_bytes_i64_def)
qed

definition example_settled_order :: order_data where
  "example_settled_order =
     \<lparr>od_sell_token = 1, od_buy_token = 2, od_receiver = None, od_sell_amount = 10, od_buy_amount = 5, od_valid_to = 100,
      od_app_data = 0, od_fee_amount = 0, od_kind = Sell, od_partially_fillable = False, od_sell_token_balance = SellErc20,
      od_buy_token_balance = BuyErc20\<rparr>"

definition example_call :: settle_call where
  "example_call =
     \<lparr>sc_tokens = [1, 2], sc_clearing_prices = [2, 1],
      sc_trades = [ok_value (encode_trade example_settled_order PreSign 42 0 1 10 :: (uid_error, raw_trade) outcome)],
      sc_interactions = [[], [], []]\<rparr>"

theorem settlement_reads_back_witness:
  "\<exists>ds sol.
    decoded_settlement_new (\<lambda>_. 0) (\<lambda>_ _ _ _. None) 0 [19, 215] (\<lambda>_. Inr example_call) ([19, 215] @ [] @ to_be_bytes_i64 7) = Ok ds \<and>
    map dt_order_uid (dst_trades ds) = map (settled_uid (\<lambda>_. 0) 0) [(example_settled_order, 42)] \<and>
    dst_metadata ds = Some (to_be_bytes_i64 7) \<and>
    settled_solution_new (\<lambda>_. 0) (\<lambda>_ _ _ _. None) 0 [19, 215] (\<lambda>_. Inr example_call) ([19, 215] @ [] @ to_be_bytes_i64 7) = Ok sol \<and>
    map sd_order_uid (ss_trades sol) = map (settled_uid (\<lambda>_. 0) 0) [(example_settled_order, 42)] \<and>
    ss_auction_id sol = 7"
proof (rule settlement_reads_back)
  have "encode_trade example_settled_order PreSign 42 0 1 10 =
    (Ok (ok_value (encode_trade example_settled_order PreSign 42 0 1 10 :: (uid_error, raw_trade) outcome)) :: (uid_error, raw_trade) outcome)"
    by (simp add: encode_trade_def)
  then have "settles (\<lambda>_. 0) (\<lambda>_ _ _ _. None) 0 [1, 2]
    (ok_value (encode_trade example_settled_order PreSign 42 0 1 10 :: (uid_error, raw_trade) outcome)) (example_settled_order, 42)"
    unfolding settles_def prod.case
    by (intro exI conjI) (auto simp: signs_def example_settled_order_def)
  then show "list_all2 (settles (\<lambda>_. 0) (\<lambda>_ _ _ _. None) 0 (sc_tokens example_call)) (sc_trades example_call) [(example_settled_order, 42)]"
    by (simp add: example_call_def)
qed (simp_all add: example_call_def)

text \<open>
  C9. The autopilot scores a mined settlement as the driver did: over the call data of a settlement, \<open>Solution::score\<close> is the sum
  \<open>Scoring::score\<close> of the driver over the trades whose orders may contribute, errors and overflows included, refused only if it is zero. The
  conditions are that the quote of every price improvement policy can be compared with its order (where its fee exceeds what it buys, the driver reports an
  error and the autopilot sees no improvement), and that the other trades have a price for their surplus token.
\<close>

theorem settled_score_matches_driver:
  assumes "list_all (\<lambda>t. if is_surplus_capturing auction (sd_order_uid t) then list_all (quote_comparable t) (sd_policies auction t)
                           else sa_prices auction (sd_surplus_token t) \<noteq> None) (ss_trades sol)"
  shows "ss_score ops auction sol =
    obind (map_err (\<lambda>e. score_error_of (settled_of_scoring e))
        (score ops (sa_prices auction) (map (\<lambda>t. scored_of (sd_policies auction t) t)
           (filter (\<lambda>t. is_surplus_capturing auction (sd_order_uid t)) (ss_trades sol))))) (\<lambda>total.
      map_err (\<lambda>_. ScoreZero) (score_new total))"
  using score_sum_matches [OF assms, of ops 0] by (simp add: ss_score_def score_def map_err_map_err)

definition example_ops :: "f64 factor_ops" where
  "example_ops = \<lparr>fo_scaled = (\<lambda>_. 1000000000000000000), fo_over_one_minus = (\<lambda>f. f), fo_over_one_plus = (\<lambda>f. f)\<rparr>"

text \<open>An auction with one order (the empty uid), and a mined trade with its sides.\<close>

definition example_settlement_auction :: settlement_auction where
  "example_settlement_auction =
     \<lparr>sa_id = 7, sa_orders = [[] \<mapsto> [PriceImprovement (Finite 1) (Finite 1) \<lparr>fpq_sell_amount = 10, fpq_buy_amount = 10, fpq_fee = 1\<rparr>]],
      sa_prices = [1 \<mapsto> 1000000000000000000, 2 \<mapsto> 2000000000000000000], sa_surplus_capturing_jit_order_owners = {}\<rparr>"

definition example_settled_trade :: "order_uid \<Rightarrow> side \<Rightarrow> settled_trade" where
  "example_settled_trade uid sd =
     \<lparr>sd_order_uid = uid, sd_sell = \<lparr>as_amount = 10, as_token = 1\<rparr>, sd_buy = \<lparr>as_amount = 5, as_token = 2\<rparr>, sd_side = sd,
      sd_executed = 10, sd_uniform = \<lparr>cp_sell = 2, cp_buy = 1\<rparr>, sd_custom = \<lparr>cp_sell = 19, cp_buy = 10\<rparr>\<rparr>"

lemmas example_settled_defs = example_ops_def example_settlement_auction_def example_settled_trade_def

lemma example_capturing:
  "is_surplus_capturing example_settlement_auction []" "\<not> is_surplus_capturing example_settlement_auction [1]"
  by (simp_all add: is_surplus_capturing_def example_settlement_auction_def)

lemma example_comparable: "list_all (quote_comparable (example_settled_trade [] SideSell))
    (sd_policies example_settlement_auction (example_settled_trade [] SideSell))"
  by (simp add: example_settled_defs sd_policies_def sd_quote_limits_def sd_adjust_quote_to_order_limits_def mul_div_def
      checked_mul_def checked_div_def checked_sub_def)

lemma example_driver_score:
  "score example_ops (sa_prices example_settlement_auction)
     [scored_of (sd_policies example_settlement_auction (example_settled_trade [] SideSell)) (example_settled_trade [] SideSell)] = Ok 48"
  by (simp add: example_settled_defs sd_policies_def score_def st_score_def native_surplus_def surplus_over_limit_price_def
      surplus_over_def scored_of_def custom_of_def mul_ceil_div_def checked_ceil_div_def checked_mul_def checked_div_def checked_sub_def
      checked_add_def native_value_def surplus_token_def in_eth_def op_panic_defs PRICE_BASE_def native_protocol_fee_def
      st_protocol_fees_def fee_step_def st_protocol_fee_def price_improvement_def adjust_quote_to_order_limits_def mul_div_def
      st_surplus_fee_def volume_fee_def apply_factor_def Let_def)

theorem settled_score_matches_driver_witness:
  "ss_score example_ops example_settlement_auction
     \<lparr>ss_trades = [example_settled_trade [] SideSell, example_settled_trade [1] SideSell], ss_auction_id = 7\<rparr> = Ok 48"
proof -
  have "sd_order_uid (example_settled_trade uid sd) = uid" "sa_prices example_settlement_auction 2 \<noteq> None"
    "sd_surplus_token (example_settled_trade uid SideSell) = 2" for uid sd
    by (simp_all add: example_settled_defs sd_surplus_token_def)
  then show ?thesis
    using example_capturing example_comparable example_driver_score
    by (subst settled_score_matches_driver) (simp_all add: score_new_def)
qed

text \<open>A fulfillment of the driver as it is mined: its custom prices, and an executed amount that includes the fee of a sell order.\<close>

definition mined_fulfillment :: "'f fulfillment \<Rightarrow> order_uid \<Rightarrow> u256 \<Rightarrow> clearing_prices \<Rightarrow> custom_clearing_prices \<Rightarrow> settled_trade" where
  "mined_fulfillment f uid executed uniform custom =
     \<lparr>sd_order_uid = uid, sd_sell = do_sell (fu_order f), sd_buy = do_buy (fu_order f), sd_side = do_side (fu_order f),
      sd_executed = executed, sd_uniform = uniform, sd_custom = \<lparr>cp_sell = cc_sell custom, cp_buy = cc_buy custom\<rparr>\<rparr>"

lemma ceil_difference_nat:
  fixes a b d x y :: nat
  assumes "0 < b" and "x = (a + (b - 1)) div b" and "y = (a + d + (b - 1)) div b" and "y = x + z"
  shows "d div b \<le> z" and "z * b < d + b"
proof -
  have x: "a \<le> x * b" "x * b < a + b" and y: "a + d \<le> y * b" "y * b < a + d + b"
    using ceil_div_nat_bounds [OF assms(1)] assms(2, 3) by blast+
  have "y * b = x * b + z * b"
    using assms(4) by (simp add: distrib_right)
  with x y show "z * b < d + b"
    by linarith
  have "d < (z + 1) * b"
    using \<open>y * b = x * b + z * b\<close> x y by (simp add: distrib_right)
  then have "d div b < z + 1"
    using assms(1) by (simp add: less_mult_imp_div_less)
  then show "d div b \<le> z"
    by simp
qed

lemmas sd_fee_defs = sd_fee_def sd_surplus_over_limit_price_before_fee_def sd_surplus_over_limit_price_def sd_surplus_over_def

lemma sd_fee_buy:
  assumes "sd_side t = SideBuy" and "sd_fee t = Ok a"
  obtains sold sold' where "mul_div (sd_executed t) (cp_buy (sd_uniform t)) (cp_sell (sd_uniform t)) = Ok sold"
    and "mul_div (sd_executed t) (cp_buy (sd_custom t)) (cp_sell (sd_custom t)) = Ok sold'"
    and "unat sold' = unat sold + unat (as_amount a)"
proof -
  have "\<exists>sold sold'. mul_div (sd_executed t) (cp_buy (sd_uniform t)) (cp_sell (sd_uniform t)) = Ok sold \<and>
    mul_div (sd_executed t) (cp_buy (sd_custom t)) (cp_sell (sd_custom t)) = Ok sold' \<and> unat sold' = unat sold + unat (as_amount a)"
    using assms by (fastforce simp: sd_fee_defs outc checked_sub_Some)
  then show ?thesis
    using that by blast
qed

lemma sd_fee_sell:
  assumes "sd_side t = SideSell" and "sd_fee t = Ok a"
  obtains bought bought' where "mul_ceil_div (sd_executed t) (cp_sell (sd_uniform t)) (cp_buy (sd_uniform t)) = Ok bought"
    and "mul_ceil_div (sd_executed t) (cp_sell (sd_custom t)) (cp_buy (sd_custom t)) = Ok bought'"
    and "unat bought = unat bought' + unat (as_amount a)"
proof -
  have "\<exists>bought bought'. mul_ceil_div (sd_executed t) (cp_sell (sd_uniform t)) (cp_buy (sd_uniform t)) = Ok bought \<and>
    mul_ceil_div (sd_executed t) (cp_sell (sd_custom t)) (cp_buy (sd_custom t)) = Ok bought' \<and>
    unat bought = unat bought' + unat (as_amount a)"
    using assms by (fastforce simp: sd_fee_defs outc checked_sub_Some)
  then show ?thesis
    using that by blast
qed

text \<open>
  C31. The fee that is read off a mined trade is the fee the driver charged. For a trade with the custom prices of
  \<open>Fulfillment::custom_prices\<close>, the difference of the surpluses before and after fees is, for a buy order, exactly the fee in the sell
  token; for a sell order it is the fee converted to the buy token at the uniform prices, rounded down or up.
\<close>

theorem settled_fee_matches_charged:
  assumes "fu_custom_prices f uniform = Ok custom"
    and "case do_side (fu_order f) of
           SideSell \<Rightarrow> checked_add (fu_executed f) (fulfillment_fee f) = Some executed
         | SideBuy \<Rightarrow> executed = fu_executed f"
    and "sd_fee (mined_fulfillment f uid executed uniform custom) = Ok a"
  shows "case do_side (fu_order f) of
      SideBuy \<Rightarrow> as_amount a = fulfillment_fee f
    | SideSell \<Rightarrow>
        unat (fulfillment_fee f) * unat (cp_sell uniform) div unat (cp_buy uniform) \<le> unat (as_amount a) \<and>
        unat (as_amount a) * unat (cp_buy uniform) < unat (fulfillment_fee f) * unat (cp_sell uniform) + unat (cp_buy uniform)"
proof (cases "do_side (fu_order f)")
  case SideBuy
  then obtain sold sold' where sold: "mul_div executed (cp_buy uniform) (cp_sell uniform) = Ok sold"
    and sold': "mul_div executed (cc_buy custom) (cc_sell custom) = Ok sold'" and sum: "unat sold' = unat sold + unat (as_amount a)"
    using sd_fee_buy [OF _ assms(3)] by (auto simp: mined_fulfillment_def)
  have cc: "cc_sell custom = executed" "unat (cc_buy custom) = unat sold + unat (fulfillment_fee f)"
    using assms(1, 2) SideBuy sold
    by (auto simp: fu_custom_prices_def fu_buy_amount_def fu_sell_amount_def outc checked_add_Some)
  have "sold' = cc_buy custom"
    using sold' cc(1) mul_div_self by simp
  with cc(2) sum SideBuy show ?thesis
    by (simp add: word_unat_eq_iff)
next
  case SideSell
  then obtain bought bought' where b: "mul_ceil_div executed (cp_sell uniform) (cp_buy uniform) = Ok bought"
    and b': "mul_ceil_div executed (cc_sell custom) (cc_buy custom) = Ok bought'" and sum: "unat bought = unat bought' + unat (as_amount a)"
    using sd_fee_sell [OF _ assms(3)] by (auto simp: mined_fulfillment_def)
  have ex: "unat executed = unat (fu_executed f) + unat (fulfillment_fee f)"
    using assms(2) SideSell by (simp add: checked_add_Some)
  have cc: "cc_buy custom = executed" "mul_ceil_div (fu_executed f) (cp_sell uniform) (cp_buy uniform) = Ok (cc_sell custom)"
    using assms(1, 2) SideSell by (auto simp: fu_custom_prices_def fu_buy_amount_def fu_sell_amount_def outc)
  have "bought' = cc_sell custom"
    using b' cc(1) mul_ceil_div_self by simp
  with b cc(2) ex have "0 < unat (cp_buy uniform)"
    "unat bought' = (unat (fu_executed f) * unat (cp_sell uniform) + (unat (cp_buy uniform) - 1)) div unat (cp_buy uniform)"
    "unat bought = (unat (fu_executed f) * unat (cp_sell uniform) + unat (fulfillment_fee f) * unat (cp_sell uniform)
       + (unat (cp_buy uniform) - 1)) div unat (cp_buy uniform)"
    by (simp_all add: mul_ceil_div_Ok distrib_right)
  from ceil_difference_nat [OF this sum] SideSell show ?thesis
    by simp
qed

theorem settled_fee_matches_charged_witness:
  "\<exists>a. sd_fee (mined_fulfillment (example_fulfillment 323 10) [] 333 example_prices \<lparr>cc_sell = 130, cc_buy = 333\<rparr>) = Ok a \<and>
       unat (as_amount a) = 4"
proof -
  note eval = fu_custom_prices_def fu_buy_amount_def fu_sell_amount_def fulfillment_fee_def mul_ceil_div_def checked_mul_def
    checked_add_def checked_sub_def checked_div_def checked_ceil_div_def mined_fulfillment_def sd_limits_def
    example_fulfillment_def example_prices_def example_order_simps
  let ?f = "example_fulfillment 323 10" and ?custom = "\<lparr>cc_sell = 130, cc_buy = 333\<rparr> :: custom_clearing_prices"
  obtain a where a: "sd_fee (mined_fulfillment ?f [] 333 example_prices ?custom) = Ok a"
    by (simp add: eval sd_fee_defs)
  have "fu_custom_prices ?f example_prices = Ok ?custom"
    "case do_side (fu_order ?f) of
       SideSell \<Rightarrow> checked_add (fu_executed ?f) (fulfillment_fee ?f) = Some 333 | SideBuy \<Rightarrow> 333 = fu_executed ?f"
    by (simp_all add: eval)
  from settled_fee_matches_charged [OF this a] have "4 \<le> unat (as_amount a)" "unat (as_amount a) * 10 < 50"
    by (simp_all add: fulfillment_fee_def example_fulfillment_def example_prices_def example_order_simps)
  with a show ?thesis
    by auto
qed

text \<open>
  Where the two programs differ: a quote whose fee exceeds what it buys makes the score an error in the driver, and is no price
  improvement in the autopilot.
\<close>

lemma quote_fee_scored_differently:
  assumes "sd_quote_limits t quote = Err MathNegative"
  shows "sd_price_improvement t quote = Ok \<lparr>as_amount = 0, as_token = sd_surplus_token t\<rparr>"
    and "price_improvement (scored_of ps t)
           \<lparr>fq_sell = \<lparr>as_amount = fpq_sell_amount quote, as_token = a\<rparr>, fq_buy = \<lparr>as_amount = fpq_buy_amount quote, as_token = b\<rparr>,
            fq_fee = \<lparr>as_amount = fpq_fee quote, as_token = c\<rparr>\<rparr> = Err (ScoringMath MathNegative)"
  using assms
  by (simp_all add: sd_price_improvement_def sd_surplus_over_quote_def price_improvement_def sd_quote_limits_def
      sd_adjust_quote_to_order_limits_def adjust_quote_to_order_limits_def)

lemma quote_fee_scored_differently_example:
  "sd_quote_limits (example_settled_trade [] SideSell) \<lparr>fpq_sell_amount = 10, fpq_buy_amount = 10, fpq_fee = 11\<rparr> = Err MathNegative"
  by (simp add: sd_quote_limits_def sd_adjust_quote_to_order_limits_def example_settled_trade_def mul_div_def checked_mul_def
      checked_div_def checked_sub_def)

text \<open>Call data that is too short for the number of an auction panics in one decoder and is an error in the other.\<close>

lemma short_calldata_panics:
  assumes "length data < 8"
  shows "settled_solution_new keccak ec_recover domain_separator selector decode_input (selector @ data) = Panic"
    and "decode_input data = Inl e \<Longrightarrow>
      decoded_settlement_new keccak ec_recover domain_separator selector decode_input (selector @ data) = Err (DecodingOther (DecodingFailed e))"
  using assms
  by (simp_all add: settled_solution_new_def tokenized_new_def decoded_settlement_new_def settlement_try_new_def META_DATA_LEN_def)

end
