(* ===== verification/Settlement_Surplus.thy ===== *)
theory Settlement_Surplus
  imports Settled_Trades
begin

text \<open>
  Surplus and fees of a decoded settlement, the second half of \<open>autopilot/src/decoded_settlement.rs\<close>, with the external prices of
  \<open>shared/src/external_prices.rs\<close> they are converted with. This is the code whose results are stored; \<open>Settled_Trades\<close> computes the
  same quantities a second time.

  \<open>BigRational\<close> is the type of rational numbers. A function that returns an \<open>Option\<close> and may panic is an outcome whose error is
  \<open>()\<close>. Hash maps of prices are maps; \<open>into_http_solver_prices\<close>, which only serves the legacy solver, is left out.
\<close>

section \<open>External prices\<close>

type_synonym external_prices = "h160 \<rightharpoonup> rat"

datatype external_price_error = MalformedNativePrice h160

definition native_price_step :: "h160 \<Rightarrow> external_prices \<Rightarrow> (external_price_error, external_prices) outcome" where
  "native_price_step token xrates =
     (case xrates token of
        Some price \<Rightarrow> if price \<noteq> 1 then Err (MalformedNativePrice token) else Ok xrates
      | None \<Rightarrow> Ok (xrates(token \<mapsto> 1)))"

definition external_prices_new :: "h160 \<Rightarrow> external_prices \<Rightarrow> (external_price_error, external_prices) outcome" where
  "external_prices_new native_token xrates = ofold native_price_step [native_token, BUY_ETH_ADDRESS] xrates"

definition to_native_xrate :: "u256 \<Rightarrow> rat" where
  "to_native_xrate price = of_nat (unat price) / 10 ^ 18"

definition try_from_auction_prices :: "h160 \<Rightarrow> (h160 \<rightharpoonup> u256) \<Rightarrow> (external_price_error, external_prices) outcome" where
  "try_from_auction_prices native_token prices =
     external_prices_new native_token (\<lambda>token. map_option to_native_xrate (prices token))"

definition try_get_native_amount :: "external_prices \<Rightarrow> h160 \<Rightarrow> rat \<Rightarrow> rat option" where
  "try_get_native_amount external_prices token amount = map_option (\<lambda>price. price * amount) (external_prices token)"

definition get_native_amount :: "external_prices \<Rightarrow> h160 \<Rightarrow> rat \<Rightarrow> ('e, rat) outcome" where
  "get_native_amount external_prices token amount = expect (try_get_native_amount external_prices token amount)"

definition try_get_token_amount :: "external_prices \<Rightarrow> rat \<Rightarrow> h160 \<Rightarrow> rat option" where
  "try_get_token_amount external_prices amount token =
     Option.bind (external_prices token) (\<lambda>price. if price = 0 then None else Some (amount / price))"

definition get_token_amount :: "external_prices \<Rightarrow> rat \<Rightarrow> h160 \<Rightarrow> ('e, rat) outcome" where
  "get_token_amount external_prices amount token = expect (try_get_token_amount external_prices amount token)"

section \<open>Surplus\<close>

abbreviation to_big_rational :: "u256 \<Rightarrow> rat" where
  "to_big_rational x \<equiv> of_nat (unat x)"

definition buy_order_surplus :: "rat \<Rightarrow> rat \<Rightarrow> rat \<Rightarrow> rat \<Rightarrow> rat \<Rightarrow> rat option" where
  "buy_order_surplus sell_token_price buy_token_price sell_amount_limit buy_amount_limit executed_buy_amount =
     (if buy_amount_limit = 0 then None
      else let limit_sell_amount = executed_buy_amount * sell_amount_limit / buy_amount_limit;
               res = limit_sell_amount * sell_token_price - executed_buy_amount * buy_token_price
           in if res < 0 then None else Some res)"

definition sell_order_surplus :: "rat \<Rightarrow> rat \<Rightarrow> rat \<Rightarrow> rat \<Rightarrow> rat \<Rightarrow> rat option" where
  "sell_order_surplus sell_token_price buy_token_price sell_amount_limit buy_amount_limit executed_sell_amount =
     (if sell_amount_limit = 0 then None
      else let limit_buy_amount = executed_sell_amount * buy_amount_limit / sell_amount_limit;
               res = executed_sell_amount * sell_token_price - limit_buy_amount * buy_token_price
           in if res < 0 then None else Some res)"

definition trade_surplus :: "order_kind \<Rightarrow> rat \<Rightarrow> rat \<Rightarrow> rat \<Rightarrow> rat \<Rightarrow> rat \<Rightarrow> rat option" where
  "trade_surplus kind sell_amount buy_amount executed_amount sell_token_price buy_token_price =
     (case kind of
        Buy \<Rightarrow> buy_order_surplus sell_token_price buy_token_price sell_amount buy_amount executed_amount
      | Sell \<Rightarrow> sell_order_surplus sell_token_price buy_token_price sell_amount buy_amount executed_amount)"

definition get_opt :: "'a list \<Rightarrow> nat \<Rightarrow> (unit, 'a) outcome" where
  "get_opt xs i = (if i < length xs then Ok (xs ! i) else Err ())"

definition surplus :: "decoded_trade \<Rightarrow> h160 list \<Rightarrow> u256 list \<Rightarrow> external_prices \<Rightarrow> (unit, u256) outcome" where
  "surplus t tokens clearing_prices external_prices =
     obind (as_u64 (dt_sell_token_index t)) (\<lambda>sell_token_index.
     obind (as_u64 (dt_buy_token_index t)) (\<lambda>buy_token_index.
     obind (get_opt clearing_prices sell_token_index) (\<lambda>sell_price.
     obind (get_opt clearing_prices buy_token_index) (\<lambda>buy_price.
     let kind = flags_order_kind (dt_flags t)
     in if (case kind of Sell \<Rightarrow> buy_price | Buy \<Rightarrow> sell_price) = 0 then Err ()
        else obind (ok_or (trade_surplus kind (to_big_rational (dt_sell_amount t)) (to_big_rational (dt_buy_amount t))
                     (to_big_rational (dt_executed_amount t)) (to_big_rational sell_price) (to_big_rational buy_price)) ()) (\<lambda>surplus.
             obind (case kind of
                      Sell \<Rightarrow>
                        obind (get_opt tokens buy_token_index) (\<lambda>buy_token.
                        ok_or (try_get_native_amount external_prices buy_token (surplus / to_big_rational buy_price)) ())
                    | Buy \<Rightarrow>
                        obind (get_opt tokens sell_token_index) (\<lambda>sell_token.
                        ok_or (try_get_native_amount external_prices sell_token (surplus / to_big_rational sell_price)) ())) (\<lambda>normalized_surplus.
             map_err (\<lambda>_. ()) (big_rational_to_u256 normalized_surplus)))))))"

definition total_surplus ::
  "decoded_settlement \<Rightarrow> external_prices \<Rightarrow> order_uid set \<Rightarrow> h160 set \<Rightarrow> ('e, u256) outcome" where
  "total_surplus s external_prices eligible_orders eligible_owners =
     ofold (\<lambda>t acc. obind (or_zero (surplus t (dst_tokens s) (dst_clearing_prices s) external_prices)) (\<lambda>x. add_p acc x))
       (filter (\<lambda>t. dt_order_uid t \<in> eligible_orders \<or> uid_owner (dt_order_uid t) \<in> eligible_owners) (dst_trades s)) 0"

section \<open>Fees\<close>

datatype fee_kind = FeeUser | FeeSurplusKind

record fees =
  fs_order :: order_uid
  fs_kind :: fee_kind
  fs_sell :: u256
  fs_native :: u256

definition executed_surplus_fee :: "fees \<Rightarrow> u256 option" where
  "executed_surplus_fee f = (case fs_kind f of FeeUser \<Rightarrow> None | FeeSurplusKind \<Rightarrow> Some (fs_sell f))"

text \<open>The fee hidden in the prices: the difference between the trade at its own prices and at the uniform ones.\<close>

definition hidden_fee :: "order_kind \<Rightarrow> u256 \<Rightarrow> clearing_prices \<Rightarrow> clearing_prices \<Rightarrow> u256 option" where
  "hidden_fee kind executed_amount adjusted uniform =
     (case kind of
        Buy \<Rightarrow>
          Option.bind (checked_mul executed_amount (cp_buy adjusted)) (\<lambda>p.
          Option.bind (checked_div p (cp_sell adjusted)) (\<lambda>required_sell_amount.
          Option.bind (checked_mul executed_amount (cp_buy uniform)) (\<lambda>p.
          Option.bind (checked_div p (cp_sell uniform)) (\<lambda>required_sell_amount_with_ucp.
          checked_sub required_sell_amount required_sell_amount_with_ucp))))
      | Sell \<Rightarrow>
          Option.bind (checked_mul executed_amount (cp_sell adjusted)) (\<lambda>p.
          Option.bind (checked_div p (cp_buy adjusted)) (\<lambda>received_buy_amount.
          Option.bind (checked_mul received_buy_amount (cp_buy uniform)) (\<lambda>p.
          Option.bind (checked_div p (cp_sell uniform)) (\<lambda>sell_amount_needed_with_ucp.
          checked_sub executed_amount sell_amount_needed_with_ucp)))))"

definition settlement_fee :: "decoded_settlement \<Rightarrow> external_prices \<Rightarrow> decoded_trade \<Rightarrow> (unit, fees) outcome" where
  "settlement_fee s external_prices t =
     obind (as_u64 (dt_sell_token_index t)) (\<lambda>sell_index.
     obind (as_u64 (dt_buy_token_index t)) (\<lambda>buy_index.
     obind (get_opt (dst_tokens s) sell_index) (\<lambda>sell_token.
     obind (get_opt (dst_tokens s) buy_index) (\<lambda>buy_token.
     obind (if dt_fee_amount t \<noteq> 0 then Ok (FeeUser, dt_fee_amount t)
            else obind (get_opt (dst_clearing_prices s) sell_index) (\<lambda>adjusted_sell_price.
                 obind (get_opt (dst_clearing_prices s) buy_index) (\<lambda>adjusted_buy_price.
                 obind (ok_or (position sell_token (dst_tokens s)) ()) (\<lambda>sell_index.
                 obind (ok_or (position buy_token (dst_tokens s)) ()) (\<lambda>buy_index.
                 obind (get_opt (dst_clearing_prices s) sell_index) (\<lambda>uniform_sell_price.
                 obind (get_opt (dst_clearing_prices s) buy_index) (\<lambda>uniform_buy_price.
                 obind (ok_or (hidden_fee (flags_order_kind (dt_flags t)) (dt_executed_amount t)
                          \<lparr>cp_sell = adjusted_sell_price, cp_buy = adjusted_buy_price\<rparr>
                          \<lparr>cp_sell = uniform_sell_price, cp_buy = uniform_buy_price\<rparr>) ()) (\<lambda>fee.
                 Ok (FeeSurplusKind, fee))))))))) (\<lambda>(kind, fee).
     obind (ok_or (try_get_native_amount external_prices sell_token (to_big_rational fee)) ()) (\<lambda>native.
     obind (map_err (\<lambda>_. ()) (big_rational_to_u256 native)) (\<lambda>native.
     Ok \<lparr>fs_order = dt_order_uid t, fs_kind = kind, fs_sell = fee, fs_native = native\<rparr>)))))))"

text \<open>There is a fee for every trade.\<close>

primrec fee_or_zero :: "order_uid \<Rightarrow> (unit, fees) outcome \<Rightarrow> ('e, fees) outcome" where
  "fee_or_zero uid (Ok f) = Ok f"
| "fee_or_zero uid (Err e) = Ok \<lparr>fs_order = uid, fs_kind = FeeUser, fs_sell = 0, fs_native = 0\<rparr>"
| "fee_or_zero uid Panic = Panic"

definition all_fees :: "decoded_settlement \<Rightarrow> external_prices \<Rightarrow> ('e, fees list) outcome" where
  "all_fees s external_prices =
     omap (\<lambda>t. fee_or_zero (dt_order_uid t) (settlement_fee s external_prices t)) (dst_trades s)"

section \<open>Lemmas\<close>

lemma external_prices_new_Ok:
  assumes "external_prices_new native_token xrates = Ok p"
  shows "p native_token = Some 1" and "p BUY_ETH_ADDRESS = Some 1"
    and "token \<noteq> native_token \<Longrightarrow> token \<noteq> BUY_ETH_ADDRESS \<Longrightarrow> p token = xrates token"
  using assms by (auto simp: external_prices_new_def native_price_step_def outc split: option.splits if_splits)

lemma hidden_fee_Some:
  "hidden_fee Buy x adjusted uniform = Some fee \<longleftrightarrow>
     (\<exists>sold sold'. mul_div x (cp_buy adjusted) (cp_sell adjusted) = Ok sold' \<and>
        mul_div x (cp_buy uniform) (cp_sell uniform) = Ok sold \<and> unat sold' = unat sold + unat fee)"
  "hidden_fee Sell x adjusted uniform = Some fee \<longleftrightarrow>
     (\<exists>received needed. mul_div x (cp_sell adjusted) (cp_buy adjusted) = Ok received \<and>
        mul_div received (cp_buy uniform) (cp_sell uniform) = Ok needed \<and> unat x = unat needed + unat fee)"
  by (auto simp: hidden_fee_def mul_div_def outc checked_sub_Some bind_eq_Some_conv)

lemma needed_at_uniform_prices:
  fixes e us ub :: nat
  assumes "0 < us" and "0 < ub" and "bought = (e * us + (ub - 1)) div ub" and "needed = bought * ub div us"
  shows "e \<le> needed" and "needed * us < e * us + ub"
proof -
  have b: "e * us \<le> bought * ub" "bought * ub < e * us + ub"
    using ceil_div_nat_bounds [OF assms(2, 3)] by blast+
  have "e * us div us \<le> bought * ub div us"
    using b(1) by (rule div_le_mono)
  then show "e \<le> needed"
    using assms(1, 4) by simp
  have "needed * us \<le> bought * ub"
    using assms(4) by simp
  then show "needed * us < e * us + ub"
    using b(2) by linarith
qed

section \<open>Properties\<close>

text \<open>
  C13. The fee the autopilot stores is the fee the driver charged in the sell token: for a trade with the custom prices of
  \<open>Fulfillment::custom_prices\<close>, exactly for a buy order; for a sell order never more, and less by an amount worth less than one atom of the buy
  token at the uniform prices.
\<close>

theorem stored_fee_matches_charged:
  assumes "fu_custom_prices f uniform = Ok custom"
    and "case do_side (fu_order f) of
           SideSell \<Rightarrow> kind = Sell \<and> checked_add (fu_executed f) (fulfillment_fee f) = Some executed
         | SideBuy \<Rightarrow> kind = Buy \<and> executed = fu_executed f"
    and "hidden_fee kind executed \<lparr>cp_sell = cc_sell custom, cp_buy = cc_buy custom\<rparr> uniform = Some fee"
  shows "case do_side (fu_order f) of
      SideBuy \<Rightarrow> fee = fulfillment_fee f
    | SideSell \<Rightarrow> fee \<le> fulfillment_fee f \<and>
        (unat (fulfillment_fee f) - unat fee) * unat (cp_sell uniform) < unat (cp_buy uniform)"
proof (cases "do_side (fu_order f)")
  case SideBuy
  then obtain sold sold' where sold: "mul_div executed (cp_buy uniform) (cp_sell uniform) = Ok sold"
    and sold': "mul_div executed (cc_buy custom) (cc_sell custom) = Ok sold'" and sum: "unat sold' = unat sold + unat fee"
    using assms(2, 3) by (auto simp: hidden_fee_Some)
  have cc: "cc_sell custom = executed" "unat (cc_buy custom) = unat sold + unat (fulfillment_fee f)"
    using assms(1, 2) SideBuy sold
    by (auto simp: fu_custom_prices_def fu_buy_amount_def fu_sell_amount_def outc checked_add_Some)
  have "sold' = cc_buy custom"
    using sold' cc(1) mul_div_self by simp
  with cc(2) sum SideBuy show ?thesis
    by (simp add: word_unat_eq_iff)
next
  case SideSell
  then obtain received needed where r: "mul_div executed (cc_sell custom) (cc_buy custom) = Ok received"
    and n: "mul_div received (cp_buy uniform) (cp_sell uniform) = Ok needed" and sum: "unat executed = unat needed + unat fee"
    using assms(2, 3) by (auto simp: hidden_fee_Some)
  have ex: "unat executed = unat (fu_executed f) + unat (fulfillment_fee f)"
    using assms(2) SideSell by (simp add: checked_add_Some)
  have cc: "cc_buy custom = executed" "mul_ceil_div (fu_executed f) (cp_sell uniform) (cp_buy uniform) = Ok (cc_sell custom)"
    using assms(1, 2) SideSell by (auto simp: fu_custom_prices_def fu_buy_amount_def fu_sell_amount_def outc)
  have "received = cc_sell custom"
    using r cc(1) mul_div_self by simp
  with n cc(2) have pos: "0 < unat (cp_sell uniform)" "0 < unat (cp_buy uniform)"
    "unat received = (unat (fu_executed f) * unat (cp_sell uniform) + (unat (cp_buy uniform) - 1)) div unat (cp_buy uniform)"
    "unat needed = unat received * unat (cp_buy uniform) div unat (cp_sell uniform)"
    by (simp_all add: mul_ceil_div_Ok mul_div_Ok)
  from needed_at_uniform_prices [OF this] sum ex
  have "unat fee \<le> unat (fulfillment_fee f)"
    "unat (fulfillment_fee f) - unat fee = unat needed - unat (fu_executed f)"
    "unat needed * unat (cp_sell uniform) < unat (fu_executed f) * unat (cp_sell uniform) + unat (cp_buy uniform)"
    by simp_all
  then have "unat fee \<le> unat (fulfillment_fee f)"
    "(unat (fulfillment_fee f) - unat fee) * unat (cp_sell uniform) < unat (cp_buy uniform)"
    using pos(2) by (simp_all add: diff_mult_distrib)
  with SideSell show ?thesis
    by (simp add: word_le_nat_alt)
qed

theorem stored_fee_matches_charged_witness:
  "hidden_fee Sell 333 \<lparr>cp_sell = 130, cp_buy = 333\<rparr> example_prices = Some 8 \<and> (10 - 8) * 4 < (10 :: nat)"
proof -
  note eval = fu_custom_prices_def fu_buy_amount_def fu_sell_amount_def fulfillment_fee_def mul_ceil_div_def checked_mul_def
    checked_add_def checked_sub_def checked_div_def checked_ceil_div_def example_fulfillment_def example_prices_def example_order_simps
  let ?f = "example_fulfillment 323 10" and ?custom = "\<lparr>cc_sell = 130, cc_buy = 333\<rparr> :: custom_clearing_prices"
  have custom: "fu_custom_prices ?f example_prices = Ok ?custom"
    and side: "case do_side (fu_order ?f) of
      SideSell \<Rightarrow> Sell = Sell \<and> checked_add (fu_executed ?f) (fulfillment_fee ?f) = Some 333
    | SideBuy \<Rightarrow> Sell = Buy \<and> 333 = fu_executed ?f"
    by (simp_all add: eval)
  have fee: "hidden_fee Sell 333 \<lparr>cp_sell = cc_sell ?custom, cp_buy = cc_buy ?custom\<rparr> example_prices = Some 8"
    by (simp add: hidden_fee_def eval)
  from stored_fee_matches_charged [OF custom side fee] fee show ?thesis
    by (simp add: fulfillment_fee_def example_fulfillment_def example_prices_def example_order_simps)
qed

end
