(* ===== verification/Spec2Isabelle.thy ===== *)
theory Spec2Isabelle
  imports Quotes Remaining_Amounts Balancer_Swap Uniswap_V2 Driver_Solution Shadow_Loop Order_Book Settlement_Surplus
begin

text \<open>
  Verification of the CoW Protocol services (\<open>src/crates\<close>).

  The services run the off-chain side of a batch exchange. Users sign orders, which the order book stores; the autopilot cuts
  auctions out of them; a driver preprocesses an auction, sends it to solver engines, applies protocol fees to their solutions,
  scores and merges these, and submits a winning solution to the settlement contract. Prices for quotes and for the baseline
  solver come from models of on-chain pools. This development models the parts that compute, with 256-bit integers kept at their
  width, and every early return, error value and panic as a branch.

  \<^bold>\<open>Conventions\<close> (\<open>Prelude\<close>). A Rust function that can fail returns an \<open>outcome\<close>: \<open>Ok\<close>, \<open>Err\<close> or \<open>Panic\<close>. Checked operations on
  words are options, the panicking operators of \<open>U256\<close> are \<open>add_p\<close>, \<open>sub_p\<close>, \<open>mul_p\<close>, \<open>div_p\<close>. The collections
  \<open>chk\<close>, \<open>outc\<close> and \<open>wp\<close> turn checked operations into equations on naturals, sequences of outcomes into their cases, and
  total (\<open>returns\<close>) and panic-free (\<open>safe\<close>) correctness into verification conditions; \<open>ofold\<close> and \<open>omap\<close> are loops and
  collected results. \<open>Stable_Sort\<close> holds the stable sorts, with the locale \<open>total_preorder\<close> for their comparisons.

  \<^bold>\<open>Orders and signatures.\<close>
  \<^item> \<open>Bytes\<close> (\<open>bytes-hex/src/lib.rs\<close>): byte encodings and the locale \<open>hex_codec\<close> of the hex library, interpreted on a lower-case codec.
  \<^item> \<open>Signatures\<close> (\<open>model/src/signature.rs\<close>): signature encodings, EIP-712 and eth-sign digests, owner recovery over parameters for
    keccak256 and the elliptic curve. Encodings round-trip, parsing is total, recovery returns the encoded owner.
  \<^item> \<open>Orders\<close> (\<open>model/src/order.rs\<close>, \<open>lib.rs\<close>): order data and their struct hash as the writes into the buffer the code
    makes, proved to be the EIP-712 encoding and injective; order uids; \<open>verify_owner\<close>; token pairs with their derived order.
  \<^item> \<open>Quotes\<close> (\<open>model/src/quote.rs\<close>), \<open>Numbers\<close> (\<open>number/src\<close>, \<open>shared/src/conversions.rs\<close>) and \<open>Remaining_Amounts\<close>
    (\<open>shared/src/remaining_amounts.rs\<close>): conversions are exact or errors; what is left of a partially filled order never
    exceeds the order or the balance of its owner.

  \<^bold>\<open>Liquidity.\<close>
  \<^item> \<open>Fixed_Point\<close>, \<open>Log_Exp_Math\<close> (\<open>shared/src/sources/balancer_v2/swap/fixed_point.rs\<close>, \<open>fixed_point/logexpmath.rs\<close>): rounded products
    and quotients bracket the exact values; the signed 256-bit power never overflows inside its input range.
  \<^item> \<open>Weighted_Math\<close>, \<open>Stable_Math\<close>, \<open>Balancer_Swap\<close> (\<open>swap/weighted_math.rs\<close>, \<open>swap/stable_math.rs\<close>, \<open>swap.rs\<close>, \<open>pools\<close>): the pool formulas never
    panic, restore the balances they change, and never pay out more than a pool holds. The Newton iterations
    have the 255 rounds of the code and the convergence of an input amount its six bumps, so no further fuel is needed. The
    locale \<open>pool_power\<close> is the contract of the rounded power, interpreted for both versions of the weighted pool.
  \<^item> \<open>Uniswap_V2\<close> (\<open>shared/src/sources/uniswap_v2\<close>): constant product pools and the pool fetcher with its cache.
  \<^item> \<open>Baseline\<close> (\<open>shared/src/baseline_solver.rs\<close>): candidate paths are exactly the simple paths over base tokens with at most the
    given number of hops (2 by default). The trait \<open>BaselineSolvable\<close> is the locale \<open>baseline_solvable\<close>, interpreted on the Uniswap, weighted
    and stable pools; what its lemmas say about them is the last property of this theory.

  \<^bold>\<open>The driver\<close> (\<open>driver/src/domain\<close>).
  \<^item> \<open>Driver_Order\<close> (\<open>competition/order\<close>, \<open>eth\<close>, \<open>util/math.rs\<close>): orders and the amounts that are available to solvers.
  \<^item> \<open>Driver_Auction\<close> (\<open>competition/auction.rs\<close>): prices, tokens, sorting, allocation of balances, and the processor as a state that calls
    of \<open>prioritize_orders\<close> change; an inductive predicate gives its reachable states.
  \<^item> \<open>Driver_Trade\<close> (\<open>competition/solution/trade.rs\<close>, \<open>fee.rs\<close>): fulfillments with the invariant \<open>fulfillment_valid\<close>, protocol fees. Fees keep
    the invariant, and surplus fees keep the limit price.
  \<^item> \<open>Driver_Scoring\<close> (\<open>scoring.rs\<close>): the score of a trade, and that it sees the surplus the fees were computed from.
  \<^item> \<open>Driver_Solution\<close> (\<open>solution/mod.rs\<close>, \<open>interaction.rs\<close>, \<open>eth/allowance.rs\<close>): construction, scoring, merging (a recursion that ends because
    the factor of the swapped call is above one), allowances.

  \<^bold>\<open>The autopilot\<close> (\<open>autopilot/src\<close>).
  \<^item> \<open>Programs\<close>: programs over a state that also leave a state when they fail. \<open>Rust_Maps\<close>: \<open>HashMap\<close> and \<open>BTreeMap\<close>
    as association lists, with the locale \<open>map_impl\<close> interpreted for both.
  \<^item> \<open>Native_Prices\<close> (\<open>shared/src/price_estimation/native_price_cache.rs\<close>): the price cache as functions and as a step relation over
    interleaved look-ups and stores, whose instants are in any order, as the clock is read before the lock is taken; a price it returns was
    estimated and is recent, or is the placeholder of a look-up with a later instant. Missing prices get fetched.
  \<^item> \<open>Protocol_Fees\<close> (\<open>domain/fee\<close>, \<open>boundary/order.rs\<close>, the market price check of \<open>shared/src/order_validation.rs\<close>): fee policies of an
    order, the range of their factors, and exactly when their selection panics.
  \<^item> \<open>Cow_Amms\<close> (\<open>cow-amm/src\<close>): the index of CoW AMMs under reorganisations of the chain, and the removal of empty pools.
  \<^item> \<open>Solvable_Orders\<close> (\<open>solvable_orders.rs\<close>, \<open>order-validation/src/banned.rs\<close>): the filters of the auction and the counter of
    filtered orders; each filter judges an order on its own.
  \<^item> \<open>Auction_Update\<close> (\<open>solvable_orders.rs\<close>, \<open>update\<close>): the composition. With services that answer, an update panics for a validly signed order of
    a single token, and otherwise succeeds, the auction holds exactly the solvable orders, and every other candidate is reported in one order event, as invalid or as filtered; a failed update keeps the auction.
  \<^item> \<open>Run_Loop\<close> (\<open>run_loop.rs\<close>, \<open>infra/solvers/dto\<close>, \<open>domain/competition\<close>): one run of the competition as a program over the orders in
    flight and the stored rows, and the condition of the loop. The winner has the best score of all admissible solutions, its orders are
    not offered again before the auction knows of their settlement, and a run returns once the chain has passed the deadline, unless the
    deadline of the request to the drivers is out of the range of \<open>chrono\<close> (the polls are a partial function, so no fuel is chosen). \<open>Shadow_Loop\<close> (\<open>shadow.rs\<close>): the competition without settlements.

  \<^bold>\<open>The order book\<close> (\<open>orderbook/src\<close> and the crates it rests on).
  \<^item> \<open>App_Data\<close> (\<open>app-data/src\<close>): the documents that orders refer to, their validation, and hooks with their saturating gas limit.
  \<^item> \<open>Order_Quoting\<close> (\<open>shared/src/order_quoting.rs\<close>, \<open>fee.rs\<close>, \<open>database/src/quotes.rs\<close>): quotes are calculated, stored and found. The trait
    \<open>QuoteStoring\<close> is the locale \<open>quote_storing\<close>, interpreted on the table of quotes; a found quote fits the order it is found for,
    and a stored quote is found again with its amounts until it expires.
  \<^item> \<open>Order_Validation\<close> (\<open>shared/src/order_validation.rs\<close>): the checks of an order, as a program over the cache of banned users and the
    quotes. The partial validation is exactly the predicate \<open>admissible\<close>; an accepted order is the signed one, with a verified
    owner, funds and a valid signature; panics come from overflowing amounts only.
  \<^item> \<open>Order_Storage\<close> (\<open>orderbook/src/database/orders.rs\<close>, \<open>database/src/orders.rs\<close>, \<open>order_events.rs\<close>, \<open>app_data.rs\<close>): the tables of orders and the
    transactions over them, with the conversion between rows and orders; a stored order reads back as it was.
  \<^item> \<open>Order_Book\<close> (\<open>orderbook/src/orderbook.rs\<close>, \<open>quoter.rs\<close>, \<open>app_data.rs\<close>): the requests of the API over these parts, and the states
    they can reach (\<open>book_reachable\<close>, an inductive predicate). A failed request leaves the tables of orders as they are, orders are
    cancelled by their owners only, and an added order can be read again.

  \<^bold>\<open>Settlements on chain.\<close> The autopilot reads a mined settlement from its call data, and observes what it was worth.
  \<^item> \<open>Settlement_Encoding\<close> (\<open>shared/src/encoded_settlement.rs\<close>, \<open>autopilot/src/decoded_settlement.rs\<close>,
    \<open>autopilot/src/domain/settlement/solution/tokenized.rs\<close>): trades as tuples with flags, and the two decoders of the call data.
  \<^item> \<open>Settled_Trades\<close> (\<open>autopilot/src/domain/settlement\<close>): surplus, fees and score of mined trades. A settlement reads back as the orders and
    the auction it was made from; its score is the one the driver computed, and the fees read off it are the ones the driver charged,
    up to rounding. The lemmas after the properties show where the two programs differ.
  \<^item> \<open>Settlement_Surplus\<close> (\<open>autopilot/src/decoded_settlement.rs\<close>, \<open>shared/src/external_prices.rs\<close>): the surplus and the fees that are stored, in rational arithmetic,
    and the external prices.

  \<^bold>\<open>Parameters.\<close> keccak256 and elliptic curve recovery, the hex library, the ABI codec, contract calls (pool reads, tradable
  balances, allowances, CoW AMM helpers, signature validation, token quality, sanctions), the database as the autopilot uses it,
  errors of the connection to it, price estimators, IPFS, the clock and the arithmetic of \<open>chrono\<close>, the app data parser and the rounding and conversion of \<open>f64\<close> numbers
  are arguments of the definitions that use them.

  \<^bold>\<open>Not modelled.\<close> The queries of the database beyond orders, quotes and app data, HTTP and RPC clients, configuration,
  metrics and logging, transaction submission and simulation, and the asynchronous runtime: they move data and hold no computation
  of their own beyond what is listed. Uniswap V3 and 0x liquidity, the refunder, and the solver engines with the legacy solver are programs of
  their own behind the interfaces above, and outside this development.
\<close>

section \<open>Estimates over pools\<close>

text \<open>
  C16. The sell amount that the path finder estimates for a wanted buy amount really buys it: along the path, every pool turns
  the amount that goes into it into at least the amount the next hop needs, ending with the wanted amount. This
  holds over weighted and stable Balancer pools in any state, and over Uniswap V2 pools whose reserves fit 112 bits and whose
  tokens are ordered.
\<close>

theorem sell_estimates_buy_the_amount:
  assumes "\<And>pair pools. uniswap_pools pair = Some pools \<Longrightarrow> list_all (\<lambda>p. pool_invar p \<and> token_pair_wf (p_tokens p)) pools"
  shows "(case estimate_sell_amount weighted_pool_get_amount_in buy_amount path weighted_pools of
        Ok e \<Rightarrow> \<exists>as. chain weighted_pool_get_amount_out path (est_path e) as \<and> hd as = est_value e \<and> last as = buy_amount
      | _ \<Rightarrow> True)
    \<and> (case estimate_sell_amount stable_pool_get_amount_in buy_amount path stable_pools of
        Ok e \<Rightarrow> \<exists>as. chain stable_pool_get_amount_out path (est_path e) as \<and> hd as = est_value e \<and> last as = buy_amount
      | _ \<Rightarrow> True)
    \<and> (case estimate_sell_amount uniswap_get_amount_in buy_amount path uniswap_pools of
        Ok e \<Rightarrow> \<exists>as. chain uniswap_get_amount_out path (est_path e) as \<and> hd as = est_value e \<and> last as = buy_amount
      | _ \<Rightarrow> True)"
proof -
  have "uniswap.liquidity_ok uniswap_pools"
    using assms by (simp add: uniswap.liquidity_ok_def)
  moreover have "weighted.liquidity_ok weighted_pools" "stable.liquidity_ok stable_pools"
    by (simp_all add: weighted.liquidity_ok_def stable.liquidity_ok_def list_all_iff)
  ultimately show ?thesis
    by (simp split: outcome.split add: weighted.estimate_sell_amount_sufficient stable.estimate_sell_amount_sufficient
        uniswap.estimate_sell_amount_sufficient)
qed

text \<open>One Uniswap pool with reserves 1000 and 2000: 101 of the first token are needed for 182 of the second.\<close>

definition example_pools :: "token_pair \<Rightarrow> pool list option" where
  "example_pools pair = (if pair = TokenPair 1 2 then Some [pool_uniswap 9 (TokenPair 1 2) (1000, 2000)] else None)"

theorem sell_estimates_buy_the_amount_witness:
  "\<exists>as. chain uniswap_get_amount_out [1, 2] [pool_uniswap 9 (TokenPair 1 2) (1000, 2000)] as \<and> hd as = 101 \<and> last as = 182"
proof -
  have "estimate_sell_amount uniswap_get_amount_in 182 [1, 2] example_pools
      = Ok \<lparr> est_value = 101, est_path = [pool_uniswap 9 (TokenPair 1 2) (1000, 2000)] \<rparr>"
    by (simp add: estimate_sell_amount_def sell_step_def hop_candidates_def token_pair_new_def example_pools_def
        uniswap_get_amount_in_def pool_get_amount_in_def get_relative_reserves_def pool_amount_in_def pool_uniswap_def
        check_final_reserves_def POOL_MAX_RESERVES_def checked_mul_def checked_sub_def checked_div_def checked_add_def ok_def
        cong: obind_eval_cong if_weak_cong)
  moreover have "list_all (\<lambda>p. pool_invar p \<and> token_pair_wf (p_tokens p)) pools"
    if "example_pools pair = Some pools" for pair pools
    using that by (auto simp: example_pools_def pool_invar_def token_pair_wf_def pool_uniswap_def split: if_splits)
  ultimately show ?thesis
    using sell_estimates_buy_the_amount [where uniswap_pools = example_pools and buy_amount = 182 and path = "[1, 2]"]
    by simp
qed

end
